(* ===== verification/PT_Prelude.thy ===== *)
theory PT_Prelude
  imports Main
begin

text \<open>
  The prelude of the development: the exceptions of the program as one error type, the
  state-and-exception actions in which every stateful operation is written, and the generic
  facts on actions, tables and folds that the component theories share.

  A Python method that mutates state and may raise is an action
  \<open>'s \<Rightarrow> (py_error + 'a) \<times> 's\<close>: the state is returned in the error case too, because an
  exception of the program leaves the rows it has already written in the open session; that they
  disappear is the job of \<open>session_scope\<close> (theory PT_Store). The texts of the exceptions are
  not modelled.
\<close>

section \<open>Exceptions\<close>

datatype py_error =
    InvalidOrderTransition
  | UnknownOrder
  | UnknownInstrument
  | KillSwitchNotTripped
  | UpstoxBrokerError
  | BacktestError
  | UnknownIndicatorKind
  | UnknownStrategy
  | AIAnalysisDisabled
  | AIBudgetExhausted
  | ConfigError
  | PyValueError
  | PyKeyError
  | PyRuntimeError
  | PyAssertionError
  | PyTypeError
  | PyAttributeError
  | PyIndexError
  | IntegrityError
  | DecimalInvalidOperation
  | UnknownSymbol
  | NoDataForSymbol
  | InvalidSweepGrid
  | MarketDataError
  | LLMProviderError
  | LLMOutputInvalid
  | NewsFetchError
  | UpstoxAuthError
  | TokenDecryptionFailed
  | PyZeroDivisionError
  | YAMLError
  | MissingAccessToken
  | PyOSError
  | HTTPException int
  | TyperExit int

section \<open>Actions\<close>

type_synonym ('s, 'a) act = "'s \<Rightarrow> (py_error + 'a) \<times> 's"

definition ret :: "'a \<Rightarrow> ('s, 'a) act" where
  "ret x = (\<lambda>s. (Inr x, s))"

definition raise :: "py_error \<Rightarrow> ('s, 'a) act" where
  "raise e = (\<lambda>s. (Inl e, s))"

definition bindA :: "('s, 'a) act \<Rightarrow> ('a \<Rightarrow> ('s, 'b) act) \<Rightarrow> ('s, 'b) act" where
  "bindA m f = (\<lambda>s. case m s of (Inl e, t) \<Rightarrow> (Inl e, t) | (Inr x, t) \<Rightarrow> f x t)"

definition getA :: "('s \<Rightarrow> 'a) \<Rightarrow> ('s, 'a) act" where
  "getA f = (\<lambda>s. (Inr (f s), s))"

definition modA :: "('s \<Rightarrow> 's) \<Rightarrow> ('s, unit) act" where
  "modA f = (\<lambda>s. (Inr (), f s))"

text \<open>A pure computation that may raise, inside an action.\<close>

definition liftE :: "py_error + 'a \<Rightarrow> ('s, 'a) act" where
  "liftE r = (\<lambda>s. (r, s))"

text \<open>\<open>try: m except e: h(e)\<close>; the handler decides by the exception.\<close>

definition catchA :: "('s, 'a) act \<Rightarrow> (py_error \<Rightarrow> ('s, 'a) act) \<Rightarrow> ('s, 'a) act" where
  "catchA m h = (\<lambda>s. case m s of (Inl e, t) \<Rightarrow> h e t | (Inr x, t) \<Rightarrow> (Inr x, t))"

definition seqA :: "('s, 'a) act \<Rightarrow> ('s, 'b) act \<Rightarrow> ('s, 'b) act" where
  "seqA m n = bindA m (\<lambda>_. n)"

text \<open>A check that raises when it fails: a database constraint, or a guard of the code.\<close>

definition guardA :: "('s \<Rightarrow> bool) \<Rightarrow> py_error \<Rightarrow> ('s, unit) act" where
  "guardA P e = (\<lambda>s. if P s then (Inr (), s) else (Inl e, s))"

text \<open>A \<open>for\<close> loop over a list, collecting what each turn returns.\<close>

primrec forA :: "'x list \<Rightarrow> ('x \<Rightarrow> ('s, 'a) act) \<Rightarrow> ('s, 'a list) act" where
  "forA [] f = ret []"
| "forA (x # xs) f = bindA (f x) (\<lambda>y. bindA (forA xs f) (\<lambda>ys. ret (y # ys)))"

lemmas act_defs = guardA_def ret_def raise_def bindA_def getA_def modA_def liftE_def catchA_def seqA_def

text \<open>The pure counterpart of \<^const>\<open>bindA\<close>: computations on \<open>py_error + 'a\<close>.\<close>

definition bindE :: "py_error + 'a \<Rightarrow> ('a \<Rightarrow> py_error + 'b) \<Rightarrow> py_error + 'b" where
  "bindE m f = (case m of Inl e \<Rightarrow> Inl e | Inr x \<Rightarrow> f x)"

lemma bindE_simps [simp]:
  "bindE (Inl e) f = Inl e"
  "bindE (Inr x) f = f x"
  by (simp_all add: bindE_def)

lemma bindE_Inr_conv: "bindE m f = Inr y \<longleftrightarrow> (\<exists>x. m = Inr x \<and> f x = Inr y)"
  by (cases m) auto

lemma bindE_InrE: "bindE m f = Inr y \<Longrightarrow> (\<And>x. m = Inr x \<Longrightarrow> f x = Inr y \<Longrightarrow> P) \<Longrightarrow> P"
  by (cases m) auto

primrec forE :: "'x list \<Rightarrow> ('x \<Rightarrow> py_error + 'a) \<Rightarrow> py_error + 'a list" where
  "forE [] f = Inr []"
| "forE (x # xs) f = bindE (f x) (\<lambda>y. bindE (forE xs f) (\<lambda>ys. Inr (y # ys)))"

text \<open>An action on a part of the state, the part being read by \<open>get\<close> and replaced by \<open>put\<close>.\<close>

definition on_part :: "('s \<Rightarrow> 'p) \<Rightarrow> ('p \<Rightarrow> 's \<Rightarrow> 's) \<Rightarrow> ('p, 'a) act \<Rightarrow> ('s, 'a) act" where
  "on_part get put m = (\<lambda>s. case m (get s) of (r, t) \<Rightarrow> (r, put t s))"

section \<open>What an action keeps\<close>

text \<open>\<open>keeps P m\<close>: the action keeps \<open>P\<close>, whether it returns or raises.\<close>

definition keeps :: "('s \<Rightarrow> bool) \<Rightarrow> ('s, 'a) act \<Rightarrow> bool" where
  "keeps P m \<longleftrightarrow> (\<forall>s. P s \<longrightarrow> P (snd (m s)))"

named_theorems keeps_intros "how each action keeps an invariant"

lemma keepsI: "(\<And>s. P s \<Longrightarrow> P (snd (m s))) \<Longrightarrow> keeps P m"
  by (simp add: keeps_def)

lemma keepsD: "keeps P m \<Longrightarrow> P s \<Longrightarrow> P (snd (m s))"
  by (simp add: keeps_def)

lemma keepsE: "keeps P m \<Longrightarrow> P s \<Longrightarrow> m s = (r, t) \<Longrightarrow> P t"
  by (metis keepsD snd_conv)

lemma keeps_ret [keeps_intros]: "keeps P (ret x)"
  by (simp add: keeps_def ret_def)

lemma keeps_raise [keeps_intros]: "keeps P (raise e)"
  by (simp add: keeps_def raise_def)

lemma keeps_getA [keeps_intros]: "keeps P (getA f)"
  by (simp add: keeps_def getA_def)

lemma keeps_liftE [keeps_intros]: "keeps P (liftE r)"
  by (simp add: keeps_def liftE_def)

lemma keeps_guardA [keeps_intros]: "keeps P (guardA Q e)"
  by (simp add: keeps_def guardA_def)

lemma keeps_guarded:
  assumes "\<And>s. P s \<Longrightarrow> Q s \<Longrightarrow> P (snd (m s))"
  shows "keeps P (seqA (guardA Q e) m)"
  using assms by (auto simp: keeps_def seqA_def bindA_def guardA_def)

lemma keeps_modA: "(\<And>s. P s \<Longrightarrow> P (f s)) \<Longrightarrow> keeps P (modA f)"
  by (simp add: keeps_def modA_def)

lemma keeps_bindA [keeps_intros]:
  assumes "keeps P m" and "\<And>x. keeps P (f x)"
  shows "keeps P (bindA m f)"
proof (rule keepsI)
  fix s assume "P s"
  with assms(1) have "P (snd (m s))" by (rule keepsD)
  then show "P (snd (bindA m f s))"
    using assms(2) by (auto simp: bindA_def keeps_def split: prod.split sum.split)
qed

lemma keeps_seqA [keeps_intros]: "keeps P m \<Longrightarrow> keeps P n \<Longrightarrow> keeps P (seqA m n)"
  by (auto simp: seqA_def intro: keeps_bindA)

lemma keeps_catchA [keeps_intros]:
  assumes "keeps P m" and "\<And>e. keeps P (h e)"
  shows "keeps P (catchA m h)"
proof (rule keepsI)
  fix s assume "P s"
  with assms(1) have "P (snd (m s))" by (rule keepsD)
  then show "P (snd (catchA m h s))"
    using assms(2) by (auto simp: catchA_def keeps_def split: prod.split sum.split)
qed

lemma keeps_forA [keeps_intros]: "(\<And>x. keeps P (f x)) \<Longrightarrow> keeps P (forA xs f)"
  by (induction xs) (auto intro!: keeps_intros)

lemma keeps_if [keeps_intros]: "(b \<Longrightarrow> keeps P m) \<Longrightarrow> (\<not> b \<Longrightarrow> keeps P n) \<Longrightarrow> keeps P (if b then m else n)"
  by simp

lemma keeps_case_option [keeps_intros]:
  "(x = None \<Longrightarrow> keeps P m) \<Longrightarrow> (\<And>y. x = Some y \<Longrightarrow> keeps P (f y)) \<Longrightarrow>
   keeps P (case x of None \<Rightarrow> m | Some y \<Rightarrow> f y)"
  by (cases x) auto

lemma keeps_case_sum [keeps_intros]:
  "(\<And>a. x = Inl a \<Longrightarrow> keeps P (f a)) \<Longrightarrow> (\<And>b. x = Inr b \<Longrightarrow> keeps P (g b)) \<Longrightarrow>
   keeps P (case x of Inl a \<Rightarrow> f a | Inr b \<Rightarrow> g b)"
  by (cases x) auto

lemma keeps_case_prod [keeps_intros]:
  "(\<And>a b. x = (a, b) \<Longrightarrow> keeps P (f a b)) \<Longrightarrow> keeps P (case x of (a, b) \<Rightarrow> f a b)"
  by (cases x) auto

lemma keeps_on_part:
  "keeps P m \<Longrightarrow> (\<And>t s. get (put t s) = t) \<Longrightarrow> keeps (\<lambda>s. P (get s)) (on_part get put m)"
  by (auto simp: keeps_def on_part_def split: prod.split)

lemma keeps_conj: "keeps P m \<Longrightarrow> keeps Q m \<Longrightarrow> keeps (\<lambda>s. P s \<and> Q s) m"
  by (simp add: keeps_def)

text \<open>\<open>frames f m\<close>: the action never changes the part \<open>f\<close> of the state.\<close>

abbreviation frames :: "('s \<Rightarrow> 'b) \<Rightarrow> ('s, 'a) act \<Rightarrow> bool" where
  "frames f m \<equiv> \<forall>v. keeps (\<lambda>s. f s = v) m"

lemma framesD: "frames f m \<Longrightarrow> f (snd (m s)) = f s"
  by (auto simp: keeps_def)

section \<open>What an action establishes\<close>

text \<open>
  \<open>valid P m Q E\<close>: started where \<open>P\<close> holds, the action ends with \<open>Q\<close> of its value and the
  state when it returns, and with \<open>E\<close> of the state when it raises.
\<close>

definition valid :: "('s \<Rightarrow> bool) \<Rightarrow> ('s, 'a) act \<Rightarrow> ('a \<Rightarrow> 's \<Rightarrow> bool) \<Rightarrow> ('s \<Rightarrow> bool) \<Rightarrow> bool" where
  "valid P m Q E \<longleftrightarrow> (\<forall>s. P s \<longrightarrow> (case m s of (Inl e, t) \<Rightarrow> E t | (Inr x, t) \<Rightarrow> Q x t))"

lemma validI: "(\<And>s. P s \<Longrightarrow> case m s of (Inl e, t) \<Rightarrow> E t | (Inr x, t) \<Rightarrow> Q x t) \<Longrightarrow> valid P m Q E"
  by (simp add: valid_def)

lemma valid_InrD: "valid P m Q E \<Longrightarrow> P s \<Longrightarrow> m s = (Inr x, t) \<Longrightarrow> Q x t"
  by (fastforce simp: valid_def)

lemma valid_InlD: "valid P m Q E \<Longrightarrow> P s \<Longrightarrow> m s = (Inl e, t) \<Longrightarrow> E t"
  by (fastforce simp: valid_def)

lemma valid_keeps: "keeps P m \<Longrightarrow> valid P m (\<lambda>_. P) P"
  by (auto simp: valid_def dest: keepsE split: prod.split sum.split)

lemma keeps_valid: "valid P m (\<lambda>_. P) P \<Longrightarrow> keeps P m"
  unfolding keeps_def valid_def by (metis (mono_tags, lifting) old.prod.case old.sum.exhaust old.sum.simps(5,6) prod.collapse)

lemma valid_bindA:
  assumes "valid P m Q E" and "\<And>x. valid (Q x) (f x) R E"
  shows "valid P (bindA m f) R E"
  using assms unfolding valid_def bindA_def by (fastforce split: prod.splits sum.splits)

lemma valid_seqA: "valid P m (\<lambda>_. Q) E \<Longrightarrow> valid Q n R E \<Longrightarrow> valid P (seqA m n) R E"
  unfolding seqA_def by (rule valid_bindA)

lemma valid_conseq:
  assumes "valid P m Q E" and "\<And>s. P' s \<Longrightarrow> P s" and "\<And>x s. Q x s \<Longrightarrow> Q' x s" and "\<And>s. E s \<Longrightarrow> E' s"
  shows "valid P' m Q' E'"
  using assms unfolding valid_def by (fastforce split: prod.splits sum.splits)

lemma valid_ret: "valid (Q x) (ret x) Q E"
  by (simp add: valid_def ret_def)

lemma valid_raise: "valid E (raise e) Q E"
  by (simp add: valid_def raise_def)

lemma valid_getA: "valid P (getA f) (\<lambda>x s. P s \<and> x = f s) E"
  by (simp add: valid_def getA_def)

lemma valid_option:
  "(x = None \<Longrightarrow> valid P m Q E) \<Longrightarrow> (\<And>y. x = Some y \<Longrightarrow> valid P (f y) Q E) \<Longrightarrow>
   valid P (case x of None \<Rightarrow> m | Some y \<Rightarrow> f y) Q E"
  by (cases x) simp_all

lemma valid_if: "(b \<Longrightarrow> valid P m Q E) \<Longrightarrow> (\<not> b \<Longrightarrow> valid P n Q E) \<Longrightarrow> valid P (if b then m else n) Q E"
  by simp

lemma valid_on_part:
  "valid P m Q E \<Longrightarrow> (\<And>t s. get (put t s) = t) \<Longrightarrow>
   valid (\<lambda>s. P (get s)) (on_part get put m) (\<lambda>x s. Q x (get s)) (\<lambda>s. E (get s))"
  unfolding valid_def on_part_def by (fastforce split: prod.splits sum.splits)

lemma valid_forA:
  assumes "\<And>x. x \<in> set xs \<Longrightarrow> valid P (f x) (\<lambda>_. P) P"
  shows "valid P (forA xs f) (\<lambda>_. P) P"
  using assms
proof (induction xs)
  case (Cons x xs)
  then show ?case by (auto intro!: valid_bindA [where Q = "\<lambda>_. P"] valid_ret [where Q = "\<lambda>_. P"])
qed (simp add: valid_def ret_def)

text \<open>A loop whose invariant speaks of what is still to be done.\<close>

lemma valid_forA_suffix:
  assumes "\<And>x xs. valid (I (x # xs)) (f x) (\<lambda>_. I xs) E"
  shows "valid (I xs) (forA xs f) (\<lambda>_. I []) E"
proof (induction xs)
  case Nil
  then show ?case by (simp add: valid_def ret_def)
next
  case (Cons x xs)
  have "valid (I []) (ret (y # ys)) (\<lambda>_. I []) E" for y and ys by (simp add: valid_def ret_def)
  then show ?case unfolding forA.simps by (intro valid_bindA [OF assms] valid_bindA [OF Cons.IH])
qed

section \<open>Running actions\<close>

named_theorems run_simps "the result of running an action"

lemma run_ret [run_simps]: "ret x s = (Inr x, s)"
  by (simp add: ret_def)

lemma run_raise [run_simps]: "raise e s = (Inl e, s)"
  by (simp add: raise_def)

lemma run_getA [run_simps]: "getA f s = (Inr (f s), s)"
  by (simp add: getA_def)

lemma run_modA [run_simps]: "modA f s = (Inr (), f s)"
  by (simp add: modA_def)

lemma run_liftE [run_simps]: "liftE r s = (r, s)"
  by (simp add: liftE_def)

lemma run_guardA [run_simps]: "guardA P e s = (if P s then (Inr (), s) else (Inl e, s))"
  by (simp add: guardA_def)

lemma run_on_part [run_simps]: "on_part get put m s = (case m (get s) of (r, t) \<Rightarrow> (r, put t s))"
  by (simp add: on_part_def)

lemma run_bindA_Inr: "m s = (Inr x, t) \<Longrightarrow> bindA m f s = f x t"
  by (simp add: bindA_def)

lemma run_bindA_Inl: "m s = (Inl e, t) \<Longrightarrow> bindA m f s = (Inl e, t)"
  by (simp add: bindA_def)

lemma run_bindA [run_simps]:
  "bindA m f s = (case m s of (Inl e, t) \<Rightarrow> (Inl e, t) | (Inr x, t) \<Rightarrow> f x t)"
  by (simp add: bindA_def)

lemma run_seqA [run_simps]: "seqA m n s = (case m s of (Inl e, t) \<Rightarrow> (Inl e, t) | (Inr x, t) \<Rightarrow> n t)"
  by (simp add: seqA_def bindA_def)

lemma run_seqA_modA: "seqA (modA f) m s = m (f s)"
  by (simp add: seqA_def bindA_def modA_def)

lemma bindA_InrE:
  assumes "bindA m f s = (Inr y, u)"
  obtains x t where "m s = (Inr x, t)" and "f x t = (Inr y, u)"
  using assms by (auto simp: bindA_def split: prod.splits sum.splits)

text \<open>What every turn of a loop returns, and a pure loop that cannot raise.\<close>

lemma forA_results:
  assumes "\<And>x s r t. f x s = (Inr r, t) \<Longrightarrow> P x r"
  shows "forA xs f s = (Inr rs, t) \<Longrightarrow> list_all2 P xs rs"
proof (induction xs arbitrary: s rs)
  case (Cons x xs)
  then obtain r s1 rs1 where "f x s = (Inr r, s1)" "forA xs f s1 = (Inr rs1, t)" "rs = r # rs1"
    by (auto simp: ret_def elim!: bindA_InrE)
  then show ?case using Cons(1) assms by auto
qed (simp add: ret_def)

lemma forE_ok: "(\<And>x. x \<in> set xs \<Longrightarrow> \<exists>y. f x = Inr y \<and> P x y) \<Longrightarrow> \<exists>ys. forE xs f = Inr ys \<and> list_all2 P xs ys"
proof (induction xs)
  case (Cons x xs)
  obtain y where y: "f x = Inr y" "P x y" using Cons.prems [of x] by auto
  obtain ys where "forE xs f = Inr ys" "list_all2 P xs ys" using Cons.IH Cons.prems by auto
  with y show ?case by simp
qed simp

section \<open>Tables\<close>

text \<open>
  A table of the database is the list of its rows in the order of insertion. SQLite gives a new
  row the id after the greatest one (no table of the program ever deletes a row), so
  \<open>next_id\<close> of the ids in use is the id of the next insertion.
\<close>

definition next_id :: "nat list \<Rightarrow> nat" where
  "next_id ids = Suc (fold max ids 0)"

lemma fold_max_le: "x \<in> set xs \<Longrightarrow> x \<le> fold max xs (y::nat)"
  by (metis List.finite_set Max.set_eq_fold Max_ge insert_iff list.simps(15))

lemma next_id_fresh: "next_id ids \<notin> set ids"
  using fold_max_le [of "next_id ids" ids 0] by (auto simp: next_id_def)

text \<open>\<open>session.get\<close>: the row whose key is \<open>k\<close>; and an update of that row in place.\<close>

definition tbl_get :: "('r \<Rightarrow> 'k) \<Rightarrow> 'k \<Rightarrow> 'r list \<Rightarrow> 'r option" where
  "tbl_get key k rows = find (\<lambda>r. key r = k) rows"

definition tbl_upd :: "('r \<Rightarrow> 'k) \<Rightarrow> 'k \<Rightarrow> ('r \<Rightarrow> 'r) \<Rightarrow> 'r list \<Rightarrow> 'r list" where
  "tbl_upd key k f rows = map (\<lambda>r. if key r = k then f r else r) rows"

lemma find_eq_None: "find P xs = None \<longleftrightarrow> (\<forall>x \<in> set xs. \<not> P x)"
  by (auto simp: find_None_iff)

lemma find_SomeD: "find P xs = Some x \<Longrightarrow> x \<in> set xs \<and> P x"
  by (metis find_Some_iff nth_mem)

lemma tbl_get_Some: "tbl_get key k rows = Some r \<Longrightarrow> r \<in> set rows \<and> key r = k"
  unfolding tbl_get_def by (rule find_SomeD)

lemma tbl_get_None: "tbl_get key k rows = None \<longleftrightarrow> k \<notin> key ` set rows"
  by (auto simp: tbl_get_def find_eq_None)

lemma tbl_get_distinct:
  "distinct (map key rows) \<Longrightarrow> r \<in> set rows \<Longrightarrow> tbl_get key (key r) rows = Some r"
  by (induction rows) (auto simp: tbl_get_def image_iff)

lemma tbl_get_append:
  "tbl_get key k (xs @ ys) = (case tbl_get key k xs of None \<Rightarrow> tbl_get key k ys | Some r \<Rightarrow> Some r)"
  by (induction xs) (auto simp: tbl_get_def)

lemma tbl_get_upd:
  assumes "\<And>r. key (f r) = key r"
  shows "tbl_get key j (tbl_upd key k f rows) =
         (if j = k then map_option f (tbl_get key k rows) else tbl_get key j rows)"
  using assms by (induction rows) (auto simp: tbl_get_def tbl_upd_def)

lemma map_key_tbl_upd:
  assumes "\<And>r. key (f r) = key r"
  shows "map key (tbl_upd key k f rows) = map key rows"
  using assms by (induction rows) (auto simp: tbl_upd_def)

lemma map_tbl_upd_frame:
  assumes "\<And>r. g (f r) = g r"
  shows "map g (tbl_upd key k f rows) = map g rows"
  using assms by (induction rows) (auto simp: tbl_upd_def)

lemma tbl_upd_Nil [simp]: "tbl_upd key k f [] = []"
  by (simp add: tbl_upd_def)

lemma tbl_upd_append [simp]: "tbl_upd key k f (xs @ ys) = tbl_upd key k f xs @ tbl_upd key k f ys"
  by (simp add: tbl_upd_def)

lemma tbl_upd_absent: "k \<notin> key ` set rows \<Longrightarrow> tbl_upd key k f rows = rows"
  by (induction rows) (auto simp: tbl_upd_def)

lemma tbl_upd_member:
  "r \<in> set (tbl_upd key k f rows) \<longleftrightarrow> (\<exists>q \<in> set rows. r = (if key q = k then f q else q))"
  unfolding tbl_upd_def by (simp only: set_map image_iff)

lemma length_tbl_upd [simp]: "length (tbl_upd key k f rows) = length rows"
  by (simp add: tbl_upd_def)

section \<open>Sorting by a key\<close>

text \<open>Python's \<open>sorted\<close> and SQL's \<open>ORDER BY\<close> on one key: the library's stable sort.\<close>

lemma sorted_map_sort_key: "sorted (map f (sort_key f xs))"
  by simp

lemma sort_key_id: "sorted (map f xs) \<Longrightarrow> sort_key f xs = xs"
  by (rule sort_key_id_if_sorted)

end
