(* ===== verification/PT_Enums.thy ===== *)
theory PT_Enums
  imports PT_Prelude
begin

text \<open>
  The domain enums of \<open>core/enums.py\<close> and the order state machine: the table
  \<open>ALLOWED_ORDER_TRANSITIONS\<close>, the terminal states derived from it, the step relation it
  induces, and the shape of an audit trail (a list of transitions that starts with the birth
  event and follows the table).
\<close>

section \<open>Enums\<close>

datatype trading_mode = PAPER | LIVE | BACKTEST

datatype order_side = BUY | SELL

datatype order_type = MARKET | LIMIT | SL

datatype order_state =
    PENDING_RISK | REJECTED_RISK | SUBMITTING | SUBMITTED | FAILED | REJECTED_BROKER
  | OPEN | PARTIALLY_FILLED | FILLED | CANCELLED | EXPIRED

datatype segment = DELIVERY | INTRADAY

datatype interval = M1 | M15 | D1

datatype signal_direction = LONG | SHORT | EXIT

datatype signal_status = SignalNew | SignalApproved | SignalRejected | SignalExpired

datatype recommendation_action = RecBuy | RecSell | RecHold | RecAvoid

datatype risk_event_kind = LimitBreach | KillSwitchTrip | KillSwitchReset | RiskRejection

section \<open>The transition table\<close>

definition all_order_states :: "order_state list" where
  "all_order_states = [PENDING_RISK, REJECTED_RISK, SUBMITTING, SUBMITTED, FAILED,
     REJECTED_BROKER, OPEN, PARTIALLY_FILLED, FILLED, CANCELLED, EXPIRED]"

fun allowed_transitions :: "order_state \<Rightarrow> order_state list" where
  "allowed_transitions PENDING_RISK = [REJECTED_RISK, SUBMITTING]"
| "allowed_transitions SUBMITTING = [SUBMITTED, FAILED]"
| "allowed_transitions SUBMITTED = [OPEN, REJECTED_BROKER, FAILED]"
| "allowed_transitions OPEN = [PARTIALLY_FILLED, FILLED, CANCELLED, EXPIRED]"
| "allowed_transitions PARTIALLY_FILLED = [PARTIALLY_FILLED, FILLED, CANCELLED, EXPIRED]"
| "allowed_transitions REJECTED_RISK = []"
| "allowed_transitions FAILED = []"
| "allowed_transitions REJECTED_BROKER = []"
| "allowed_transitions FILLED = []"
| "allowed_transitions CANCELLED = []"
| "allowed_transitions EXPIRED = []"

definition terminal_states :: "order_state list" where
  "terminal_states = filter (\<lambda>s. allowed_transitions s = []) all_order_states"

definition is_terminal :: "order_state \<Rightarrow> bool" where
  "is_terminal s \<longleftrightarrow> s \<in> set terminal_states"

lemma in_all_order_states [simp]: "s \<in> set all_order_states"
  by (cases s) (simp_all add: all_order_states_def)

lemma is_terminal_iff: "is_terminal s \<longleftrightarrow> allowed_transitions s = []"
  by (simp add: is_terminal_def terminal_states_def)

lemma is_terminal_simps [simp]:
  "\<not> is_terminal PENDING_RISK" "\<not> is_terminal SUBMITTING" "\<not> is_terminal SUBMITTED"
  "\<not> is_terminal OPEN" "\<not> is_terminal PARTIALLY_FILLED"
  "is_terminal REJECTED_RISK" "is_terminal FAILED" "is_terminal REJECTED_BROKER"
  "is_terminal FILLED" "is_terminal CANCELLED" "is_terminal EXPIRED"
  by (simp_all add: is_terminal_iff)

section \<open>The step relation\<close>

inductive order_step :: "order_state \<Rightarrow> order_state \<Rightarrow> bool" where
  "t \<in> set (allowed_transitions s) \<Longrightarrow> order_step s t"

inductive_simps order_step_iff: "order_step s t"

inductive_cases order_step_from_open: "order_step OPEN t"

text \<open>
  How far an order is in its life. Every step but the repetition of a partial fill moves on, so
  an order is in no state twice.
\<close>

fun life_rank :: "order_state \<Rightarrow> nat" where
  "life_rank PENDING_RISK = 0"
| "life_rank SUBMITTING = 1"
| "life_rank SUBMITTED = 2"
| "life_rank OPEN = 3"
| "life_rank PARTIALLY_FILLED = 4"
| "life_rank _ = 5"

lemma order_step_rank: "order_step s t \<Longrightarrow> life_rank s < life_rank t \<or> s = PARTIALLY_FILLED \<and> t = s"
  by (cases s) (auto simp: order_step_iff)

lemma order_steps_rank: "order_step\<^sup>*\<^sup>* s t \<Longrightarrow> life_rank s \<le> life_rank t"
  by (induction rule: rtranclp_induct) (auto dest: order_step_rank)

lemma terminal_no_step: "is_terminal s \<Longrightarrow> \<not> order_step s t"
  by (simp add: order_step_iff is_terminal_iff)

lemma terminal_stays: "order_step\<^sup>*\<^sup>* s t \<Longrightarrow> is_terminal s \<Longrightarrow> t = s"
  by (metis converse_rtranclpE terminal_no_step)

text \<open>Every live order can still come to an end.\<close>

lemma can_finish: "\<exists>t. is_terminal t \<and> order_step\<^sup>*\<^sup>* s t"
proof -
  have *: "order_step\<^sup>*\<^sup>* PARTIALLY_FILLED FILLED" "order_step\<^sup>*\<^sup>* OPEN FILLED"
    "order_step\<^sup>*\<^sup>* SUBMITTED FAILED" "order_step\<^sup>*\<^sup>* SUBMITTING FAILED"
    "order_step\<^sup>*\<^sup>* PENDING_RISK REJECTED_RISK"
    by (rule r_into_rtranclp, simp add: order_step_iff)+
  show ?thesis
  proof (cases "is_terminal s")
    case True
    then show ?thesis by blast
  next
    case False
    with * show ?thesis by (cases s) (auto intro: is_terminal_simps)
  qed
qed

section \<open>Audit trails\<close>

text \<open>A birth event (no previous state) creates \<open>PENDING_RISK\<close>; every other one is a step.\<close>

fun legal_event :: "order_state option \<Rightarrow> order_state \<Rightarrow> bool" where
  "legal_event None t = (t = PENDING_RISK)"
| "legal_event (Some s) t = (t \<in> set (allowed_transitions s))"

fun chain :: "order_state option \<Rightarrow> (order_state option \<times> order_state) list \<Rightarrow> order_state option \<Rightarrow> bool" where
  "chain s [] u = (s = u)"
| "chain s ((f, t) # es) u = (f = s \<and> legal_event f t \<and> chain (Some t) es u)"

definition trail_ok :: "(order_state option \<times> order_state) list \<Rightarrow> order_state \<Rightarrow> bool" where
  "trail_ok es s \<longleftrightarrow> chain None es (Some s)"

lemma chain_append: "chain s (es @ fs) u \<longleftrightarrow> (\<exists>t. chain s es t \<and> chain t fs u)"
  by (induction s es u rule: chain.induct) auto

lemma chain_snoc: "chain s (es @ [(f, t)]) (Some u) \<longleftrightarrow> chain s es f \<and> legal_event f t \<and> u = t"
  by (auto simp: chain_append)

lemma trail_ok_birth: "trail_ok [(None, PENDING_RISK)] PENDING_RISK"
  by (simp add: trail_ok_def)

lemma trail_ok_snoc:
  "trail_ok es s \<Longrightarrow> t \<in> set (allowed_transitions s) \<Longrightarrow> trail_ok (es @ [(Some s, t)]) t"
  by (simp add: trail_ok_def chain_snoc)

lemma chain_reaches: "chain (Some s) es (Some t) \<Longrightarrow> order_step\<^sup>*\<^sup>* s t"
proof (induction es arbitrary: s)
  case (Cons e es)
  obtain f u where e: "e = (f, u)" by fastforce
  with Cons.prems have "order_step s u" "chain (Some u) es (Some t)" by (auto simp: order_step_iff)
  with Cons.IH show ?case by (meson converse_rtranclp_into_rtranclp)
qed simp

lemma trail_ok_reaches: "trail_ok es s \<Longrightarrow> order_step\<^sup>*\<^sup>* PENDING_RISK s"
proof (cases es)
  case (Cons e fs)
  assume "trail_ok es s"
  with Cons show ?thesis by (cases e) (auto simp: trail_ok_def intro: chain_reaches)
qed (simp add: trail_ok_def)

text \<open>A trail that ends in a fill, a cancellation or an expiry went through \<open>OPEN\<close>.\<close>

fun before_open :: "order_state option \<Rightarrow> bool" where
  "before_open None = True"
| "before_open (Some s) = (s \<notin> {OPEN, PARTIALLY_FILLED, FILLED, CANCELLED, EXPIRED})"

lemma legal_event_before_open: "legal_event f t \<Longrightarrow> before_open f \<Longrightarrow> t = OPEN \<or> before_open (Some t)"
  by (cases f; cases "the f") auto

lemma chain_opens: "chain s es u \<Longrightarrow> before_open s \<Longrightarrow> \<not> before_open u \<Longrightarrow> OPEN \<in> snd ` set es"
proof (induction s es u rule: chain.induct)
  case (2 s f t es u)
  then show ?case using legal_event_before_open [of f t] by auto
qed auto

lemma trail_ok_opens: "trail_ok es t \<Longrightarrow> \<not> before_open (Some t) \<Longrightarrow> OPEN \<in> snd ` set es"
  unfolding trail_ok_def by (rule chain_opens) auto

text \<open>Once a trail is in a terminal state nothing is appended to it.\<close>

lemma trail_terminal_last:
  assumes "chain s (es @ (f, t) # fs) (Some u)" and "is_terminal t"
  shows "fs = []"
proof (cases fs)
  case (Cons e gs)
  obtain f' t' where "e = (f', t')" by fastforce
  with assms Cons show ?thesis by (auto simp: chain_append is_terminal_iff)
qed simp

end
