(* ===== verification/PT_Calendar.thy ===== *)
theory PT_Calendar
  imports PT_Prelude
begin

text \<open>
  The trading calendar of \<open>core/calendar.py\<close>. A date is its proleptic ordinal
  (\<open>date.toordinal()\<close>, ordinal 1 being a Monday), an instant the number of microseconds since
  the midnight (UTC) at which the day with ordinal 0 begins, and a time of day the microseconds
  since midnight. \<open>Asia/Kolkata\<close> is UTC+5:30 throughout (India has had no other offset since
  1945). The bounds \<open>date.min\<close> and \<open>date.max\<close> are not modelled.
\<close>

section \<open>Dates and instants\<close>

type_synonym py_date = int
type_synonym instant = int

definition us_per_day :: int where "us_per_day = 86400000000"

definition time_of :: "int \<Rightarrow> int \<Rightarrow> int" where
  "time_of h m = (h * 3600 + m * 60) * 1000000"

definition ist_offset :: int where "ist_offset = time_of 5 30"

definition weekday :: "py_date \<Rightarrow> int" where "weekday d = (d + 6) mod 7"

text \<open>\<open>ts.astimezone(IST)\<close>: the wall clock of IST, read as date and time of day.\<close>

definition to_ist :: "instant \<Rightarrow> instant" where "to_ist t = t + ist_offset"

definition from_ist :: "instant \<Rightarrow> instant" where "from_ist t = t - ist_offset"

definition date_part :: "instant \<Rightarrow> py_date" where "date_part t = t div us_per_day"

definition time_part :: "instant \<Rightarrow> int" where "time_part t = t mod us_per_day"

definition combine_dt :: "py_date \<Rightarrow> int \<Rightarrow> instant" where "combine_dt d tod = d * us_per_day + tod"

lemmas instant_defs = us_per_day_def time_of_def ist_offset_def to_ist_def from_ist_def
  date_part_def time_part_def combine_dt_def

lemma weekday_range [simp]: "0 \<le> weekday d" "weekday d < 7"
  by (simp_all add: weekday_def)

lemma combine_parts: "combine_dt (date_part t) (time_part t) = t"
  by (simp add: combine_dt_def date_part_def time_part_def)

lemma date_part_combine: "0 \<le> tod \<Longrightarrow> tod < us_per_day \<Longrightarrow> date_part (combine_dt d tod) = d"
  by (simp add: combine_dt_def date_part_def us_per_day_def)

lemma time_part_range: "0 \<le> time_part t" "time_part t < us_per_day"
  by (simp_all add: time_part_def us_per_day_def)

section \<open>The calendar\<close>

definition MARKET_OPEN :: int where "MARKET_OPEN = time_of 9 15"
definition MARKET_CLOSE :: int where "MARKET_CLOSE = time_of 15 30"

record nse_calendar = holidays :: "py_date list"

text \<open>
  \<open>NSECalendar.load\<close>: the parsed YAML file is the list of its years, each with its entries (or
  nothing); \<open>None\<close> stands for a file that is missing.
\<close>

datatype yaml_entry = YDate py_date | YOther

fun load_days :: "yaml_entry list \<Rightarrow> py_error + py_date list" where
  "load_days [] = Inr []"
| "load_days (YDate d # es) = bindE (load_days es) (\<lambda>ds. Inr (d # ds))"
| "load_days (YOther # es) = Inl ConfigError"

definition calendar_load :: "(int \<times> yaml_entry list option) list option \<Rightarrow> py_error + nse_calendar" where
  "calendar_load file = (case file of
     None \<Rightarrow> Inl ConfigError
   | Some years \<Rightarrow> bindE (load_days (concat (map (\<lambda>(_, days). case days of None \<Rightarrow> [] | Some es \<Rightarrow> es) years)))
       (\<lambda>ds. Inr \<lparr>holidays = ds\<rparr>))"

definition is_trading_day :: "nse_calendar \<Rightarrow> py_date \<Rightarrow> bool" where
  "is_trading_day cal d \<longleftrightarrow> weekday d < 5 \<and> d \<notin> set (holidays cal)"

function days_loop :: "nse_calendar \<Rightarrow> py_date \<Rightarrow> py_date \<Rightarrow> py_date list \<Rightarrow> py_date list" where
  "days_loop cal current end days =
     (if current \<le> end
      then days_loop cal (current + 1) end (if is_trading_day cal current then days @ [current] else days)
      else days)"
  by pat_completeness auto
termination by (relation "measure (\<lambda>(cal, current, end, days). nat (end + 1 - current))") auto

declare days_loop.simps [simp del]

definition trading_days_between :: "nse_calendar \<Rightarrow> py_date \<Rightarrow> py_date \<Rightarrow> py_date list" where
  "trading_days_between cal start end = (if end < start then [] else days_loop cal start end [])"

lemma days_loop_filter: "days_loop cal d e acc = acc @ filter (is_trading_day cal) [d..e]"
proof (induction cal d e acc rule: days_loop.induct)
  case (1 cal d e acc)
  then show ?case by (subst days_loop.simps) (auto simp: upto_rec1)
qed

lemma trading_days_between_filter:
  "trading_days_between cal d e = filter (is_trading_day cal) [d..e]"
  by (simp add: trading_days_between_def days_loop_filter)

section \<open>The neighbouring trading days\<close>

text \<open>
  Both searches end because there are finitely many holidays: each turn leaves either a holiday
  behind or, on a weekend, comes closer to the nearest weekday.
\<close>

lemma count_holidays_less:
  assumes "d \<in> set hs" and "\<And>x. Q x \<Longrightarrow> P x" and "P d" and "\<not> Q d"
  shows "length (filter Q hs) < length (filter P hs)"
  using assms(1)
proof (induction hs)
  case (Cons h hs)
  have "length (filter Q xs) \<le> length (filter P xs)" for xs
    using assms(2) by (induction xs) auto
  with Cons assms show ?case by (auto simp: less_Suc_eq_le)
qed simp

lemma count_holidays_le:
  assumes "\<And>x. Q x \<Longrightarrow> P x"
  shows "length (filter Q hs) \<le> length (filter P hs)"
  using assms by (induction hs) auto

lemma weekday_prev: "\<not> weekday d < 5 \<Longrightarrow> weekday (d - 1) < weekday d"
  unfolding weekday_def by presburger

text \<open>How many days a weekend day lies before Monday.\<close>

definition to_monday :: "py_date \<Rightarrow> nat" where "to_monday d = (if weekday d < 5 then 0 else nat (7 - weekday d))"

lemma to_monday_next: "\<not> weekday d < 5 \<Longrightarrow> to_monday (d + 1) < to_monday d"
proof -
  assume "\<not> weekday d < 5"
  then have "weekday d = 5 \<and> weekday (d + 1) = 6 \<or> weekday d = 6 \<and> weekday (d + 1) = 0"
    unfolding weekday_def by presburger
  then show ?thesis by (auto simp: to_monday_def)
qed

function seek_back :: "nse_calendar \<Rightarrow> py_date \<Rightarrow> py_date" where
  "seek_back cal current = (if is_trading_day cal current then current else seek_back cal (current - 1))"
  by pat_completeness auto
termination
proof (relation "measures [\<lambda>(cal, d). length (filter (\<lambda>h. h \<le> d) (holidays cal)), \<lambda>(cal, d). nat (weekday d)]")
  fix cal :: nse_calendar and d :: py_date
  assume "\<not> is_trading_day cal d"
  moreover have "length (filter (\<lambda>h. h \<le> d - 1) hs) \<le> length (filter (\<lambda>h. h \<le> d) hs)" for hs
    by (rule count_holidays_le) simp
  moreover have "d \<in> set hs \<Longrightarrow> length (filter (\<lambda>h. h \<le> d - 1) hs) < length (filter (\<lambda>h. h \<le> d) hs)" for hs
    by (rule count_holidays_less [of d]) simp_all
  ultimately show "((cal, d - 1), cal, d) \<in> measures
      [\<lambda>(cal, d). length (filter (\<lambda>h. h \<le> d) (holidays cal)), \<lambda>(cal, d). nat (weekday d)]"
    using weekday_prev [of d] by (auto simp: is_trading_day_def le_less)
qed simp

function seek_forward :: "nse_calendar \<Rightarrow> py_date \<Rightarrow> py_date" where
  "seek_forward cal current = (if is_trading_day cal current then current else seek_forward cal (current + 1))"
  by pat_completeness auto
termination
proof (relation "measures [\<lambda>(cal, d). length (filter (\<lambda>h. d \<le> h) (holidays cal)), \<lambda>(cal, d). to_monday d]")
  fix cal :: nse_calendar and d :: py_date
  assume "\<not> is_trading_day cal d"
  moreover have "length (filter (\<lambda>h. d + 1 \<le> h) hs) \<le> length (filter (\<lambda>h. d \<le> h) hs)" for hs
    by (rule count_holidays_le) simp
  moreover have "d \<in> set hs \<Longrightarrow> length (filter (\<lambda>h. d + 1 \<le> h) hs) < length (filter (\<lambda>h. d \<le> h) hs)" for hs
    by (rule count_holidays_less [of d]) simp_all
  ultimately show "((cal, d + 1), cal, d) \<in> measures
      [\<lambda>(cal, d). length (filter (\<lambda>h. d \<le> h) (holidays cal)), \<lambda>(cal, d). to_monday d]"
    using to_monday_next [of d] by (auto simp: is_trading_day_def le_less)
qed simp

declare seek_back.simps [simp del] seek_forward.simps [simp del]

definition previous_trading_day :: "nse_calendar \<Rightarrow> py_date \<Rightarrow> py_date" where
  "previous_trading_day cal d = seek_back cal (d - 1)"

definition next_trading_day :: "nse_calendar \<Rightarrow> py_date \<Rightarrow> py_date" where
  "next_trading_day cal d = seek_forward cal (d + 1)"

lemma seek_back_spec:
  "is_trading_day cal (seek_back cal d) \<and> seek_back cal d \<le> d \<and>
   (\<forall>x. seek_back cal d < x \<and> x \<le> d \<longrightarrow> \<not> is_trading_day cal x)"
proof (induction cal d rule: seek_back.induct)
  case (1 cal d)
  show ?case
  proof (cases "is_trading_day cal d")
    case False
    then have step: "seek_back cal d = seek_back cal (d - 1)" by (subst seek_back.simps) simp
    show ?thesis unfolding step using 1 [OF False] False by (metis le_less zle_diff1_eq)
  qed (auto simp: seek_back.simps [of cal d])
qed

lemma seek_forward_spec:
  "is_trading_day cal (seek_forward cal d) \<and> d \<le> seek_forward cal d \<and>
   (\<forall>x. d \<le> x \<and> x < seek_forward cal d \<longrightarrow> \<not> is_trading_day cal x)"
proof (induction cal d rule: seek_forward.induct)
  case (1 cal d)
  show ?case
  proof (cases "is_trading_day cal d")
    case False
    then have step: "seek_forward cal d = seek_forward cal (d + 1)" by (subst seek_forward.simps) simp
    show ?thesis unfolding step using 1 [OF False] False by (metis add1_zle_eq le_less)
  qed (auto simp: seek_forward.simps [of cal d])
qed

section \<open>Session hours and boundaries\<close>

definition is_open_at :: "nse_calendar \<Rightarrow> instant \<Rightarrow> bool" where
  "is_open_at cal ts = (let ist = to_ist ts in
     is_trading_day cal (date_part ist) \<and> MARKET_OPEN \<le> time_part ist \<and> time_part ist \<le> MARKET_CLOSE)"

definition ist_trading_date :: "instant \<Rightarrow> py_date" where
  "ist_trading_date ts = date_part (to_ist ts)"

definition ist_midnight_utc :: "instant \<Rightarrow> instant" where
  "ist_midnight_utc ts = from_ist (combine_dt (date_part (to_ist ts)) 0)"

definition ist_week_start_utc :: "instant \<Rightarrow> instant" where
  "ist_week_start_utc ts = (let today = date_part (to_ist ts); monday = today - weekday today in
     from_ist (combine_dt monday 0))"

definition UPSTOX_TOKEN_EXPIRY_TIME :: int where "UPSTOX_TOKEN_EXPIRY_TIME = time_of 3 30"

definition upstox_token_expiry_utc :: "instant \<Rightarrow> instant" where
  "upstox_token_expiry_utc obtained = (let ist = to_ist obtained;
       candidate = combine_dt (date_part ist) UPSTOX_TOKEN_EXPIRY_TIME in
     from_ist (if candidate \<le> ist then candidate + us_per_day else candidate))"

lemma midnight_bounds: "ist_midnight_utc t \<le> t" "t < ist_midnight_utc t + us_per_day"
proof -
  have "t + ist_offset = date_part (to_ist t) * us_per_day + time_part (to_ist t)"
    using combine_parts [of "to_ist t"] by (simp add: combine_dt_def to_ist_def)
  then show "ist_midnight_utc t \<le> t" "t < ist_midnight_utc t + us_per_day"
    using time_part_range [of "to_ist t"] by (simp_all add: ist_midnight_utc_def from_ist_def combine_dt_def)
qed

lemma div_us_per_day: "x div us_per_day = d \<longleftrightarrow> d * us_per_day \<le> x \<and> x < d * us_per_day + us_per_day"
proof -
  have pos: "0 < us_per_day" by (simp add: us_per_day_def)
  have x: "x = x div us_per_day * us_per_day + x mod us_per_day" by simp
  have r: "0 \<le> x mod us_per_day" "x mod us_per_day < us_per_day"
    using pos by simp_all
  show ?thesis
  proof
    assume "x div us_per_day = d"
    then have "x = d * us_per_day + x mod us_per_day" using x by simp
    with r show "d * us_per_day \<le> x \<and> x < d * us_per_day + us_per_day" by linarith
  next
    assume "d * us_per_day \<le> x \<and> x < d * us_per_day + us_per_day"
    then show "x div us_per_day = d"
      by (intro int_div_pos_eq [where r = "x - d * us_per_day"]) (auto simp: algebra_simps)
  qed
qed

lemma midnight_same_day:
  "ist_midnight_utc t \<le> u \<and> u < ist_midnight_utc t + us_per_day \<longleftrightarrow> ist_trading_date u = ist_trading_date t"
  unfolding ist_trading_date_def ist_midnight_utc_def from_ist_def to_ist_def combine_dt_def date_part_def
    div_us_per_day [of "u + ist_offset"]
  by auto

lemma midnight_mono: "t \<le> u \<Longrightarrow> ist_midnight_utc t \<le> ist_midnight_utc u"
  by (simp add: ist_midnight_utc_def from_ist_def combine_dt_def date_part_def to_ist_def us_per_day_def zdiv_mono1)

lemma token_expiry_bounds:
  "t < upstox_token_expiry_utc t" "upstox_token_expiry_utc t \<le> t + us_per_day"
  "time_part (to_ist (upstox_token_expiry_utc t)) = UPSTOX_TOKEN_EXPIRY_TIME"
proof -
  let ?d = "date_part (to_ist t)"
  have t: "to_ist t = ?d * us_per_day + time_part (to_ist t)"
    using combine_parts [of "to_ist t"] by (simp add: combine_dt_def)
  have e: "upstox_token_expiry_utc t = from_ist (combine_dt (if time_part (to_ist t) < UPSTOX_TOKEN_EXPIRY_TIME then ?d else ?d + 1) UPSTOX_TOKEN_EXPIRY_TIME)"
    using t by (auto simp: upstox_token_expiry_utc_def Let_def combine_dt_def algebra_simps)
  have r: "0 \<le> UPSTOX_TOKEN_EXPIRY_TIME" "UPSTOX_TOKEN_EXPIRY_TIME < us_per_day"
    by (simp_all add: UPSTOX_TOKEN_EXPIRY_TIME_def time_of_def us_per_day_def)
  from t have t': "t = from_ist (?d * us_per_day + time_part (to_ist t))"
    by (simp add: from_ist_def to_ist_def)
  show "t < upstox_token_expiry_utc t" "upstox_token_expiry_utc t \<le> t + us_per_day"
    using r time_part_range [of "to_ist t"] t'
    by (auto simp: e from_ist_def combine_dt_def algebra_simps)
  show "time_part (to_ist (upstox_token_expiry_utc t)) = UPSTOX_TOKEN_EXPIRY_TIME"
    using r by (simp add: e from_ist_def to_ist_def combine_dt_def time_part_def)
qed

lemma week_start_bounds:
  "ist_week_start_utc t \<le> ist_midnight_utc t" "t < ist_week_start_utc t + 7 * us_per_day"
  "weekday (ist_trading_date (ist_week_start_utc t)) = 0"
proof -
  let ?d = "date_part (to_ist t)"
  have w: "ist_week_start_utc t = ist_midnight_utc t - weekday ?d * us_per_day"
    by (simp add: ist_week_start_utc_def ist_midnight_utc_def Let_def from_ist_def combine_dt_def algebra_simps)
  show "ist_week_start_utc t \<le> ist_midnight_utc t" by (simp add: w us_per_day_def)
  have "weekday ?d \<le> 6" using weekday_range(2) [of ?d] by linarith
  then have "weekday ?d * us_per_day \<le> 6 * us_per_day" by (rule mult_right_mono) (simp add: us_per_day_def)
  with midnight_bounds(2) [of t] show "t < ist_week_start_utc t + 7 * us_per_day" unfolding w by linarith
  have "ist_trading_date (ist_week_start_utc t) = ?d - weekday ?d"
    by (simp add: ist_week_start_utc_def Let_def ist_trading_date_def to_ist_def from_ist_def combine_dt_def
        date_part_def us_per_day_def)
  then show "weekday (ist_trading_date (ist_week_start_utc t)) = 0"
    unfolding weekday_def by presburger
qed

end
