(* ===== verification/PT_Numerics.thy ===== *)
theory PT_Numerics
  imports PT_Prelude Complex_Main
begin

text \<open>
  The two number systems of the program, as values and the roundings of their operations:
  \<^item> \<open>decimal.Decimal\<close> in its default context: every arithmetic operation rounds its exact result
    to 28 significant decimal digits, ties to even (\<open>dec_rnd\<close>, \<open>dec_add\<close>, ...); comparisons,
    \<open>min\<close>, \<open>max\<close> and the constructor are exact;
  \<^item> \<open>float\<close>: every operation rounds to 53 significant binary digits, ties to even (\<open>fl_rnd\<close>, ...).
  Both are instances of \<open>round_sig b p\<close>, rounding to \<open>p\<close> digits of base \<open>b\<close>, and of the locale
  \<open>rounding\<close>, whose lemmas (signs, order, error bounds) are proved once. Exponent limits, NaN,
  infinities and signed zeros are not modelled; a value carries no trailing zeros.
\<close>

section \<open>Rounding to the nearest integer, ties to even\<close>

definition rhe :: "rat \<Rightarrow> int" where
  "rhe r = (let f = \<lfloor>r\<rfloor>; d = r - of_int f in
     if d < 1/2 then f else if 1/2 < d then f + 1 else if even f then f else f + 1)"

lemma rhe_of_int [simp]: "rhe (of_int n) = n"
  by (simp add: rhe_def)

lemma rhe_bounds: "of_int (rhe r) - 1/2 \<le> r" "r \<le> of_int (rhe r) + 1/2"
proof -
  define f d where "f = \<lfloor>r\<rfloor>" and "d = r - of_int f"
  have "0 \<le> d" "d < 1" and r: "r = of_int f + d" unfolding f_def d_def by linarith+
  moreover have "rhe r = (if d < 1/2 then f else if 1/2 < d then f + 1 else if even f then f else f + 1)"
    by (simp add: rhe_def Let_def f_def d_def)
  ultimately have "of_int (rhe r) - 1/2 \<le> r \<and> r \<le> of_int (rhe r) + 1/2"
    by (simp split: if_split)
  then show "of_int (rhe r) - 1/2 \<le> r" "r \<le> of_int (rhe r) + 1/2" by auto
qed

lemma rhe_mono: assumes "x \<le> y" shows "rhe x \<le> rhe y"
proof (cases "\<lfloor>x\<rfloor> = \<lfloor>y\<rfloor>")
  case True
  then show ?thesis using assms by (auto simp: rhe_def Let_def)
next
  case False
  with floor_mono [OF assms] have "\<lfloor>x\<rfloor> + 1 \<le> \<lfloor>y\<rfloor>" by linarith
  moreover have "rhe x \<le> \<lfloor>x\<rfloor> + 1" "\<lfloor>y\<rfloor> \<le> rhe y" by (auto simp: rhe_def Let_def)
  ultimately show ?thesis by linarith
qed

section \<open>Rounding to \<open>p\<close> significant digits of base \<open>b\<close>\<close>

text \<open>The exponent of the leading digit of a positive value: \<open>b\<^sup>e \<le> x < b\<^sup>e\<^sup>+\<^sup>1\<close>.\<close>

function ilog :: "int \<Rightarrow> int \<Rightarrow> int" where
  "ilog b n = (if 2 \<le> b \<and> b \<le> n then 1 + ilog b (n div b) else 0)"
  by pat_completeness auto
termination
proof (relation "measure (\<lambda>(b, n). nat n)", goal_cases)
  case (2 b n)
  then have "n div b < n" by (intro int_div_less_self) auto
  with 2 show ?case by simp
qed simp

declare ilog.simps [simp del]

definition lead_exp :: "nat \<Rightarrow> rat \<Rightarrow> int" where
  "lead_exp b x = (case quotient_of x of (n, d) \<Rightarrow>
     let k = ilog (int b) n - ilog (int b) d
     in if of_nat b powi k \<le> x then k else k - 1)"

definition round_pos :: "nat \<Rightarrow> nat \<Rightarrow> rat \<Rightarrow> rat" where
  "round_pos b p x = (let s = of_nat b powi (lead_exp b x - int p + 1) in of_int (rhe (x / s)) * s)"

definition round_sig :: "nat \<Rightarrow> nat \<Rightarrow> rat \<Rightarrow> rat" where
  "round_sig b p x =
     (if x = 0 then 0 else if 0 < x then round_pos b p x else - round_pos b p (- x))"

text \<open>The values that have at most \<open>p\<close> digits.\<close>

definition representable :: "nat \<Rightarrow> nat \<Rightarrow> rat \<Rightarrow> bool" where
  "representable b p x \<longleftrightarrow> (\<exists>m k. x = of_int m * of_nat b powi k \<and> \<bar>m\<bar> \<le> int b ^ p)"

lemma powi_le: "2 \<le> b \<Longrightarrow> i \<le> j \<Longrightarrow> (of_nat b :: rat) powi i \<le> of_nat b powi j"
  by (rule power_int_increasing) auto

lemma powi_less_iff: "2 \<le> b \<Longrightarrow> (of_nat b :: rat) powi i < of_nat b powi j \<longleftrightarrow> i < j"
  using power_int_strict_increasing [of i j "of_nat b :: rat"] powi_le [of b j i]
  by (auto simp: not_le [symmetric])

lemma powi_pos: "2 \<le> b \<Longrightarrow> 0 < (of_nat b :: rat) powi i"
  by (rule zero_less_power_int) auto

lemma powi_add: "2 \<le> b \<Longrightarrow> (of_nat b :: rat) powi i * of_nat b powi j = of_nat b powi (i + j)"
  by (simp add: power_int_add)

lemma ilog_nonneg: "0 \<le> ilog b n"
proof (induction b n rule: ilog.induct)
  case (1 b n)
  then show ?case by (subst ilog.simps) simp
qed

lemma ilog_bounds:
  "2 \<le> b \<Longrightarrow> 0 < n \<Longrightarrow> b ^ nat (ilog b n) \<le> n \<and> n < b ^ nat (ilog b n + 1)"
proof (induction b n rule: ilog.induct)
  case (1 b n)
  show ?case
  proof (cases "b \<le> n")
    case False
    with "1.prems" show ?thesis by (simp add: ilog.simps [of b n])
  next
    case True
    let ?e = "ilog b (n div b)"
    have q: "0 < n div b" using True "1.prems" by (simp add: pos_imp_zdiv_pos_iff)
    have IH: "b ^ nat ?e \<le> n div b" "n div b < b ^ nat (?e + 1)"
      using "1.IH" True "1.prems" q by auto
    have e: "ilog b n = ?e + 1" using True "1.prems" by (simp add: ilog.simps [of b n])
    have s: "nat (?e + 1) = Suc (nat ?e)" "nat (?e + 2) = Suc (nat (?e + 1))"
      using ilog_nonneg [of b "n div b"] by linarith+
    have "b * b ^ nat ?e \<le> b * (n div b)" using IH(1) "1.prems" by simp
    moreover have "b * (n div b) \<le> n"
      using "1.prems" pos_mod_sign [of b n] mult_div_mod_eq [of b n] by linarith
    moreover have "n < b * (n div b + 1)"
      using "1.prems" pos_mod_bound [of b n] mult_div_mod_eq [of b n] unfolding distrib_left by linarith
    moreover have "b * (n div b + 1) \<le> b * b ^ nat (?e + 1)" using IH(2) "1.prems" by simp
    ultimately show ?thesis using e s by (simp add: add.assoc)
  qed
qed

lemma ilog_ratio:
  assumes b: "2 \<le> b" and x: "0 < x" and q: "quotient_of x = (n, d)"
  defines "k \<equiv> ilog (int b) n - ilog (int b) d"
  shows "of_nat b powi (k - 1) \<le> x" "x < of_nat b powi (k + 1)"
proof -
  let ?B = "of_nat b :: rat" and ?i = "ilog (int b) n" and ?j = "ilog (int b) d"
  have d: "0 < d" and xq: "x = of_int n / of_int d"
    using q quotient_of_denom_pos quotient_of_div by auto
  with x have n: "0 < n" by (simp add: zero_less_divide_iff)
  have B: "?B powi ilog (int b) a \<le> of_int a \<and> of_int a < ?B powi (ilog (int b) a + 1)"
    if a: "0 < a" for a :: int
  proof -
    have lo: "int b ^ nat (ilog (int b) a) \<le> a" and hi: "a < int b ^ nat (ilog (int b) a + 1)"
      using ilog_bounds [of "int b" a] a b by auto
    have "of_int (int b ^ nat (ilog (int b) a)) \<le> (of_int a :: rat)" using lo by (simp only: of_int_le_iff)
    moreover have "of_int a < (of_int (int b ^ nat (ilog (int b) a + 1)) :: rat)"
      using hi by (simp only: of_int_less_iff)
    ultimately show ?thesis
      using ilog_nonneg [of "int b" a] by (simp add: power_int_nonneg_exp)
  qed
  note Bn = B [OF n] and Bd = B [OF d]
  have dpos: "(0::rat) < of_int d" using d by simp
  have "?B powi (k - 1) * of_int d \<le> ?B powi (k - 1) * ?B powi (?j + 1)"
    using Bd powi_pos [OF b] by (intro mult_left_mono) (auto simp: less_imp_le)
  also have "\<dots> = ?B powi ?i" unfolding powi_add [OF b] by (simp add: k_def)
  finally have "?B powi (k - 1) * of_int d \<le> of_int n" using Bn by linarith
  then show "?B powi (k - 1) \<le> x" using dpos by (simp add: xq pos_le_divide_eq)
  have "?B powi (?i + 1) = ?B powi (k + 1) * ?B powi ?j" unfolding powi_add [OF b] by (simp add: k_def)
  also have "\<dots> \<le> ?B powi (k + 1) * of_int d"
    using Bd powi_pos [OF b] by (intro mult_left_mono) (auto simp: less_imp_le)
  finally have "of_int n < ?B powi (k + 1) * of_int d" using Bn by linarith
  then show "x < ?B powi (k + 1)" using dpos by (simp add: xq pos_divide_less_eq)
qed

lemma lead_exp_bounds:
  assumes "2 \<le> b" and "0 < x"
  shows "of_nat b powi lead_exp b x \<le> x" "x < of_nat b powi (lead_exp b x + 1)"
proof -
  obtain n d where q: "quotient_of x = (n, d)" by fastforce
  show "of_nat b powi lead_exp b x \<le> x" "x < of_nat b powi (lead_exp b x + 1)"
    using ilog_ratio [OF assms q] q by (auto simp: lead_exp_def Let_def not_le)
qed

lemma lead_exp_unique:
  assumes "2 \<le> b" and "of_nat b powi e \<le> x" and "x < of_nat b powi (e + 1)"
  shows "lead_exp b x = e"
proof -
  have x: "0 < x" using powi_pos [OF assms(1), of e] assms(2) by linarith
  note l = lead_exp_bounds [OF assms(1) x]
  have "of_nat b powi e < (of_nat b powi (lead_exp b x + 1) :: rat)" using assms(2) l(2) by linarith
  moreover have "of_nat b powi lead_exp b x < (of_nat b powi (e + 1) :: rat)" using assms(3) l(1) by linarith
  ultimately show ?thesis by (simp add: powi_less_iff [OF assms(1)])
qed

lemma round_pos_range:
  assumes b: "2 \<le> b" and p: "0 < p" and x: "0 < x"
  shows "of_nat b powi lead_exp b x \<le> round_pos b p x"
    and "round_pos b p x \<le> of_nat b powi (lead_exp b x + 1)"
proof -
  let ?B = "of_nat b :: rat" and ?e = "lead_exp b x"
  let ?s = "?B powi (?e - int p + 1)"
  have s: "0 < ?s" by (rule powi_pos [OF b])
  have b0: "?B \<noteq> 0" using b by simp
  have m1: "?B powi ?e = of_int (int b ^ (p - 1)) * ?s"
  proof -
    have "of_int (int b ^ (p - 1)) = ?B powi int (p - 1)" by simp
    then have "of_int (int b ^ (p - 1)) * ?s = ?B powi (int (p - 1) + (?e - int p + 1))"
      by (simp only: powi_add [OF b])
    also have "int (p - 1) + (?e - int p + 1) = ?e" using p by simp
    finally show ?thesis by simp
  qed
  have m2: "?B powi (?e + 1) = of_int (int b ^ p) * ?s"
  proof -
    have "of_int (int b ^ p) = ?B powi int p" by simp
    then have "of_int (int b ^ p) * ?s = ?B powi (int p + (?e - int p + 1))"
      by (simp only: powi_add [OF b])
    then show ?thesis by simp
  qed
  note l = lead_exp_bounds [OF b x]
  have "of_int (int b ^ (p - 1)) \<le> x / ?s" using l(1) s m1 by (simp add: pos_le_divide_eq)
  from rhe_mono [OF this] have lo: "int b ^ (p - 1) \<le> rhe (x / ?s)" by (simp only: rhe_of_int)
  have "x / ?s \<le> of_int (int b ^ p)" using l(2) s m2 by (simp add: pos_divide_le_eq)
  from rhe_mono [OF this] have hi: "rhe (x / ?s) \<le> int b ^ p" by (simp only: rhe_of_int)
  have r: "round_pos b p x = of_int (rhe (x / ?s)) * ?s" by (simp add: round_pos_def Let_def)
  show "?B powi ?e \<le> round_pos b p x"
    unfolding r m1 using lo s by (intro mult_right_mono) (simp_all only: of_int_le_iff less_imp_le)
  show "round_pos b p x \<le> ?B powi (?e + 1)"
    unfolding r m2 using hi s by (intro mult_right_mono) (simp_all only: of_int_le_iff less_imp_le)
qed

lemma round_pos_pos: "2 \<le> b \<Longrightarrow> 0 < p \<Longrightarrow> 0 < x \<Longrightarrow> 0 < round_pos b p x"
  using round_pos_range(1) [of b p x] powi_pos [of b "lead_exp b x"] by linarith

lemma lead_exp_mono: "2 \<le> b \<Longrightarrow> 0 < x \<Longrightarrow> x \<le> y \<Longrightarrow> lead_exp b x \<le> lead_exp b y"
proof -
  assume b: "2 \<le> b" and x: "0 < x" and xy: "x \<le> y"
  have "of_nat b powi lead_exp b x < (of_nat b powi (lead_exp b y + 1) :: rat)"
    using lead_exp_bounds(1) [OF b x] lead_exp_bounds(2) [OF b, of y] x xy by linarith
  then show ?thesis by (simp add: powi_less_iff [OF b])
qed

lemma round_pos_mono:
  assumes b: "2 \<le> b" and p: "0 < p" and x: "0 < x" and xy: "x \<le> y"
  shows "round_pos b p x \<le> round_pos b p y"
proof (cases "lead_exp b x = lead_exp b y")
  case True
  let ?s = "of_nat b powi (lead_exp b y - int p + 1) :: rat"
  have s: "0 < ?s" by (rule powi_pos [OF b])
  have "rhe (x / ?s) \<le> rhe (y / ?s)" using xy s by (intro rhe_mono divide_right_mono) auto
  then show ?thesis using s True by (simp add: round_pos_def Let_def)
next
  case False
  with lead_exp_mono [OF b x xy] have "lead_exp b x + 1 \<le> lead_exp b y" by linarith
  from powi_le [OF b this] show ?thesis
    using round_pos_range(2) [OF b p x] round_pos_range(1) [OF b p, of y] x xy by linarith
qed

lemma round_pos_error:
  assumes b: "2 \<le> b" and p: "0 < p" and x: "0 < x"
  shows "\<bar>round_pos b p x - x\<bar> \<le> x / (2 * of_nat b ^ (p - 1))"
proof -
  let ?B = "of_nat b :: rat" and ?e = "lead_exp b x"
  let ?s = "?B powi (?e - int p + 1)"
  have s: "0 < ?s" by (rule powi_pos [OF b])
  have b0: "?B \<noteq> 0" using b by simp
  have "\<bar>of_int (rhe (x / ?s)) - x / ?s\<bar> \<le> 1/2"
    using rhe_bounds [of "x / ?s"] by linarith
  then have "\<bar>of_int (rhe (x / ?s)) - x / ?s\<bar> * ?s \<le> 1/2 * ?s" using s by (intro mult_right_mono) auto
  moreover have "\<bar>of_int (rhe (x / ?s)) - x / ?s\<bar> * ?s = \<bar>round_pos b p x - x\<bar>"
  proof -
    have "\<bar>of_int (rhe (x / ?s)) - x / ?s\<bar> * ?s = \<bar>(of_int (rhe (x / ?s)) - x / ?s) * ?s\<bar>"
      using s by (simp add: abs_mult)
    also have "(of_int (rhe (x / ?s)) - x / ?s) * ?s = round_pos b p x - x"
      using s b by (simp add: round_pos_def Let_def left_diff_distrib)
    finally show ?thesis .
  qed
  moreover have "?s = ?B powi ?e / ?B ^ (p - 1)"
  proof -
    have "?s * ?B powi int (p - 1) = ?B powi (?e - int p + 1 + int (p - 1))" by (rule powi_add [OF b])
    also have "?e - int p + 1 + int (p - 1) = ?e" using p by simp
    finally show ?thesis using b0 by (simp add: field_simps)
  qed
  ultimately have "\<bar>round_pos b p x - x\<bar> \<le> ?B powi ?e / (2 * ?B ^ (p - 1))" by (simp add: field_simps)
  also have "\<dots> \<le> x / (2 * ?B ^ (p - 1))"
    using lead_exp_bounds(1) [OF b x] b by (intro divide_right_mono) auto
  finally show ?thesis .
qed

lemma representable_0: "representable b p 0"
  unfolding representable_def by (rule exI [of _ 0]) simp

lemma representable_minus: "representable b p x \<Longrightarrow> representable b p (- x)"
  unfolding representable_def by (metis abs_minus_cancel mult_minus_left of_int_minus)

lemma representable_int: "\<bar>n\<bar> \<le> int b ^ p \<Longrightarrow> representable b p (of_int n)"
  unfolding representable_def by (rule exI [of _ n], rule exI [of _ 0]) simp

lemma representable_round_pos:
  assumes b: "2 \<le> b" and p: "0 < p" and x: "0 < x"
  shows "representable b p (round_pos b p x)"
proof -
  let ?s = "of_nat b powi (lead_exp b x - int p + 1) :: rat"
  have s: "0 < ?s" by (rule powi_pos [OF b])
  have r: "round_pos b p x = of_int (rhe (x / ?s)) * ?s" by (simp add: round_pos_def Let_def)
  have pos: "0 < rhe (x / ?s)" using round_pos_pos [OF b p x] s unfolding r by (simp add: zero_less_mult_iff)
  have "of_int (rhe (x / ?s)) * ?s \<le> of_nat b powi (lead_exp b x + 1)"
    using round_pos_range(2) [OF b p x] unfolding r .
  also have "\<dots> = of_nat b powi (int p + (lead_exp b x - int p + 1))" by simp
  also have "\<dots> = of_nat b powi int p * ?s" by (simp only: powi_add [OF b])
  finally have "(of_int (rhe (x / ?s)) :: rat) \<le> of_nat b powi int p" using s by simp
  then have "(of_int (rhe (x / ?s)) :: rat) \<le> of_int (int b ^ p)" by simp
  then have "rhe (x / ?s) \<le> int b ^ p" by (simp only: of_int_le_iff)
  with pos r show ?thesis unfolding representable_def by (metis abs_of_pos)
qed

lemma eq_divI: "(0 :: rat) < s \<Longrightarrow> x = y * s \<Longrightarrow> x / s = y"
  by simp

lemma round_pos_exact:
  assumes b: "2 \<le> b" and p: "0 < p" and x: "0 < x" and r: "representable b p x"
  shows "round_pos b p x = x"
proof -
  let ?B = "of_nat b :: rat" and ?e = "lead_exp b x"
  let ?s = "?B powi (?e - int p + 1)"
  obtain m k where xmk: "x = of_int m * ?B powi k" and mb: "\<bar>m\<bar> \<le> int b ^ p"
    using r by (auto simp: representable_def)
  have s: "0 < ?s" and Bk: "0 < ?B powi k" by (rule powi_pos [OF b])+
  have "\<exists>n. x / ?s = of_int n"
  proof (cases "m = int b ^ p")
    case True
    then have "x = ?B powi int p * ?B powi k" by (simp add: xmk)
    then have x2: "x = ?B powi (int p + k)" by (simp only: powi_add [OF b])
    have "?e = int p + k"
    proof (rule lead_exp_unique [OF b])
      show "?B powi (int p + k) \<le> x" using x2 by simp
      show "x < ?B powi (int p + k + 1)" unfolding x2 powi_less_iff [OF b] by simp
    qed
    then have "int p + k = int (p - 1) + (?e - int p + 1)" using p by simp
    then have "x = ?B powi (int (p - 1)) * ?s" unfolding powi_add [OF b] by (simp only: x2)
    then have "x / ?s = of_int (int b ^ (p - 1))" using s b by (simp add: field_simps)
    then show ?thesis by blast
  next
    case False
    with mb have "m < int b ^ p" by linarith
    then have "(of_int m :: rat) < of_int (int b ^ p)" by (simp only: of_int_less_iff)
    then have "x < ?B powi int p * ?B powi k" using Bk by (simp add: xmk)
    then have "?B powi ?e < ?B powi (int p + k)"
      using lead_exp_bounds(1) [OF b x] by (simp only: powi_add [OF b])
    then have ek: "?e < int p + k" by (simp add: powi_less_iff [OF b])
    then have j: "0 \<le> k - (?e - int p + 1)" by linarith
    have "?B powi k = ?B powi (k - (?e - int p + 1)) * ?s" by (simp add: powi_add [OF b])
    then have "x = of_int m * ?B powi (k - (?e - int p + 1)) * ?s" by (simp only: xmk mult.assoc)
    from eq_divI [OF s this] have "x / ?s = of_int m * ?B powi (k - (?e - int p + 1))" .
    also have "\<dots> = of_int (m * int b ^ nat (k - (?e - int p + 1)))"
      using j by (simp add: power_int_nonneg_exp)
    finally show ?thesis by blast
  qed
  then obtain n where "x / ?s = of_int n" by blast
  then have "of_int (rhe (x / ?s)) * ?s = x / ?s * ?s" by (simp only: rhe_of_int)
  then show ?thesis using b by (simp add: round_pos_def Let_def)
qed

section \<open>The laws of a rounding\<close>

text \<open>
  What the arithmetic of the program relies on: a rounding is monotone and odd, changes a rounded
  value no more, keeps the integers up to a bound, and is accurate to a unit.
\<close>

locale rounding =
  fixes rnd :: "rat \<Rightarrow> rat" and bound :: int and unit :: rat
  assumes rnd_mono: "x \<le> y \<Longrightarrow> rnd x \<le> rnd y"
    and rnd_minus: "rnd (- x) = - rnd x"
    and rnd_idem: "rnd (rnd x) = rnd x"
    and rnd_int: "\<bar>n\<bar> \<le> bound \<Longrightarrow> rnd (of_int n) = of_int n"
    and rnd_pos: "0 < x \<Longrightarrow> 0 < rnd x"
    and rnd_error: "\<bar>rnd x - x\<bar> \<le> unit * \<bar>x\<bar>"
begin

lemma rnd_0: "rnd 0 = 0"
  using rnd_minus [of 0] by simp

lemma rnd_nonneg: "0 \<le> x \<Longrightarrow> 0 \<le> rnd x"
  using rnd_mono [of 0 x] by (simp add: rnd_0)

lemma rnd_neg: "x < 0 \<Longrightarrow> rnd x < 0"
  using rnd_pos [of "- x"] by (simp add: rnd_minus)

lemma rnd_nonpos: "x \<le> 0 \<Longrightarrow> rnd x \<le> 0"
  using rnd_mono [of x 0] by (simp add: rnd_0)

lemma rnd_pos_iff: "0 < rnd x \<longleftrightarrow> 0 < x"
  using rnd_pos rnd_nonpos by (meson not_le)

lemma rnd_nonneg_iff: "0 \<le> rnd x \<longleftrightarrow> 0 \<le> x"
  using rnd_nonneg rnd_neg by (meson not_le)

lemma rnd_eq_0_iff: "rnd x = 0 \<longleftrightarrow> x = 0"
  using rnd_pos rnd_neg rnd_0 by (metis less_irrefl linorder_neqE_linordered_idom)

text \<open>A value that is its own rounding bounds the rounding of everything below and above it.\<close>

lemma rnd_le: "x \<le> c \<Longrightarrow> rnd c = c \<Longrightarrow> rnd x \<le> c"
  using rnd_mono [of x c] by simp

lemma rnd_ge: "c \<le> x \<Longrightarrow> rnd c = c \<Longrightarrow> c \<le> rnd x"
  using rnd_mono [of c x] by simp

lemma rnd_add_right: "rnd a = a \<Longrightarrow> 0 \<le> b \<Longrightarrow> a \<le> rnd (a + b)"
  by (rule rnd_ge) auto

lemma rnd_sub_right: "rnd a = a \<Longrightarrow> 0 \<le> b \<Longrightarrow> rnd (a - b) \<le> a"
  by (rule rnd_le) auto

lemma rnd_1: "1 \<le> bound \<Longrightarrow> rnd 1 = 1"
  using rnd_int [of 1] by simp

lemma rnd_scale_mono: "0 \<le> c \<Longrightarrow> x \<le> y \<Longrightarrow> rnd (x * c) \<le> rnd (y * c)"
  by (intro rnd_mono mult_right_mono)

end

lemma round_sig_minus: "round_sig b p (- x) = - round_sig b p x"
  by (simp add: round_sig_def)

lemma round_sig_exact: "2 \<le> b \<Longrightarrow> 0 < p \<Longrightarrow> representable b p x \<Longrightarrow> round_sig b p x = x"
  using round_pos_exact [of b p x] round_pos_exact [of b p "- x"] representable_minus [of b p x]
  by (auto simp: round_sig_def)

lemma representable_round_sig: "2 \<le> b \<Longrightarrow> 0 < p \<Longrightarrow> representable b p (round_sig b p x)"
  using representable_round_pos [of b p x] representable_round_pos [of b p "- x"]
  by (auto simp: round_sig_def representable_0 intro: representable_minus)

lemma round_sig_pos: "2 \<le> b \<Longrightarrow> 0 < p \<Longrightarrow> 0 < x \<Longrightarrow> 0 < round_sig b p x"
  by (simp add: round_sig_def round_pos_pos)

lemma round_sig_mono:
  assumes "2 \<le> b" and "0 < p" and "x \<le> y"
  shows "round_sig b p x \<le> round_sig b p y"
proof -
  note pos = round_pos_pos [OF assms(1,2)] and mono = round_pos_mono [OF assms(1,2)]
  consider "0 < x" | "x = 0" | "x < 0" "y \<le> 0" | "x < 0" "0 < y" by linarith
  then show ?thesis
  proof cases
    case 1 then show ?thesis using mono [of x y] assms(3) by (simp add: round_sig_def)
  next
    case 2 then show ?thesis using pos [of y] assms(3) by (simp add: round_sig_def less_imp_le)
  next
    case 3 then show ?thesis using mono [of "- y" "- x"] pos [of "- x"] assms(3)
      by (auto simp: round_sig_def less_imp_le)
  next
    case 4 then show ?thesis using pos [of y] pos [of "- x"] by (simp add: round_sig_def)
  qed
qed

lemma round_sig_error:
  assumes "2 \<le> b" and "0 < p"
  shows "\<bar>round_sig b p x - x\<bar> \<le> (1 / (2 * of_nat b ^ (p - 1))) * \<bar>x\<bar>"
  using round_pos_error [OF assms, of x] round_pos_error [OF assms, of "- x"]
  by (cases "0 < x") (auto simp: round_sig_def abs_minus_commute)

section \<open>\<open>decimal.Decimal\<close>\<close>

text \<open>The default context has precision 28 and \<open>ROUND_HALF_EVEN\<close>.\<close>

definition dec_rnd :: "rat \<Rightarrow> rat" where
  "dec_rnd x = round_sig 10 28 x"

definition dec_add :: "rat \<Rightarrow> rat \<Rightarrow> rat" where
  "dec_add x y = dec_rnd (x + y)"

definition dec_sub :: "rat \<Rightarrow> rat \<Rightarrow> rat" where
  "dec_sub x y = dec_rnd (x - y)"

definition dec_mul :: "rat \<Rightarrow> rat \<Rightarrow> rat" where
  "dec_mul x y = dec_rnd (x * y)"

definition dec_neg :: "rat \<Rightarrow> rat" where
  "dec_neg x = dec_rnd (- x)"

text \<open>Division by zero raises (\<open>DivisionByZero\<close>, or \<open>InvalidOperation\<close> for \<open>0 / 0\<close>).\<close>

definition dec_div :: "rat \<Rightarrow> rat \<Rightarrow> py_error + rat" where
  "dec_div x y = (if y = 0 then Inl DecimalInvalidOperation else Inr (dec_rnd (x / y)))"

text \<open>The quotient where the code has already excluded a divisor of zero.\<close>

definition dec_quot :: "rat \<Rightarrow> rat \<Rightarrow> rat" where
  "dec_quot x y = dec_rnd (x / y)"

lemma dec_div_quot: "y \<noteq> 0 \<Longrightarrow> dec_div x y = Inr (dec_quot x y)"
  by (simp add: dec_div_def dec_quot_def)

text \<open>
  \<open>int(x // y)\<close>: the quotient truncated towards zero; \<open>InvalidOperation\<close> when it has more than
  28 digits.
\<close>

definition trunc_rat :: "rat \<Rightarrow> int" where
  "trunc_rat x = (if 0 \<le> x then \<lfloor>x\<rfloor> else - \<lfloor>- x\<rfloor>)"

definition dec_floordiv :: "rat \<Rightarrow> rat \<Rightarrow> py_error + int" where
  "dec_floordiv x y =
     (if y = 0 then Inl DecimalInvalidOperation
      else let q = trunc_rat (x / y) in
           if 10 ^ 28 \<le> \<bar>q\<bar> then Inl DecimalInvalidOperation else Inr q)"

text \<open>\<open>sum(xs, Decimal("0"))\<close> and the loops \<open>total += x\<close>.\<close>

definition dec_sum :: "rat list \<Rightarrow> rat" where
  "dec_sum xs = foldl dec_add 0 xs"

interpretation dec: rounding dec_rnd "10 ^ 28" "1 / (2 * 10 ^ 27)"
proof
  fix x y :: rat
  show "x \<le> y \<Longrightarrow> dec_rnd x \<le> dec_rnd y" by (simp add: dec_rnd_def round_sig_mono)
  show "dec_rnd (- x) = - dec_rnd x" by (simp add: dec_rnd_def round_sig_minus)
  show "dec_rnd (dec_rnd x) = dec_rnd x"
    by (simp add: dec_rnd_def round_sig_exact representable_round_sig)
  show "0 < x \<Longrightarrow> 0 < dec_rnd x" by (simp add: dec_rnd_def round_sig_pos)
  show "\<bar>dec_rnd x - x\<bar> \<le> 1 / (2 * 10 ^ 27) * \<bar>x\<bar>"
    using round_sig_error [of 10 28 x] by (simp add: dec_rnd_def)
  show "dec_rnd (of_int n) = of_int n" if "\<bar>n\<bar> \<le> 10 ^ 28" for n
    unfolding dec_rnd_def using that by (intro round_sig_exact representable_int) auto
qed

text \<open>A decimal literal of at most 28 digits is its own rounding.\<close>

lemma dec_rnd_literal: "\<bar>m\<bar> \<le> 10 ^ 28 \<Longrightarrow> dec_rnd (of_int m / 10 ^ k) = of_int m / 10 ^ k"
proof -
  assume m: "\<bar>m\<bar> \<le> 10 ^ 28"
  have "of_int m / 10 ^ k = (of_int m :: rat) * of_nat 10 powi (- int k)"
    by (simp add: power_int_minus field_simps)
  then show ?thesis
    unfolding dec_rnd_def using m
    by (intro round_sig_exact) (auto simp: representable_def)
qed

section \<open>\<open>float\<close>\<close>

definition fl_rnd :: "rat \<Rightarrow> rat" where
  "fl_rnd x = round_sig 2 53 x"

definition fl_add :: "rat \<Rightarrow> rat \<Rightarrow> rat" where
  "fl_add x y = fl_rnd (x + y)"

definition fl_sub :: "rat \<Rightarrow> rat \<Rightarrow> rat" where
  "fl_sub x y = fl_rnd (x - y)"

definition fl_mul :: "rat \<Rightarrow> rat \<Rightarrow> rat" where
  "fl_mul x y = fl_rnd (x * y)"

definition fl_div :: "rat \<Rightarrow> rat \<Rightarrow> rat" where
  "fl_div x y = fl_rnd (x / y)"

definition fl_sum :: "rat list \<Rightarrow> rat" where
  "fl_sum xs = foldl fl_add 0 xs"

interpretation fl: rounding fl_rnd "2 ^ 53" "1 / (2 * 2 ^ 52)"
proof
  fix x y :: rat
  show "x \<le> y \<Longrightarrow> fl_rnd x \<le> fl_rnd y" by (simp add: fl_rnd_def round_sig_mono)
  show "fl_rnd (- x) = - fl_rnd x" by (simp add: fl_rnd_def round_sig_minus)
  show "fl_rnd (fl_rnd x) = fl_rnd x"
    by (simp add: fl_rnd_def round_sig_exact representable_round_sig)
  show "0 < x \<Longrightarrow> 0 < fl_rnd x" by (simp add: fl_rnd_def round_sig_pos)
  show "\<bar>fl_rnd x - x\<bar> \<le> 1 / (2 * 2 ^ 52) * \<bar>x\<bar>"
    using round_sig_error [of 2 53 x] by (simp add: fl_rnd_def)
  show "fl_rnd (of_int n) = of_int n" if "\<bar>n\<bar> \<le> 2 ^ 53" for n
    unfolding fl_rnd_def using that by (intro round_sig_exact representable_int) auto
qed

text \<open>
  \<open>Decimal(str(x))\<close> of a float: \<open>repr\<close> prints the shortest decimal that reads back as \<open>x\<close>, so
  the first number of digits at which rounding to decimal and back returns \<open>x\<close>; seventeen always do.
\<close>

definition dec_of_float :: "rat \<Rightarrow> rat" where
  "dec_of_float x =
     (case find (\<lambda>k. fl_rnd (round_sig 10 k x) = x) [1..<17] of
        Some k \<Rightarrow> round_sig 10 k x
      | None \<Rightarrow> round_sig 10 17 x)"

lemma dec_of_float_pos: "0 < x \<Longrightarrow> 0 < dec_of_float x"
  by (auto simp: dec_of_float_def round_sig_pos dest!: find_SomeD split: option.split)

end
