(* ===== verification/PT_Store.thy ===== *)
theory PT_Store
  imports PT_Enums PT_Calendar PT_Numerics
begin

text \<open>
  The state store: the rows of \<open>data/store/models.py\<close>, the tables they live in, the unit of work
  of \<open>data/store/db.py\<close>, and the well-formedness of a store. A table is the list of its rows in
  the order of insertion; the singleton tables (kill switch, paper account, token) are options.
  Columns whose only writer is a wall-clock default and which no code under \<open>src/personaltrade\<close>
  reads (\<open>Order.created_at\<close>, \<open>updated_at\<close>, \<open>OrderEvent.at\<close>, \<open>RiskEvent.at\<close>,
  \<open>Signal.created_at\<close>, \<open>StrategyRun.started_at\<close>) are left out.
  JSON columns are values of \<open>json\<close>; the payloads of order events and risk events, which the
  program fills with texts, are datatypes with one constructor per writer. \<open>MoneyText\<close> stores a
  Decimal as its exact text, so a money column is the Decimal itself.
\<close>

section \<open>JSON\<close>

datatype json = JNull | JBool bool | JNum rat | JStr string | JList "json list" | JObj "(string \<times> json) list"

fun json_get :: "string \<Rightarrow> json \<Rightarrow> json option" where
  "json_get k (JObj kvs) = map_of kvs k"
| "json_get k _ = None"

section \<open>Rows\<close>

record instrument_row =
  ins_id :: nat
  ins_symbol :: string
  ins_exchange :: string
  ins_isin :: "string option"
  ins_key :: string
  ins_name :: "string option"
  ins_tick_size :: rat
  ins_lot_size :: int
  ins_active :: bool

record strategy_run_row =
  sr_id :: nat
  sr_strategy_name :: string
  sr_params :: json
  sr_mode :: trading_mode

record signal_row =
  sg_id :: nat
  sg_instrument :: nat
  sg_strategy_run :: nat
  sg_direction :: signal_direction
  sg_ref_price :: rat
  sg_context :: json
  sg_status :: signal_status

record order_row =
  o_id :: nat
  o_cid :: string
  o_broker_id :: "string option"
  o_instrument :: nat
  o_signal :: "nat option"
  o_side :: order_side
  o_type :: order_type
  o_qty :: int
  o_filled :: int
  o_limit :: "rat option"
  o_state :: order_state
  o_mode :: trading_mode

datatype event_payload =
    NoPayload
  | FoundAtStartup
  | InsufficientCash
  | FillPayload int rat
  | PlaceFailed
  | UpstoxStatus string

record order_event_row =
  ev_id :: nat
  ev_order :: nat
  ev_from :: "order_state option"
  ev_to :: order_state
  ev_payload :: event_payload

record trade_row =
  t_id :: nat
  t_order :: nat
  t_price :: rat
  t_qty :: int
  t_brokerage :: rat
  t_stt :: rat
  t_stamp_duty :: rat
  t_gst :: rat
  t_exchange_charges :: rat
  t_sebi_charges :: rat
  t_net_amount :: rat
  t_realized_pnl :: "rat option"
  t_executed_at :: instant

record position_row =
  p_id :: nat
  p_instrument :: nat
  p_qty :: int
  p_avg_price :: rat
  p_realized_pnl :: rat
  p_mode :: trading_mode

text \<open>Why the kill switch tripped, and what a risk event records.\<close>

datatype trip_reason =
    ManualTrip string
  | ErrorStreak int int
  | PositionDivergence int int nat

datatype rejection_reason =
    KILL_SWITCH_TRIPPED | LIVE_ORDERS_DISABLED | MAX_DAILY_LOSS | MAX_OPEN_POSITIONS
  | ALREADY_IN_POSITION | NO_OPEN_POSITION | ZERO_QUANTITY

datatype risk_detail =
    RejectedSignal rejection_reason
  | SwitchTripped trip_reason
  | SwitchReset string
  | StuckOrder string order_state
  | PositionMismatch nat int int

record risk_event_row =
  re_id :: nat
  re_kind :: risk_event_kind
  re_detail :: risk_detail

record kill_switch_row =
  ks_tripped :: bool
  ks_reason :: "trip_reason option"
  ks_tripped_at :: "instant option"
  ks_consecutive_errors :: int

record upstox_token_row =
  tok_encrypted :: string
  tok_obtained_at :: instant
  tok_expires_at :: instant

record ai_analysis_row =
  ai_id :: nat
  ai_instrument :: nat
  ai_model :: string
  ai_prompt_hash :: string
  ai_snapshot :: json
  ai_output :: json
  ai_input_tokens :: int
  ai_output_tokens :: int
  ai_cost_usd :: rat
  ai_created_at :: instant

record recommendation_row =
  rec_id :: nat
  rec_instrument :: nat
  rec_signal :: "nat option"
  rec_ai_analysis :: "nat option"
  rec_action :: recommendation_action
  rec_rank :: int
  rec_rationale :: json
  rec_created_at :: instant

record news_item_row =
  n_id :: nat
  n_source :: string
  n_url :: string
  n_title :: string
  n_body :: string
  n_published_at :: "instant option"
  n_ingested_at :: instant

record news_tag_row =
  nt_id :: nat
  nt_news_item :: nat
  nt_instrument :: nat

record soak_period_row =
  so_id :: nat
  so_started_at :: instant
  so_target_days :: int
  so_baseline :: "nat option"
  so_ended_at :: "instant option"
  so_end_reason :: "string option"
  so_notes :: "string option"

section \<open>The store\<close>

record store =
  instruments :: "instrument_row list"
  strategy_runs :: "strategy_run_row list"
  signals :: "signal_row list"
  orders :: "order_row list"
  order_events :: "order_event_row list"
  trades :: "trade_row list"
  positions :: "position_row list"
  risk_events :: "risk_event_row list"
  kill_switch :: "kill_switch_row option"
  paper_account :: "rat option"
  upstox_token :: "upstox_token_row option"
  ai_analyses :: "ai_analysis_row list"
  recommendations :: "recommendation_row list"
  news_items :: "news_item_row list"
  news_tags :: "news_tag_row list"
  soak_periods :: "soak_period_row list"

definition empty_store :: store where
  "empty_store = \<lparr>instruments = [], strategy_runs = [], signals = [], orders = [], order_events = [],
     trades = [], positions = [], risk_events = [], kill_switch = None, paper_account = None,
     upstox_token = None, ai_analyses = [], recommendations = [], news_items = [], news_tags = [],
     soak_periods = []\<rparr>"

section \<open>Units of work\<close>

text \<open>\<open>session_scope\<close>: commit when the body returns, roll everything back when it raises.\<close>

definition session_scope :: "('s, 'a) act \<Rightarrow> ('s, 'a) act" where
  "session_scope m = (\<lambda>s. case m s of (Inr x, t) \<Rightarrow> (Inr x, t) | (Inl e, t) \<Rightarrow> (Inl e, s))"

lemma session_scope_Inl: "session_scope m s = (Inl e, t) \<Longrightarrow> t = s"
  by (auto simp: session_scope_def split: prod.splits sum.splits)

lemma session_scope_Inr: "session_scope m s = (Inr x, t) \<longleftrightarrow> m s = (Inr x, t)"
  by (auto simp: session_scope_def split: prod.splits sum.splits)

lemma keeps_session_scope [keeps_intros]: "keeps P m \<Longrightarrow> keeps P (session_scope m)"
  by (rule keepsI) (auto simp: session_scope_def dest: keepsE split: prod.splits sum.splits)

section \<open>What a well-formed store satisfies\<close>

definition trail_of :: "store \<Rightarrow> nat \<Rightarrow> (order_state option \<times> order_state) list" where
  "trail_of d i = map (\<lambda>e. (ev_from e, ev_to e)) (filter (\<lambda>e. ev_order e = i) (order_events d))"

definition trades_of :: "store \<Rightarrow> nat \<Rightarrow> trade_row list" where
  "trades_of d i = filter (\<lambda>t. t_order t = i) (trades d)"

text \<open>The keys and check constraints of the order table.\<close>

definition order_row_ok :: "store \<Rightarrow> order_row \<Rightarrow> bool" where
  "order_row_ok d ord \<longleftrightarrow> 0 < o_qty ord \<and> 0 \<le> o_filled ord \<and> o_filled ord \<le> o_qty ord \<and>
     o_instrument ord \<in> ins_id ` set (instruments d)"

definition orders_wf :: "store \<Rightarrow> bool" where
  "orders_wf d \<longleftrightarrow> distinct (map o_id (orders d)) \<and> distinct (map o_cid (orders d)) \<and>
     (\<forall>ord \<in> set (orders d). order_row_ok d ord)"

text \<open>Every order's events form an audit trail that ends in the order's state.\<close>

definition trails_wf :: "store \<Rightarrow> bool" where
  "trails_wf d \<longleftrightarrow> (\<forall>ord \<in> set (orders d). trail_ok (trail_of d (o_id ord)) (o_state ord)) \<and>
     (\<forall>e \<in> set (order_events d). ev_order e \<in> o_id ` set (orders d))"

text \<open>The filled quantity of an order is the sum of its trades.\<close>

definition fills_wf :: "store \<Rightarrow> bool" where
  "fills_wf d \<longleftrightarrow> (\<forall>ord \<in> set (orders d). o_filled ord = sum_list (map t_qty (trades_of d (o_id ord)))) \<and>
     (\<forall>t \<in> set (trades d). 0 < t_qty t \<and> t_order t \<in> o_id ` set (orders d))"

definition positions_wf :: "store \<Rightarrow> bool" where
  "positions_wf d \<longleftrightarrow> distinct (map p_id (positions d)) \<and>
     distinct (map (\<lambda>p. (p_instrument p, p_mode p)) (positions d)) \<and>
     (\<forall>p \<in> set (positions d). p_instrument p \<in> ins_id ` set (instruments d))"

definition store_ok :: "store \<Rightarrow> bool" where
  "store_ok d \<longleftrightarrow> distinct (map ins_id (instruments d)) \<and> orders_wf d \<and> trails_wf d \<and> fills_wf d \<and> positions_wf d"

lemma store_ok_empty: "store_ok empty_store"
  by (simp add: store_ok_def orders_wf_def trails_wf_def fills_wf_def positions_wf_def empty_store_def)

text \<open>The invariant reads only these tables.\<close>

lemma store_ok_frame:
  assumes "instruments e = instruments d" "orders e = orders d" "order_events e = order_events d"
    "trades e = trades d" "positions e = positions d"
  shows "store_ok e = store_ok d"
  using assms by (simp add: store_ok_def orders_wf_def trails_wf_def fills_wf_def positions_wf_def
      order_row_ok_def trail_of_def trades_of_def)

lemma store_ok_same:
  "store_ok d \<Longrightarrow> instruments e = instruments d \<Longrightarrow> orders e = orders d \<Longrightarrow> order_events e = order_events d \<Longrightarrow>
   trades e = trades d \<Longrightarrow> positions e = positions d \<Longrightarrow> store_ok e"
  using store_ok_frame by blast

end
