(* ===== verification/PT_Strategy_Base.thy ===== *)
theory PT_Strategy_Base
  imports PT_Store
begin

text \<open>
  The strategy contract of \<open>strategy/base.py\<close>: a signal, the declaration of an indicator, the
  view of the position, the context of a bar and a strategy. A strategy object is a record of its
  operations over a state of its own (the attributes that \<open>on_candle\<close> assigns), so that
  stateless and stateful strategies have one type; \<open>clone\<close> is the initial state. Prices of
  candles and values of indicators are floats.
\<close>

record strategy_signal =
  s_direction :: signal_direction
  s_ref_price :: rat
  s_context :: json

text \<open>Parameters of an indicator are numbers.\<close>

record indicator_spec =
  spec_kind :: string
  spec_params :: "(string \<times> rat) list"

text \<open>The lookups of an indicator view raise \<open>KeyError\<close> for a name that was not declared.\<close>

record indicator_view =
  iv_value :: "string \<Rightarrow> py_error + rat option"
  iv_window :: "string \<Rightarrow> nat \<Rightarrow> py_error + rat list"

record position_view =
  pv_qty :: int
  pv_avg_price :: rat

definition is_flat :: "position_view \<Rightarrow> bool" where "is_flat p \<longleftrightarrow> pv_qty p = 0"
definition is_long :: "position_view \<Rightarrow> bool" where "is_long p \<longleftrightarrow> 0 < pv_qty p"
definition is_short :: "position_view \<Rightarrow> bool" where "is_short p \<longleftrightarrow> pv_qty p < 0"

definition FLAT_POSITION :: position_view where
  "FLAT_POSITION = \<lparr>pv_qty = 0, pv_avg_price = 0\<rparr>"

lemma position_trichotomy: "is_flat p \<or> is_long p \<or> is_short p" "\<not> (is_flat p \<and> is_long p)" "\<not> (is_long p \<and> is_short p)"
  by (auto simp: is_flat_def is_long_def is_short_def)

record candle =
  cd_ts :: instant
  cd_open :: rat
  cd_high :: rat
  cd_low :: rat
  cd_close :: rat
  cd_volume :: int
  cd_oi :: int

record strategy_context =
  ctx_index :: nat
  ctx_ts :: instant
  ctx_candles :: "candle list"
  ctx_indicators :: indicator_view
  ctx_position :: position_view

record 'st strategy =
  st_init :: 'st
  st_warmup_bars :: int
  st_required :: "(string \<times> indicator_spec) list"
  st_on_candle :: "'st \<Rightarrow> strategy_context \<Rightarrow> py_error + strategy_signal option \<times> 'st"

end
