(* ===== verification/PT_Strategies.thy ===== *)
theory PT_Strategies
  imports PT_Strategy_Base PT_Numerics PT_Enums "HOL-Library.List_Lexorder" "HOL-Library.Char_ord"
begin

text \<open>
  The three strategies of \<open>strategy/strategies/\<close> and the registry that resolves a reference to a
  class (\<open>strategy/registry.py\<close>). What the execution side relies on in a strategy is the locale
  \<open>long_only\<close>; each of the three interprets it.
\<close>

section \<open>Readings\<close>

definition last_close :: "strategy_context \<Rightarrow> py_error + rat" where
  "last_close ctx = (case ctx_candles ctx of [] \<Rightarrow> Inl PyIndexError | c # cs \<Rightarrow> Inr (cd_close (last (c # cs))))"

text \<open>\<open>w[-2]\<close> of a window that has at least two values.\<close>

definition previous :: "rat list \<Rightarrow> rat" where
  "previous w = w ! (length w - 2)"

record cross_reading =
  cr_fast :: rat
  cr_slow :: rat
  cr_prev_fast :: rat
  cr_prev_slow :: rat

definition crossed_up :: "cross_reading \<Rightarrow> bool" where
  "crossed_up r \<longleftrightarrow> cr_prev_fast r \<le> cr_prev_slow r \<and> cr_slow r < cr_fast r"

definition crossed_down :: "cross_reading \<Rightarrow> bool" where
  "crossed_down r \<longleftrightarrow> cr_prev_slow r \<le> cr_prev_fast r \<and> cr_fast r < cr_slow r"

text \<open>The guard on the two lines that both crossover strategies start with.\<close>

definition cross_of :: "rat option \<Rightarrow> rat option \<Rightarrow> rat list \<Rightarrow> rat list \<Rightarrow> cross_reading option" where
  "cross_of fast slow fw sw = (case (fast, slow) of
     (Some f, Some s) \<Rightarrow> if length fw < 2 \<or> length sw < 2 then None
       else Some \<lparr>cr_fast = f, cr_slow = s, cr_prev_fast = previous fw, cr_prev_slow = previous sw\<rparr>
   | _ \<Rightarrow> None)"

lemma not_both_crossed: "\<not> (crossed_up r \<and> crossed_down r)"
  by (auto simp: crossed_up_def crossed_down_def)

section \<open>SMA crossover\<close>

record sma_params =
  sp_fast_period :: int
  sp_slow_period :: int

definition sma_params_default :: sma_params where
  "sma_params_default = \<lparr>sp_fast_period = 10, sp_slow_period = 30\<rparr>"

definition sma_params_ok :: "sma_params \<Rightarrow> bool" where
  "sma_params_ok p \<longleftrightarrow> 1 \<le> sp_fast_period p \<and> 2 \<le> sp_slow_period p"

definition sma_on_candle :: "unit \<Rightarrow> strategy_context \<Rightarrow> py_error + strategy_signal option \<times> unit" where
  "sma_on_candle st ctx = (let ind = ctx_indicators ctx in
     bindE (iv_value ind ''fast'') (\<lambda>fast. bindE (iv_value ind ''slow'') (\<lambda>slow.
     bindE (iv_window ind ''fast'' 2) (\<lambda>fw. bindE (iv_window ind ''slow'' 2) (\<lambda>sw.
     case cross_of fast slow fw sw of
       None \<Rightarrow> Inr (None, st)
     | Some r \<Rightarrow> bindE (last_close ctx) (\<lambda>close.
         let context = JObj [(''fast'', JNum (cr_fast r)), (''slow'', JNum (cr_slow r))] in
         if crossed_up r \<and> is_flat (ctx_position ctx)
         then Inr (Some \<lparr>s_direction = LONG, s_ref_price = close, s_context = context\<rparr>, st)
         else if crossed_down r \<and> is_long (ctx_position ctx)
         then Inr (Some \<lparr>s_direction = EXIT, s_ref_price = close, s_context = context\<rparr>, st)
         else Inr (None, st)))))))"

definition period_spec :: "string \<Rightarrow> int \<Rightarrow> indicator_spec" where
  "period_spec kind p = \<lparr>spec_kind = kind, spec_params = [(''period'', of_int p)]\<rparr>"

definition sma_crossover :: "sma_params \<Rightarrow> py_error + unit strategy" where
  "sma_crossover p = (if sp_slow_period p \<le> sp_fast_period p then Inl PyValueError else Inr \<lparr>
     st_init = (), st_warmup_bars = sp_slow_period p + 1,
     st_required = [(''fast'', period_spec ''sma'' (sp_fast_period p)), (''slow'', period_spec ''sma'' (sp_slow_period p))],
     st_on_candle = sma_on_candle\<rparr>)"

section \<open>EMA crossover with an ATR stop\<close>

record ema_params =
  ep_fast_period :: int
  ep_slow_period :: int
  ep_atr_period :: int
  ep_atr_multiplier :: rat

definition ema_params_default :: ema_params where
  "ema_params_default = \<lparr>ep_fast_period = 12, ep_slow_period = 26, ep_atr_period = 14, ep_atr_multiplier = 5 / 2\<rparr>"

definition ema_params_ok :: "ema_params \<Rightarrow> bool" where
  "ema_params_ok p \<longleftrightarrow> 1 \<le> ep_fast_period p \<and> 2 \<le> ep_slow_period p \<and> 1 \<le> ep_atr_period p \<and> 0 < ep_atr_multiplier p"

definition stop_level :: "ema_params \<Rightarrow> rat \<Rightarrow> rat \<Rightarrow> rat" where
  "stop_level p avg_price atr = fl_sub avg_price (fl_mul (ep_atr_multiplier p) atr)"

text \<open>The state is \<open>self._stop\<close>.\<close>

definition ema_decide :: "ema_params \<Rightarrow> rat option \<Rightarrow> position_view \<Rightarrow> cross_reading \<Rightarrow> rat \<Rightarrow> rat \<Rightarrow>
    strategy_signal option \<times> rat option" where
  "ema_decide p stop pos r atr close =
     (if is_flat pos then
        (if crossed_up r then Some \<lparr>s_direction = LONG, s_ref_price = close,
           s_context = JObj [(''fast'', JNum (cr_fast r)), (''slow'', JNum (cr_slow r)), (''atr'', JNum atr)]\<rparr> else None, None)
      else let level = (case stop of None \<Rightarrow> stop_level p (pv_avg_price pos) atr | Some l \<Rightarrow> l) in
        if close \<le> level \<or> crossed_down r
        then (Some \<lparr>s_direction = EXIT, s_ref_price = close,
           s_context = JObj [(''fast'', JNum (cr_fast r)), (''slow'', JNum (cr_slow r)),
             (''reason'', JStr (if close \<le> level then ''stop'' else ''cross_down''))]\<rparr>, None)
        else (None, Some level))"

definition ema_on_candle :: "ema_params \<Rightarrow> rat option \<Rightarrow> strategy_context \<Rightarrow> py_error + strategy_signal option \<times> rat option" where
  "ema_on_candle p stop ctx = (let ind = ctx_indicators ctx in
     bindE (iv_value ind ''fast'') (\<lambda>fast. bindE (iv_value ind ''slow'') (\<lambda>slow. bindE (iv_value ind ''atr'') (\<lambda>atr.
     bindE (iv_window ind ''fast'' 2) (\<lambda>fw. bindE (iv_window ind ''slow'' 2) (\<lambda>sw.
     case (cross_of fast slow fw sw, atr) of
       (Some r, Some a) \<Rightarrow> bindE (last_close ctx) (\<lambda>close. Inr (ema_decide p stop (ctx_position ctx) r a close))
     | _ \<Rightarrow> Inr (None, stop)))))))"

definition ema_atr_stop :: "ema_params \<Rightarrow> py_error + rat option strategy" where
  "ema_atr_stop p = (if ep_slow_period p \<le> ep_fast_period p then Inl PyValueError else Inr \<lparr>
     st_init = None, st_warmup_bars = max (ep_slow_period p) (ep_atr_period p) + 1,
     st_required = [(''fast'', period_spec ''ema'' (ep_fast_period p)), (''slow'', period_spec ''ema'' (ep_slow_period p)),
       (''atr'', period_spec ''atr'' (ep_atr_period p))],
     st_on_candle = ema_on_candle p\<rparr>)"

section \<open>RSI mean reversion\<close>

record rsi_params =
  rp_rsi_period :: int
  rp_oversold :: rat
  rp_exit_level :: rat

definition rsi_params_default :: rsi_params where
  "rsi_params_default = \<lparr>rp_rsi_period = 14, rp_oversold = 30, rp_exit_level = 50\<rparr>"

definition rsi_params_ok :: "rsi_params \<Rightarrow> bool" where
  "rsi_params_ok p \<longleftrightarrow> 2 \<le> rp_rsi_period p \<and> 0 < rp_oversold p \<and> rp_oversold p < 100 \<and>
     0 < rp_exit_level p \<and> rp_exit_level p < 100 \<and> rp_oversold p < rp_exit_level p"

definition rsi_on_candle :: "rsi_params \<Rightarrow> unit \<Rightarrow> strategy_context \<Rightarrow> py_error + strategy_signal option \<times> unit" where
  "rsi_on_candle p st ctx = (let ind = ctx_indicators ctx in
     bindE (iv_value ind ''rsi'') (\<lambda>rsi. bindE (iv_window ind ''rsi'' 2) (\<lambda>w.
     case rsi of
       None \<Rightarrow> Inr (None, st)
     | Some v \<Rightarrow> if length w < 2 then Inr (None, st) else
         bindE (last_close ctx) (\<lambda>close.
         let context = JObj [(''rsi'', JNum v)] in
         if rp_oversold p \<le> previous w \<and> v < rp_oversold p \<and> is_flat (ctx_position ctx)
         then Inr (Some \<lparr>s_direction = LONG, s_ref_price = close, s_context = context\<rparr>, st)
         else if previous w \<le> rp_exit_level p \<and> rp_exit_level p < v \<and> is_long (ctx_position ctx)
         then Inr (Some \<lparr>s_direction = EXIT, s_ref_price = close, s_context = context\<rparr>, st)
         else Inr (None, st)))))"

definition rsi_mean_reversion :: "rsi_params \<Rightarrow> unit strategy" where
  "rsi_mean_reversion p = \<lparr>st_init = (), st_warmup_bars = rp_rsi_period p + 2,
     st_required = [(''rsi'', period_spec ''rsi'' (rp_rsi_period p))], st_on_candle = rsi_on_candle p\<rparr>"

section \<open>The contract of a long-only strategy\<close>

text \<open>
  It opens only from a flat position, exits only an open one, never sells short, and prices its
  signals at the close of the current bar.
\<close>

locale long_only =
  fixes on_candle :: "'st \<Rightarrow> strategy_context \<Rightarrow> py_error + strategy_signal option \<times> 'st"
  assumes opens_or_exits: "on_candle st ctx = Inr (Some sig, st') \<Longrightarrow>
      s_direction sig = LONG \<and> is_flat (ctx_position ctx) \<or> s_direction sig = EXIT \<and> \<not> is_flat (ctx_position ctx)"
    and priced_at_close: "on_candle st ctx = Inr (Some sig, st') \<Longrightarrow> last_close ctx = Inr (s_ref_price sig)"
begin

lemma never_short: "on_candle st ctx = Inr (Some sig, st') \<Longrightarrow> s_direction sig \<noteq> SHORT"
  using opens_or_exits by fastforce

lemma exits_open: "on_candle st ctx = Inr (Some sig, st') \<Longrightarrow> s_direction sig = EXIT \<longleftrightarrow> \<not> is_flat (ctx_position ctx)"
  using opens_or_exits by fastforce

end

lemma long_not_flat: "is_long p \<Longrightarrow> \<not> is_flat p"
  by (simp add: is_long_def is_flat_def)

lemma sma_signal:
  assumes "sma_on_candle st ctx = Inr (Some sig, st')"
  obtains "last_close ctx = Inr (s_ref_price sig)" "s_direction sig = LONG" "is_flat (ctx_position ctx)"
    | "last_close ctx = Inr (s_ref_price sig)" "s_direction sig = EXIT" "is_long (ctx_position ctx)"
  using assms unfolding sma_on_candle_def Let_def
  by (elim bindE_InrE) (auto split: option.splits if_splits elim!: bindE_InrE)

interpretation sma_long_only: long_only sma_on_candle
  by standard (auto elim!: sma_signal dest: long_not_flat)

lemma rsi_signal:
  assumes "rsi_on_candle p st ctx = Inr (Some sig, st')"
  obtains "last_close ctx = Inr (s_ref_price sig)" "s_direction sig = LONG" "is_flat (ctx_position ctx)"
    | "last_close ctx = Inr (s_ref_price sig)" "s_direction sig = EXIT" "is_long (ctx_position ctx)"
  using assms unfolding rsi_on_candle_def Let_def
  by (elim bindE_InrE) (auto split: option.splits if_splits elim!: bindE_InrE)

interpretation rsi_long_only: long_only "rsi_on_candle p" for p
  by standard (auto elim!: rsi_signal dest: long_not_flat)

lemma ema_decide_signal:
  "ema_decide p stop pos r atr close = (Some sig, s') \<Longrightarrow> s_ref_price sig = close \<and> s' = None \<and>
     (s_direction sig = LONG \<and> is_flat pos \<or> s_direction sig = EXIT \<and> \<not> is_flat pos)"
  by (cases "is_flat pos") (auto simp: ema_decide_def Let_def split: if_splits)

lemma ema_signal:
  assumes "ema_on_candle p stop ctx = Inr (Some sig, s')"
  obtains r a c where "last_close ctx = Inr c" "ema_decide p stop (ctx_position ctx) r a c = (Some sig, s')"
  using assms unfolding ema_on_candle_def Let_def
  by (elim bindE_InrE) (auto split: option.splits elim!: bindE_InrE)

interpretation ema_long_only: long_only "ema_on_candle p" for p
  by standard (auto elim!: ema_signal dest: ema_decide_signal)

section \<open>The stop\<close>

text \<open>The decision on a position that is held: the level, once anchored, stays until the exit.\<close>

lemma ema_decide_held:
  assumes "\<not> is_flat pos"
  shows "ema_decide p stop pos r atr close = (None, s') \<longleftrightarrow>
    (let level = (case stop of None \<Rightarrow> stop_level p (pv_avg_price pos) atr | Some l \<Rightarrow> l) in
      level < close \<and> \<not> crossed_down r \<and> s' = Some level)"
  using assms by (auto simp: ema_decide_def Let_def)

text \<open>Bars in sequence.\<close>

primrec run_decisions :: "ema_params \<Rightarrow> rat option \<Rightarrow> (position_view \<times> cross_reading \<times> rat \<times> rat) list \<Rightarrow>
    strategy_signal option list \<times> rat option" where
  "run_decisions p stop [] = ([], stop)"
| "run_decisions p stop (b # bs) = (case b of (pos, r, atr, close) \<Rightarrow> case ema_decide p stop pos r atr close of (sig, s) \<Rightarrow>
     case run_decisions p s bs of (sigs, t) \<Rightarrow> (sig # sigs, t))"

lemma run_decisions_anchored:
  assumes "run_decisions p (Some l) bs = (replicate (length bs) None, s')" and "\<forall>(pos, r, a, c) \<in> set bs. \<not> is_flat pos"
  shows "s' = Some l \<and> (\<forall>(pos, r, a, c) \<in> set bs. l < c)"
  using assms
proof (induction bs)
  case (Cons b bs)
  obtain pos r a c where b: "b = (pos, r, a, c)" using prod_cases4 by blast
  have nf: "\<not> is_flat pos" using Cons.prems(2) by (simp add: b)
  obtain s where d: "ema_decide p (Some l) pos r a c = (None, s)" and rest: "run_decisions p s bs = (replicate (length bs) None, s')"
    using Cons.prems(1) by (auto simp: b split: prod.splits)
  have s: "s = Some l" "l < c" using d unfolding ema_decide_held [OF nf] by (simp_all add: Let_def)
  show ?case using Cons.IH [OF rest [unfolded s(1)]] Cons.prems(2) s(2) by (simp add: b)
qed simp

lemma run_decisions_held:
  assumes run: "run_decisions p None ((pos, r, a, c) # bs) = (replicate (Suc (length bs)) None, s')"
    and held: "\<forall>(pos, r, a, c) \<in> set ((pos, r, a, c) # bs). \<not> is_flat pos"
  shows "s' = Some (stop_level p (pv_avg_price pos) a) \<and> (\<forall>(pos', r', a', c') \<in> set ((pos, r, a, c) # bs). stop_level p (pv_avg_price pos) a < c')"
proof -
  have nf: "\<not> is_flat pos" using held by simp
  obtain s where d: "ema_decide p None pos r a c = (None, s)" and rest: "run_decisions p s bs = (replicate (length bs) None, s')"
    using run by (auto split: prod.splits)
  have s: "s = Some (stop_level p (pv_avg_price pos) a)" "stop_level p (pv_avg_price pos) a < c"
    using d unfolding ema_decide_held [OF nf] by (simp_all add: Let_def)
  from run_decisions_anchored [OF rest [unfolded s(1)]] held s(2) show ?thesis by auto
qed

section \<open>The registry\<close>

datatype strategy_class = SMACrossoverStrategy | EMAAtrStopStrategy | RSIMeanReversionStrategy

fun strategy_class_name :: "strategy_class \<Rightarrow> string" where
  "strategy_class_name SMACrossoverStrategy = ''sma_crossover''"
| "strategy_class_name EMAAtrStopStrategy = ''ema_atr_stop''"
| "strategy_class_name RSIMeanReversionStrategy = ''rsi_mean_reversion''"

definition STRATEGIES :: "(string \<times> strategy_class) list" where
  "STRATEGIES = map (\<lambda>c. (strategy_class_name c, c)) [SMACrossoverStrategy, EMAAtrStopStrategy, RSIMeanReversionStrategy]"

definition list_strategies :: "string list" where
  "list_strategies = sort (map fst STRATEGIES)"

definition get_strategy_class :: "string \<Rightarrow> py_error + strategy_class" where
  "get_strategy_class name = (case map_of STRATEGIES name of None \<Rightarrow> Inl UnknownStrategy | Some c \<Rightarrow> Inr c)"

text \<open>A class of the registry, or one imported from a module that is not part of the program.\<close>

datatype 'c resolved_class = Registered strategy_class | Imported 'c

text \<open>What \<open>importlib\<close> and \<open>getattr\<close> find: no module, or the attributes of one.\<close>

type_synonym 'c importer = "string \<Rightarrow> (string \<Rightarrow> 'c option) option"

definition resolve_strategy_class :: "'c importer \<Rightarrow> string \<Rightarrow> py_error + 'c resolved_class" where
  "resolve_strategy_class imp reference =
     (if CHR '':'' \<notin> set reference then bindE (get_strategy_class reference) (\<lambda>c. Inr (Registered c))
      else let module_name = takeWhile (\<lambda>c. c \<noteq> CHR '':'') reference;
               class_name = tl (dropWhile (\<lambda>c. c \<noteq> CHR '':'') reference) in
        if class_name = [] then Inl UnknownStrategy
        else (case imp module_name of
            None \<Rightarrow> Inl UnknownStrategy
          | Some attrs \<Rightarrow> (case attrs class_name of None \<Rightarrow> Inl UnknownStrategy | Some c \<Rightarrow> Inr (Imported c))))"

lemma get_strategy_class_name [simp]: "get_strategy_class (strategy_class_name c) = Inr c"
  by (cases c) (simp_all add: get_strategy_class_def STRATEGIES_def)

lemma names_in_range: "range strategy_class_name = set (map fst STRATEGIES)"
proof -
  have "(UNIV :: strategy_class set) = {SMACrossoverStrategy, EMAAtrStopStrategy, RSIMeanReversionStrategy}"
    using strategy_class.exhaust by blast
  from arg_cong [OF this, of "image strategy_class_name"] show ?thesis
    by (simp add: STRATEGIES_def del: strategy_class_name.simps)
qed

lemma list_strategies_sorted: "sorted list_strategies \<and> set list_strategies = range strategy_class_name"
  by (simp add: list_strategies_def names_in_range)

text \<open>Every registered name resolves to its class, every other name without a colon is unknown.\<close>

lemma no_colon: "CHR '':'' \<notin> set (strategy_class_name c)"
  by (cases c) simp_all

lemma resolve_registered:
  "resolve_strategy_class imp (strategy_class_name c) = Inr (Registered c)"
  by (simp add: resolve_strategy_class_def no_colon)

lemma resolve_dotted:
  assumes "CHR '':'' \<notin> set m" and "cls \<noteq> []"
  shows "resolve_strategy_class imp (m @ CHR '':'' # cls) =
    (case imp m of None \<Rightarrow> Inl UnknownStrategy
     | Some attrs \<Rightarrow> (case attrs cls of None \<Rightarrow> Inl UnknownStrategy | Some c \<Rightarrow> Inr (Imported c)))"
proof -
  have "takeWhile (\<lambda>c. c \<noteq> CHR '':'') (m @ CHR '':'' # cls) = m"
    using assms(1) by (subst takeWhile_append2) auto
  moreover have "dropWhile (\<lambda>c. c \<noteq> CHR '':'') (m @ CHR '':'' # cls) = CHR '':'' # cls"
    using assms(1) by (subst dropWhile_append2) auto
  ultimately show ?thesis using assms(2) by (simp add: resolve_strategy_class_def Let_def)
qed

lemma get_strategy_unknown: "name \<notin> range strategy_class_name \<Longrightarrow> get_strategy_class name = Inl UnknownStrategy"
  unfolding names_in_range by (auto simp: get_strategy_class_def map_of_eq_None_iff [symmetric] split: option.split)

end
