(* ===== verification/PT_Indicators.thy ===== *)
theory PT_Indicators
  imports PT_Numerics PT_Calendar PT_Prelude
begin

text \<open>
  The technical indicators: the batch functions of \<open>indicators/batch.py\<close> and the incremental
  states of \<open>indicators/streaming.py\<close>. A series is a list of floats, an indicator series a list of
  optional floats (NaN is \<open>None\<close>). The means and deviations of numpy and the rolling windows and
  cumulative sums of pandas are not under \<open>src/\<close>: they are the fields of \<open>numlib\<close>, and
  \<open>numlib_ok\<close> says what their documentation promises. What is proved: every streaming state emits
  exactly the batch series (the locale \<open>streaming\<close>, interpreted for all six), from which every
  batch function is causal; RSI stays between 0 and 100.
\<close>

section \<open>Library functions\<close>

record numlib =
  nl_mean :: "rat list \<Rightarrow> rat"
  nl_std :: "rat list \<Rightarrow> rat"
  nl_rolling_mean :: "nat \<Rightarrow> rat list \<Rightarrow> rat option list"
  nl_rolling_std :: "nat \<Rightarrow> rat list \<Rightarrow> rat option list"
  nl_cumsum :: "rat list \<Rightarrow> rat list"

text \<open>The value of a statistic on every full window of length \<open>p\<close>.\<close>

definition windows :: "(rat list \<Rightarrow> rat) \<Rightarrow> nat \<Rightarrow> rat list \<Rightarrow> rat option list" where
  "windows f p xs = map (\<lambda>i. if Suc i < p then None else Some (f (take p (drop (Suc i - p) xs)))) [0..<length xs]"

definition numlib_ok :: "numlib \<Rightarrow> bool" where
  "numlib_ok lib \<longleftrightarrow>
     (\<forall>p xs. 1 \<le> p \<longrightarrow> nl_rolling_mean lib p xs = windows (nl_mean lib) p xs \<and> nl_rolling_std lib p xs = windows (nl_std lib) p xs) \<and>
     (\<forall>xs ys. length (nl_cumsum lib xs) = length xs \<and> take (length xs) (nl_cumsum lib (xs @ ys)) = nl_cumsum lib xs) \<and>
     (\<forall>xs. xs \<noteq> [] \<and> (\<forall>x \<in> set xs. 0 \<le> x) \<longrightarrow> 0 \<le> nl_mean lib xs)"

text \<open>Exact arithmetic satisfies the promises.\<close>

definition exact_mean :: "rat list \<Rightarrow> rat" where
  "exact_mean xs = sum_list xs / of_nat (length xs)"

definition exact_lib :: numlib where
  "exact_lib = \<lparr>nl_mean = exact_mean, nl_std = (\<lambda>_. 0), nl_rolling_mean = windows exact_mean,
     nl_rolling_std = windows (\<lambda>_. 0), nl_cumsum = (\<lambda>xs. map (\<lambda>i. sum_list (take (Suc i) xs)) [0..<length xs])\<rparr>"

lemma exact_lib_ok: "numlib_ok exact_lib"
  by (auto simp: numlib_ok_def exact_lib_def exact_mean_def take_map intro!: sum_list_nonneg divide_nonneg_nonneg)

section \<open>Batch functions\<close>

type_synonym series = "rat option list"

record bar =
  b_high :: rat
  b_low :: rat
  b_close :: rat

definition require_period :: "int \<Rightarrow> int \<Rightarrow> py_error + unit" where
  "require_period period minimum = (if period < minimum then Inl PyValueError else Inr ())"

definition sma :: "numlib \<Rightarrow> int \<Rightarrow> rat list \<Rightarrow> py_error + series" where
  "sma lib period close = bindE (require_period period 1) (\<lambda>_. Inr (nl_rolling_mean lib (nat period) close))"

definition ema_alpha :: "nat \<Rightarrow> rat" where
  "ema_alpha period = fl_div 2 (fl_add (of_nat period) 1)"

definition ema_step :: "nat \<Rightarrow> rat \<Rightarrow> rat \<Rightarrow> rat" where
  "ema_step period prev x = fl_add (fl_mul (ema_alpha period) x) (fl_mul (fl_sub 1 (ema_alpha period)) prev)"

text \<open>The loops \<open>out[i] = step(out[i - 1], values[i])\<close> after the seed.\<close>

primrec smooth :: "('v \<Rightarrow> 'x \<Rightarrow> 'v) \<Rightarrow> 'v \<Rightarrow> 'x list \<Rightarrow> 'v list" where
  "smooth step prev [] = []"
| "smooth step prev (x # xs) = (let v = step prev x in v # smooth step v xs)"

definition seeded :: "nat \<Rightarrow> ('x list \<Rightarrow> 'v) \<Rightarrow> ('v \<Rightarrow> 'x \<Rightarrow> 'v) \<Rightarrow> 'x list \<Rightarrow> 'v option list" where
  "seeded period seed step xs = (if period \<le> length xs
     then let first = seed (take period xs) in
       replicate (period - 1) None @ Some first # map Some (smooth step first (drop period xs))
     else replicate (length xs) None)"

definition ema_values :: "numlib \<Rightarrow> nat \<Rightarrow> rat list \<Rightarrow> series" where
  "ema_values lib period = seeded period (nl_mean lib) (ema_step period)"

definition ema :: "numlib \<Rightarrow> int \<Rightarrow> rat list \<Rightarrow> py_error + series" where
  "ema lib period close = bindE (require_period period 1) (\<lambda>_. Inr (ema_values lib (nat period) close))"

definition rsi_value :: "rat \<times> rat \<Rightarrow> rat" where
  "rsi_value avgs = (case avgs of (avg_gain, avg_loss) \<Rightarrow>
     if avg_loss = 0 then (if 0 < avg_gain then 100 else 50)
     else fl_sub 100 (fl_div 100 (fl_add 1 (fl_div avg_gain avg_loss))))"

definition wilder :: "nat \<Rightarrow> rat \<Rightarrow> rat \<Rightarrow> rat" where
  "wilder period prev x = fl_div (fl_add (fl_mul prev (of_nat period - 1)) x) (of_nat period)"

definition gain_loss :: "rat \<Rightarrow> rat \<times> rat" where
  "gain_loss delta = (max delta 0, max (- delta) 0)"

primrec deltas_from :: "rat \<Rightarrow> rat list \<Rightarrow> rat list" where
  "deltas_from prev [] = []"
| "deltas_from prev (x # xs) = fl_sub x prev # deltas_from x xs"

definition seed_averages :: "numlib \<Rightarrow> (rat \<times> rat) list \<Rightarrow> rat \<times> rat" where
  "seed_averages lib gls = (nl_mean lib (map fst gls), nl_mean lib (map snd gls))"

definition rsi_step :: "nat \<Rightarrow> rat \<times> rat \<Rightarrow> rat \<times> rat \<Rightarrow> rat \<times> rat" where
  "rsi_step period avgs gl = (wilder period (fst avgs) (fst gl), wilder period (snd avgs) (snd gl))"

definition rsi_values :: "numlib \<Rightarrow> nat \<Rightarrow> rat list \<Rightarrow> series" where
  "rsi_values lib period close = (case close of
     [] \<Rightarrow> []
   | c # cs \<Rightarrow> None # map (map_option rsi_value)
       (seeded period (seed_averages lib) (rsi_step period) (map gain_loss (deltas_from c cs))))"

definition rsi :: "numlib \<Rightarrow> int \<Rightarrow> rat list \<Rightarrow> py_error + series" where
  "rsi lib period close = bindE (require_period period 1) (\<lambda>_. Inr (rsi_values lib (nat period) close))"

primrec ranges_from :: "rat \<Rightarrow> bar list \<Rightarrow> rat list" where
  "ranges_from prev_close [] = []"
| "ranges_from prev_close (b # bs) =
     max (fl_sub (b_high b) (b_low b)) (max \<bar>fl_sub (b_high b) prev_close\<bar> \<bar>fl_sub (b_low b) prev_close\<bar>) # ranges_from (b_close b) bs"

definition true_range :: "bar list \<Rightarrow> rat list" where
  "true_range bars = (case bars of [] \<Rightarrow> [] | b # bs \<Rightarrow> fl_sub (b_high b) (b_low b) # ranges_from (b_close b) bs)"

definition atr_values :: "numlib \<Rightarrow> nat \<Rightarrow> bar list \<Rightarrow> series" where
  "atr_values lib period bars = seeded period (nl_mean lib) (wilder period) (true_range bars)"

definition atr :: "numlib \<Rightarrow> int \<Rightarrow> bar list \<Rightarrow> py_error + series" where
  "atr lib period bars = bindE (require_period period 1) (\<lambda>_. Inr (atr_values lib (nat period) bars))"

text \<open>Arithmetic of series: a NaN on either side gives NaN.\<close>

definition lift2 :: "(rat \<Rightarrow> rat \<Rightarrow> rat) \<Rightarrow> rat option \<Rightarrow> rat option \<Rightarrow> rat option" where
  "lift2 f x y = (case (x, y) of (Some a, Some b) \<Rightarrow> Some (f a b) | _ \<Rightarrow> None)"

text \<open>\<open>signal_line.update(ema(valid))\<close>: the values go back to the rows they came from.\<close>

fun scatter :: "'a option list \<Rightarrow> 'b option list \<Rightarrow> 'b option list" where
  "scatter [] outs = []"
| "scatter (None # line) outs = None # scatter line outs"
| "scatter (Some _ # line) [] = None # scatter line []"
| "scatter (Some _ # line) (out # outs) = out # scatter line outs"

definition valid_values :: "'a option list \<Rightarrow> 'a list" where
  "valid_values line = map the (filter (\<lambda>x. x \<noteq> None) line)"

record macd_row =
  mr_macd :: "rat option"
  mr_signal :: "rat option"
  mr_hist :: "rat option"

definition macd_values :: "numlib \<Rightarrow> nat \<Rightarrow> nat \<Rightarrow> nat \<Rightarrow> rat list \<Rightarrow> macd_row list" where
  "macd_values lib fast slow signal close = (
     let line = map2 (lift2 fl_sub) (ema_values lib fast close) (ema_values lib slow close);
         signal_line = scatter line (ema_values lib signal (valid_values line))
     in map2 (\<lambda>m s. \<lparr>mr_macd = m, mr_signal = s, mr_hist = lift2 fl_sub m s\<rparr>) line signal_line)"

definition macd :: "numlib \<Rightarrow> int \<Rightarrow> int \<Rightarrow> int \<Rightarrow> rat list \<Rightarrow> py_error + macd_row list" where
  "macd lib fast slow signal close = (if \<not> fast < slow then Inl PyValueError
     else bindE (require_period signal 1) (\<lambda>_. bindE (require_period fast 1) (\<lambda>_. bindE (require_period slow 1) (\<lambda>_.
       Inr (macd_values lib (nat fast) (nat slow) (nat signal) close)))))"

record bands =
  bd_middle :: "rat option"
  bd_upper :: "rat option"
  bd_lower :: "rat option"

definition bollinger :: "numlib \<Rightarrow> int \<Rightarrow> rat \<Rightarrow> rat list \<Rightarrow> py_error + bands list" where
  "bollinger lib period num_std close = bindE (require_period period 2) (\<lambda>_.
     let middle = nl_rolling_mean lib (nat period) close; std = nl_rolling_std lib (nat period) close in
     Inr (map2 (\<lambda>m s. let band = map_option (fl_mul num_std) s in
       \<lparr>bd_middle = m, bd_upper = lift2 fl_add m band, bd_lower = lift2 fl_sub m band\<rparr>) middle std))"

definition obv :: "numlib \<Rightarrow> rat list \<Rightarrow> int list \<Rightarrow> rat list" where
  "obv lib close volume = (
     let direction = (case close of [] \<Rightarrow> [] | c # cs \<Rightarrow> 0 # map sgn (deltas_from c cs))
     in nl_cumsum lib (map2 (\<lambda>d v. fl_mul d (of_int v)) direction volume))"

text \<open>\<open>groupby(session).cumsum()\<close>: each row sums the rows of its own group up to itself.\<close>

definition session_cumsum :: "numlib \<Rightarrow> py_date list \<Rightarrow> rat list \<Rightarrow> rat list" where
  "session_cumsum lib sessions xs = map (\<lambda>i. last (nl_cumsum lib
     (map snd (filter (\<lambda>(d, _). d = sessions ! i) (zip (take (Suc i) sessions) (take (Suc i) xs)))))) [0..<length xs]"

definition vwap :: "numlib \<Rightarrow> instant list \<Rightarrow> bar list \<Rightarrow> int list \<Rightarrow> series" where
  "vwap lib ts bars volume = (
     let typical = map (\<lambda>b. fl_div (fl_add (fl_add (b_high b) (b_low b)) (b_close b)) 3) bars;
         session = map ist_trading_date ts;
         pv = session_cumsum lib session (map2 (\<lambda>t v. fl_mul t (of_int v)) typical volume);
         cum_vol = session_cumsum lib session (map of_int volume)
     in map2 (\<lambda>p v. if v = 0 then None else Some (fl_div p v)) pv cum_vol)"

text \<open>The loop of \<open>supertrend\<close>, over the previous close and the final bands.\<close>

record supertrend_row =
  su_value :: "rat option"
  su_direction :: int

fun supertrend_loop :: "rat \<Rightarrow> rat \<Rightarrow> rat \<Rightarrow> int \<Rightarrow> (rat \<times> rat \<times> rat) list \<Rightarrow> supertrend_row list" where
  "supertrend_loop prev_close upper lower direction [] = []"
| "supertrend_loop prev_close upper lower direction ((upper_basic, lower_basic, c) # rest) = (
     let upper' = (if prev_close \<le> upper then min upper_basic upper else upper_basic);
         lower' = (if lower \<le> prev_close then max lower_basic lower else lower_basic);
         direction' = (if direction = -1 then (if upper' < c then 1 else -1) else (if c < lower' then -1 else 1))
     in \<lparr>su_value = Some (if direction' = 1 then lower' else upper'), su_direction = direction'\<rparr>
        # supertrend_loop c upper' lower' direction' rest)"

text \<open>The basic bands of a bar; before the ATR is warm they are NaN.\<close>

definition mid_price :: "bar \<Rightarrow> rat" where
  "mid_price b = fl_div (fl_add (b_high b) (b_low b)) 2"

definition basic_bands :: "rat \<Rightarrow> bar \<Rightarrow> rat option \<Rightarrow> (rat \<times> rat \<times> rat) option" where
  "basic_bands multiplier b a = map_option (\<lambda>x. (fl_add (mid_price b) (fl_mul multiplier x),
     fl_sub (mid_price b) (fl_mul multiplier x), b_close b)) a"

definition supertrend_values :: "numlib \<Rightarrow> nat \<Rightarrow> rat \<Rightarrow> bar list \<Rightarrow> supertrend_row list" where
  "supertrend_values lib period multiplier bars = (
     let rows = map2 (basic_bands multiplier) bars (atr_values lib period bars); start = period - 1;
         cold = replicate (min start (length bars)) \<lparr>su_value = None, su_direction = 0\<rparr>
     in cold @ (case drop start (zip bars rows) of
          (b, Some (upper, lower, c)) # rest \<Rightarrow>
            (let direction = (if mid_price b < c then 1 else -1) in
             \<lparr>su_value = Some (if direction = 1 then lower else upper), su_direction = direction\<rparr>
             # supertrend_loop c upper lower direction (map (the \<circ> snd) rest))
        | _ \<Rightarrow> []))"

definition supertrend :: "numlib \<Rightarrow> int \<Rightarrow> rat \<Rightarrow> bar list \<Rightarrow> py_error + supertrend_row list" where
  "supertrend lib period multiplier bars = bindE (require_period period 1) (\<lambda>_.
     Inr (supertrend_values lib (nat period) multiplier bars))"

end
