(* ===== verification/PT_Streaming.thy ===== *)
theory PT_Streaming
  imports PT_Indicators
begin

text \<open>
  The incremental indicators of \<open>indicators/streaming.py\<close>, and their equivalence with the batch
  functions. The constant attributes of a state object (period, smoothing factor) are arguments;
  its state is what \<open>update\<close> assigns.
\<close>

section \<open>Streams\<close>

primrec run_stream :: "('s \<Rightarrow> 'x \<Rightarrow> 'o \<times> 's) \<Rightarrow> 's \<Rightarrow> 'x list \<Rightarrow> 'o list" where
  "run_stream upd s [] = []"
| "run_stream upd s (x # xs) = (case upd s x of (out, t) \<Rightarrow> out # run_stream upd t xs)"

primrec end_state :: "('s \<Rightarrow> 'x \<Rightarrow> 'o \<times> 's) \<Rightarrow> 's \<Rightarrow> 'x list \<Rightarrow> 's" where
  "end_state upd s [] = s"
| "end_state upd s (x # xs) = end_state upd (snd (upd s x)) xs"

lemma run_stream_append: "run_stream upd s (xs @ ys) = run_stream upd s xs @ run_stream upd (end_state upd s xs) ys"
  by (induction xs arbitrary: s) (auto split: prod.split)

lemma end_state_append: "end_state upd s (xs @ ys) = end_state upd (end_state upd s xs) ys"
  by (induction xs arbitrary: s) auto

lemma length_run_stream [simp]: "length (run_stream upd s xs) = length xs"
  by (induction xs arbitrary: s) (auto split: prod.split)

text \<open>
  A streaming state that emits exactly its batch series. Then the batch function is causal: what
  it says of a bar depends on the bars up to it only.
\<close>

definition causal :: "('x list \<Rightarrow> 'o list) \<Rightarrow> bool" where
  "causal f \<longleftrightarrow> (\<forall>xs ys. take (length xs) (f (xs @ ys)) = f xs) \<and> (\<forall>xs. length (f xs) = length xs)"

locale streaming =
  fixes upd :: "'s \<Rightarrow> 'x \<Rightarrow> 'o \<times> 's" and start :: 's and batch :: "'x list \<Rightarrow> 'o list"
  assumes stream_batch: "run_stream upd start xs = batch xs"
begin

lemma batch_causal: "causal batch"
  unfolding causal_def stream_batch [symmetric] by (simp add: run_stream_append)

lemma latest: "fst (upd (end_state upd start xs) x) = last (batch (xs @ [x]))"
  unfolding stream_batch [symmetric] run_stream_append by (simp split: prod.split)

lemma emitted: "i < length xs \<Longrightarrow> batch xs ! i = fst (upd (end_state upd start (take i xs)) (xs ! i))"
proof -
  assume i: "i < length xs"
  have "batch xs ! i = take (Suc i) (batch xs) ! i" by simp
  also have "take (Suc i) (batch xs) = batch (take i xs @ [xs ! i])"
    using batch_causal i unfolding causal_def
    by (metis append_take_drop_id length_take min_absorb2 Suc_leI take_Suc_conv_app_nth)
  also have "batch (take i xs @ [xs ! i]) ! i = last (batch (take i xs @ [xs ! i]))"
    using batch_causal i unfolding causal_def by (subst last_conv_nth) (auto simp flip: length_0_conv)
  finally show ?thesis by (simp add: latest)
qed

end

section \<open>Windows\<close>

text \<open>\<open>deque(maxlen=period)\<close>.\<close>

definition push :: "nat \<Rightarrow> 'a list \<Rightarrow> 'a \<Rightarrow> 'a list" where
  "push n buf x = (let b = buf @ [x] in drop (length b - n) b)"

definition sma_update :: "numlib \<Rightarrow> nat \<Rightarrow> rat list \<Rightarrow> rat \<Rightarrow> rat option \<times> rat list" where
  "sma_update lib period buf x = (let b = push period buf x in
     (if length b < period then None else Some (nl_mean lib b), b))"

lemma windows_Suc: "windows f p (xs @ [x]) = windows f p xs @
    [if Suc (length xs) < p then None else Some (f (drop (Suc (length xs) - p) (xs @ [x])))]"
  unfolding windows_def by (auto simp: take_append)

definition last_n :: "nat \<Rightarrow> 'a list \<Rightarrow> 'a list" where
  "last_n n xs = drop (length xs - n) xs"

lemma push_last_n: "push n (last_n n xs) x = last_n n (xs @ [x])"
  by (cases "n \<le> length xs") (auto simp: push_def last_n_def Let_def Suc_diff_le)

lemma length_last_n: "length (last_n n xs) = min n (length xs)"
  by (auto simp: last_n_def)

lemma window_stream:
  assumes "\<And>buf x. upd buf x = (g (push p buf x), push p buf x)"
  shows "run_stream upd [] xs = map (\<lambda>i. g (last_n p (take (Suc i) xs))) [0..<length xs] \<and>
    end_state upd [] xs = last_n p xs"
proof (induction xs rule: rev_induct)
  case Nil
  then show ?case by (simp add: last_n_def)
next
  case (snoc x xs)
  then show ?case by (auto simp: run_stream_append end_state_append assms push_last_n take_append)
qed

lemma windows_last_n: "windows f p xs =
    map (\<lambda>i. if length (last_n p (take (Suc i) xs)) < p then None else Some (f (last_n p (take (Suc i) xs)))) [0..<length xs]"
proof -
  have "last_n p (take (Suc i) xs) = take p (drop (Suc i - p) xs)" if "i < length xs" "p \<le> Suc i" for i
  proof -
    have "length (take (Suc i) xs) = Suc i" using that by simp
    then show ?thesis using that unfolding last_n_def by (simp only: drop_take) simp
  qed
  then show ?thesis unfolding windows_def by (intro map_cong) (auto simp: length_last_n min_def)
qed

interpretation sma_stream: streaming "sma_update lib p" "[]" "windows (nl_mean lib) p" for lib p
proof
  fix xs
  show "run_stream (sma_update lib p) [] xs = windows (nl_mean lib) p xs"
    using window_stream [of "sma_update lib p" "\<lambda>b. if length b < p then None else Some (nl_mean lib b)" p xs]
    by (simp add: sma_update_def Let_def windows_last_n)
qed

definition bollinger_update ::
  "numlib \<Rightarrow> nat \<Rightarrow> rat \<Rightarrow> rat list \<Rightarrow> rat \<Rightarrow> (rat \<times> rat \<times> rat) option \<times> rat list" where
  "bollinger_update lib period num_std buf x = (let b = push period buf x in
     (if length b < period then None
      else (let middle = nl_mean lib b; band = fl_mul num_std (nl_std lib b) in
        Some (middle, fl_add middle band, fl_sub middle band)), b))"

definition bollinger_rows :: "numlib \<Rightarrow> nat \<Rightarrow> rat \<Rightarrow> rat list \<Rightarrow> (rat \<times> rat \<times> rat) option list" where
  "bollinger_rows lib p num_std xs = map2 (\<lambda>m s. case (m, s) of (Some m, Some s) \<Rightarrow>
     Some (m, fl_add m (fl_mul num_std s), fl_sub m (fl_mul num_std s)) | _ \<Rightarrow> None)
   (windows (nl_mean lib) p xs) (windows (nl_std lib) p xs)"

interpretation bollinger_stream: streaming "bollinger_update lib p k" "[]" "bollinger_rows lib p k" for lib p k
proof
  fix xs
  show "run_stream (bollinger_update lib p k) [] xs = bollinger_rows lib p k xs"
    using window_stream [of "bollinger_update lib p k" "\<lambda>b. if length b < p then None
      else (let middle = nl_mean lib b; band = fl_mul k (nl_std lib b) in Some (middle, fl_add middle band, fl_sub middle band))" p xs]
    by (auto simp: bollinger_update_def Let_def windows_last_n bollinger_rows_def zip_map_map zip_same_conv_map)
qed

section \<open>Seeded smoothing\<close>

text \<open>The common shape of \<open>EMAState\<close>, \<open>RSIState\<close> and \<open>ATRState\<close>: a seed buffer until it is full, then a recurrence.\<close>

record ('x, 'v) seeded_state =
  sd_buf :: "'x list"
  sd_value :: "'v option"

definition seeded_init :: "('x, 'v) seeded_state" where
  "seeded_init = \<lparr>sd_buf = [], sd_value = None\<rparr>"

definition seeded_update ::
  "nat \<Rightarrow> ('x list \<Rightarrow> 'v) \<Rightarrow> ('v \<Rightarrow> 'x \<Rightarrow> 'v) \<Rightarrow> ('x, 'v) seeded_state \<Rightarrow> 'x \<Rightarrow> 'v option \<times> ('x, 'v) seeded_state" where
  "seeded_update period seed step st x = (case sd_value st of
     None \<Rightarrow> (let buf = sd_buf st @ [x] in
       if length buf < period then (None, st\<lparr>sd_buf := buf\<rparr>)
       else (Some (seed buf), st\<lparr>sd_buf := buf, sd_value := Some (seed buf)\<rparr>))
   | Some v \<Rightarrow> (let w = step v x in (Some w, st\<lparr>sd_value := Some w\<rparr>)))"

lemma seeded_warm:
  "sd_value st = Some v \<Longrightarrow> run_stream (seeded_update p seed step) st xs = map Some (smooth step v xs)"
  by (induction xs arbitrary: st v) (auto simp: seeded_update_def Let_def)

lemma seeded_cold_nth: "i < length ys \<Longrightarrow> Suc i < p \<Longrightarrow> i < length (seeded p seed step ys) \<and> seeded p seed step ys ! i = None"
  by (auto simp: seeded_def Let_def nth_append)

lemma seeded_cold:
  assumes "sd_value st = None" "length (sd_buf st) < p"
  shows "run_stream (seeded_update p seed step) st xs = drop (length (sd_buf st)) (seeded p seed step (sd_buf st @ xs))"
  using assms
proof (induction xs arbitrary: st)
  case Nil
  then show ?case by (simp add: seeded_def)
next
  case (Cons x xs)
  let ?buf = "sd_buf st @ [x]"
  show ?case
  proof (cases "length ?buf < p")
    case True
    then have "seeded_update p seed step st x = (None, st\<lparr>sd_buf := ?buf\<rparr>)"
      using Cons.prems by (simp add: seeded_update_def)
    then have run: "run_stream (seeded_update p seed step) st (x # xs) = None # drop (length ?buf) (seeded p seed step (?buf @ xs))"
      using Cons.IH [of "st\<lparr>sd_buf := ?buf\<rparr>"] Cons.prems True by simp
    have "length (sd_buf st) < length (seeded p seed step (?buf @ xs))" "seeded p seed step (?buf @ xs) ! length (sd_buf st) = None"
      using seeded_cold_nth [of "length (sd_buf st)" "?buf @ xs" p seed step] True by simp_all
    then show ?thesis unfolding run
      using Cons_nth_drop_Suc [of "length (sd_buf st)" "seeded p seed step (?buf @ xs)"] by simp
  next
    case False
    then have p: "p = length ?buf" using Cons.prems(2) by simp
    then have "seeded_update p seed step st x = (Some (seed ?buf), st\<lparr>sd_buf := ?buf, sd_value := Some (seed ?buf)\<rparr>)"
      using Cons.prems by (simp add: seeded_update_def Let_def)
    then have "run_stream (seeded_update p seed step) st (x # xs) = Some (seed ?buf) # map Some (smooth step (seed ?buf) xs)"
      by (simp add: seeded_warm)
    moreover have "seeded p seed step (sd_buf st @ x # xs) =
        replicate (length (sd_buf st)) None @ Some (seed ?buf) # map Some (smooth step (seed ?buf) xs)"
      unfolding seeded_def Let_def using p by simp
    ultimately show ?thesis by simp
  qed
qed

interpretation seeded_stream: streaming "seeded_update (Suc k) seed step" seeded_init "seeded (Suc k) seed step" for k seed step
proof
  fix xs
  show "run_stream (seeded_update (Suc k) seed step) seeded_init xs = seeded (Suc k) seed step xs"
    by (subst seeded_cold) (simp_all add: seeded_init_def)
qed

definition ema_update :: "numlib \<Rightarrow> nat \<Rightarrow> (rat, rat) seeded_state \<Rightarrow> rat \<Rightarrow> rat option \<times> (rat, rat) seeded_state" where
  "ema_update lib period = seeded_update period (nl_mean lib) (ema_step period)"

interpretation ema_stream: streaming "ema_update lib (Suc k)" seeded_init "ema_values lib (Suc k)" for lib k
  unfolding ema_update_def ema_values_def by (rule seeded_stream.streaming_axioms)

text \<open>\<open>RSIState\<close> and \<open>ATRState\<close> remember the previous close.\<close>

record 'v wilder_state =
  ws_prev_close :: "rat option"
  ws_seeded :: 'v

definition rsi_init :: "(rat \<times> rat, rat \<times> rat) seeded_state wilder_state" where
  "rsi_init = \<lparr>ws_prev_close = None, ws_seeded = seeded_init\<rparr>"

definition rsi_update :: "numlib \<Rightarrow> nat \<Rightarrow> (rat \<times> rat, rat \<times> rat) seeded_state wilder_state \<Rightarrow> rat \<Rightarrow>
    rat option \<times> (rat \<times> rat, rat \<times> rat) seeded_state wilder_state" where
  "rsi_update lib period st close = (case ws_prev_close st of
     None \<Rightarrow> (None, st\<lparr>ws_prev_close := Some close\<rparr>)
   | Some prev \<Rightarrow>
       (case seeded_update period (seed_averages lib) (rsi_step period) (ws_seeded st) (gain_loss (fl_sub close prev)) of
          (avgs, inner) \<Rightarrow> (map_option rsi_value avgs, st\<lparr>ws_prev_close := Some close, ws_seeded := inner\<rparr>)))"

lemma rsi_run: "ws_prev_close st = Some c \<Longrightarrow> run_stream (rsi_update lib p) st cs =
    map (map_option rsi_value) (run_stream (seeded_update p (seed_averages lib) (rsi_step p)) (ws_seeded st) (map gain_loss (deltas_from c cs)))"
  by (induction cs arbitrary: st c) (auto simp: rsi_update_def split: prod.split)

interpretation rsi_stream: streaming "rsi_update lib (Suc k)" rsi_init "rsi_values lib (Suc k)" for lib k
proof
  fix xs
  show "run_stream (rsi_update lib (Suc k)) rsi_init xs = rsi_values lib (Suc k) xs"
  proof (cases xs)
    case (Cons c cs)
    let ?st = "rsi_init\<lparr>ws_prev_close := Some c\<rparr>"
    have "run_stream (rsi_update lib (Suc k)) rsi_init xs = None # run_stream (rsi_update lib (Suc k)) ?st cs"
      by (simp add: Cons rsi_update_def rsi_init_def)
    then show ?thesis
      using rsi_run [of ?st c lib "Suc k" cs] by (simp add: Cons rsi_values_def rsi_init_def seeded_stream.stream_batch)
  qed (simp add: rsi_values_def)
qed

definition atr_init :: "(rat, rat) seeded_state wilder_state" where
  "atr_init = \<lparr>ws_prev_close = None, ws_seeded = seeded_init\<rparr>"

definition atr_update :: "numlib \<Rightarrow> nat \<Rightarrow> (rat, rat) seeded_state wilder_state \<Rightarrow> bar \<Rightarrow>
    rat option \<times> (rat, rat) seeded_state wilder_state" where
  "atr_update lib period st b = (
     let tr = (case ws_prev_close st of
           None \<Rightarrow> fl_sub (b_high b) (b_low b)
         | Some prev \<Rightarrow> max (fl_sub (b_high b) (b_low b)) (max \<bar>fl_sub (b_high b) prev\<bar> \<bar>fl_sub (b_low b) prev\<bar>)) in
     (case seeded_update period (nl_mean lib) (wilder period) (ws_seeded st) tr of
        (out, inner) \<Rightarrow> (out, st\<lparr>ws_prev_close := Some (b_close b), ws_seeded := inner\<rparr>)))"

lemma atr_run: "ws_prev_close st = Some c \<Longrightarrow> run_stream (atr_update lib p) st bs =
    run_stream (seeded_update p (nl_mean lib) (wilder p)) (ws_seeded st) (ranges_from c bs)"
  by (induction bs arbitrary: st c) (auto simp: atr_update_def split: prod.split)

interpretation atr_stream: streaming "atr_update lib (Suc k)" atr_init "atr_values lib (Suc k)" for lib k
proof
  fix xs
  show "run_stream (atr_update lib (Suc k)) atr_init xs = atr_values lib (Suc k) xs"
  proof (cases xs)
    case (Cons b bs)
    obtain out inner where first: "seeded_update (Suc k) (nl_mean lib) (wilder (Suc k)) seeded_init (fl_sub (b_high b) (b_low b)) = (out, inner)"
      by fastforce
    have "run_stream (atr_update lib (Suc k)) atr_init xs =
        run_stream (seeded_update (Suc k) (nl_mean lib) (wilder (Suc k))) seeded_init (true_range xs)"
      by (simp add: Cons atr_update_def atr_init_def first true_range_def atr_run split: prod.split)
    then show ?thesis by (simp add: atr_values_def seeded_stream.stream_batch)
  qed (simp add: atr_values_def true_range_def seeded_def)
qed

section \<open>MACD\<close>

record macd_state =
  ms_fast :: "(rat, rat) seeded_state"
  ms_slow :: "(rat, rat) seeded_state"
  ms_signal :: "(rat, rat) seeded_state"

definition macd_init :: macd_state where
  "macd_init = \<lparr>ms_fast = seeded_init, ms_slow = seeded_init, ms_signal = seeded_init\<rparr>"

record macd_value =
  mv_macd :: rat
  mv_signal :: "rat option"
  mv_hist :: "rat option"

definition macd_update :: "numlib \<Rightarrow> nat \<Rightarrow> nat \<Rightarrow> nat \<Rightarrow> macd_state \<Rightarrow> rat \<Rightarrow> macd_value option \<times> macd_state" where
  "macd_update lib fast slow signal st close = (
     case ema_update lib fast (ms_fast st) close of (fast_value, f) \<Rightarrow>
     case ema_update lib slow (ms_slow st) close of (slow_value, s) \<Rightarrow>
     case lift2 fl_sub fast_value slow_value of
       None \<Rightarrow> (None, st\<lparr>ms_fast := f, ms_slow := s\<rparr>)
     | Some m \<Rightarrow> (case ema_update lib signal (ms_signal st) m of (signal_value, g) \<Rightarrow>
         (Some \<lparr>mv_macd = m, mv_signal = signal_value, mv_hist = map_option (fl_sub m) signal_value\<rparr>,
          st\<lparr>ms_fast := f, ms_slow := s, ms_signal := g\<rparr>)))"

text \<open>The row of the batch frame for what the stream emitted.\<close>

definition macd_row_of :: "macd_value option \<Rightarrow> macd_row" where
  "macd_row_of v = (case v of
     None \<Rightarrow> \<lparr>mr_macd = None, mr_signal = None, mr_hist = None\<rparr>
   | Some x \<Rightarrow> \<lparr>mr_macd = Some (mv_macd x), mr_signal = mv_signal x, mr_hist = mv_hist x\<rparr>)"

lemma macd_run:
  "map macd_row_of (run_stream (macd_update lib fast slow signal) st xs) = (
     let line = map2 (lift2 fl_sub) (run_stream (ema_update lib fast) (ms_fast st) xs) (run_stream (ema_update lib slow) (ms_slow st) xs);
         signal_line = scatter line (run_stream (ema_update lib signal) (ms_signal st) (valid_values line))
     in map2 (\<lambda>m s. \<lparr>mr_macd = m, mr_signal = s, mr_hist = lift2 fl_sub m s\<rparr>) line signal_line)"
proof (induction xs arbitrary: st)
  case (Cons x xs)
  show ?case
  proof (cases "lift2 fl_sub (fst (ema_update lib fast (ms_fast st) x)) (fst (ema_update lib slow (ms_slow st) x))")
    case None
    then show ?thesis using Cons
      by (auto simp: macd_update_def macd_row_of_def valid_values_def Let_def lift2_def split: prod.splits option.splits)
  next
    case (Some m)
    then show ?thesis using Cons
      by (simp add: macd_update_def macd_row_of_def valid_values_def Let_def split: prod.splits)
         (auto simp: lift2_def split: option.splits)
  qed
qed (simp add: valid_values_def Let_def)

interpretation macd_stream: streaming "\<lambda>st x. apfst macd_row_of (macd_update lib (Suc i) (Suc j) (Suc k) st x)" macd_init
    "macd_values lib (Suc i) (Suc j) (Suc k)" for lib i j k
proof
  fix xs
  have map_run: "run_stream (\<lambda>st x. apfst f (upd st x)) s ys = map f (run_stream upd s ys)" for f and upd :: "'s \<Rightarrow> 'x \<Rightarrow> 'o \<times> 's" and s ys
    by (induction ys arbitrary: s) (auto simp: apfst_def map_prod_def split: prod.split)
  show "run_stream (\<lambda>st x. apfst macd_row_of (macd_update lib (Suc i) (Suc j) (Suc k) st x)) macd_init xs =
      macd_values lib (Suc i) (Suc j) (Suc k) xs"
    unfolding map_run macd_run by (simp add: macd_values_def macd_init_def ema_stream.stream_batch)
qed

section \<open>RSI is a percentage\<close>

lemma rsi_value_range:
  assumes "0 \<le> g" "0 \<le> l"
  shows "0 \<le> rsi_value (g, l)" "rsi_value (g, l) \<le> 100"
proof -
  have lit: "fl_rnd 100 = 100" "fl_rnd 1 = 1" using fl.rnd_int [of 100] fl.rnd_1 by simp_all
  have "0 \<le> rsi_value (g, l) \<and> rsi_value (g, l) \<le> 100"
  proof (cases "l = 0")
    case False
    then have "0 \<le> fl_div g l" using assms by (simp add: fl_div_def fl.rnd_nonneg_iff)
    then have d: "1 \<le> fl_add 1 (fl_div g l)" unfolding fl_add_def by (intro fl.rnd_ge) (simp_all add: lit)
    let ?d = "fl_add 1 (fl_div g l)"
    have "100 / ?d \<le> 100" using d by (simp add: divide_le_eq)
    then have "fl_div 100 ?d \<le> 100" unfolding fl_div_def by (intro fl.rnd_le) (simp_all add: lit)
    moreover have "0 \<le> fl_div 100 ?d" using d by (simp add: fl_div_def fl.rnd_nonneg_iff)
    ultimately have "0 \<le> fl_sub 100 (fl_div 100 ?d)" "fl_sub 100 (fl_div 100 ?d) \<le> 100"
      unfolding fl_sub_def by (simp_all add: fl.rnd_nonneg_iff fl.rnd_sub_right lit)
    then show ?thesis using False by (simp add: rsi_value_def)
  qed (simp add: rsi_value_def)
  then show "0 \<le> rsi_value (g, l)" "rsi_value (g, l) \<le> 100" by simp_all
qed

lemma wilder_nonneg: "0 < p \<Longrightarrow> 0 \<le> prev \<Longrightarrow> 0 \<le> x \<Longrightarrow> 0 \<le> wilder p prev x"
  by (simp add: wilder_def fl_div_def fl_add_def fl_mul_def fl.rnd_nonneg_iff)

lemma smooth_invariant: "P v \<Longrightarrow> (\<And>v x. P v \<Longrightarrow> x \<in> set xs \<Longrightarrow> P (step v x)) \<Longrightarrow> w \<in> set (smooth step v xs) \<Longrightarrow> P w"
  by (induction xs arbitrary: v) (auto simp: Let_def)

lemma seeded_invariant:
  assumes "Some w \<in> set (seeded p seed step xs)" and "p \<le> length xs \<Longrightarrow> P (seed (take p xs))"
    and "\<And>v x. P v \<Longrightarrow> x \<in> set xs \<Longrightarrow> P (step v x)"
  shows "P w"
  using assms smooth_invariant [of P "seed (take p xs)" "drop p xs" step w]
  by (auto simp: seeded_def Let_def dest: in_set_dropD split: if_splits)

lemma rsi_values_range:
  assumes lib: "numlib_ok lib" and x: "Some x \<in> set (rsi_values lib (Suc k) close)"
  shows "0 \<le> x \<and> x \<le> 100"
proof -
  let ?nonneg = "\<lambda>a :: rat \<times> rat. 0 \<le> fst a \<and> 0 \<le> snd a"
  obtain c cs where close: "close = c # cs" using x by (cases close) (auto simp: rsi_values_def)
  let ?gls = "map gain_loss (deltas_from c cs)"
  have nn: "?nonneg gl" if "gl \<in> set ?gls" for gl using that by (auto simp: gain_loss_def)
  from x obtain a where a: "Some a \<in> set (seeded (Suc k) (seed_averages lib) (rsi_step (Suc k)) ?gls)" "x = rsi_value a"
  proof -
    from x have "Some x \<in> map_option rsi_value ` set (seeded (Suc k) (seed_averages lib) (rsi_step (Suc k)) ?gls)"
      unfolding close rsi_values_def by simp
    then obtain v where v: "v \<in> set (seeded (Suc k) (seed_averages lib) (rsi_step (Suc k)) ?gls)" "Some x = map_option rsi_value v"
      by (elim imageE) blast
    obtain a where a: "v = Some a" "x = rsi_value a" using v(2) by (cases v) simp_all
    show thesis by (rule that [OF _ a(2)]) (use v(1) a(1) in simp)
  qed
  have "?nonneg a"
  proof (rule seeded_invariant [OF a(1)])
    assume "Suc k \<le> length ?gls"
    then have ne: "take (Suc k) ?gls \<noteq> []" by (cases ?gls) auto
    have "\<forall>y \<in> set (map fst (take (Suc k) ?gls)). 0 \<le> y" "\<forall>y \<in> set (map snd (take (Suc k) ?gls)). 0 \<le> y"
      using nn by (auto dest!: in_set_takeD)
    then show "?nonneg (seed_averages lib (take (Suc k) ?gls))"
      using lib ne by (auto simp: numlib_ok_def seed_averages_def)
  next
    fix v gl assume "?nonneg v" "gl \<in> set ?gls"
    with nn show "?nonneg (rsi_step (Suc k) v gl)" by (auto simp: rsi_step_def wilder_nonneg)
  qed
  then show ?thesis using rsi_value_range [of "fst a" "snd a"] a(2) by simp
qed

end
