(* ===== verification/PT_Bridge.thy ===== *)
theory PT_Bridge
  imports PT_Streaming PT_Strategy_Base "HOL-Library.AList"
begin

text \<open>
  How strategies see indicators: the precomputed series of a backtest
  (\<open>backtest/indicator_bridge.py\<close>) and the incrementally updated view of a live session
  (\<open>orchestrator/indicator_bridge.py\<close>). A Python dict is an association list with one entry per
  key; parameters of an indicator are keyword arguments. A period that is not an integer is
  rejected (the program declares its periods as integers).
\<close>

section \<open>Keyword arguments\<close>

text \<open>The arguments of a call \<open>f(**params)\<close>, in the order of the signature; \<open>None\<close> is a parameter without default.\<close>

definition kwargs :: "(string \<times> rat) list \<Rightarrow> (string \<times> rat option) list \<Rightarrow> py_error + rat list" where
  "kwargs params signature = (if \<not> set (map fst params) \<subseteq> set (map fst signature) then Inl PyTypeError
     else forE signature (\<lambda>(k, dflt). case map_of params k of
         Some v \<Rightarrow> Inr v
       | None \<Rightarrow> (case dflt of Some v \<Rightarrow> Inr v | None \<Rightarrow> Inl PyTypeError)))"

definition int_arg :: "rat \<Rightarrow> py_error + int" where
  "int_arg r = (if r = of_int \<lfloor>r\<rfloor> then Inr \<lfloor>r\<rfloor> else Inl PyValueError)"

definition period_arg :: "(string \<times> rat) list \<Rightarrow> rat option \<Rightarrow> py_error + int" where
  "period_arg params dflt = bindE (kwargs params [(''period'', dflt)]) (\<lambda>vs. int_arg (vs ! 0))"

definition macd_args :: "(string \<times> rat) list \<Rightarrow> py_error + int \<times> int \<times> int" where
  "macd_args params = bindE (kwargs params [(''fast'', Some 12), (''slow'', Some 26), (''signal'', Some 9)]) (\<lambda>vs.
     bindE (int_arg (vs ! 0)) (\<lambda>f. bindE (int_arg (vs ! 1)) (\<lambda>s. bindE (int_arg (vs ! 2)) (\<lambda>g. Inr (f, s, g)))))"

definition bollinger_args :: "(string \<times> rat) list \<Rightarrow> py_error + int \<times> rat" where
  "bollinger_args params = bindE (kwargs params [(''period'', Some 20), (''num_std'', Some 2)]) (\<lambda>vs.
     bindE (int_arg (vs ! 0)) (\<lambda>p. Inr (p, vs ! 1)))"

definition supertrend_args :: "(string \<times> rat) list \<Rightarrow> py_error + int \<times> rat" where
  "supertrend_args params = bindE (kwargs params [(''period'', Some 10), (''multiplier'', Some 3)]) (\<lambda>vs.
     bindE (int_arg (vs ! 0)) (\<lambda>p. Inr (p, vs ! 1)))"

section \<open>Precomputed series\<close>

datatype ind_output = Series series | Frame "(string \<times> series) list"

definition bar_of :: "candle \<Rightarrow> bar" where
  "bar_of c = \<lparr>b_high = cd_high c, b_low = cd_low c, b_close = cd_close c\<rparr>"

definition dispatch :: "numlib \<Rightarrow> string \<Rightarrow> (string \<times> rat) list \<Rightarrow> candle list \<Rightarrow> py_error + ind_output" where
  "dispatch lib kind params candles = (
     let close = map cd_close candles; bars = map bar_of candles in
     if kind = ''sma'' then bindE (period_arg params None) (\<lambda>p. bindE (sma lib p close) (\<lambda>s. Inr (Series s)))
     else if kind = ''ema'' then bindE (period_arg params None) (\<lambda>p. bindE (ema lib p close) (\<lambda>s. Inr (Series s)))
     else if kind = ''rsi'' then bindE (period_arg params (Some 14)) (\<lambda>p. bindE (rsi lib p close) (\<lambda>s. Inr (Series s)))
     else if kind = ''atr'' then bindE (period_arg params (Some 14)) (\<lambda>p. bindE (atr lib p bars) (\<lambda>s. Inr (Series s)))
     else if kind = ''macd'' then bindE (macd_args params) (\<lambda>(f, s, g). bindE (macd lib f s g close) (\<lambda>rows.
       Inr (Frame [(''macd'', map mr_macd rows), (''signal'', map mr_signal rows), (''hist'', map mr_hist rows)])))
     else if kind = ''bollinger'' then bindE (bollinger_args params) (\<lambda>(p, k). bindE (bollinger lib p k close) (\<lambda>rows.
       Inr (Frame [(''middle'', map bd_middle rows), (''upper'', map bd_upper rows), (''lower'', map bd_lower rows)])))
     else if kind = ''vwap'' then Inr (Series (vwap lib (map cd_ts candles) bars (map cd_volume candles)))
     else if kind = ''obv'' then Inr (Series (map Some (obv lib close (map cd_volume candles))))
     else if kind = ''supertrend'' then bindE (supertrend_args params) (\<lambda>(p, m). bindE (supertrend lib p m bars) (\<lambda>rows.
       Inr (Frame [(''supertrend'', map su_value rows), (''direction'', map (\<lambda>r. Some (of_int (su_direction r))) rows)])))
     else if kind = ''true_range'' then Inr (Series (map Some (true_range bars)))
     else Inl UnknownIndicatorKind)"

definition dotted :: "string \<Rightarrow> string \<Rightarrow> string" where
  "dotted name column = name @ ''.'' @ column"

definition store_output :: "string \<Rightarrow> ind_output \<Rightarrow> (string \<times> series) list \<Rightarrow> (string \<times> series) list" where
  "store_output name out result = (case out of
     Series s \<Rightarrow> AList.update name s result
   | Frame cols \<Rightarrow> foldl (\<lambda>acc (c, s). AList.update (dotted name c) s acc) result cols)"

primrec compute_loop ::
  "numlib \<Rightarrow> candle list \<Rightarrow> (string \<times> indicator_spec) list \<Rightarrow> (string \<times> series) list \<Rightarrow> py_error + (string \<times> series) list" where
  "compute_loop lib candles [] result = Inr result"
| "compute_loop lib candles (ns # specs) result =
     bindE (dispatch lib (spec_kind (snd ns)) (spec_params (snd ns)) candles) (\<lambda>out.
       compute_loop lib candles specs (store_output (fst ns) out result))"

definition compute_indicator_set ::
  "numlib \<Rightarrow> candle list \<Rightarrow> (string \<times> indicator_spec) list \<Rightarrow> py_error + (string \<times> series) list" where
  "compute_indicator_set lib candles specs = compute_loop lib candles specs []"

definition first_all_valid_index :: "(string \<times> series) list \<Rightarrow> nat" where
  "first_all_valid_index series_by_name = (case series_by_name of
     [] \<Rightarrow> 0
   | (_, s) # _ \<Rightarrow> (let n = length s in
       case find (\<lambda>i. \<forall>x \<in> set series_by_name. snd x ! i \<noteq> None) [0..<n] of None \<Rightarrow> n | Some i \<Rightarrow> i))"

definition batch_view :: "(string \<times> series) list \<Rightarrow> nat \<Rightarrow> indicator_view" where
  "batch_view series_by_name index = \<lparr>
     iv_value = (\<lambda>name. case map_of series_by_name name of
         None \<Rightarrow> Inl PyKeyError
       | Some s \<Rightarrow> if index < length s then Inr (s ! index) else Inl PyIndexError),
     iv_window = (\<lambda>name n. case map_of series_by_name name of
         None \<Rightarrow> Inl PyKeyError
       | Some s \<Rightarrow> Inr (valid_values (drop (Suc index - n) (take (Suc index) s))))\<rparr>"

section \<open>The live view\<close>

datatype indicator_state =
    SMAState nat "rat list"
  | EMAState nat "(rat, rat) seeded_state"
  | RSIState nat "(rat \<times> rat, rat \<times> rat) seeded_state wilder_state"
  | ATRState nat "(rat, rat) seeded_state wilder_state"
  | MACDState nat nat nat macd_state
  | BollingerState nat rat "rat list"

definition with_period :: "int \<Rightarrow> int \<Rightarrow> (nat \<Rightarrow> indicator_state) \<Rightarrow> py_error + indicator_state" where
  "with_period p minimum f = bindE (require_period p minimum) (\<lambda>_. Inr (f (nat p)))"

definition new_state :: "indicator_spec \<Rightarrow> py_error + indicator_state" where
  "new_state spec = (let kind = spec_kind spec; params = spec_params spec in
     if kind = ''sma'' then bindE (period_arg params None) (\<lambda>p. with_period p 1 (\<lambda>n. SMAState n []))
     else if kind = ''ema'' then bindE (period_arg params None) (\<lambda>p. with_period p 1 (\<lambda>n. EMAState n seeded_init))
     else if kind = ''rsi'' then bindE (period_arg params (Some 14)) (\<lambda>p. with_period p 1 (\<lambda>n. RSIState n rsi_init))
     else if kind = ''atr'' then bindE (period_arg params (Some 14)) (\<lambda>p. with_period p 1 (\<lambda>n. ATRState n atr_init))
     else if kind = ''macd'' then bindE (macd_args params) (\<lambda>(f, s, g).
       if \<not> f < s then Inl PyValueError
       else bindE (require_period f 1) (\<lambda>_. bindE (require_period s 1) (\<lambda>_.
         with_period g 1 (\<lambda>n. MACDState (nat f) (nat s) n macd_init))))
     else if kind = ''bollinger'' then bindE (bollinger_args params) (\<lambda>(p, k). with_period p 2 (\<lambda>n. BollingerState n k []))
     else Inl UnknownIndicatorKind)"

text \<open>One update of a state: what it records under each of its names.\<close>

fun update_state :: "numlib \<Rightarrow> indicator_state \<Rightarrow> bar \<Rightarrow> rat option list \<times> indicator_state" where
  "update_state lib (SMAState p buf) b = (case sma_update lib p buf (b_close b) of (r, t) \<Rightarrow> ([r], SMAState p t))"
| "update_state lib (EMAState p st) b = (case ema_update lib p st (b_close b) of (r, t) \<Rightarrow> ([r], EMAState p t))"
| "update_state lib (RSIState p st) b = (case rsi_update lib p st (b_close b) of (r, t) \<Rightarrow> ([r], RSIState p t))"
| "update_state lib (ATRState p st) b = (case atr_update lib p st b of (r, t) \<Rightarrow> ([r], ATRState p t))"
| "update_state lib (MACDState f s g st) b = (case macd_update lib f s g st (b_close b) of (r, t) \<Rightarrow>
     (case r of None \<Rightarrow> [None, None, None] | Some v \<Rightarrow> [Some (mv_macd v), mv_signal v, mv_hist v], MACDState f s g t))"
| "update_state lib (BollingerState p k buf) b = (case bollinger_update lib p k buf (b_close b) of (r, t) \<Rightarrow>
     (case r of None \<Rightarrow> [None, None, None] | Some (m, u, l) \<Rightarrow> [Some m, Some u, Some l], BollingerState p k t))"

definition expand_names :: "string \<Rightarrow> string \<Rightarrow> string list" where
  "expand_names name kind =
     (if kind = ''macd'' then [dotted name ''macd'', dotted name ''signal'', dotted name ''hist'']
      else if kind = ''bollinger'' then [dotted name ''middle'', dotted name ''upper'', dotted name ''lower'']
      else [name])"

definition WINDOW_MAXLEN :: nat where "WINDOW_MAXLEN = 500"

record live_view =
  lv_states :: "((string \<times> string) \<times> indicator_state) list"
  lv_latest :: "(string \<times> rat option) list"
  lv_history :: "(string \<times> rat list) list"

definition live_view_init :: "(string \<times> indicator_spec) list \<Rightarrow> py_error + live_view" where
  "live_view_init specs = bindE (forE specs (\<lambda>(name, spec). bindE (new_state spec) (\<lambda>st. Inr ((name, spec_kind spec), st)))) (\<lambda>states.
     let keys = concat (map (\<lambda>((name, kind), _). expand_names name kind) states) in
     Inr \<lparr>lv_states = states, lv_latest = foldl (\<lambda>m k. AList.update k None m) [] keys,
       lv_history = foldl (\<lambda>m k. AList.update k [] m) [] keys\<rparr>)"

text \<open>\<open>_store\<close>: the latest value, and the bounded history of the values there were.\<close>

definition store_value :: "string \<Rightarrow> rat option \<Rightarrow> live_view \<Rightarrow> live_view" where
  "store_value key value v = (let w = v\<lparr>lv_latest := AList.update key value (lv_latest v)\<rparr> in
     case value of
       None \<Rightarrow> w
     | Some x \<Rightarrow> w\<lparr>lv_history := AList.update key
         (push WINDOW_MAXLEN (case map_of (lv_history w) key of None \<Rightarrow> [] | Some h \<Rightarrow> h) x) (lv_history w)\<rparr>)"

definition record_values :: "string list \<Rightarrow> rat option list \<Rightarrow> live_view \<Rightarrow> live_view" where
  "record_values keys values v = foldl (\<lambda>w (k, x). store_value k x w) v (zip keys values)"

primrec update_loop :: "numlib \<Rightarrow> bar \<Rightarrow> ((string \<times> string) \<times> indicator_state) list \<Rightarrow> live_view \<Rightarrow>
    ((string \<times> string) \<times> indicator_state) list \<times> live_view" where
  "update_loop lib b [] v = ([], v)"
| "update_loop lib b (ks # rest) v = (
     case update_state lib (snd ks) b of (values, st) \<Rightarrow>
     case update_loop lib b rest (record_values (expand_names (fst (fst ks)) (snd (fst ks))) values v) of (rest', w) \<Rightarrow>
       ((fst ks, st) # rest', w))"

definition live_update :: "numlib \<Rightarrow> bar \<Rightarrow> live_view \<Rightarrow> live_view" where
  "live_update lib b v = (case update_loop lib b (lv_states v) v of (states, w) \<Rightarrow> w\<lparr>lv_states := states\<rparr>)"

definition all_warm :: "live_view \<Rightarrow> bool" where
  "all_warm v \<longleftrightarrow> (\<forall>x \<in> set (lv_latest v). snd x \<noteq> None)"

text \<open>\<open>list(history)[-n:]\<close>; a window of length 0 is the whole history.\<close>

definition live_indicator_view :: "live_view \<Rightarrow> indicator_view" where
  "live_indicator_view v = \<lparr>
     iv_value = (\<lambda>name. case map_of (lv_latest v) name of None \<Rightarrow> Inl PyKeyError | Some x \<Rightarrow> Inr x),
     iv_window = (\<lambda>name n. case map_of (lv_history v) name of
         None \<Rightarrow> Inl PyKeyError
       | Some h \<Rightarrow> Inr (if n < length h \<and> n \<noteq> 0 then last_n n h else h))\<rparr>"

end
