(* ===== verification/PT_Parity.thy ===== *)
theory PT_Parity
  imports PT_Bridge
begin

text \<open>
  Parity of the two indicator views: after the live view was updated with the bars up to some bar,
  its values and windows are those of the backtest's precomputed series at that bar, for every
  kind of indicator that has a streaming state.
\<close>

section \<open>Columns\<close>

definition columns :: "string \<Rightarrow> ind_output \<Rightarrow> (string \<times> series) list" where
  "columns name out = (case out of Series s \<Rightarrow> [(name, s)] | Frame cols \<Rightarrow> map (\<lambda>(c, s). (dotted name c, s)) cols)"

lemma store_output_columns: "store_output name out result = foldl (\<lambda>acc (k, s). AList.update k s acc) result (columns name out)"
proof -
  have "foldl (\<lambda>acc (c, s). AList.update (dotted name c) s acc) r cols =
      foldl (\<lambda>acc (k, s). AList.update k s acc) r (map (\<lambda>(c, s). (dotted name c, s)) cols)" for r cols
    by (induction cols arbitrary: r) (auto split: prod.split)
  then show ?thesis by (cases out) (simp_all add: store_output_def columns_def)
qed

lemma map_of_foldl_update:
  "distinct (map fst kvs) \<Longrightarrow>
   map_of (foldl (\<lambda>acc (k, s). AList.update k s acc) r kvs) k = (case map_of kvs k of Some s \<Rightarrow> Some s | None \<Rightarrow> map_of r k)"
proof (induction kvs arbitrary: r)
  case (Cons kv kvs)
  obtain a s where kv: "kv = (a, s)" by fastforce
  have "map_of kvs a = None" using Cons.prems by (simp add: kv map_of_eq_None_iff)
  then show ?case using Cons by (auto simp: kv update_conv split: option.split)
qed simp

text \<open>The column of a stream of rows.\<close>

definition col :: "nat \<Rightarrow> 'a list list \<Rightarrow> 'a list" where
  "col j rows = map (\<lambda>r. r ! j) rows"

fun ncols :: "indicator_state \<Rightarrow> nat" where
  "ncols (MACDState _ _ _ _) = 3"
| "ncols (BollingerState _ _ _) = 3"
| "ncols _ = 1"

lemma update_state_cols: "length (fst (update_state lib st b)) = ncols st \<and> ncols (snd (update_state lib st b)) = ncols st"
  by (cases st) (auto split: prod.split option.split)

lemma new_state_ncols: "new_state spec = Inr st \<Longrightarrow> ncols st = length (expand_names name (spec_kind spec))"
  by (auto simp: new_state_def Let_def expand_names_def with_period_def bindE_Inr_conv split: if_splits)

section \<open>The streams of the states are the batch series\<close>

lemma run_one:
  assumes "\<And>st b. update_state lib (C st) b = (case upd st (g b) of (r, t) \<Rightarrow> ([f r], C t))"
  shows "run_stream (update_state lib) (C st) bs = map (\<lambda>r. [f r]) (run_stream upd st (map g bs))"
  by (induction bs arbitrary: st) (auto simp: assms split: prod.split)

lemma run_many:
  assumes "\<And>st b. update_state lib (C st) b = (case upd st (g b) of (r, t) \<Rightarrow> (f r, C t))"
  shows "run_stream (update_state lib) (C st) bs = map f (run_stream upd st (map g bs))"
  by (induction bs arbitrary: st) (auto simp: assms split: prod.split)

lemma nat_Suc: "require_period p 1 = Inr () \<Longrightarrow> \<exists>k. nat p = Suc k"
  by (cases "nat p") (auto simp: require_period_def split: if_splits)

lemma require_Inr [simp]: "require_period p m = Inr u \<longleftrightarrow> m \<le> p"
  by (auto simp: require_period_def)

lemma col_single: "col 0 (map (\<lambda>r. [f r]) xs) = map f xs"
  by (simp add: col_def)

definition stream_columns :: "numlib \<Rightarrow> nat \<Rightarrow> indicator_state \<Rightarrow> bar list \<Rightarrow> series list" where
  "stream_columns lib n st bars = map (\<lambda>j. col j (run_stream (update_state lib) st bars)) [0..<n]"

lemma stream_columns_1: "stream_columns lib (Suc 0) st bars = [col 0 (run_stream (update_state lib) st bars)]"
  by (simp add: stream_columns_def)

lemma stream_columns_3: "stream_columns lib (Suc (Suc (Suc 0))) st bars = [col 0 (run_stream (update_state lib) st bars),
    col (Suc 0) (run_stream (update_state lib) st bars), col (Suc (Suc 0)) (run_stream (update_state lib) st bars)]"
  by (simp add: stream_columns_def)

lemma b_close_bar_of [simp]: "b_close (bar_of c) = cd_close c"
  by (simp add: bar_of_def)

lemma closes_of_bars: "map b_close (map bar_of candles) = map cd_close candles"
  by (simp add: bar_of_def)

lemma windows_stream: "windows (nl_mean lib) p xs = run_stream (sma_update lib p) [] xs"
  by (simp add: sma_stream.stream_batch)

lemma bollinger_frame:
  assumes "numlib_ok lib" "1 \<le> p"
  shows "map2 (\<lambda>m s. let band = map_option (fl_mul k) s in
       \<lparr>bd_middle = m, bd_upper = lift2 fl_add m band, bd_lower = lift2 fl_sub m band\<rparr>)
      (nl_rolling_mean lib p xs) (nl_rolling_std lib p xs) =
    map (\<lambda>r. case r of None \<Rightarrow> \<lparr>bd_middle = None, bd_upper = None, bd_lower = None\<rparr>
      | Some (m, u, l) \<Rightarrow> \<lparr>bd_middle = Some m, bd_upper = Some u, bd_lower = Some l\<rparr>) (bollinger_rows lib p k xs)"
  using assms by (auto simp: numlib_ok_def bollinger_rows_def windows_def lift2_def zip_map_map zip_same_conv_map)

lemma dispatch_stream:
  assumes lib: "numlib_ok lib" and st: "new_state spec = Inr st"
    and out: "dispatch lib (spec_kind spec) (spec_params spec) candles = Inr out"
  shows "columns name out = zip (expand_names name (spec_kind spec))
    (stream_columns lib (length (expand_names name (spec_kind spec))) st (map bar_of candles))"
proof -
  let ?k = "spec_kind spec" and ?bars = "map bar_of candles" and ?close = "map cd_close candles"
  consider (sma) "?k = ''sma''" | (ema) "?k = ''ema''" | (rsi) "?k = ''rsi''" | (atr) "?k = ''atr''"
    | (macd) "?k = ''macd''" | (bollinger) "?k = ''bollinger''"
    using st by (auto simp: new_state_def Let_def split: if_splits)
  then show ?thesis
  proof cases
    case sma
    then obtain p where p: "1 \<le> p" "st = SMAState (nat p) []" "out = Series (nl_rolling_mean lib (nat p) ?close)"
      using st out by (auto simp: new_state_def dispatch_def with_period_def bindE_Inr_conv sma_def)
    have "run_stream (update_state lib) st ?bars = map (\<lambda>r. [id r]) (run_stream (sma_update lib (nat p)) [] (map b_close ?bars))"
      unfolding p(2) by (rule run_one) simp
    moreover have "nl_rolling_mean lib (nat p) ?close = run_stream (sma_update lib (nat p)) [] ?close"
      using lib p(1) by (simp add: numlib_ok_def windows_stream)
    ultimately show ?thesis
      by (simp add: sma p(3) expand_names_def columns_def stream_columns_1 comp_def col_def)
  next
    case ema
    then obtain p where p: "1 \<le> p" "st = EMAState (nat p) seeded_init" "out = Series (ema_values lib (nat p) ?close)"
      using st out by (auto simp: new_state_def dispatch_def with_period_def bindE_Inr_conv ema_def)
    obtain k where k: "nat p = Suc k" using p(1) by (cases "nat p") auto
    have "run_stream (update_state lib) st ?bars = map (\<lambda>r. [id r]) (run_stream (ema_update lib (nat p)) seeded_init (map b_close ?bars))"
      unfolding p(2) by (rule run_one) simp
    then show ?thesis
      by (simp add: ema p(3) expand_names_def columns_def stream_columns_1 comp_def col_def k ema_stream.stream_batch)
  next
    case rsi
    then obtain p where p: "1 \<le> p" "st = RSIState (nat p) rsi_init" "out = Series (rsi_values lib (nat p) ?close)"
      using st out by (auto simp: new_state_def dispatch_def with_period_def bindE_Inr_conv rsi_def)
    obtain k where k: "nat p = Suc k" using p(1) by (cases "nat p") auto
    have "run_stream (update_state lib) st ?bars = map (\<lambda>r. [id r]) (run_stream (rsi_update lib (nat p)) rsi_init (map b_close ?bars))"
      unfolding p(2) by (rule run_one) simp
    then show ?thesis
      by (simp add: rsi p(3) expand_names_def columns_def stream_columns_1 comp_def col_def k rsi_stream.stream_batch)
  next
    case atr
    then obtain p where p: "1 \<le> p" "st = ATRState (nat p) atr_init" "out = Series (atr_values lib (nat p) ?bars)"
      using st out by (auto simp: new_state_def dispatch_def with_period_def bindE_Inr_conv atr_def)
    obtain k where k: "nat p = Suc k" using p(1) by (cases "nat p") auto
    have "run_stream (update_state lib) st ?bars = map (\<lambda>r. [id r]) (run_stream (atr_update lib (nat p)) atr_init (map id ?bars))"
      unfolding p(2) by (rule run_one) simp
    then show ?thesis
      by (simp add: atr p(3) expand_names_def columns_def stream_columns_1 comp_def col_def k atr_stream.stream_batch)
  next
    case macd
    then obtain f s g where p: "1 \<le> f" "1 \<le> s" "1 \<le> g" "st = MACDState (nat f) (nat s) (nat g) macd_init"
      "out = Frame [(''macd'', map mr_macd (macd_values lib (nat f) (nat s) (nat g) ?close)),
        (''signal'', map mr_signal (macd_values lib (nat f) (nat s) (nat g) ?close)),
        (''hist'', map mr_hist (macd_values lib (nat f) (nat s) (nat g) ?close))]"
      using st out by (auto simp: new_state_def dispatch_def with_period_def bindE_Inr_conv macd_def split: if_splits)
    obtain i j k where k: "nat f = Suc i" "nat s = Suc j" "nat g = Suc k"
      using p(1-3) by (cases "nat f"; cases "nat s"; cases "nat g") auto
    let ?row = "\<lambda>r. [mr_macd (macd_row_of r), mr_signal (macd_row_of r), mr_hist (macd_row_of r)]"
    let ?rows = "run_stream (\<lambda>st x. apfst macd_row_of (macd_update lib (Suc i) (Suc j) (Suc k) st x)) macd_init ?close"
    have "run_stream (update_state lib) st ?bars = map (\<lambda>r. [mr_macd r, mr_signal r, mr_hist r])
        (run_stream (\<lambda>st x. apfst macd_row_of (macd_update lib (Suc i) (Suc j) (Suc k) st x)) macd_init (map b_close ?bars))"
      unfolding p(4) k by (rule run_many) (auto simp: macd_row_of_def split: prod.split option.split)
    then have "run_stream (update_state lib) st ?bars = map (\<lambda>r. [mr_macd r, mr_signal r, mr_hist r]) (macd_values lib (nat f) (nat s) (nat g) ?close)"
      unfolding closes_of_bars k macd_stream.stream_batch .
    then show ?thesis
      by (simp add: macd p(5) expand_names_def columns_def col_def stream_columns_3 comp_def)
  next
    case bollinger
    then obtain p c where p: "2 \<le> p" "st = BollingerState (nat p) c []" "bollinger lib p c ?close = Inr rows \<Longrightarrow> True"
      and bb: "bindE (bollinger lib p c ?close) (\<lambda>rows. Inr (Frame [(''middle'', map bd_middle rows), (''upper'', map bd_upper rows), (''lower'', map bd_lower rows)])) = Inr out" for rows
      using st out by (auto simp: new_state_def dispatch_def with_period_def bindE_Inr_conv)
    define rows where "rows = map (\<lambda>r. case r of None \<Rightarrow> \<lparr>bd_middle = None, bd_upper = None, bd_lower = None\<rparr>
      | Some (m, u, l) \<Rightarrow> \<lparr>bd_middle = Some m, bd_upper = Some u, bd_lower = Some l\<rparr>) (bollinger_rows lib (nat p) c ?close)"
    have "bollinger lib p c ?close = Inr rows"
      using p(1) bollinger_frame [OF lib, of "nat p" c ?close] by (simp add: bollinger_def rows_def require_period_def Let_def)
    then have out': "out = Frame [(''middle'', map bd_middle rows), (''upper'', map bd_upper rows), (''lower'', map bd_lower rows)]"
      using bb by simp
    have "run_stream (update_state lib) st ?bars = map (\<lambda>r. case r of None \<Rightarrow> [None, None, None] | Some (m, u, l) \<Rightarrow> [Some m, Some u, Some l])
        (run_stream (bollinger_update lib (nat p) c) [] (map b_close ?bars))"
      unfolding p(2) by (rule run_many) simp
    then have "run_stream (update_state lib) st ?bars = map (\<lambda>r. case r of None \<Rightarrow> [None, None, None] | Some (m, u, l) \<Rightarrow> [Some m, Some u, Some l])
        (bollinger_rows lib (nat p) c ?close)"
      unfolding closes_of_bars bollinger_stream.stream_batch .
    then show ?thesis
      by (simp add: bollinger out' rows_def expand_names_def columns_def col_def stream_columns_3 comp_def)
         (auto split: option.split)
  qed
qed

section \<open>Warm-up\<close>

text \<open>Once an indicator has a value it keeps having one.\<close>

definition warms :: "'a option list \<Rightarrow> bool" where
  "warms s \<longleftrightarrow> (\<exists>k ys. s = replicate k None @ map Some ys)"

lemma warmsI: "warms (replicate k None @ map Some ys)"
  by (auto simp: warms_def)

lemma valid_values_warm [simp]: "valid_values (replicate k None @ map Some ys) = ys"
  by (simp add: valid_values_def comp_def)

lemma warms_take:
  assumes "warms s" shows "warms (take n s)"
proof -
  obtain k ys where "s = replicate k None @ map Some ys" using assms by (auto simp: warms_def)
  then have "take n s = replicate (min n k) None @ map Some (take (n - k) ys)" by (simp add: take_map min_def)
  then show ?thesis by (metis warmsI)
qed

lemma warms_seeded: "warms (seeded p seed step xs)"
proof (cases "p \<le> length xs")
  case True
  then have "seeded p seed step xs = replicate (p - 1) None @ map Some (seed (take p xs) # smooth step (seed (take p xs)) (drop p xs))"
    by (simp add: seeded_def Let_def)
  then show ?thesis by (metis warmsI)
next
  case False
  then have "seeded p seed step xs = replicate (length xs) None @ map Some []" by (simp add: seeded_def)
  then show ?thesis by (metis warmsI)
qed

lemma warms_map_option: "warms s \<Longrightarrow> warms (map (map_option f) s)"
proof -
  assume "warms s"
  then obtain k ys where "s = replicate k None @ map Some ys" by (auto simp: warms_def)
  then have "map (map_option f) s = replicate k None @ map Some (map f ys)" by simp
  then show ?thesis by (metis warmsI)
qed

lemma warms_Cons_None: "warms s \<Longrightarrow> warms (None # s)"
  unfolding warms_def by (metis append_Cons replicate_Suc)

text \<open>A warm series, pointwise: \<open>None\<close> below some index, a value from there on.\<close>

lemma warms_iff: "warms s \<longleftrightarrow> (\<exists>k. \<forall>i < length s. s ! i = None \<longleftrightarrow> i < k)"
proof
  assume "warms s"
  then obtain k ys where "s = replicate k None @ map Some ys" by (auto simp: warms_def)
  then show "\<exists>k. \<forall>i < length s. s ! i = None \<longleftrightarrow> i < k" by (intro exI [of _ k]) (auto simp: nth_append)
next
  assume "\<exists>k. \<forall>i < length s. s ! i = None \<longleftrightarrow> i < k"
  then obtain k where k: "\<forall>i < length s. s ! i = None \<longleftrightarrow> i < k" by blast
  have "s = replicate (min k (length s)) None @ map Some (map the (drop k s))"
  proof (rule nth_equalityI)
    show "length s = length (replicate (min k (length s)) None @ map Some (map the (drop k s)))" by auto
    fix i assume i: "i < length s"
    show "s ! i = (replicate (min k (length s)) None @ map Some (map the (drop k s))) ! i"
      using k [rule_format, OF i] i by (cases "s ! i") (auto simp: nth_append min_def)
  qed
  then show "warms s" by (metis warmsI)
qed

lemma warms_lift2:
  assumes "warms s" "warms t" "length s = length t"
  shows "warms (map2 (lift2 f) s t)"
proof -
  obtain k l where kl: "\<forall>i < length s. s ! i = None \<longleftrightarrow> i < k" "\<forall>i < length t. t ! i = None \<longleftrightarrow> i < l"
    using assms(1,2) unfolding warms_iff by blast
  have pt: "map2 (lift2 f) s t ! i = None \<longleftrightarrow> i < max k l" if "i < length s" for i
    using kl [rule_format, of i] that assms(3) by (cases "s ! i"; cases "t ! i") (auto simp: lift2_def)
  have "\<forall>i < length (map2 (lift2 f) s t). map2 (lift2 f) s t ! i = None \<longleftrightarrow> i < max k l"
  proof (intro allI impI)
    fix i assume "i < length (map2 (lift2 f) s t)"
    then have "i < length s" using assms(3) by simp
    then show "map2 (lift2 f) s t ! i = None \<longleftrightarrow> i < max k l" by (rule pt)
  qed
  then show ?thesis unfolding warms_iff by blast
qed

lemma scatter_warm: "length outs = length ys \<Longrightarrow> scatter (replicate k None @ map Some ys) outs = replicate k None @ outs"
proof (induction k)
  case 0
  then have "scatter (map Some ys) outs = outs"
  proof (induction ys arbitrary: outs)
    case (Cons y ys)
    then show ?case by (cases outs) simp_all
  qed simp
  then show ?case by simp
qed simp

lemma warms_append_None: "warms s \<Longrightarrow> warms (replicate k None @ s)"
  by (induction k) (auto intro: warms_Cons_None)

lemma length_smooth [simp]: "length (smooth step v xs) = length xs"
  by (induction xs arbitrary: v) (auto simp: Let_def)

lemma length_seeded: "length (seeded (Suc k) seed step xs) = length xs"
  by (cases "Suc k \<le> length xs") (simp_all add: seeded_def Let_def)

lemma warms_windows: "warms (windows f p xs)"
  unfolding warms_iff by (rule exI [of _ "p - 1"]) (auto simp: windows_def)

lemma macd_warms:
  "warms (map mr_macd (macd_values lib (Suc i) (Suc j) (Suc k) xs))"
  "warms (map mr_signal (macd_values lib (Suc i) (Suc j) (Suc k) xs))"
  "warms (map mr_hist (macd_values lib (Suc i) (Suc j) (Suc k) xs))"
proof -
  let ?line = "map2 (lift2 fl_sub) (ema_values lib (Suc i) xs) (ema_values lib (Suc j) xs)"
  let ?out = "ema_values lib (Suc k) (valid_values ?line)" and ?sig = "scatter ?line (ema_values lib (Suc k) (valid_values ?line))"
  have line: "warms ?line" unfolding ema_values_def by (intro warms_lift2 warms_seeded) (simp add: length_seeded)
  then obtain n ys where ln: "?line = replicate n None @ map Some ys" by (auto simp: warms_def)
  have out: "length ?out = length ys" unfolding ln by (simp add: ema_values_def length_seeded)
  then have sig: "?sig = replicate n None @ ?out" unfolding ln by (subst scatter_warm) simp_all
  have ws: "warms ?sig" unfolding sig by (intro warms_append_None) (simp add: ema_values_def warms_seeded)
  have len: "length ?sig = length ?line" unfolding sig using out arg_cong [OF ln, of length] by simp
  have vals: "macd_values lib (Suc i) (Suc j) (Suc k) xs = map2 (\<lambda>m s. \<lparr>mr_macd = m, mr_signal = s, mr_hist = lift2 fl_sub m s\<rparr>) ?line ?sig"
    by (simp only: macd_values_def Let_def)
  have sel: "map mr_macd (map2 (\<lambda>m s. \<lparr>mr_macd = m, mr_signal = s, mr_hist = lift2 fl_sub m s\<rparr>) a b) = a"
    "map mr_signal (map2 (\<lambda>m s. \<lparr>mr_macd = m, mr_signal = s, mr_hist = lift2 fl_sub m s\<rparr>) a b) = b"
    "map mr_hist (map2 (\<lambda>m s. \<lparr>mr_macd = m, mr_signal = s, mr_hist = lift2 fl_sub m s\<rparr>) a b) = map2 (lift2 fl_sub) a b"
    if "length b = length a" for a b :: series
    using that by (induction a b rule: list_induct2') auto
  show "warms (map mr_macd (macd_values lib (Suc i) (Suc j) (Suc k) xs))" unfolding vals sel(1) [OF len] by (rule line)
  show "warms (map mr_signal (macd_values lib (Suc i) (Suc j) (Suc k) xs))" unfolding vals sel(2) [OF len] by (rule ws)
  show "warms (map mr_hist (macd_values lib (Suc i) (Suc j) (Suc k) xs))"
    unfolding vals sel(3) [OF len] by (rule warms_lift2 [OF line ws len [symmetric]])
qed

lemma rsi_warms: "warms (rsi_values lib p xs)"
  unfolding rsi_values_def by (cases xs) (auto simp: warms_def [of "[]"] intro: warms_Cons_None warms_map_option warms_seeded)

lemma bollinger_rows_nth: "i < length xs \<Longrightarrow> bollinger_rows lib p c xs ! i = None \<longleftrightarrow> Suc i < p"
  by (simp add: bollinger_rows_def windows_def)

text \<open>Every column of a stream of one of the six states warms up.\<close>

lemma dispatch_warms:
  assumes lib: "numlib_ok lib" and st: "new_state spec = Inr st"
    and out: "dispatch lib (spec_kind spec) (spec_params spec) candles = Inr out" and ks: "(k, s) \<in> set (columns name out)"
  shows "warms s"
proof -
  let ?k = "spec_kind spec" and ?close = "map cd_close candles"
  consider (sma) "?k = ''sma''" | (ema) "?k = ''ema''" | (rsi) "?k = ''rsi''" | (atr) "?k = ''atr''"
    | (macd) "?k = ''macd''" | (bollinger) "?k = ''bollinger''"
    using st by (auto simp: new_state_def Let_def split: if_splits)
  then show ?thesis
  proof cases
    case sma
    then obtain p where p: "1 \<le> p" "out = Series (nl_rolling_mean lib (nat p) ?close)"
      using out by (auto simp: dispatch_def bindE_Inr_conv sma_def)
    then have "s = windows (nl_mean lib) (nat p) ?close" using ks lib by (simp add: columns_def numlib_ok_def)
    then show ?thesis by (simp add: warms_windows)
  next
    case ema
    then show ?thesis using out ks by (auto simp: dispatch_def bindE_Inr_conv ema_def columns_def ema_values_def warms_seeded)
  next
    case rsi
    then show ?thesis using out ks by (auto simp: dispatch_def bindE_Inr_conv rsi_def columns_def rsi_warms)
  next
    case atr
    then show ?thesis using out ks by (auto simp: dispatch_def bindE_Inr_conv atr_def columns_def atr_values_def warms_seeded)
  next
    case macd
    then obtain f s' g where p: "1 \<le> f" "1 \<le> s'" "1 \<le> g"
      "out = Frame [(''macd'', map mr_macd (macd_values lib (nat f) (nat s') (nat g) ?close)),
        (''signal'', map mr_signal (macd_values lib (nat f) (nat s') (nat g) ?close)),
        (''hist'', map mr_hist (macd_values lib (nat f) (nat s') (nat g) ?close))]"
      using out by (auto simp: dispatch_def bindE_Inr_conv macd_def split: if_splits)
    obtain i j k where k: "nat f = Suc i" "nat s' = Suc j" "nat g = Suc k"
      using p(1-3) by (cases "nat f"; cases "nat s'"; cases "nat g") auto
    show ?thesis using ks unfolding p(4) k columns_def by (auto simp: macd_warms)
  next
    case bollinger
    then obtain p c rows where p: "2 \<le> p" "bollinger lib p c ?close = Inr rows"
      "out = Frame [(''middle'', map bd_middle rows), (''upper'', map bd_upper rows), (''lower'', map bd_lower rows)]"
    proof -
      obtain p c where pc: "bindE (bollinger lib p c ?close) (\<lambda>rows. Inr (Frame [(''middle'', map bd_middle rows),
          (''upper'', map bd_upper rows), (''lower'', map bd_lower rows)])) = Inr out"
        using out bollinger by (auto simp: dispatch_def bindE_Inr_conv)
      then obtain rows where rows: "bollinger lib p c ?close = Inr rows" by (auto simp: bindE_Inr_conv)
      then have "2 \<le> p" by (auto simp: bollinger_def bindE_Inr_conv)
      then show thesis using that rows pc by simp
    qed
    have rq: "require_period p 2 = Inr ()" using p(1) by (simp add: require_period_def)
    have rows: "rows = map (\<lambda>r. case r of None \<Rightarrow> \<lparr>bd_middle = None, bd_upper = None, bd_lower = None\<rparr>
      | Some (m, u, l) \<Rightarrow> \<lparr>bd_middle = Some m, bd_upper = Some u, bd_lower = Some l\<rparr>) (bollinger_rows lib (nat p) c ?close)"
      using p(1,2) bollinger_frame [OF lib, of "nat p" c ?close] unfolding bollinger_def rq bindE_simps by (simp only: Let_def sum.inject)
    have len: "length (bollinger_rows lib (nat p) c ?close) = length ?close" by (simp add: bollinger_rows_def windows_def)
    have "\<forall>i < length (map f rows). map f rows ! i = None \<longleftrightarrow> i < nat p - 1" if "f \<in> {bd_middle, bd_upper, bd_lower}" for f
    proof (intro allI impI)
      fix i assume "i < length (map f rows)"
      then have i: "i < length ?close" by (simp add: rows len)
      show "map f rows ! i = None \<longleftrightarrow> i < nat p - 1"
        using bollinger_rows_nth [OF i, of lib "nat p" c] i that
        by (cases "bollinger_rows lib (nat p) c ?close ! i") (auto simp: rows len)
    qed
    then have "warms (map f rows)" if "f \<in> {bd_middle, bd_upper, bd_lower}" for f
      using that unfolding warms_iff by blast
    then show ?thesis using ks by (auto simp: p(3) columns_def)
  qed
qed

end
