(* ===== verification/PT_Live_Parity.thy ===== *)
theory PT_Live_Parity
  imports PT_Parity
begin

text \<open>
  The live view after a run of bars, in terms of the table of streams of its states; the table is
  the batch indicator set, so the two views answer a strategy alike.
\<close>

section \<open>The table of the streams\<close>

type_synonym live_states = "((string \<times> string) \<times> indicator_state) list"

definition state_keys :: "(string \<times> string) \<times> indicator_state \<Rightarrow> string list" where
  "state_keys x = expand_names (fst (fst x)) (snd (fst x))"

definition block :: "numlib \<Rightarrow> bar list \<Rightarrow> (string \<times> string) \<times> indicator_state \<Rightarrow> (string \<times> series) list" where
  "block lib bars x = zip (state_keys x) (stream_columns lib (length (state_keys x)) (snd x) bars)"

definition stream_table :: "numlib \<Rightarrow> live_states \<Rightarrow> bar list \<Rightarrow> (string \<times> series) list" where
  "stream_table lib states bars = concat (map (block lib bars) states)"

definition emits :: "numlib \<Rightarrow> live_states \<Rightarrow> bar \<Rightarrow> (string \<times> rat option) list" where
  "emits lib states b = concat (map (\<lambda>x. zip (state_keys x) (fst (update_state lib (snd x) b))) states)"

definition advance :: "numlib \<Rightarrow> live_states \<Rightarrow> bar list \<Rightarrow> live_states" where
  "advance lib states bars = map (\<lambda>x. (fst x, end_state (update_state lib) (snd x) bars)) states"

definition wf_states :: "live_states \<Rightarrow> bool" where
  "wf_states states \<longleftrightarrow> (\<forall>x \<in> set states. ncols (snd x) = length (state_keys x))"

definition table_keys :: "live_states \<Rightarrow> string list" where
  "table_keys states = concat (map state_keys states)"

lemma end_state_ncols: "ncols (end_state (update_state lib) st bars) = ncols st"
  by (induction bars arbitrary: st) (simp_all add: update_state_cols)

lemma state_keys_advance [simp]: "table_keys (advance lib states bars) = table_keys states"
  by (simp add: table_keys_def advance_def comp_def state_keys_def [abs_def])

lemma wf_advance [simp]: "wf_states (advance lib states bars) = wf_states states"
  by (auto simp: wf_states_def advance_def end_state_ncols state_keys_def)

lemma length_stream_columns [simp]: "length (stream_columns lib n st bars) = n"
  by (simp add: stream_columns_def)

lemma keys_of_stream_table [simp]: "map fst (stream_table lib states bars) = table_keys states"
  by (induction states) (simp_all add: stream_table_def table_keys_def block_def)

lemma keys_of_emits:
  assumes "wf_states states" shows "map fst (emits lib states b) = table_keys states"
  using assms by (induction states) (simp_all add: emits_def table_keys_def wf_states_def update_state_cols)

definition extend :: "string \<times> series \<Rightarrow> string \<times> rat option \<Rightarrow> string \<times> series" where
  "extend ks kx = (fst ks, snd ks @ [snd kx])"

lemma map2_append: "length xs = length us \<Longrightarrow> map2 f (xs @ ys) (us @ vs) = map2 f xs us @ map2 f ys vs"
  by simp

lemma block_snoc:
  assumes "ncols (snd x) = length (state_keys x)"
  shows "block lib (bars @ [b]) x =
    map2 extend (block lib bars x) (zip (state_keys x) (fst (update_state lib (end_state (update_state lib) (snd x) bars) b)))"
proof (rule nth_equalityI)
  let ?row = "fst (update_state lib (end_state (update_state lib) (snd x) bars) b)"
  have len: "length ?row = length (state_keys x)" using assms by (simp add: update_state_cols end_state_ncols)
  then show "length (block lib (bars @ [b]) x) = length (map2 extend (block lib bars x) (zip (state_keys x) ?row))"
    by (simp add: block_def)
  fix i assume "i < length (block lib (bars @ [b]) x)"
  then show "block lib (bars @ [b]) x ! i = map2 extend (block lib bars x) (zip (state_keys x) ?row) ! i"
    using len by (simp add: block_def stream_columns_def extend_def col_def run_stream_append split: prod.split)
qed

lemma stream_table_snoc:
  assumes "wf_states states"
  shows "stream_table lib states (bars @ [b]) = map2 extend (stream_table lib states bars) (emits lib (advance lib states bars) b)"
  using assms
proof (induction states)
  case (Cons x states)
  then have x: "ncols (snd x) = length (state_keys x)" and w: "wf_states states" by (simp_all add: wf_states_def)
  let ?row = "fst (update_state lib (end_state (update_state lib) (snd x) bars) b)"
  have len: "length (block lib bars x) = length (zip (state_keys x) ?row)"
    using x by (simp add: block_def update_state_cols end_state_ncols)
  have "stream_table lib (x # states) (bars @ [b]) = block lib (bars @ [b]) x @ stream_table lib states (bars @ [b])"
    by (simp add: stream_table_def)
  also have "\<dots> = map2 extend (block lib bars x @ stream_table lib states bars)
      (zip (state_keys x) ?row @ emits lib (advance lib states bars) b)"
    unfolding block_snoc [OF x] Cons.IH [OF w] using len by simp
  finally show ?case by (simp add: stream_table_def emits_def advance_def state_keys_def)
qed (simp add: stream_table_def)

lemma map_of_extend:
  "map fst kss = map fst kxs \<Longrightarrow> map_of (map2 extend kss kxs) k =
     (case map_of kss k of None \<Rightarrow> None | Some s \<Rightarrow> map_option (\<lambda>x. s @ [x]) (map_of kxs k))"
proof (induction kss arbitrary: kxs)
  case (Cons ks kss)
  then show ?case by (cases kxs) (auto simp: extend_def split: option.split)
qed simp

lemma map_of_table_snoc:
  assumes "wf_states states"
  shows "map_of (stream_table lib states (bars @ [b])) k = (case map_of (stream_table lib states bars) k of
     None \<Rightarrow> None | Some s \<Rightarrow> map_option (\<lambda>x. s @ [x]) (map_of (emits lib (advance lib states bars) b) k))"
  unfolding stream_table_snoc [OF assms] by (rule map_of_extend) (use assms in \<open>simp add: keys_of_emits\<close>)

section \<open>The live view follows the table\<close>

lemma store_values_latest:
  "distinct (map fst kxs) \<Longrightarrow> map_of (lv_latest (foldl (\<lambda>w (k, x). store_value k x w) v kxs)) k =
     (case map_of kxs k of Some x \<Rightarrow> Some x | None \<Rightarrow> map_of (lv_latest v) k)"
proof (induction kxs arbitrary: v)
  case (Cons kx kxs)
  obtain a x where kx: "kx = (a, x)" by fastforce
  have "map_of kxs a = None" using Cons.prems by (simp add: kx map_of_eq_None_iff)
  then show ?case using Cons by (auto simp: kx store_value_def Let_def update_conv split: option.splits)
qed simp

lemma store_values_history:
  "distinct (map fst kxs) \<Longrightarrow> map_of (lv_history (foldl (\<lambda>w (k, x). store_value k x w) v kxs)) k =
     (case map_of kxs k of
        Some (Some x) \<Rightarrow> Some (push WINDOW_MAXLEN (case map_of (lv_history v) k of None \<Rightarrow> [] | Some h \<Rightarrow> h) x)
      | _ \<Rightarrow> map_of (lv_history v) k)"
proof (induction kxs arbitrary: v)
  case (Cons kx kxs)
  obtain a x where kx: "kx = (a, x)" by fastforce
  have "map_of kxs a = None" using Cons.prems by (simp add: kx map_of_eq_None_iff)
  then show ?case using Cons by (auto simp: kx store_value_def Let_def update_conv split: option.splits)
qed simp

lemma update_loop_run:
  "wf_states states \<Longrightarrow> update_loop lib b states v =
     (map (\<lambda>x. (fst x, snd (update_state lib (snd x) b))) states, foldl (\<lambda>w (k, x). store_value k x w) v (emits lib states b))"
proof (induction states arbitrary: v)
  case (Cons x states)
  then show ?case
    by (simp add: wf_states_def emits_def record_values_def state_keys_def split: prod.split)
qed (simp add: emits_def)

lemma store_values_states [simp]: "lv_states (foldl (\<lambda>w (k, x). store_value k x w) v kxs) = lv_states v"
  by (induction kxs arbitrary: v) (auto simp: store_value_def Let_def split: option.split)

definition bars_view :: "numlib \<Rightarrow> live_view \<Rightarrow> bar list \<Rightarrow> live_view" where
  "bars_view lib v bars = foldl (\<lambda>w b. live_update lib b w) v bars"

definition follows :: "numlib \<Rightarrow> live_states \<Rightarrow> bar list \<Rightarrow> live_view \<Rightarrow> bool" where
  "follows lib states bars v \<longleftrightarrow> lv_states v = advance lib states bars \<and>
     (\<forall>k. map_of (lv_latest v) k = map_option (\<lambda>s. last (None # s)) (map_of (stream_table lib states bars) k)) \<and>
     (\<forall>k. map_of (lv_history v) k = map_option (\<lambda>s. last_n WINDOW_MAXLEN (valid_values s)) (map_of (stream_table lib states bars) k))"

lemma valid_values_snoc [simp]: "valid_values (s @ [x]) = valid_values s @ (case x of None \<Rightarrow> [] | Some y \<Rightarrow> [y])"
  by (simp add: valid_values_def split: option.split)

lemma map_of_keys_iff: "map fst kvs = map fst kws \<Longrightarrow> map_of kvs k = None \<longleftrightarrow> map_of kws k = None"
  by (metis list.set_map map_of_eq_None_iff)

lemma follows_step:
  assumes wf: "wf_states states" and dist: "distinct (table_keys states)" and f: "follows lib states bars v"
  shows "follows lib states (bars @ [b]) (live_update lib b v)"
proof -
  let ?a = "advance lib states bars" and ?T = "stream_table lib states bars"
  have run: "live_update lib b v = (foldl (\<lambda>w (k, x). store_value k x w) v (emits lib ?a b))
      \<lparr>lv_states := map (\<lambda>x. (fst x, snd (update_state lib (snd x) b))) ?a\<rparr>"
    using f wf by (simp add: live_update_def follows_def update_loop_run)
  have d: "distinct (map fst (emits lib ?a b))" using wf dist by (simp add: keys_of_emits)
  have st: "lv_states (live_update lib b v) = advance lib states (bars @ [b])"
    by (simp add: run advance_def end_state_append)
  have none: "map_of ?T k = None \<longleftrightarrow> map_of (emits lib ?a b) k = None" for k
    by (rule map_of_keys_iff) (simp add: keys_of_emits wf)
  have lat: "map_of (lv_latest v) k = map_option (\<lambda>s. last (None # s)) (map_of ?T k)"
    and his: "map_of (lv_history v) k = map_option (\<lambda>s. last_n WINDOW_MAXLEN (valid_values s)) (map_of ?T k)" for k
    using f by (simp_all add: follows_def)
  have "map_of (lv_latest (live_update lib b v)) k = map_option (\<lambda>s. last (None # s)) (map_of (stream_table lib states (bars @ [b])) k)" for k
    using none [of k] by (cases "map_of ?T k"; cases "map_of (emits lib ?a b) k")
      (simp_all add: run store_values_latest [OF d] map_of_table_snoc [OF wf] lat)
  moreover have "map_of (lv_history (live_update lib b v)) k =
      map_option (\<lambda>s. last_n WINDOW_MAXLEN (valid_values s)) (map_of (stream_table lib states (bars @ [b])) k)" for k
    using none [of k]
    by (cases "map_of ?T k"; cases "map_of (emits lib ?a b) k") (auto simp: run store_values_history [OF d] map_of_table_snoc [OF wf] his push_last_n split: option.split)
  ultimately show ?thesis using st by (simp add: follows_def)
qed

lemma follows_bars:
  assumes "wf_states states" "distinct (table_keys states)" "follows lib states [] v"
  shows "follows lib states bars (bars_view lib v bars)"
proof (induction bars rule: rev_induct)
  case Nil
  then show ?case using assms by (simp add: bars_view_def)
next
  case (snoc b bars)
  then show ?case using follows_step [OF assms(1,2) snoc] by (simp add: bars_view_def)
qed

section \<open>Initial views\<close>

text \<open>The names a set of indicators answers to.\<close>

definition live_names :: "(string \<times> indicator_spec) list \<Rightarrow> string list" where
  "live_names specs = concat (map (\<lambda>(name, spec). expand_names name (spec_kind spec)) specs)"

definition started :: "string \<times> indicator_spec \<Rightarrow> (string \<times> string) \<times> indicator_state \<Rightarrow> bool" where
  "started ns x \<longleftrightarrow> new_state (snd ns) = Inr (snd x) \<and> fst x = (fst ns, spec_kind (snd ns))"

lemma forE_started:
  "forE specs (\<lambda>(name, spec). bindE (new_state spec) (\<lambda>st. Inr ((name, spec_kind spec), st))) = Inr states \<Longrightarrow>
   list_all2 started specs states"
  by (induction specs arbitrary: states) (auto simp: bindE_Inr_conv started_def split: prod.splits)

lemma started_keys: "list_all2 started specs states \<Longrightarrow> table_keys states = live_names specs"
  by (induction rule: list_all2_induct) (auto simp: table_keys_def live_names_def state_keys_def started_def split: prod.split)

lemma started_wf: "list_all2 started specs states \<Longrightarrow> wf_states states"
  by (induction rule: list_all2_induct) (auto simp: wf_states_def state_keys_def started_def intro: new_state_ncols)

lemma map_of_foldl_const: "map_of (foldl (\<lambda>m k. AList.update k c m) r keys) k = (if k \<in> set keys then Some c else map_of r k)"
  by (induction keys arbitrary: r) (auto simp: update_conv)

lemma distinct_foldl_const: "distinct (map fst r) \<Longrightarrow> distinct (map fst (foldl (\<lambda>m k. AList.update k c m) r keys))"
  by (induction keys arbitrary: r) (auto simp: distinct_update)

lemma stream_table_Nil: "map_of (stream_table lib states []) k = (if k \<in> set (table_keys states) then Some [] else None)"
proof -
  have "s = []" if "(k, s) \<in> set (stream_table lib states [])" for k s
    using that by (auto simp: stream_table_def block_def stream_columns_def col_def in_set_conv_nth)
  moreover have "map_of (stream_table lib states []) k = None \<longleftrightarrow> k \<notin> set (table_keys states)"
    unfolding map_of_eq_None_iff set_map [symmetric] keys_of_stream_table ..
  ultimately show ?thesis by (cases "map_of (stream_table lib states []) k") (auto dest!: map_of_SomeD)
qed

lemma live_view_init_follows:
  assumes "live_view_init specs = Inr v"
  shows "list_all2 started specs (lv_states v) \<and> follows lib (lv_states v) [] v \<and> distinct (map fst (lv_latest v))"
proof -
  obtain states where s: "forE specs (\<lambda>(name, spec). bindE (new_state spec) (\<lambda>st. Inr ((name, spec_kind spec), st))) = Inr states"
    and v: "v = \<lparr>lv_states = states, lv_latest = foldl (\<lambda>m k. AList.update k None m) [] (table_keys states),
       lv_history = foldl (\<lambda>m k. AList.update k [] m) [] (table_keys states)\<rparr>"
    using assms by (auto simp: live_view_init_def bindE_Inr_conv Let_def table_keys_def state_keys_def [abs_def] case_prod_beta')
  have "follows lib states [] v"
    by (simp add: follows_def v advance_def map_of_foldl_const stream_table_Nil last_n_def valid_values_def)
  then show ?thesis using forE_started [OF s] by (simp add: v distinct_foldl_const)
qed

lemma distinct_bars_view: "distinct (map fst (lv_latest v)) \<Longrightarrow> distinct (map fst (lv_latest (bars_view lib v bars)))"
proof (induction bars arbitrary: v)
  case (Cons b bars)
  have st: "distinct (map fst (lv_latest w)) \<Longrightarrow> distinct (map fst (lv_latest (foldl (\<lambda>w (k, x). store_value k x w) w kxs)))" for w kxs
    by (induction kxs arbitrary: w) (auto simp: store_value_def Let_def distinct_update split: option.split)
  have up: "distinct (map fst (lv_latest w)) \<Longrightarrow> distinct (map fst (lv_latest (snd (update_loop lib b states w))))" for w states
  proof (induction states arbitrary: w)
    case (Cons x states)
    show ?case using Cons.IH [OF st [OF Cons.prems]] by (simp add: record_values_def case_prod_beta')
  qed simp
  have "distinct (map fst (lv_latest (live_update lib b v)))"
    using up [OF Cons.prems, of "lv_states v"] by (simp add: live_update_def case_prod_beta')
  then show ?case using Cons.IH by (simp add: bars_view_def)
qed (simp add: bars_view_def)

section \<open>The batch set is the table\<close>

lemma foldl_update_fresh:
  "distinct (map fst (r @ kvs)) \<Longrightarrow> foldl (\<lambda>acc (k, s). AList.update k s acc) r kvs = r @ kvs"
proof (induction kvs arbitrary: r)
  case (Cons kv kvs)
  obtain k s where kv: "kv = (k, s)" by fastforce
  have fresh: "k \<notin> fst ` set al \<Longrightarrow> AList.update k s al = al @ [(k, s)]" for al :: "('a \<times> 'b) list"
    by (induction al) auto
  have "AList.update k s r = r @ [(k, s)]" using Cons.prems fresh [of r] by (auto simp: kv)
  then show ?case using Cons.IH [of "r @ [(k, s)]"] Cons.prems by (simp add: kv)
qed simp

lemma compute_loop_table:
  assumes lib: "numlib_ok lib"
  shows "list_all2 started specs states \<Longrightarrow> compute_loop lib candles specs r = Inr res \<Longrightarrow>
    res = foldl (\<lambda>acc (k, s). AList.update k s acc) r (stream_table lib states (map bar_of candles))"
proof (induction arbitrary: r rule: list_all2_induct)
  case (Cons ns specs x states)
  obtain name spec where ns: "ns = (name, spec)" by fastforce
  obtain out where out: "dispatch lib (spec_kind spec) (spec_params spec) candles = Inr out"
    and rest: "compute_loop lib candles specs (store_output name out r) = Inr res"
    using Cons.prems by (auto simp: ns bindE_Inr_conv)
  have "columns name out = block lib (map bar_of candles) x"
    using dispatch_stream [OF lib _ out, of "snd x" name] Cons.hyps(1) by (simp add: started_def ns block_def state_keys_def)
  then show ?case using Cons.IH [OF rest] by (simp add: store_output_columns stream_table_def)
qed (simp add: stream_table_def)

lemma compute_table:
  assumes "numlib_ok lib" "list_all2 started specs states" "distinct (live_names specs)"
    "compute_indicator_set lib candles specs = Inr res"
  shows "res = stream_table lib states (map bar_of candles)"
  using compute_loop_table [OF assms(1,2) assms(4) [unfolded compute_indicator_set_def]] assms(3)
  by (simp add: foldl_update_fresh started_keys [OF assms(2)])

lemma compute_loop_warms:
  assumes lib: "numlib_ok lib"
  shows "list_all2 started specs states \<Longrightarrow> compute_loop lib candles specs r = Inr res \<Longrightarrow>
    (k, s) \<in> set (stream_table lib states (map bar_of candles)) \<Longrightarrow> warms s"
proof (induction arbitrary: r rule: list_all2_induct)
  case (Cons ns specs x states)
  obtain name spec where ns: "ns = (name, spec)" by fastforce
  obtain out where out: "dispatch lib (spec_kind spec) (spec_params spec) candles = Inr out"
    and rest: "compute_loop lib candles specs (store_output name out r) = Inr res"
    using Cons.prems by (auto simp: ns bindE_Inr_conv)
  have st: "new_state spec = Inr (snd x)" using Cons.hyps(1) by (simp add: started_def ns)
  have "columns name out = block lib (map bar_of candles) x"
    using dispatch_stream [OF lib st out, of name] Cons.hyps(1) by (simp add: started_def ns block_def state_keys_def)
  then show ?case using Cons.IH [OF rest] dispatch_warms [OF lib st out, of k s name] Cons.prems(2) by (auto simp: stream_table_def)
qed (simp add: stream_table_def)

section \<open>Prefixes\<close>

lemma run_stream_take: "take n (run_stream u st xs) = run_stream u st (take n xs)"
proof -
  have "run_stream u st xs = run_stream u st (take n xs) @ run_stream u (end_state u st (take n xs)) (drop n xs)"
    by (metis append_take_drop_id run_stream_append)
  then have "take n (run_stream u st xs) = take n (run_stream u st (take n xs) @ run_stream u (end_state u st (take n xs)) (drop n xs))"
    by simp
  then show ?thesis by (cases "n \<le> length xs") simp_all
qed

lemma stream_table_take:
  "stream_table lib states (take n bars) = map (\<lambda>(k, s). (k, take n s)) (stream_table lib states bars)"
proof -
  have "block lib (take n bars) x = map (\<lambda>(k, s). (k, take n s)) (block lib bars x)" for x
    by (simp add: block_def stream_columns_def zip_map2 col_def take_map run_stream_take [symmetric] comp_def split_beta)
  then have "block lib (take n bars) = (\<lambda>x. map (\<lambda>(k, s). (k, take n s)) (block lib bars x))" by (rule ext)
  then show ?thesis by (simp add: stream_table_def map_concat comp_def)
qed

lemma map_of_table_take:
  "map_of (stream_table lib states (take n bars)) k = map_option (take n) (map_of (stream_table lib states bars) k)"
  by (simp add: stream_table_take map_of_map)

lemma length_of_table: "(k, s) \<in> set (stream_table lib states bars) \<Longrightarrow> length s = length bars"
  by (auto simp: stream_table_def block_def stream_columns_def col_def in_set_conv_nth)

lemma last_n_valid_values:
  assumes "warms s"
  shows "valid_values (last_n n s) = last_n n (valid_values s)"
proof -
  obtain k ys where s: "s = replicate k None @ map Some ys" using assms by (auto simp: warms_def)
  show ?thesis
  proof (cases "n \<le> length ys")
    case True
    then have "last_n n s = replicate 0 None @ map Some (drop (length ys - n) ys)"
      by (simp add: s last_n_def drop_map)
    then show ?thesis unfolding valid_values_warm by (simp add: s last_n_def valid_values_def comp_def)
  next
    case False
    then have "last_n n s = replicate (k - (k + length ys - n)) None @ map Some ys" by (simp add: s last_n_def)
    then show ?thesis using False by (simp add: s last_n_def)
  qed
qed

lemma last_n_last_n: "n \<le> m \<Longrightarrow> last_n n (last_n m xs) = last_n n xs"
  by (cases "m \<le> length xs") (auto simp: last_n_def)

section \<open>Parity\<close>

lemma last_take: "i < length s \<Longrightarrow> last (None # take (Suc i) s) = s ! i"
  by (simp add: take_Suc_conv_app_nth)

lemma parity_follows:
  assumes "numlib_ok lib" "live_view_init specs = Inr v" "distinct (live_names specs)"
    "compute_indicator_set lib candles specs = Inr res"
  shows "follows lib (lv_states v) (map bar_of (take n candles)) (bars_view lib v (map bar_of (take n candles)))"
    "res = stream_table lib (lv_states v) (map bar_of candles)"
    "(k, s) \<in> set res \<Longrightarrow> warms s \<and> length s = length candles"
proof -
  have st: "list_all2 started specs (lv_states v)" and f: "follows lib (lv_states v) [] v"
    using live_view_init_follows [OF assms(2)] by auto
  show "follows lib (lv_states v) (map bar_of (take n candles)) (bars_view lib v (map bar_of (take n candles)))"
    by (rule follows_bars [OF started_wf [OF st] _ f]) (simp add: started_keys [OF st] assms(3))
  show res: "res = stream_table lib (lv_states v) (map bar_of candles)" by (rule compute_table [OF assms(1) st assms(3,4)])
  show "(k, s) \<in> set res \<Longrightarrow> warms s \<and> length s = length candles"
    using compute_loop_warms [OF assms(1) st assms(4) [unfolded compute_indicator_set_def]] length_of_table
    unfolding res by fastforce
qed

lemma parity_map_of:
  assumes "follows lib states (map bar_of (take (Suc i) candles)) w" "res = stream_table lib states (map bar_of candles)"
  shows "map_of (lv_latest w) k = map_option (\<lambda>s. last (None # take (Suc i) s)) (map_of res k)"
    "map_of (lv_history w) k = map_option (\<lambda>s. last_n WINDOW_MAXLEN (valid_values (take (Suc i) s))) (map_of res k)"
  using assms by (simp_all add: follows_def take_map [symmetric] map_of_table_take option.map_comp comp_def)

lemma parity_value:
  assumes "numlib_ok lib" "live_view_init specs = Inr v" "distinct (live_names specs)"
    "compute_indicator_set lib candles specs = Inr res" "i < length candles"
  shows "iv_value (live_indicator_view (bars_view lib v (map bar_of (take (Suc i) candles)))) name = iv_value (batch_view res i) name"
proof -
  note p = parity_follows [OF assms(1-4)]
  show ?thesis
  proof (cases "map_of res name")
    case (Some s)
    then have "length s = length candles" using p(3) map_of_SomeD by fast
    then show ?thesis using Some assms(5)
      by (simp add: live_indicator_view_def batch_view_def parity_map_of(1) [OF p(1,2)] last_take del: last.simps)
  qed (simp add: live_indicator_view_def batch_view_def parity_map_of(1) [OF p(1,2)])
qed

lemma parity_window:
  assumes "numlib_ok lib" "live_view_init specs = Inr v" "distinct (live_names specs)"
    "compute_indicator_set lib candles specs = Inr res" "i < length candles" "1 \<le> n" "n \<le> WINDOW_MAXLEN"
  shows "iv_window (live_indicator_view (bars_view lib v (map bar_of (take (Suc i) candles)))) name n = iv_window (batch_view res i) name n"
proof -
  note p = parity_follows [OF assms(1-4)]
  show ?thesis
  proof (cases "map_of res name")
    case (Some s)
    then have s: "warms s" "length s = length candles" using p(3) map_of_SomeD by fast+
    let ?s = "take (Suc i) s" and ?h = "last_n WINDOW_MAXLEN (valid_values (take (Suc i) s))"
    have "(if n < length ?h \<and> n \<noteq> 0 then last_n n ?h else ?h) = last_n n ?h"
      using assms(6) by (auto simp: last_n_def)
    also have "\<dots> = valid_values (last_n n ?s)"
      using last_n_last_n [OF assms(7)] last_n_valid_values [OF warms_take [OF s(1)]] by simp
    also have "last_n n ?s = drop (Suc i - n) ?s" using s(2) assms(5) by (simp add: last_n_def)
    finally show ?thesis using Some
      by (simp add: live_indicator_view_def batch_view_def parity_map_of(2) [OF p(1,2)])
  qed (simp add: live_indicator_view_def batch_view_def parity_map_of(2) [OF p(1,2)])
qed

lemma warms_mono: "warms s \<Longrightarrow> i \<le> j \<Longrightarrow> j < length s \<Longrightarrow> s ! i \<noteq> None \<Longrightarrow> s ! j \<noteq> None"
  unfolding warms_iff by (metis le_less_trans linorder_not_less order_trans)

lemma first_all_valid_le:
  assumes warm: "\<And>k s. (k, s) \<in> set res \<Longrightarrow> warms s \<and> length s = n" and i: "i < n"
  shows "first_all_valid_index res \<le> i \<longleftrightarrow> (\<forall>x \<in> set res. snd x ! i \<noteq> None)"
proof (cases res)
  case (Cons x xs)
  obtain k s where x: "x = (k, s)" by fastforce
  have n: "length s = n" using warm [of k s] by (simp add: Cons x)
  let ?P = "\<lambda>j. \<forall>x \<in> set res. snd x ! j \<noteq> None"
  have up: "?P j \<Longrightarrow> j \<le> i \<Longrightarrow> ?P i" for j using warm warms_mono i by (metis prod.collapse)
  have f: "first_all_valid_index res = (case find ?P [0..<n] of None \<Rightarrow> n | Some j \<Rightarrow> j)"
    by (simp add: first_all_valid_index_def Cons x n)
  show ?thesis
  proof (cases "find ?P [0..<n]")
    case None
    then have "\<not> ?P i" using i by (auto simp: find_None_iff)
    then show ?thesis using None i by (simp add: f)
  next
    case (Some j)
    then have "?P j" "j < n" "\<forall>l < j. \<not> ?P l" by (auto simp: find_Some_iff)
    then have "j \<le> i \<longleftrightarrow> ?P i" using up [of j] by (meson linorder_not_le)
    then show ?thesis unfolding f Some by simp
  qed
qed (simp add: first_all_valid_index_def)

lemma parity_warm:
  assumes "numlib_ok lib" "live_view_init specs = Inr v" "distinct (live_names specs)"
    "compute_indicator_set lib candles specs = Inr res" "i < length candles"
  shows "all_warm (bars_view lib v (map bar_of (take (Suc i) candles))) \<longleftrightarrow> first_all_valid_index res \<le> i"
proof -
  note p = parity_follows [OF assms(1-4)]
  let ?w = "bars_view lib v (map bar_of (take (Suc i) candles))"
  have d: "distinct (map fst (lv_latest ?w))"
    using live_view_init_follows [OF assms(2)] by (intro distinct_bars_view) blast
  have dr: "distinct (map fst res)"
    using p(2) started_keys assms(3) live_view_init_follows [OF assms(2)] by fastforce
  have "all_warm ?w \<longleftrightarrow> (\<forall>k. map_of (lv_latest ?w) k \<noteq> Some None)"
    unfolding all_warm_def using d by (auto simp: map_of_eq_Some_iff) (metis option.exhaust)
  also have "\<dots> \<longleftrightarrow> (\<forall>k s. map_of res k = Some s \<longrightarrow> s ! i \<noteq> None)"
    using p(3) map_of_SomeD assms(5) by (fastforce simp: parity_map_of(1) [OF p(1,2)] last_take simp del: last.simps)
  also have "\<dots> \<longleftrightarrow> (\<forall>x \<in> set res. snd x ! i \<noteq> None)"
    using dr by (auto simp: map_of_eq_Some_iff)
  also have "\<dots> \<longleftrightarrow> first_all_valid_index res \<le> i"
    using first_all_valid_le [OF p(3) assms(5)] by simp
  finally show ?thesis .
qed

end
