(* ===== verification/PT_Runner.thy ===== *)
theory PT_Runner
  imports PT_Strategies PT_Live_Parity
begin

text \<open>
  The live driver of a strategy: the frame contract of candles (\<open>data/providers/base.py\<close>), the
  growing buffer (\<open>orchestrator/candle_buffer.py\<close>) and \<open>LiveStrategyRunner\<close>
  (\<open>orchestrator/runner.py\<close>). What is proved: the frame is sorted and unique and shows the bars
  that were received, and the runner calls its strategy with the context a backtest builds at
  the same bar.
\<close>

section \<open>Candle frames\<close>

fun keep_last :: "candle list \<Rightarrow> candle list" where
  "keep_last [] = []"
| "keep_last (c # cs) = (if cd_ts c \<in> cd_ts ` set cs then keep_last cs else c # keep_last cs)"

definition normalize_candle_frame :: "candle list \<Rightarrow> candle list" where
  "normalize_candle_frame frame = sort_key cd_ts (keep_last frame)"

definition ascending :: "candle list \<Rightarrow> bool" where
  "ascending cs \<longleftrightarrow> sorted_wrt (<) (map cd_ts cs)"

lemma keep_last_ts: "cd_ts ` set (keep_last cs) = cd_ts ` set cs"
  by (induction cs) auto

lemma keep_last_distinct: "distinct (map cd_ts (keep_last cs))"
  by (induction cs) (simp_all add: keep_last_ts)

lemma keep_last_id: "distinct (map cd_ts cs) \<Longrightarrow> keep_last cs = cs"
  by (induction cs) auto

lemma keep_last_append: "keep_last (cs @ ds) = filter (\<lambda>c. cd_ts c \<notin> cd_ts ` set ds) (keep_last cs) @ keep_last ds"
  by (induction cs) auto

lemma normalize_ascending: "ascending (normalize_candle_frame cs)"
  using keep_last_distinct [of cs] by (simp add: ascending_def normalize_candle_frame_def strict_sorted_iff distinct_map)

lemma normalize_set: "set (normalize_candle_frame cs) = set (keep_last cs)"
  by (simp add: normalize_candle_frame_def)

lemma normalize_id: "ascending cs \<Longrightarrow> normalize_candle_frame cs = cs"
  unfolding ascending_def strict_sorted_iff normalize_candle_frame_def
  by (simp add: keep_last_id sorted_map) (metis sort_key_id_if_sorted sorted_map)

lemma normalize_idem: "normalize_candle_frame (normalize_candle_frame cs) = normalize_candle_frame cs"
  by (rule normalize_id [OF normalize_ascending])

section \<open>The buffer\<close>

record candle_received =
  ce_instrument_key :: string
  ce_interval :: interval
  ce_ts :: instant
  ce_open :: rat
  ce_high :: rat
  ce_low :: rat
  ce_close :: rat
  ce_volume :: int

text \<open>\<open>float(d)\<close> of a Decimal: the nearest float.\<close>

definition candle_row :: "candle_received \<Rightarrow> candle" where
  "candle_row e = \<lparr>cd_ts = ce_ts e, cd_open = fl_rnd (ce_open e), cd_high = fl_rnd (ce_high e), cd_low = fl_rnd (ce_low e),
     cd_close = fl_rnd (ce_close e), cd_volume = ce_volume e, cd_oi = 0\<rparr>"

definition buffer_append :: "candle list \<Rightarrow> candle_received \<Rightarrow> candle list" where
  "buffer_append rows e = rows @ [candle_row e]"

definition buffer_frame :: "candle list \<Rightarrow> candle list" where
  "buffer_frame rows = (if rows = [] then [] else normalize_candle_frame rows)"

section \<open>The runner\<close>

record 'st runner =
  ru_instrument :: instrument_row
  ru_strategy :: "'st strategy"
  ru_state :: 'st
  ru_rows :: "candle list"
  ru_indicators :: live_view
  ru_bar_count :: int

definition runner_init :: "instrument_row \<Rightarrow> 'st strategy \<Rightarrow> py_error + 'st runner" where
  "runner_init inst strategy = bindE (live_view_init (st_required strategy)) (\<lambda>v. Inr \<lparr>ru_instrument = inst,
     ru_strategy = strategy, ru_state = st_init strategy, ru_rows = [], ru_indicators = v, ru_bar_count = 0\<rparr>)"

definition runner_receive :: "numlib \<Rightarrow> candle_received \<Rightarrow> 'st runner \<Rightarrow> 'st runner" where
  "runner_receive lib e r = r\<lparr>ru_rows := buffer_append (ru_rows r) e,
     ru_indicators := live_update lib \<lparr>b_high = fl_rnd (ce_high e), b_low = fl_rnd (ce_low e), b_close = fl_rnd (ce_close e)\<rparr> (ru_indicators r),
     ru_bar_count := ru_bar_count r + 1\<rparr>"

definition runner_context :: "candle_received \<Rightarrow> position_view \<Rightarrow> 'st runner \<Rightarrow> strategy_context" where
  "runner_context e pos r = \<lparr>ctx_index = nat (ru_bar_count r - 1), ctx_ts = ce_ts e, ctx_candles = buffer_frame (ru_rows r),
     ctx_indicators = live_indicator_view (ru_indicators r), ctx_position = pos\<rparr>"

definition runner_on_candle :: "numlib \<Rightarrow> candle_received \<Rightarrow> position_view \<Rightarrow> ('st runner, strategy_signal option) act" where
  "runner_on_candle lib e pos = bindA (modA (runner_receive lib e)) (\<lambda>_. bindA (getA id) (\<lambda>r.
     if ru_bar_count r < st_warmup_bars (ru_strategy r) then ret None
     else if \<not> all_warm (ru_indicators r) then ret None
     else bindA (liftE (st_on_candle (ru_strategy r) (ru_state r) (runner_context e pos r))) (\<lambda>(sig, st).
       bindA (modA (\<lambda>r. r\<lparr>ru_state := st\<rparr>)) (\<lambda>_. ret sig))))"

lemma runner_on_candle_run:
  "runner_on_candle lib e pos r = (let r' = runner_receive lib e r in
     if ru_bar_count r' < st_warmup_bars (ru_strategy r) \<or> \<not> all_warm (ru_indicators r') then (Inr None, r')
     else (case st_on_candle (ru_strategy r) (ru_state r) (runner_context e pos r') of
        Inl x \<Rightarrow> (Inl x, r') | Inr (sig, st) \<Rightarrow> (Inr sig, r'\<lparr>ru_state := st\<rparr>)))"
  by (auto simp: runner_on_candle_def act_defs runner_receive_def Let_def split: sum.split prod.split)

section \<open>The runner sees what a backtest shows\<close>

text \<open>The runner after it received some events, with whatever positions and signals on the way.\<close>

definition runner_after :: "numlib \<Rightarrow> instrument_row \<Rightarrow> 'st strategy \<Rightarrow> live_view \<Rightarrow> candle_received list \<Rightarrow> 'st runner \<Rightarrow> bool" where
  "runner_after lib inst strategy v es r \<longleftrightarrow> ru_instrument r = inst \<and> ru_strategy r = strategy \<and>
     ru_rows r = map candle_row es \<and> ru_bar_count r = int (length es) \<and>
     ru_indicators r = bars_view lib v (map (bar_of \<circ> candle_row) es)"

lemma runner_after_init: "runner_init inst strategy = Inr r \<Longrightarrow>
    \<exists>v. live_view_init (st_required strategy) = Inr v \<and> runner_after lib inst strategy v [] r"
  by (auto simp: runner_init_def bindE_Inr_conv runner_after_def bars_view_def)

lemma runner_after_receive:
  "runner_after lib inst strategy v es r \<Longrightarrow> runner_after lib inst strategy v (es @ [e]) (runner_receive lib e r)"
  by (simp add: runner_after_def runner_receive_def buffer_append_def bars_view_def bar_of_def candle_row_def)

lemma runner_after_step:
  "runner_after lib inst strategy v es r \<Longrightarrow> runner_after lib inst strategy v (es @ [e]) (snd (runner_on_candle lib e pos r))"
  using runner_after_receive [of lib inst strategy v es r e]
  by (auto simp: runner_on_candle_run Let_def runner_after_def split: sum.split prod.split)

text \<open>What a strategy may ask of an indicator view: values and windows of 1 to 500 values.\<close>

definition same_view :: "indicator_view \<Rightarrow> indicator_view \<Rightarrow> bool" where
  "same_view a b \<longleftrightarrow> iv_value a = iv_value b \<and> (\<forall>name n. 1 \<le> n \<and> n \<le> WINDOW_MAXLEN \<longrightarrow> iv_window a name n = iv_window b name n)"

definition same_context :: "strategy_context \<Rightarrow> strategy_context \<Rightarrow> bool" where
  "same_context a b \<longleftrightarrow> ctx_index a = ctx_index b \<and> ctx_ts a = ctx_ts b \<and> ctx_candles a = ctx_candles b \<and>
     ctx_position a = ctx_position b \<and> same_view (ctx_indicators a) (ctx_indicators b)"

locale view_driven =
  fixes on_candle :: "'st \<Rightarrow> strategy_context \<Rightarrow> py_error + strategy_signal option \<times> 'st"
  assumes same_answer: "same_context a b \<Longrightarrow> on_candle st a = on_candle st b"
begin

lemma same_signals:
  "list_all2 same_context as bs \<Longrightarrow> fold (\<lambda>c r. bindE r (\<lambda>(out, st). bindE (on_candle st c) (\<lambda>(sig, st'). Inr (out @ [sig], st')))) as r =
    fold (\<lambda>c r. bindE r (\<lambda>(out, st). bindE (on_candle st c) (\<lambda>(sig, st'). Inr (out @ [sig], st')))) bs r"
  by (induction arbitrary: r rule: list_all2_induct) (auto simp: same_answer)

end

lemma same_view_ask:
  assumes "same_context a b"
  shows "iv_value (ctx_indicators a) = iv_value (ctx_indicators b)"
    "iv_window (ctx_indicators a) name 2 = iv_window (ctx_indicators b) name 2"
    "last_close a = last_close b" "ctx_position a = ctx_position b"
  using assms by (simp_all add: same_context_def same_view_def WINDOW_MAXLEN_def last_close_def)

interpretation sma_view_driven: view_driven sma_on_candle
proof
  fix a b :: strategy_context and st
  assume s: "same_context a b"
  show "sma_on_candle st a = sma_on_candle st b" by (simp only: sma_on_candle_def Let_def same_view_ask [OF s])
qed

interpretation ema_view_driven: view_driven "ema_on_candle p" for p
proof
  fix a b :: strategy_context and st
  assume s: "same_context a b"
  show "ema_on_candle p st a = ema_on_candle p st b" by (simp only: ema_on_candle_def Let_def same_view_ask [OF s])
qed

interpretation rsi_view_driven: view_driven "rsi_on_candle p" for p
proof
  fix a b :: strategy_context and st
  assume s: "same_context a b"
  show "rsi_on_candle p st a = rsi_on_candle p st b" by (simp only: rsi_on_candle_def Let_def same_view_ask [OF s])
qed

end
