(* ===== verification/PT_Repos.thy ===== *)
theory PT_Repos
  imports PT_Store
begin

text \<open>
  The repositories of \<open>data/store/repos.py\<close>. \<open>SqlRepository\<close>'s \<open>add\<close>, \<open>get\<close> and
  \<open>list_all\<close> are \<open>repo_add\<close>, \<open>repo_get\<close> and \<open>repo_list\<close> over the access functions of a
  table; what they promise is stated once, in the locale \<open>repo\<close>, and interpreted for every table
  the program adds to. The tables with constraints check them first. Order transitions follow the
  state machine and append the audit event in the same step; that the store stays well-formed
  under each of these operations is proved here.
\<close>

section \<open>The generic repository\<close>

definition repo_add ::
  "(store \<Rightarrow> 'r list) \<Rightarrow> ('r list \<Rightarrow> store \<Rightarrow> store) \<Rightarrow> ('r \<Rightarrow> nat) \<Rightarrow> (nat \<Rightarrow> 'r \<Rightarrow> 'r) \<Rightarrow> 'r \<Rightarrow> (store, 'r) act" where
  "repo_add rows put rid set_id r = (\<lambda>d.
     let r' = set_id (next_id (map rid (rows d))) r in (Inr r', put (rows d @ [r']) d))"

definition repo_get :: "(store \<Rightarrow> 'r list) \<Rightarrow> ('r \<Rightarrow> nat) \<Rightarrow> nat \<Rightarrow> store \<Rightarrow> 'r option" where
  "repo_get rows rid i d = tbl_get rid i (rows d)"

definition repo_list :: "(store \<Rightarrow> 'r list) \<Rightarrow> store \<Rightarrow> 'r list" where
  "repo_list rows d = rows d"

locale repo =
  fixes rows :: "store \<Rightarrow> 'r list"
    and put :: "'r list \<Rightarrow> store \<Rightarrow> store"
    and rid :: "'r \<Rightarrow> nat"
    and set_id :: "nat \<Rightarrow> 'r \<Rightarrow> 'r"
  assumes rows_put: "rows (put xs d) = xs"
    and rid_set_id: "rid (set_id i r) = i"
begin

lemma add_returns:
  assumes "repo_add rows put rid set_id r d = (res, e)"
  obtains r' where "res = Inr r'" and "rows e = rows d @ [r']" and "r' = set_id (rid r') r"
    and "rid r' \<notin> rid ` set (rows d)" and "e = put (rows d @ [r']) d"
proof -
  let ?r = "set_id (next_id (map rid (rows d))) r"
  have "res = Inr ?r" "e = put (rows d @ [?r]) d"
    using assms by (simp_all add: repo_add_def Let_def)
  then show thesis
    using next_id_fresh [of "map rid (rows d)"] by (intro that [of ?r]) (auto simp: rows_put rid_set_id)
qed

lemma get_added:
  assumes "repo_add rows put rid set_id r d = (Inr r', e)"
  shows "repo_get rows rid (rid r') e = Some r'"
    and "i \<noteq> rid r' \<Longrightarrow> repo_get rows rid i e = repo_get rows rid i d"
proof -
  from assms obtain s where s: "Inr r' = (Inr s :: py_error + 'r)" "rows e = rows d @ [s]" "rid s \<notin> rid ` set (rows d)"
    by (rule add_returns)
  then have "tbl_get rid (rid s) (rows d) = None" by (simp add: tbl_get_None)
  with s show "repo_get rows rid (rid r') e = Some r'"
    by (simp add: repo_get_def tbl_get_append) (simp add: tbl_get_def)
  show "i \<noteq> rid r' \<Longrightarrow> repo_get rows rid i e = repo_get rows rid i d"
    using s by (auto simp: repo_get_def tbl_get_append split: option.split) (auto simp: tbl_get_def)
qed

lemma add_keeps_distinct: "keeps (\<lambda>d. distinct (map rid (rows d))) (repo_add rows put rid set_id r)"
proof (rule keepsI)
  fix d assume "distinct (map rid (rows d))"
  then show "distinct (map rid (rows (snd (repo_add rows put rid set_id r d))))"
    by (cases "repo_add rows put rid set_id r d") (auto elim: add_returns)
qed

lemma add_grows: "set (repo_list rows d) \<subseteq> set (repo_list rows (snd (repo_add rows put rid set_id r d)))"
  by (cases "repo_add rows put rid set_id r d") (auto simp: repo_list_def elim: add_returns)

lemma add_frame:
  assumes "\<And>xs d. f (put xs d) = f d"
  shows "f (snd (repo_add rows put rid set_id r d)) = f d"
  using assms by (cases "repo_add rows put rid set_id r d") (auto elim: add_returns)

end

definition add_instrument where
  "add_instrument = repo_add instruments (\<lambda>xs d. d\<lparr>instruments := xs\<rparr>) ins_id (\<lambda>i r. r\<lparr>ins_id := i\<rparr>)"
definition add_signal where
  "add_signal = repo_add signals (\<lambda>xs d. d\<lparr>signals := xs\<rparr>) sg_id (\<lambda>i r. r\<lparr>sg_id := i\<rparr>)"
definition add_strategy_run where
  "add_strategy_run = repo_add strategy_runs (\<lambda>xs d. d\<lparr>strategy_runs := xs\<rparr>) sr_id (\<lambda>i r. r\<lparr>sr_id := i\<rparr>)"
definition insert_order where
  "insert_order = repo_add orders (\<lambda>xs d. d\<lparr>orders := xs\<rparr>) o_id (\<lambda>i r. r\<lparr>o_id := i\<rparr>)"
definition add_order_event where
  "add_order_event = repo_add order_events (\<lambda>xs d. d\<lparr>order_events := xs\<rparr>) ev_id (\<lambda>i r. r\<lparr>ev_id := i\<rparr>)"
definition insert_trade where
  "insert_trade = repo_add trades (\<lambda>xs d. d\<lparr>trades := xs\<rparr>) t_id (\<lambda>i r. r\<lparr>t_id := i\<rparr>)"
definition insert_position where
  "insert_position = repo_add positions (\<lambda>xs d. d\<lparr>positions := xs\<rparr>) p_id (\<lambda>i r. r\<lparr>p_id := i\<rparr>)"
definition add_risk_event where
  "add_risk_event = repo_add risk_events (\<lambda>xs d. d\<lparr>risk_events := xs\<rparr>) re_id (\<lambda>i r. r\<lparr>re_id := i\<rparr>)"
definition add_ai_analysis where
  "add_ai_analysis = repo_add ai_analyses (\<lambda>xs d. d\<lparr>ai_analyses := xs\<rparr>) ai_id (\<lambda>i r. r\<lparr>ai_id := i\<rparr>)"
definition add_recommendation where
  "add_recommendation = repo_add recommendations (\<lambda>xs d. d\<lparr>recommendations := xs\<rparr>) rec_id (\<lambda>i r. r\<lparr>rec_id := i\<rparr>)"
definition add_news_item where
  "add_news_item = repo_add news_items (\<lambda>xs d. d\<lparr>news_items := xs\<rparr>) n_id (\<lambda>i r. r\<lparr>n_id := i\<rparr>)"
definition add_news_tag where
  "add_news_tag = repo_add news_tags (\<lambda>xs d. d\<lparr>news_tags := xs\<rparr>) nt_id (\<lambda>i r. r\<lparr>nt_id := i\<rparr>)"
definition add_soak_period where
  "add_soak_period = repo_add soak_periods (\<lambda>xs d. d\<lparr>soak_periods := xs\<rparr>) so_id (\<lambda>i r. r\<lparr>so_id := i\<rparr>)"

lemmas add_defs = add_instrument_def add_signal_def add_strategy_run_def insert_order_def add_order_event_def
  insert_trade_def insert_position_def add_risk_event_def add_ai_analysis_def add_recommendation_def
  add_news_item_def add_news_tag_def add_soak_period_def

interpretation instrument_repo: repo instruments "\<lambda>xs d. d\<lparr>instruments := xs\<rparr>" ins_id "\<lambda>i r. r\<lparr>ins_id := i\<rparr>"
  by unfold_locales simp_all
interpretation signal_repo: repo signals "\<lambda>xs d. d\<lparr>signals := xs\<rparr>" sg_id "\<lambda>i r. r\<lparr>sg_id := i\<rparr>"
  by unfold_locales simp_all
interpretation strategy_run_repo: repo strategy_runs "\<lambda>xs d. d\<lparr>strategy_runs := xs\<rparr>" sr_id "\<lambda>i r. r\<lparr>sr_id := i\<rparr>"
  by unfold_locales simp_all
interpretation order_repo: repo orders "\<lambda>xs d. d\<lparr>orders := xs\<rparr>" o_id "\<lambda>i r. r\<lparr>o_id := i\<rparr>"
  by unfold_locales simp_all
interpretation event_repo: repo order_events "\<lambda>xs d. d\<lparr>order_events := xs\<rparr>" ev_id "\<lambda>i r. r\<lparr>ev_id := i\<rparr>"
  by unfold_locales simp_all
interpretation trade_repo: repo trades "\<lambda>xs d. d\<lparr>trades := xs\<rparr>" t_id "\<lambda>i r. r\<lparr>t_id := i\<rparr>"
  by unfold_locales simp_all
interpretation position_repo: repo positions "\<lambda>xs d. d\<lparr>positions := xs\<rparr>" p_id "\<lambda>i r. r\<lparr>p_id := i\<rparr>"
  by unfold_locales simp_all
interpretation risk_event_repo: repo risk_events "\<lambda>xs d. d\<lparr>risk_events := xs\<rparr>" re_id "\<lambda>i r. r\<lparr>re_id := i\<rparr>"
  by unfold_locales simp_all
interpretation ai_analysis_repo: repo ai_analyses "\<lambda>xs d. d\<lparr>ai_analyses := xs\<rparr>" ai_id "\<lambda>i r. r\<lparr>ai_id := i\<rparr>"
  by unfold_locales simp_all
interpretation recommendation_repo: repo recommendations "\<lambda>xs d. d\<lparr>recommendations := xs\<rparr>" rec_id "\<lambda>i r. r\<lparr>rec_id := i\<rparr>"
  by unfold_locales simp_all
interpretation news_repo: repo news_items "\<lambda>xs d. d\<lparr>news_items := xs\<rparr>" n_id "\<lambda>i r. r\<lparr>n_id := i\<rparr>"
  by unfold_locales simp_all
interpretation news_tag_repo: repo news_tags "\<lambda>xs d. d\<lparr>news_tags := xs\<rparr>" nt_id "\<lambda>i r. r\<lparr>nt_id := i\<rparr>"
  by unfold_locales simp_all
interpretation soak_repo: repo soak_periods "\<lambda>xs d. d\<lparr>soak_periods := xs\<rparr>" so_id "\<lambda>i r. r\<lparr>so_id := i\<rparr>"
  by unfold_locales simp_all

text \<open>Adding to a table the invariant does not read keeps the store well-formed.\<close>

lemma store_ok_add [keeps_intros]:
  "keeps store_ok (add_signal g)" "keeps store_ok (add_strategy_run sr)" "keeps store_ok (add_risk_event re)"
  "keeps store_ok (add_ai_analysis a)" "keeps store_ok (add_recommendation rc)" "keeps store_ok (add_news_item n)"
  "keeps store_ok (add_news_tag nt)" "keeps store_ok (add_soak_period so)"
  by (auto simp: keeps_def add_defs repo_add_def Let_def
      cong: store_ok_frame intro: store_ok_frame [THEN iffD2])

section \<open>Instruments\<close>

definition get_instrument :: "nat \<Rightarrow> store \<Rightarrow> instrument_row option" where
  "get_instrument i d = repo_get instruments ins_id i d"

definition get_by_symbol :: "string \<Rightarrow> string \<Rightarrow> store \<Rightarrow> instrument_row option" where
  "get_by_symbol symbol exchange d = find (\<lambda>r. ins_symbol r = symbol \<and> ins_exchange r = exchange) (instruments d)"

definition get_by_instrument_key :: "string \<Rightarrow> store \<Rightarrow> instrument_row option" where
  "get_by_instrument_key key d = find (\<lambda>r. ins_key r = key) (instruments d)"

definition list_active :: "store \<Rightarrow> instrument_row list" where
  "list_active d = filter ins_active (instruments d)"

lemma get_instrument_Some: "get_instrument i d = Some r \<Longrightarrow> r \<in> set (instruments d) \<and> ins_id r = i"
  unfolding get_instrument_def repo_get_def by (rule tbl_get_Some)

section \<open>Orders\<close>

definition get_order :: "nat \<Rightarrow> store \<Rightarrow> order_row option" where
  "get_order i d = repo_get orders o_id i d"

definition get_by_client_order_id :: "string \<Rightarrow> store \<Rightarrow> order_row option" where
  "get_by_client_order_id cid d = tbl_get o_cid cid (orders d)"

definition open_states :: "order_state list" where
  "open_states = [SUBMITTING, SUBMITTED, OPEN, PARTIALLY_FILLED]"

definition list_open_orders :: "trading_mode \<Rightarrow> store \<Rightarrow> order_row list" where
  "list_open_orders mode d = filter (\<lambda>ord. o_state ord \<in> set open_states \<and> o_mode ord = mode) (orders d)"

text \<open>Inserting an order: the unique key, the check constraints and the foreign key.\<close>

definition add_order :: "order_row \<Rightarrow> (store, order_row) act" where
  "add_order r = seqA
     (guardA (\<lambda>d. o_cid r \<notin> set (map o_cid (orders d)) \<and> order_row_ok d r) IntegrityError)
     (insert_order r)"

definition record_created :: "order_row \<Rightarrow> (store, order_row) act" where
  "record_created r = bindA (add_order r) (\<lambda>ord.
     seqA (add_order_event \<lparr>ev_id = 0, ev_order = o_id ord, ev_from = None, ev_to = o_state ord, ev_payload = NoPayload\<rparr>)
     (ret ord))"

definition upd_order :: "nat \<Rightarrow> (order_row \<Rightarrow> order_row) \<Rightarrow> store \<Rightarrow> store" where
  "upd_order i f d = d\<lparr>orders := tbl_upd o_id i f (orders d)\<rparr>"

text \<open>
  The mapped order object of a session is its row: an operation that holds one is given the id and
  reads the row. A missing row cannot occur in the program, which never deletes one.
\<close>

definition the_order :: "nat \<Rightarrow> (store, order_row) act" where
  "the_order i = (\<lambda>d. case get_order i d of None \<Rightarrow> (Inl PyAssertionError, d) | Some ord \<Rightarrow> (Inr ord, d))"

definition transition :: "nat \<Rightarrow> order_state \<Rightarrow> event_payload \<Rightarrow> (store, unit) act" where
  "transition i to_state payload = bindA (the_order i) (\<lambda>ord.
     if to_state \<notin> set (allowed_transitions (o_state ord)) then raise InvalidOrderTransition
     else seqA (modA (upd_order i (\<lambda>r. r\<lparr>o_state := to_state\<rparr>)))
            (seqA (add_order_event \<lparr>ev_id = 0, ev_order = i, ev_from = Some (o_state ord), ev_to = to_state,
                ev_payload = payload\<rparr>)
              (ret ())))"

text \<open>Assignments to a row's columns. A new filled quantity has to pass the check constraint when
  the row is written.\<close>

definition set_filled_qty :: "nat \<Rightarrow> int \<Rightarrow> (store, unit) act" where
  "set_filled_qty i n = bindA (the_order i) (\<lambda>ord.
     if n < 0 \<or> o_qty ord < n then raise IntegrityError
     else modA (upd_order i (\<lambda>r. r\<lparr>o_filled := n\<rparr>)))"

definition set_broker_id :: "nat \<Rightarrow> string \<Rightarrow> (store, unit) act" where
  "set_broker_id i b = modA (upd_order i (\<lambda>r. r\<lparr>o_broker_id := Some b\<rparr>))"

definition set_signal :: "nat \<Rightarrow> nat \<Rightarrow> (store, unit) act" where
  "set_signal i s = modA (upd_order i (\<lambda>r. r\<lparr>o_signal := Some s\<rparr>))"

subsection \<open>What the order operations do to a store\<close>

lemma get_order_Some: "get_order i d = Some ord \<Longrightarrow> ord \<in> set (orders d) \<and> o_id ord = i"
  unfolding get_order_def repo_get_def by (rule tbl_get_Some)

lemma get_order_member: "orders_wf d \<Longrightarrow> ord \<in> set (orders d) \<Longrightarrow> get_order (o_id ord) d = Some ord"
  unfolding get_order_def repo_get_def by (rule tbl_get_distinct) (simp add: orders_wf_def)

lemma get_order_upd:
  "(\<And>r. o_id (f r) = o_id r) \<Longrightarrow>
   get_order j (upd_order i f d) = (if j = i then map_option f (get_order i d) else get_order j d)"
  unfolding get_order_def repo_get_def upd_order_def by (simp add: tbl_get_upd)

lemma run_the_order [run_simps]:
  "the_order i d = (case get_order i d of None \<Rightarrow> (Inl PyAssertionError, d) | Some ord \<Rightarrow> (Inr ord, d))"
  by (simp add: the_order_def)

lemma keeps_the_order [keeps_intros]: "keeps P (the_order i)"
  by (auto simp: keeps_def the_order_def split: option.split)

text \<open>The event a transition appends.\<close>

definition append_event :: "nat \<Rightarrow> order_state option \<Rightarrow> order_state \<Rightarrow> event_payload \<Rightarrow> store \<Rightarrow> store" where
  "append_event i f t pl d = d\<lparr>order_events := order_events d @
     [\<lparr>ev_id = next_id (map ev_id (order_events d)), ev_order = i, ev_from = f, ev_to = t, ev_payload = pl\<rparr>]\<rparr>"

lemma run_add_order_event [run_simps]:
  "snd (add_order_event \<lparr>ev_id = 0, ev_order = i, ev_from = f, ev_to = t, ev_payload = pl\<rparr> d) = append_event i f t pl d"
  "\<exists>e. fst (add_order_event \<lparr>ev_id = 0, ev_order = i, ev_from = f, ev_to = t, ev_payload = pl\<rparr> d) = Inr e"
  by (simp_all add: add_order_event_def repo_add_def append_event_def Let_def)

lemma transition_run:
  "transition i t pl d = (case get_order i d of
     None \<Rightarrow> (Inl PyAssertionError, d)
   | Some ord \<Rightarrow> if t \<in> set (allowed_transitions (o_state ord))
       then (Inr (), append_event i (Some (o_state ord)) t pl (upd_order i (\<lambda>r. r\<lparr>o_state := t\<rparr>) d))
       else (Inl InvalidOrderTransition, d))"
  by (auto simp: transition_def run_simps add_order_event_def repo_add_def append_event_def Let_def split: option.split)

lemma transition_Inr:
  "transition i t pl d = (Inr u, e) \<longleftrightarrow> (\<exists>ord. get_order i d = Some ord \<and> t \<in> set (allowed_transitions (o_state ord)) \<and>
     e = append_event i (Some (o_state ord)) t pl (upd_order i (\<lambda>r. r\<lparr>o_state := t\<rparr>) d))"
  by (auto simp: transition_run split: option.split)

subsection \<open>The store stays well-formed\<close>

lemma upd_order_simps [simp]:
  "instruments (upd_order i f d) = instruments d" "order_events (upd_order i f d) = order_events d"
  "trades (upd_order i f d) = trades d" "positions (upd_order i f d) = positions d"
  "orders (upd_order i f d) = tbl_upd o_id i f (orders d)"
  "risk_events (upd_order i f d) = risk_events d" "kill_switch (upd_order i f d) = kill_switch d"
  "paper_account (upd_order i f d) = paper_account d"
  by (simp_all add: upd_order_def)

lemma append_event_simps [simp]:
  "instruments (append_event i f t pl d) = instruments d" "orders (append_event i f t pl d) = orders d"
  "trades (append_event i f t pl d) = trades d" "positions (append_event i f t pl d) = positions d"
  "risk_events (append_event i f t pl d) = risk_events d" "kill_switch (append_event i f t pl d) = kill_switch d"
  "paper_account (append_event i f t pl d) = paper_account d"
  by (simp_all add: append_event_def)

lemma trail_of_append_event:
  "trail_of (append_event i f t pl d) j = trail_of d j @ (if j = i then [(f, t)] else [])"
  by (simp add: trail_of_def append_event_def)

lemma trail_of_upd_order [simp]: "trail_of (upd_order i f d) j = trail_of d j"
  by (simp add: trail_of_def)

lemma trades_of_upd_order [simp]: "trades_of (upd_order i f d) j = trades_of d j"
  by (simp add: trades_of_def)

lemma trades_of_append_event [simp]: "trades_of (append_event i f t pl d) j = trades_of d j"
  by (simp add: trades_of_def)

lemma order_row_ok_upd_order [simp]: "order_row_ok (upd_order i f d) = order_row_ok d"
  by (simp add: order_row_ok_def fun_eq_iff)

lemma order_row_ok_append_event [simp]: "order_row_ok (append_event i f t pl d) = order_row_ok d"
  by (simp add: order_row_ok_def fun_eq_iff)

lemma o_id_upd_order:
  "(\<And>r. o_id (f r) = o_id r) \<Longrightarrow> o_id ` set (tbl_upd o_id i f rows) = o_id ` set rows"
  using map_key_tbl_upd [of o_id f i rows] by (metis list.set_map)

lemma orders_wf_upd:
  assumes "orders_wf d" and "\<And>r. o_id (f r) = o_id r" and "\<And>r. o_cid (f r) = o_cid r"
    and "\<And>ord. ord \<in> set (orders d) \<Longrightarrow> o_id ord = i \<Longrightarrow> order_row_ok d ord \<Longrightarrow> order_row_ok d (f ord)"
  shows "orders_wf (upd_order i f d)"
  using assms by (auto simp: orders_wf_def map_key_tbl_upd map_tbl_upd_frame tbl_upd_member)

lemma orders_wf_append_event [simp]: "orders_wf (append_event i f t pl d) = orders_wf d"
  by (simp add: orders_wf_def)

lemma positions_wf_orders [simp]:
  "positions_wf (upd_order i f d) = positions_wf d" "positions_wf (append_event j g t pl d) = positions_wf d"
  by (simp_all add: positions_wf_def)

lemma store_ok_upd_frame:
  assumes "store_ok d" and f: "\<And>r. o_id (f r) = o_id r" "\<And>r. o_cid (f r) = o_cid r" "\<And>r. o_qty (f r) = o_qty r"
    "\<And>r. o_filled (f r) = o_filled r" "\<And>r. o_instrument (f r) = o_instrument r" "\<And>r. o_state (f r) = o_state r"
  shows "store_ok (upd_order i f d)"
proof -
  have "orders_wf (upd_order i f d)"
    using assms by (intro orders_wf_upd) (auto simp: store_ok_def order_row_ok_def)
  moreover have "trails_wf (upd_order i f d)"
    using assms by (auto simp: store_ok_def trails_wf_def tbl_upd_member o_id_upd_order)
  moreover have "fills_wf (upd_order i f d)"
    using assms by (auto simp: store_ok_def fills_wf_def tbl_upd_member o_id_upd_order)
  ultimately show ?thesis using assms(1) by (simp add: store_ok_def)
qed

lemma keeps_set_broker_id [keeps_intros]: "keeps store_ok (set_broker_id i b)"
  unfolding set_broker_id_def by (rule keeps_modA) (rule store_ok_upd_frame, simp_all)

lemma keeps_set_signal [keeps_intros]: "keeps store_ok (set_signal i s)"
  unfolding set_signal_def by (rule keeps_modA) (rule store_ok_upd_frame, simp_all)

lemma store_ok_transition:
  assumes ok: "store_ok d" and ord: "get_order i d = Some ord" and t: "t \<in> set (allowed_transitions (o_state ord))"
  shows "store_ok (append_event i (Some (o_state ord)) t pl (upd_order i (\<lambda>r. r\<lparr>o_state := t\<rparr>) d))"
proof -
  let ?f = "\<lambda>r. r\<lparr>o_state := t\<rparr>"
  from ok have wf: "orders_wf d" by (simp add: store_ok_def)
  have same: "q = ord" if "q \<in> set (orders d)" "o_id q = i" for q
    using get_order_member [OF wf that(1)] that(2) ord by simp
  have mem: "ord \<in> set (orders d)" "o_id ord = i" using get_order_Some [OF ord] by simp_all
  have "orders_wf (upd_order i ?f d)"
    using wf by (intro orders_wf_upd) (auto simp: order_row_ok_def)
  moreover have "trails_wf (append_event i (Some (o_state ord)) t pl (upd_order i ?f d))"
    unfolding trails_wf_def
  proof (intro conjI ballI)
    fix r assume "r \<in> set (orders (append_event i (Some (o_state ord)) t pl (upd_order i ?f d)))"
    then obtain q where q: "q \<in> set (orders d)" "r = (if o_id q = i then ?f q else q)"
      by (auto simp: tbl_upd_member)
    with ok have "trail_ok (trail_of d (o_id q)) (o_state q)" by (auto simp: store_ok_def trails_wf_def)
    with q same t show "trail_ok (trail_of (append_event i (Some (o_state ord)) t pl (upd_order i ?f d)) (o_id r)) (o_state r)"
      by (cases "o_id q = i") (auto simp: trail_of_append_event trail_ok_snoc)
  next
    fix e assume "e \<in> set (order_events (append_event i (Some (o_state ord)) t pl (upd_order i ?f d)))"
    then have "e \<in> set (order_events d) \<or> ev_order e = i" by (auto simp: append_event_def)
    with ok mem show "ev_order e \<in> o_id ` set (orders (append_event i (Some (o_state ord)) t pl (upd_order i ?f d)))"
      by (auto simp: store_ok_def trails_wf_def o_id_upd_order)
  qed
  moreover have "fills_wf (append_event i (Some (o_state ord)) t pl (upd_order i ?f d))"
    using ok by (auto simp: store_ok_def fills_wf_def tbl_upd_member o_id_upd_order)
  ultimately show ?thesis using ok by (simp add: store_ok_def)
qed

lemma keeps_transition [keeps_intros]: "keeps store_ok (transition i t pl)"
  by (rule keepsI) (auto simp: transition_run intro: store_ok_transition split: option.split)

text \<open>Booking a fill: a trade of the order, and its quantity added to what is filled.\<close>

lemma store_ok_book_fill:
  assumes ok: "store_ok d" and ord: "get_order i d = Some ord" and tr: "t_order tr = i" "0 < t_qty tr"
    and room: "o_filled ord + t_qty tr \<le> o_qty ord"
  shows "store_ok (upd_order i (\<lambda>r. r\<lparr>o_filled := o_filled ord + t_qty tr\<rparr>) (d\<lparr>trades := trades d @ [tr]\<rparr>))"
proof -
  let ?f = "\<lambda>r. r\<lparr>o_filled := o_filled ord + t_qty tr\<rparr>" and ?d = "d\<lparr>trades := trades d @ [tr]\<rparr>"
  from ok have wf: "orders_wf d" by (simp add: store_ok_def)
  have same: "q = ord" if "q \<in> set (orders d)" "o_id q = i" for q
    using get_order_member [OF wf that(1)] that(2) ord by simp
  have mem: "ord \<in> set (orders d)" "o_id ord = i" using get_order_Some [OF ord] by simp_all
  have wf': "orders_wf ?d" using wf by (simp add: orders_wf_def order_row_ok_def)
  have "orders_wf (upd_order i ?f ?d)"
  proof (rule orders_wf_upd [OF wf'])
    fix q assume q: "q \<in> set (orders ?d)" "o_id q = i" "order_row_ok ?d q"
    then have "q = ord" using same by simp
    with q tr(2) room show "order_row_ok ?d (?f q)" by (simp add: order_row_ok_def)
  qed simp_all
  moreover have "trails_wf (upd_order i ?f ?d)"
    using ok by (auto simp: store_ok_def trails_wf_def tbl_upd_member o_id_upd_order trail_of_def)
  moreover have "fills_wf (upd_order i ?f ?d)"
    unfolding fills_wf_def
  proof (intro conjI ballI)
    fix r assume "r \<in> set (orders (upd_order i ?f ?d))"
    then obtain q where q: "q \<in> set (orders d)" "r = (if o_id q = i then ?f q else q)"
      by (auto simp: tbl_upd_member)
    with ok have "o_filled q = sum_list (map t_qty (trades_of d (o_id q)))" by (auto simp: store_ok_def fills_wf_def)
    with q same tr show "o_filled r = sum_list (map t_qty (trades_of (upd_order i ?f ?d) (o_id r)))"
      by (cases "o_id q = i") (auto simp: trades_of_def)
  next
    fix x assume "x \<in> set (trades (upd_order i ?f ?d))"
    then have x: "x \<in> set (trades d) \<or> x = tr" by auto
    with ok tr show "0 < t_qty x" by (auto simp: store_ok_def fills_wf_def)
    from mem have "i \<in> o_id ` set (orders d)" by auto
    with x ok tr have "t_order x \<in> o_id ` set (orders d)" by (auto simp: store_ok_def fills_wf_def)
    then show "t_order x \<in> o_id ` set (orders (upd_order i ?f ?d))" by (simp add: o_id_upd_order)
  qed
  ultimately show ?thesis using ok by (simp add: store_ok_def positions_wf_def)
qed

lemma keeps_record_created [keeps_intros]:
  assumes new: "o_state r = PENDING_RISK" "o_filled r = 0"
  shows "keeps store_ok (record_created r)"
proof (rule keepsI)
  fix d assume ok: "store_ok d"
  define i where "i = next_id (map o_id (orders d))"
  let ?r = "r\<lparr>o_id := i\<rparr>"
  have fresh: "i \<notin> o_id ` set (orders d)"
    using next_id_fresh [of "map o_id (orders d)"] by (simp add: i_def)
  show "store_ok (snd (record_created r d))"
  proof (cases "o_cid r \<notin> set (map o_cid (orders d)) \<and> order_row_ok d r")
    case False
    then show ?thesis using ok by (auto simp: record_created_def add_order_def run_simps)
  next
    case True
    let ?d = "append_event i None PENDING_RISK NoPayload (d\<lparr>orders := orders d @ [?r]\<rparr>)"
    have run: "snd (record_created r d) = ?d"
      using True new by (auto simp: record_created_def add_order_def insert_order_def repo_add_def i_def Let_def
          add_order_event_def append_event_def run_simps)
    have none: "trail_of d i = []" "trades_of d i = []"
      using ok fresh by (auto simp: store_ok_def trails_wf_def fills_wf_def trail_of_def trades_of_def filter_empty_conv)
    have rows: "order_row_ok ?d = order_row_ok d" by (simp add: order_row_ok_def fun_eq_iff)
    have row: "order_row_ok d ?r" using True by (simp add: order_row_ok_def)
    have "orders_wf ?d"
      unfolding orders_wf_def rows using ok True fresh row by (auto simp: store_ok_def orders_wf_def)
    moreover have "trails_wf ?d"
      using ok none new fresh
      by (auto simp: store_ok_def trails_wf_def trail_of_append_event trail_ok_birth)
         (auto simp: append_event_def trail_of_def trail_ok_birth image_iff)
    moreover have "fills_wf ?d"
      using ok none new fresh by (auto simp: store_ok_def fills_wf_def trades_of_def)
    ultimately show ?thesis using ok unfolding run by (simp add: store_ok_def positions_wf_def)
  qed
qed

section \<open>Positions\<close>

definition get_for :: "nat \<Rightarrow> trading_mode \<Rightarrow> store \<Rightarrow> position_row option" where
  "get_for inst mode d = find (\<lambda>p. p_instrument p = inst \<and> p_mode p = mode) (positions d)"

definition add_position :: "position_row \<Rightarrow> (store, position_row) act" where
  "add_position r = seqA
     (guardA (\<lambda>d. (\<forall>p \<in> set (positions d). \<not> (p_instrument p = p_instrument r \<and> p_mode p = p_mode r)) \<and>
        p_instrument r \<in> set (map ins_id (instruments d))) IntegrityError)
     (insert_position r)"

definition new_position :: "nat \<Rightarrow> trading_mode \<Rightarrow> position_row" where
  "new_position inst mode = \<lparr>p_id = 0, p_instrument = inst, p_qty = 0, p_avg_price = 0, p_realized_pnl = 0, p_mode = mode\<rparr>"

definition get_or_create_position :: "nat \<Rightarrow> trading_mode \<Rightarrow> (store, position_row) act" where
  "get_or_create_position inst mode = bindA (getA (get_for inst mode)) (\<lambda>existing. case existing of
     Some p \<Rightarrow> ret p
   | None \<Rightarrow> add_position (new_position inst mode))"

definition list_open_positions :: "trading_mode \<Rightarrow> store \<Rightarrow> position_row list" where
  "list_open_positions mode d = filter (\<lambda>p. p_mode p = mode \<and> p_qty p \<noteq> 0) (positions d)"

definition count_open :: "trading_mode \<Rightarrow> store \<Rightarrow> nat" where
  "count_open mode d = length (filter (\<lambda>p. p_mode p = mode \<and> p_qty p \<noteq> 0) (positions d))"

definition upd_position :: "nat \<Rightarrow> (position_row \<Rightarrow> position_row) \<Rightarrow> store \<Rightarrow> store" where
  "upd_position i f d = d\<lparr>positions := tbl_upd p_id i f (positions d)\<rparr>"

lemma upd_position_simps [simp]:
  "instruments (upd_position i f d) = instruments d" "orders (upd_position i f d) = orders d"
  "order_events (upd_position i f d) = order_events d" "trades (upd_position i f d) = trades d"
  "positions (upd_position i f d) = tbl_upd p_id i f (positions d)"
  "risk_events (upd_position i f d) = risk_events d" "kill_switch (upd_position i f d) = kill_switch d"
  "paper_account (upd_position i f d) = paper_account d"
  by (simp_all add: upd_position_def)

lemma get_for_Some: "get_for inst mode d = Some p \<Longrightarrow> p \<in> set (positions d) \<and> p_instrument p = inst \<and> p_mode p = mode"
  unfolding get_for_def by (drule find_SomeD) simp

lemma get_for_member:
  assumes "positions_wf d" and "p \<in> set (positions d)"
  shows "get_for (p_instrument p) (p_mode p) d = Some p"
proof -
  have "tbl_get (\<lambda>p. (p_instrument p, p_mode p)) (p_instrument p, p_mode p) (positions d) = Some p"
    using assms tbl_get_distinct [of "\<lambda>p. (p_instrument p, p_mode p)" "positions d" p]
    by (simp add: positions_wf_def)
  then show ?thesis by (simp add: get_for_def tbl_get_def)
qed

lemma get_for_upd:
  assumes wf: "positions_wf d" and p: "p \<in> set (positions d)"
    and f: "\<And>r. p_instrument (f r) = p_instrument r" "\<And>r. p_mode (f r) = p_mode r"
  shows "get_for inst mode (upd_position (p_id p) f d) =
    (if inst = p_instrument p \<and> mode = p_mode p then Some (f p) else get_for inst mode d)"
proof -
  have dist: "distinct (map p_id (positions d))" using wf by (simp add: positions_wf_def)
  have only: "q = p" if "q \<in> set (positions d)" "p_id q = p_id p" for q
    using dist that p by (simp add: distinct_map inj_on_def)
  have "find Q (tbl_upd p_id (p_id p) f rows) = map_option (\<lambda>q. if p_id q = p_id p then f q else q) (find Q rows)"
    if "Q = (\<lambda>p. p_instrument p = inst \<and> p_mode p = mode)" for Q rows
    using that f by (induction rows) (auto simp: tbl_upd_def)
  then have g: "get_for inst mode (upd_position (p_id p) f d) =
      map_option (\<lambda>q. if p_id q = p_id p then f q else q) (get_for inst mode d)"
    by (simp add: get_for_def)
  show ?thesis
  proof (cases "get_for inst mode d")
    case None
    then have "\<not> (inst = p_instrument p \<and> mode = p_mode p)" using get_for_member [OF wf p] by auto
    with None g show ?thesis by simp
  next
    case (Some q)
    with get_for_Some have q: "q \<in> set (positions d)" "p_instrument q = inst" "p_mode q = mode" by simp_all
    show ?thesis
    proof (cases "p_id q = p_id p")
      case True
      with q only have "q = p" by simp
      with Some g q show ?thesis by simp
    next
      case False
      then have "\<not> (inst = p_instrument p \<and> mode = p_mode p)"
        using get_for_member [OF wf p] Some by auto
      with Some g False show ?thesis by auto
    qed
  qed
qed

lemma store_ok_positions_only:
  assumes "store_ok d" "instruments e = instruments d" "orders e = orders d" "order_events e = order_events d"
    "trades e = trades d" "positions_wf e"
  shows "store_ok e"
proof -
  have "store_ok e = store_ok (d\<lparr>positions := positions e\<rparr>)" using assms by (intro store_ok_frame) simp_all
  moreover have "positions_wf (d\<lparr>positions := positions e\<rparr>)" using assms by (simp add: positions_wf_def)
  moreover have "orders_wf (d\<lparr>positions := ps\<rparr>) = orders_wf d" "trails_wf (d\<lparr>positions := ps\<rparr>) = trails_wf d"
    "fills_wf (d\<lparr>positions := ps\<rparr>) = fills_wf d" for ps
    by (simp_all add: orders_wf_def order_row_ok_def trails_wf_def trail_of_def fills_wf_def trades_of_def)
  ultimately show ?thesis using assms(1) by (simp add: store_ok_def)
qed

lemma store_ok_upd_position:
  assumes "store_ok d" and f: "\<And>r. p_id (f r) = p_id r" "\<And>r. p_instrument (f r) = p_instrument r" "\<And>r. p_mode (f r) = p_mode r"
  shows "store_ok (upd_position i f d)"
proof -
  have "positions_wf (upd_position i f d)"
    using assms by (auto simp: store_ok_def positions_wf_def map_key_tbl_upd map_tbl_upd_frame tbl_upd_member)
  then show ?thesis using assms(1) by (rule store_ok_positions_only [rotated -1]) simp_all
qed

text \<open>The position of an instrument, there or created; the row that is returned is in the store.\<close>

lemma get_or_create_Inr:
  assumes ok: "positions_wf d" and run: "get_or_create_position inst mode d = (Inr p, e)"
  shows "positions_wf e" "p \<in> set (positions e)" "p_instrument p = inst" "p_mode p = mode"
    "get_for inst mode d = Some p \<and> e = d \<or>
     get_for inst mode d = None \<and> p = (new_position inst mode)\<lparr>p_id := p_id p\<rparr> \<and> e = d\<lparr>positions := positions d @ [p]\<rparr>"
proof -
  have "positions_wf e \<and> p \<in> set (positions e) \<and> p_instrument p = inst \<and> p_mode p = mode \<and>
    (get_for inst mode d = Some p \<and> e = d \<or>
     get_for inst mode d = None \<and> p = (new_position inst mode)\<lparr>p_id := p_id p\<rparr> \<and> e = d\<lparr>positions := positions d @ [p]\<rparr>)"
  proof (cases "get_for inst mode d")
    case (Some q)
    with run have "p = q" "e = d" by (simp_all add: get_or_create_position_def run_simps)
    with Some get_for_Some [OF Some] ok show ?thesis by simp
  next
    case None
    let ?i = "next_id (map p_id (positions d))"
    from None run have p: "p = (new_position inst mode)\<lparr>p_id := ?i\<rparr>" "e = d\<lparr>positions := positions d @ [p]\<rparr>"
      and g: "\<forall>q \<in> set (positions d). \<not> (p_instrument q = inst \<and> p_mode q = mode)" "inst \<in> ins_id ` set (instruments d)"
      by (auto simp: get_or_create_position_def add_position_def run_simps new_position_def insert_position_def
          repo_add_def Let_def split: if_splits)
    have "?i \<notin> p_id ` set (positions d)" using next_id_fresh [of "map p_id (positions d)"] by simp
    with ok p g have "positions_wf e" by (auto simp: positions_wf_def new_position_def)
    then show ?thesis using p None by (simp add: new_position_def)
  qed
  then show "positions_wf e" "p \<in> set (positions e)" "p_instrument p = inst" "p_mode p = mode"
    "get_for inst mode d = Some p \<and> e = d \<or>
     get_for inst mode d = None \<and> p = (new_position inst mode)\<lparr>p_id := p_id p\<rparr> \<and> e = d\<lparr>positions := positions d @ [p]\<rparr>"
    by blast+
qed

lemma get_or_create_Inl: "get_or_create_position inst mode d = (Inl x, e) \<Longrightarrow> e = d \<and> x = IntegrityError"
  by (auto simp: get_or_create_position_def add_position_def run_simps insert_position_def repo_add_def Let_def
      split: option.splits if_splits)

lemma get_or_create_total:
  "inst \<in> ins_id ` set (instruments d) \<Longrightarrow> \<exists>p e. get_or_create_position inst mode d = (Inr p, e)"
  by (auto simp: get_or_create_position_def add_position_def run_simps insert_position_def repo_add_def Let_def
      get_for_def find_eq_None new_position_def split: option.splits)

lemma keeps_get_or_create [keeps_intros]: "keeps store_ok (get_or_create_position inst mode)"
proof (rule keepsI)
  fix d assume ok: "store_ok d"
  show "store_ok (snd (get_or_create_position inst mode d))"
  proof (cases "get_or_create_position inst mode d")
    case (Pair r e)
    show ?thesis
    proof (cases r)
      case (Inl x)
      with Pair ok get_or_create_Inl [of inst mode d x e] show ?thesis by simp
    next
      case (Inr p)
      have wf: "positions_wf d" using ok by (simp add: store_ok_def)
      have "positions_wf e" using get_or_create_Inr(1) [OF wf] Pair Inr by simp
      moreover have "e = d \<or> e = d\<lparr>positions := positions d @ [p]\<rparr>"
        using get_or_create_Inr(5) [OF wf] Pair Inr by blast
      ultimately show ?thesis using ok Pair by (auto intro: store_ok_positions_only)
    qed
  qed
qed

section \<open>Trades\<close>

definition add_trade :: "trade_row \<Rightarrow> (store, trade_row) act" where
  "add_trade r = seqA (guardA (\<lambda>d. t_order r \<in> set (map o_id (orders d))) IntegrityError) (insert_trade r)"

text \<open>The order of a trade (the program's \<open>trade.order\<close>); its mode and side.\<close>

definition trade_order :: "store \<Rightarrow> trade_row \<Rightarrow> order_row option" where
  "trade_order d t = get_order (t_order t) d"

definition trade_in_mode :: "trading_mode \<Rightarrow> store \<Rightarrow> trade_row \<Rightarrow> bool" where
  "trade_in_mode mode d t \<longleftrightarrow> (case trade_order d t of None \<Rightarrow> False | Some ord \<Rightarrow> o_mode ord = mode)"

definition list_realized_since :: "trading_mode \<Rightarrow> instant \<Rightarrow> store \<Rightarrow> trade_row list" where
  "list_realized_since mode since d =
     filter (\<lambda>t. trade_in_mode mode d t \<and> since \<le> t_executed_at t \<and> t_realized_pnl t \<noteq> None) (trades d)"

definition sum_realized_pnl_since :: "trading_mode \<Rightarrow> instant \<Rightarrow> store \<Rightarrow> rat" where
  "sum_realized_pnl_since mode since d =
     fold (\<lambda>t total. dec_add total (the (t_realized_pnl t))) (list_realized_since mode since d) 0"

definition list_for_mode :: "trading_mode \<Rightarrow> store \<Rightarrow> trade_row list" where
  "list_for_mode mode d = sort_key t_executed_at (filter (trade_in_mode mode d) (trades d))"

section \<open>The singleton tables\<close>

definition ks_new :: kill_switch_row where
  "ks_new = \<lparr>ks_tripped = False, ks_reason = None, ks_tripped_at = None, ks_consecutive_errors = 0\<rparr>"

definition ks_get_or_create :: "(store, kill_switch_row) act" where
  "ks_get_or_create = (\<lambda>d. case kill_switch d of
     Some row \<Rightarrow> (Inr row, d)
   | None \<Rightarrow> (Inr ks_new, d\<lparr>kill_switch := Some ks_new\<rparr>))"

definition account_get_or_create :: "rat \<Rightarrow> (store, rat) act" where
  "account_get_or_create initial_cash = (\<lambda>d. case paper_account d of
     Some cash \<Rightarrow> (Inr cash, d)
   | None \<Rightarrow> (Inr initial_cash, d\<lparr>paper_account := Some initial_cash\<rparr>))"

definition token_current :: "store \<Rightarrow> upstox_token_row option" where
  "token_current d = upstox_token d"

definition token_save :: "string \<Rightarrow> instant \<Rightarrow> instant \<Rightarrow> (store, upstox_token_row) act" where
  "token_save encrypted obtained expires = (\<lambda>d. case token_current d of
     None \<Rightarrow> (let row = \<lparr>tok_encrypted = encrypted, tok_obtained_at = obtained, tok_expires_at = expires\<rparr>
       in (Inr row, d\<lparr>upstox_token := Some row\<rparr>))
   | Some row \<Rightarrow> (let row' = row\<lparr>tok_encrypted := encrypted, tok_obtained_at := obtained, tok_expires_at := expires\<rparr>
       in (Inr row', d\<lparr>upstox_token := Some row'\<rparr>)))"

lemma keeps_singletons [keeps_intros]:
  "keeps store_ok ks_get_or_create" "keeps store_ok (account_get_or_create c)" "keeps store_ok (token_save k a b)"
  by (auto simp: keeps_def ks_get_or_create_def account_get_or_create_def token_save_def Let_def
      intro: store_ok_frame [THEN iffD2] split: option.split)

lemma token_save_replaces:
  "snd (token_save k2 a2 b2 (snd (token_save k1 a1 b1 d))) = snd (token_save k2 a2 b2 d)"
  by (auto simp: token_save_def token_current_def Let_def split: option.splits)

section \<open>News\<close>

definition add_if_new :: "news_item_row \<Rightarrow> (store, news_item_row option) act" where
  "add_if_new item = bindA (getA (\<lambda>d. find (\<lambda>n. n_url n = n_url item) (news_items d))) (\<lambda>found. case found of
     Some _ \<Rightarrow> ret None
   | None \<Rightarrow> bindA (add_news_item item) (\<lambda>n. ret (Some n)))"

definition effective_ts :: "news_item_row \<Rightarrow> instant" where
  "effective_ts n = (case n_published_at n of Some t \<Rightarrow> t | None \<Rightarrow> n_ingested_at n)"

definition list_for_instrument :: "nat \<Rightarrow> instant \<Rightarrow> store \<Rightarrow> news_item_row list" where
  "list_for_instrument inst since d = sort_key (\<lambda>n. - effective_ts n)
     (concat (map (\<lambda>n. map (\<lambda>_. n) (filter (\<lambda>t. nt_news_item t = n_id n \<and> nt_instrument t = inst \<and> since \<le> effective_ts n)
        (news_tags d))) (news_items d)))"

text \<open>The unique constraint on the URL of an article.\<close>

definition news_wf :: "store \<Rightarrow> bool" where
  "news_wf d \<longleftrightarrow> distinct (map n_url (news_items d)) \<and> distinct (map n_id (news_items d))"

lemma keeps_add_if_new: "keeps news_wf (add_if_new item)"
proof (rule keepsI)
  fix d assume wf: "news_wf d"
  show "news_wf (snd (add_if_new item d))"
  proof (cases "find (\<lambda>n. n_url n = n_url item) (news_items d)")
    case None
    then have "n_url item \<notin> n_url ` set (news_items d)" by (auto simp: find_eq_None)
    with wf None next_id_fresh [of "map n_id (news_items d)"] show ?thesis
      by (simp add: add_if_new_def run_simps add_news_item_def repo_add_def Let_def news_wf_def)
  qed (simp add: add_if_new_def run_simps wf)
qed

lemma add_if_new_twice:
  assumes "add_if_new item d = (Inr r, e)"
  shows "add_if_new item e = (Inr None, e)"
proof -
  have "find (\<lambda>n. n_url n = n_url item) (news_items e) \<noteq> None"
    using assms by (auto simp: add_if_new_def run_simps add_news_item_def repo_add_def Let_def find_eq_None
        dest: find_SomeD split: option.splits)
  then show ?thesis by (auto simp: add_if_new_def run_simps split: option.split)
qed

lemma list_for_instrument_sorted: "sorted (map (\<lambda>n. - effective_ts n) (list_for_instrument inst since d))"
  by (simp add: list_for_instrument_def)

lemma list_for_instrument_member:
  "n \<in> set (list_for_instrument inst since d) \<longleftrightarrow> n \<in> set (news_items d) \<and> since \<le> effective_ts n \<and>
     (\<exists>t \<in> set (news_tags d). nt_news_item t = n_id n \<and> nt_instrument t = inst)"
  by (auto simp: list_for_instrument_def)

section \<open>AI analyses, recommendations, soak periods\<close>

definition count_since :: "instant \<Rightarrow> store \<Rightarrow> nat" where
  "count_since since d = length (filter (\<lambda>a. since \<le> ai_created_at a) (ai_analyses d))"

definition sum_cost_since :: "instant \<Rightarrow> store \<Rightarrow> rat" where
  "sum_cost_since since d = fold (\<lambda>a total. dec_add total (ai_cost_usd a))
     (filter (\<lambda>a. since \<le> ai_created_at a) (ai_analyses d)) 0"

definition list_latest_cycle :: "store \<Rightarrow> recommendation_row list" where
  "list_latest_cycle d = (case map rec_created_at (recommendations d) of
     [] \<Rightarrow> []
   | t # ts \<Rightarrow> (let latest = fold max ts t in
       sort_key rec_rank (filter (\<lambda>r. rec_created_at r = latest) (recommendations d))))"

definition soak_current :: "store \<Rightarrow> soak_period_row option" where
  "soak_current d = (case sort_key (\<lambda>s. - so_started_at s) (filter (\<lambda>s. so_ended_at s = None) (soak_periods d)) of
     [] \<Rightarrow> None
   | s # _ \<Rightarrow> Some s)"

lemma sum_cost_since_append:
  "ai_analyses e = ai_analyses d @ [a] \<Longrightarrow>
   sum_cost_since t e = (if t \<le> ai_created_at a then dec_add (sum_cost_since t d) (ai_cost_usd a) else sum_cost_since t d)"
  by (simp add: sum_cost_since_def)

lemma count_since_append:
  "ai_analyses e = ai_analyses d @ [a] \<Longrightarrow> count_since t e = count_since t d + (if t \<le> ai_created_at a then 1 else 0)"
  by (simp add: count_since_def)

lemma soak_current_latest:
  "soak_current d = Some s \<Longrightarrow> s \<in> set (soak_periods d) \<and> so_ended_at s = None \<and>
   (\<forall>x \<in> set (soak_periods d). so_ended_at x = None \<longrightarrow> so_started_at x \<le> so_started_at s)"
proof -
  let ?xs = "sort_key (\<lambda>s. - so_started_at s) (filter (\<lambda>s. so_ended_at s = None) (soak_periods d))"
  assume "soak_current d = Some s"
  then obtain ys where ys: "?xs = s # ys" by (auto simp: soak_current_def split: list.splits)
  have "set ?xs = {x \<in> set (soak_periods d). so_ended_at x = None}" by auto
  moreover have "sorted (map (\<lambda>s. - so_started_at s) ?xs)" by simp
  ultimately show ?thesis unfolding ys by auto
qed

section \<open>What never changes about an order\<close>

definition order_static :: "order_row \<Rightarrow> string \<times> nat \<times> order_side \<times> order_type \<times> int \<times> rat option \<times> trading_mode" where
  "order_static r = (o_cid r, o_instrument r, o_side r, o_type r, o_qty r, o_limit r, o_mode r)"

definition static_of :: "store \<Rightarrow> nat \<Rightarrow> (string \<times> nat \<times> order_side \<times> order_type \<times> int \<times> rat option \<times> trading_mode) option" where
  "static_of d i = map_option order_static (get_order i d)"

lemma order_static_upd [simp]:
  "order_static (r\<lparr>o_state := st\<rparr>) = order_static r" "order_static (r\<lparr>o_filled := n\<rparr>) = order_static r"
  "order_static (r\<lparr>o_broker_id := b\<rparr>) = order_static r" "order_static (r\<lparr>o_signal := s\<rparr>) = order_static r"
  "order_static (r\<lparr>o_id := i\<rparr>) = order_static r"
  by (simp_all add: order_static_def)

lemma static_of_upd_order:
  "(\<And>r. o_id (f r) = o_id r) \<Longrightarrow> (\<And>r. order_static (f r) = order_static r) \<Longrightarrow>
   static_of (upd_order i f d) j = static_of d j"
  by (cases "get_order i d") (auto simp: static_of_def get_order_upd)

lemma static_of_same_orders: "orders e = orders d \<Longrightarrow> static_of e = static_of d"
  by (simp add: static_of_def get_order_def repo_get_def fun_eq_iff)

lemma static_of_append_event [simp]: "static_of (append_event i f t pl d) = static_of d"
  by (rule static_of_same_orders) simp

lemma static_of_transition: "static_of (snd (transition i t pl d)) = static_of d"
  by (auto simp: transition_run static_of_upd_order fun_eq_iff split: option.split)

lemma static_of_set_filled: "static_of (snd (set_filled_qty i n d)) = static_of d"
  by (auto simp: set_filled_qty_def run_simps static_of_upd_order fun_eq_iff split: option.split)

lemma static_of_get_or_create: "static_of (snd (get_or_create_position inst mode d)) = static_of d"
  by (rule static_of_same_orders)
    (auto simp: get_or_create_position_def add_position_def run_simps insert_position_def repo_add_def Let_def split: option.split)

lemma record_created_Inr:
  assumes "record_created r d = (Inr ord, e)"
  shows "ord = r\<lparr>o_id := next_id (map o_id (orders d))\<rparr>"
    "e = append_event (o_id ord) None (o_state r) NoPayload (d\<lparr>orders := orders d @ [ord]\<rparr>)"
    "get_order (o_id ord) e = Some ord" "o_cid r \<notin> o_cid ` set (orders d)" "order_row_ok d r"
    "i \<noteq> o_id ord \<Longrightarrow> get_order i e = get_order i d"
proof -
  show r: "ord = r\<lparr>o_id := next_id (map o_id (orders d))\<rparr>"
    "e = append_event (o_id ord) None (o_state r) NoPayload (d\<lparr>orders := orders d @ [ord]\<rparr>)"
    "o_cid r \<notin> o_cid ` set (orders d)" "order_row_ok d r"
    using assms by (auto simp: record_created_def add_order_def run_simps insert_order_def repo_add_def Let_def
        add_order_event_def append_event_def split: if_splits)
  have "o_id ord \<notin> o_id ` set (orders d)"
    using next_id_fresh [of "map o_id (orders d)"] by (simp add: r(1))
  then have none: "tbl_get o_id (o_id ord) (orders d) = None" by (simp add: tbl_get_None)
  show "get_order (o_id ord) e = Some ord" "i \<noteq> o_id ord \<Longrightarrow> get_order i e = get_order i d"
    unfolding r(2) get_order_def repo_get_def append_event_simps using none
    by (auto simp: tbl_get_append split: option.split) (auto simp: tbl_get_def)
qed

lemma record_created_Inl: "record_created r d = (Inl x, e) \<Longrightarrow> x = IntegrityError \<and> e = d"
  by (auto simp: record_created_def add_order_def run_simps insert_order_def repo_add_def Let_def
      add_order_event_def split: if_splits)

lemma static_of_record_created: "static_of d i = Some k \<Longrightarrow> static_of (snd (record_created r d)) i = Some k"
proof (cases "record_created r d")
  case (Pair res e)
  assume k: "static_of d i = Some k"
  show ?thesis
  proof (cases res)
    case (Inl x)
    with Pair record_created_Inl k show ?thesis by fastforce
  next
    case (Inr ord)
    with Pair have run: "record_created r d = (Inr ord, e)" by simp
    have "get_order i d \<noteq> None" using k by (auto simp: static_of_def)
    then have "i \<noteq> o_id ord"
      using record_created_Inr(1) [OF run] next_id_fresh [of "map o_id (orders d)"]
      by (auto simp: get_order_def repo_get_def tbl_get_None) (metis imageI)
    with record_created_Inr(6) [OF run this] Pair Inr k show ?thesis by (simp add: static_of_def)
  qed
qed

lemma get_by_cid_member:
  "orders_wf d \<Longrightarrow> ord \<in> set (orders d) \<Longrightarrow> get_by_client_order_id (o_cid ord) d = Some ord"
  unfolding get_by_client_order_id_def by (rule tbl_get_distinct) (simp add: orders_wf_def)

lemma get_by_cid_Some: "get_by_client_order_id cid d = Some ord \<Longrightarrow> ord \<in> set (orders d) \<and> o_cid ord = cid"
  unfolding get_by_client_order_id_def by (rule tbl_get_Some)

end
