(* ===== verification/PT_Config.thy ===== *)
theory PT_Config
  imports PT_Enums PT_Numerics PT_Store
begin

text \<open>
  The configuration sections of \<open>core/config.py\<close> that the modelled code reads: one record per
  section, its \<open>default\<close> value, and the constraints of its fields (pydantic's \<open>ge\<close>, \<open>gt\<close>,
  \<open>le\<close>) as a boolean predicate. A value of a section is only ever built through validation, so
  \<open>\<dots>_ok\<close> is what the rest of the program may rely on. The merged configuration, the
  secrets and the layered loading of the YAML files are in PT_Settings; the section of the logger is not modelled.
\<close>

section \<open>Trading and risk\<close>

datatype config_mode = ConfigPaper | ConfigLive

record trading_config =
  tc_mode :: config_mode
  tc_live_orders_enabled :: bool
  tc_universe :: "string list"
  tc_strategy :: string
  tc_strategy_params :: json
  tc_interval :: interval

definition trading_config_default :: trading_config where
  "trading_config_default = \<lparr>tc_mode = ConfigPaper, tc_live_orders_enabled = False, tc_universe = [],
     tc_strategy = ''sma_crossover'', tc_strategy_params = JObj [], tc_interval = M1\<rparr>"

definition trading_config_ok :: "trading_config \<Rightarrow> bool" where
  "trading_config_ok c \<longleftrightarrow> tc_interval c = M1 \<or> tc_interval c = M15"

record kill_switch_config =
  max_consecutive_errors :: int

definition kill_switch_config_default :: kill_switch_config where
  "kill_switch_config_default = \<lparr>max_consecutive_errors = 5\<rparr>"

definition kill_switch_config_ok :: "kill_switch_config \<Rightarrow> bool" where
  "kill_switch_config_ok c \<longleftrightarrow> 1 \<le> max_consecutive_errors c"

record risk_config =
  capital :: rat
  risk_per_trade_pct :: rat
  max_open_positions :: int
  max_daily_loss_pct :: rat
  rc_kill_switch :: kill_switch_config

definition risk_config_default :: risk_config where
  "risk_config_default = \<lparr>capital = 500000, risk_per_trade_pct = 1, max_open_positions = 5,
     max_daily_loss_pct = 3, rc_kill_switch = kill_switch_config_default\<rparr>"

definition risk_config_ok :: "risk_config \<Rightarrow> bool" where
  "risk_config_ok c \<longleftrightarrow> 0 < capital c \<and> 0 < risk_per_trade_pct c \<and> risk_per_trade_pct c \<le> 10 \<and>
     1 \<le> max_open_positions c \<and> 0 < max_daily_loss_pct c \<and> max_daily_loss_pct c \<le> 100 \<and>
     kill_switch_config_ok (rc_kill_switch c)"

section \<open>AI analysis and recommendations\<close>

text \<open>US dollars per million tokens.\<close>

record model_pricing =
  input_per_mtok :: rat
  output_per_mtok :: rat

definition model_pricing_ok :: "model_pricing \<Rightarrow> bool" where
  "model_pricing_ok c \<longleftrightarrow> 0 \<le> input_per_mtok c \<and> 0 \<le> output_per_mtok c"

record ai_config =
  ai_enabled :: bool
  ai_provider :: string
  ai_model_id :: string
  ai_max_tokens_per_call :: int
  ai_daily_call_cap :: int
  ai_monthly_usd_cap :: rat
  ai_news_lookback_days :: int
  ai_max_news_items :: int
  ai_pricing :: "(string \<times> model_pricing) list"

definition ai_config_default :: ai_config where
  "ai_config_default = \<lparr>ai_enabled = True, ai_provider = ''anthropic'', ai_model_id = ''claude-opus-4-8'', ai_max_tokens_per_call = 2048, ai_daily_call_cap = 100,
     ai_monthly_usd_cap = 25, ai_news_lookback_days = 3, ai_max_news_items = 5,
     ai_pricing = [(''claude-opus-4-8'', \<lparr>input_per_mtok = 5, output_per_mtok = 25\<rparr>),
       (''claude-haiku-4-5'', \<lparr>input_per_mtok = 1, output_per_mtok = 5\<rparr>)]\<rparr>"

definition ai_config_ok :: "ai_config \<Rightarrow> bool" where
  "ai_config_ok c \<longleftrightarrow> 256 \<le> ai_max_tokens_per_call c \<and> 0 \<le> ai_daily_call_cap c \<and>
     0 \<le> ai_monthly_usd_cap c \<and> 0 \<le> ai_news_lookback_days c \<and> 0 \<le> ai_max_news_items c \<and>
     (\<forall>x \<in> set (ai_pricing c). model_pricing_ok (snd x))"

text \<open>The ordinal scale of conviction, low to high.\<close>

datatype conviction = ConvLow | ConvMedium | ConvHigh

record recommendation_config =
  rc_interval :: interval
  veto_conviction_threshold :: conviction

definition recommendation_config_default :: recommendation_config where
  "recommendation_config_default = \<lparr>rc_interval = D1, veto_conviction_threshold = ConvHigh\<rparr>"

section \<open>Execution\<close>

record upstox_config =
  uc_segment :: segment
  uc_max_retries :: nat
  uc_kill_threshold_qty :: int

definition upstox_config_default :: upstox_config where
  "upstox_config_default = \<lparr>uc_segment = DELIVERY, uc_max_retries = 3, uc_kill_threshold_qty = 5\<rparr>"

definition upstox_config_ok :: "upstox_config \<Rightarrow> bool" where
  "upstox_config_ok c \<longleftrightarrow> 0 \<le> uc_kill_threshold_qty c"

record cost_config =
  brokerage_pct :: rat
  brokerage_max :: rat
  stt_delivery_pct :: rat
  stt_intraday_sell_pct :: rat
  exchange_txn_pct :: rat
  sebi_pct :: rat
  stamp_duty_buy_delivery_pct :: rat
  stamp_duty_buy_intraday_pct :: rat
  gst_pct :: rat

definition cost_config_default :: cost_config where
  "cost_config_default = \<lparr>brokerage_pct = 3 / 10 ^ 4, brokerage_max = 20, stt_delivery_pct = 1 / 10 ^ 3,
     stt_intraday_sell_pct = 25 / 10 ^ 5, exchange_txn_pct = 297 / 10 ^ 7, sebi_pct = 1 / 10 ^ 6,
     stamp_duty_buy_delivery_pct = 15 / 10 ^ 5, stamp_duty_buy_intraday_pct = 3 / 10 ^ 5,
     gst_pct = 18 / 10 ^ 2\<rparr>"

definition cost_config_ok :: "cost_config \<Rightarrow> bool" where
  "cost_config_ok c \<longleftrightarrow> 0 \<le> brokerage_pct c \<and> 0 \<le> brokerage_max c \<and> 0 \<le> stt_delivery_pct c \<and>
     0 \<le> stt_intraday_sell_pct c \<and> 0 \<le> exchange_txn_pct c \<and> 0 \<le> sebi_pct c \<and>
     0 \<le> stamp_duty_buy_delivery_pct c \<and> 0 \<le> stamp_duty_buy_intraday_pct c \<and> 0 \<le> gst_pct c"

record backtest_config =
  bc_slippage_bps :: rat
  bc_segment :: segment

definition backtest_config_default :: backtest_config where
  "backtest_config_default = \<lparr>bc_slippage_bps = 5, bc_segment = DELIVERY\<rparr>"

definition backtest_config_ok :: "backtest_config \<Rightarrow> bool" where
  "backtest_config_ok c \<longleftrightarrow> 0 \<le> bc_slippage_bps c"

record paper_config =
  pc_slippage_bps :: rat
  pc_segment :: segment
  pc_latency_ms :: int

definition paper_config_default :: paper_config where
  "paper_config_default = \<lparr>pc_slippage_bps = 5, pc_segment = DELIVERY, pc_latency_ms = 250\<rparr>"

definition paper_config_ok :: "paper_config \<Rightarrow> bool" where
  "paper_config_ok c \<longleftrightarrow> 0 \<le> pc_slippage_bps c \<and> 0 \<le> pc_latency_ms c"

section \<open>News and the soak\<close>

record news_config =
  nc_sources :: "(string \<times> string) list"
  nc_lookback_days :: int
  nc_max_title_length :: int
  nc_max_body_length :: int

definition news_config_default :: news_config where
  "news_config_default = \<lparr>nc_sources = [(''economic_times_markets'', ''https://economictimes.indiatimes.com/markets/rssfeeds/1977021501.cms''),
       (''livemint_markets'', ''https://www.livemint.com/rss/markets'')], nc_lookback_days = 2, nc_max_title_length = 300, nc_max_body_length = 2000\<rparr>"

definition news_config_ok :: "news_config \<Rightarrow> bool" where
  "news_config_ok c \<longleftrightarrow> 1 \<le> nc_lookback_days c \<and> 1 \<le> nc_max_title_length c \<and> 1 \<le> nc_max_body_length c"

record soak_config =
  sc_target_days :: int
  sc_min_closed_trades :: int
  sc_min_sharpe :: rat
  sc_max_drawdown_pct :: rat
  sc_require_positive_net_pnl :: bool

definition soak_config_default :: soak_config where
  "soak_config_default = \<lparr>sc_target_days = 28, sc_min_closed_trades = 20, sc_min_sharpe = 0,
     sc_max_drawdown_pct = 25, sc_require_positive_net_pnl = True\<rparr>"

definition soak_config_ok :: "soak_config \<Rightarrow> bool" where
  "soak_config_ok c \<longleftrightarrow> 1 \<le> sc_target_days c \<and> 0 \<le> sc_min_closed_trades c \<and> 0 \<le> sc_max_drawdown_pct c"

section \<open>The dashboard\<close>

record dashboard_config =
  dc_host :: string
  dc_port :: int
  dc_poll_interval_seconds :: rat

definition dashboard_config_default :: dashboard_config where
  "dashboard_config_default = \<lparr>dc_host = ''127.0.0.1'', dc_port = 8000, dc_poll_interval_seconds = 3\<rparr>"

definition dashboard_config_ok :: "dashboard_config \<Rightarrow> bool" where
  "dashboard_config_ok c \<longleftrightarrow> 1 \<le> dc_port c \<and> dc_port c \<le> 65535 \<and> 0 < dc_poll_interval_seconds c"

section \<open>The defaults satisfy the constraints\<close>

lemma config_defaults_ok:
  "trading_config_ok trading_config_default" "risk_config_ok risk_config_default"
  "ai_config_ok ai_config_default" "upstox_config_ok upstox_config_default"
  "cost_config_ok cost_config_default" "backtest_config_ok backtest_config_default"
  "paper_config_ok paper_config_default" "news_config_ok news_config_default"
  "soak_config_ok soak_config_default" "dashboard_config_ok dashboard_config_default"
  by (simp_all add: trading_config_ok_def trading_config_default_def risk_config_ok_def
      risk_config_default_def kill_switch_config_ok_def kill_switch_config_default_def
      ai_config_ok_def ai_config_default_def model_pricing_ok_def upstox_config_ok_def upstox_config_default_def
      cost_config_ok_def cost_config_default_def backtest_config_ok_def backtest_config_default_def
      paper_config_ok_def paper_config_default_def news_config_ok_def news_config_default_def
      soak_config_ok_def soak_config_default_def dashboard_config_ok_def dashboard_config_default_def)

end
