(* ===== verification/PT_Risk.thy ===== *)
theory PT_Risk
  imports PT_Repos PT_Config PT_Strategy_Base
begin

text \<open>
  The risk gate: the limit checks of \<open>risk/limits.py\<close>, the fixed-fractional sizer of
  \<open>risk/sizing.py\<close>, the persisted kill switch of \<open>risk/kill_switch.py\<close> and
  \<open>RiskEngine.evaluate\<close> of \<open>risk/engine.py\<close>. What a position sizer promises is the locale
  \<open>position_sizer\<close>, in which the bound on what the engine approves is proved; the
  fixed-fractional sizer interprets it. Client order ids (\<open>uuid4\<close>) and the wall clock are
  arguments.
\<close>

section \<open>Limits\<close>

definition exceeds_max_open_positions :: "int \<Rightarrow> int \<Rightarrow> bool" where
  "exceeds_max_open_positions open_count cap \<longleftrightarrow> cap \<le> open_count"

definition exceeds_max_daily_loss :: "rat \<Rightarrow> rat \<Rightarrow> rat \<Rightarrow> bool" where
  "exceeds_max_daily_loss pnl equity max_pct =
     (if 0 \<le> pnl \<or> equity \<le> 0 then False
      else max_pct \<le> dec_mul (dec_rnd (dec_neg pnl / equity)) 100)"

lemma no_daily_loss: "0 \<le> pnl \<Longrightarrow> \<not> exceeds_max_daily_loss pnl equity max_pct"
  by (simp add: exceeds_max_daily_loss_def)

text \<open>The limit is monotone: a worse day, or less equity, never lifts it.\<close>

lemma daily_loss_mono:
  assumes "exceeds_max_daily_loss pnl equity max_pct" and "worse \<le> pnl" and "0 < equity2" "equity2 \<le> equity"
  shows "exceeds_max_daily_loss worse equity2 max_pct"
proof -
  from assms(1) have p: "pnl < 0" "0 < equity" and ge: "max_pct \<le> dec_mul (dec_rnd (dec_neg pnl / equity)) 100"
    by (auto simp: exceeds_max_daily_loss_def split: if_splits)
  have n: "0 \<le> dec_neg pnl" using p by (simp add: dec_neg_def dec.rnd_nonneg_iff)
  have "dec_neg pnl \<le> dec_neg worse" using assms(2) by (simp add: dec_neg_def dec.rnd_mono)
  with n have "dec_neg pnl / equity \<le> dec_neg worse / equity2"
    using p assms(3,4) by (intro frac_le) simp_all
  then have "dec_mul (dec_rnd (dec_neg pnl / equity)) 100 \<le> dec_mul (dec_rnd (dec_neg worse / equity2)) 100"
    by (simp add: dec_mul_def dec.rnd_mono)
  with ge p assms show ?thesis by (simp add: exceeds_max_daily_loss_def)
qed

section \<open>Sizing\<close>

definition sizer_init :: "rat \<Rightarrow> py_error + rat" where
  "sizer_init pct = (if 0 < pct \<and> pct \<le> 100 then Inr pct else Inl PyValueError)"

definition sizer_allocation :: "rat \<Rightarrow> rat \<Rightarrow> rat" where
  "sizer_allocation pct equity = dec_mul equity (dec_rnd (pct / 100))"

definition sizer_size :: "rat \<Rightarrow> rat \<Rightarrow> rat \<Rightarrow> py_error + int" where
  "sizer_size pct equity price =
     (if price \<le> 0 \<or> equity \<le> 0 then Inr 0
      else bindE (dec_floordiv (sizer_allocation pct equity) price) (\<lambda>q. Inr (max q 0)))"

text \<open>
  What the program relies on in a sizer: a size is never negative, nothing is bought without
  equity, and what is bought costs at most the budget the sizer sets aside.
\<close>

locale position_sizer =
  fixes sizer :: "rat \<Rightarrow> rat \<Rightarrow> py_error + int" and budget :: "rat \<Rightarrow> rat"
  assumes size_nonneg: "sizer equity price = Inr q \<Longrightarrow> 0 \<le> q"
    and size_needs: "sizer equity price = Inr q \<Longrightarrow> 0 < q \<Longrightarrow> 0 < price \<and> 0 < equity"
    and size_budget: "sizer equity price = Inr q \<Longrightarrow> 0 < q \<Longrightarrow> price * of_int q \<le> budget equity"

lemma sizer_size_Inr:
  assumes "sizer_size pct equity price = Inr q" and "0 < q"
  shows "0 < price" "0 < equity" "q = \<lfloor>sizer_allocation pct equity / price\<rfloor>"
proof -
  show p: "0 < price" "0 < equity"
    using assms by (auto simp: sizer_size_def split: if_splits)
  then have "q = max (trunc_rat (sizer_allocation pct equity / price)) 0"
    using assms(1) by (auto simp: sizer_size_def bindE_Inr_conv dec_floordiv_def Let_def split: if_splits)
  with assms(2) show "q = \<lfloor>sizer_allocation pct equity / price\<rfloor>"
    by (auto simp: trunc_rat_def max_def split: if_splits)
qed

interpretation fixed_fractional: position_sizer "sizer_size pct" "sizer_allocation pct" for pct
proof
  fix equity price :: rat and q :: int
  assume size: "sizer_size pct equity price = Inr q"
  then show "0 \<le> q" by (auto simp: sizer_size_def bindE_Inr_conv split: if_splits)
  assume q: "0 < q"
  note s = sizer_size_Inr [OF size q]
  show "0 < price \<and> 0 < equity" using s by simp
  have "of_int q \<le> sizer_allocation pct equity / price" unfolding s(3) by simp
  then show "price * of_int q \<le> sizer_allocation pct equity"
    using s(1) by (simp add: pos_le_divide_eq mult.commute)
qed

text \<open>The allocation is at most the equity, and grows with it.\<close>

lemma allocation_le_equity:
  assumes "0 < pct" "pct \<le> 100" "0 \<le> equity" "dec_rnd equity = equity"
  shows "sizer_allocation pct equity \<le> equity"
proof -
  have "dec_rnd (pct / 100) \<le> 1"
    using assms(2) by (intro dec.rnd_le dec.rnd_1) simp_all
  then have "equity * dec_rnd (pct / 100) \<le> equity" using assms(3) by (simp add: mult_left_le)
  then show ?thesis unfolding sizer_allocation_def dec_mul_def using assms(4) by (intro dec.rnd_le)
qed

section \<open>The kill switch\<close>

definition ks_state :: "(store, kill_switch_row) act" where
  "ks_state = ks_get_or_create"

definition ks_is_tripped :: "(store, bool) act" where
  "ks_is_tripped = bindA ks_state (\<lambda>row. ret (ks_tripped row))"

definition ks_put :: "kill_switch_row \<Rightarrow> (store, unit) act" where
  "ks_put row = modA (\<lambda>d. d\<lparr>kill_switch := Some row\<rparr>)"

definition ks_trip :: "instant \<Rightarrow> trip_reason \<Rightarrow> (store, kill_switch_row) act" where
  "ks_trip now reason = bindA ks_state (\<lambda>row.
     if ks_tripped row then ret row
     else let row' = row\<lparr>ks_tripped := True, ks_reason := Some reason, ks_tripped_at := Some now\<rparr> in
       seqA (ks_put row') (seqA
         (add_risk_event \<lparr>re_id = 0, re_kind = KillSwitchTrip, re_detail = SwitchTripped reason\<rparr>)
         (ret row')))"

definition ks_reset :: "string \<Rightarrow> (store, kill_switch_row) act" where
  "ks_reset reason = bindA ks_state (\<lambda>row.
     if \<not> ks_tripped row then raise KillSwitchNotTripped
     else let row' = row\<lparr>ks_tripped := False, ks_reason := None, ks_tripped_at := None, ks_consecutive_errors := 0\<rparr> in
       seqA (ks_put row') (seqA
         (add_risk_event \<lparr>re_id = 0, re_kind = KillSwitchReset, re_detail = SwitchReset reason\<rparr>)
         (ret row')))"

definition ks_record_error :: "instant \<Rightarrow> int \<Rightarrow> (store, kill_switch_row) act" where
  "ks_record_error now max_errors = bindA ks_state (\<lambda>row.
     let n = ks_consecutive_errors row + 1; row' = row\<lparr>ks_consecutive_errors := n\<rparr> in
     seqA (ks_put row')
       (if max_errors \<le> n \<and> \<not> ks_tripped row then ks_trip now (ErrorStreak n max_errors) else ret row'))"

definition ks_record_success :: "(store, kill_switch_row) act" where
  "ks_record_success = bindA ks_state (\<lambda>row.
     if ks_consecutive_errors row \<noteq> 0
     then let row' = row\<lparr>ks_consecutive_errors := 0\<rparr> in seqA (ks_put row') (ret row')
     else ret row)"

text \<open>The current row; a store that has none yet behaves like one with a fresh row.\<close>

definition ks_of :: "store \<Rightarrow> kill_switch_row" where
  "ks_of d = (case kill_switch d of None \<Rightarrow> ks_new | Some row \<Rightarrow> row)"

definition halted :: "store \<Rightarrow> bool" where
  "halted d \<longleftrightarrow> ks_tripped (ks_of d)"

lemmas ks_run = ks_state_def ks_get_or_create_def ks_put_def ks_is_tripped_def run_simps add_risk_event_def
  repo_add_def Let_def

lemma ks_is_tripped_run: "fst (ks_is_tripped d) = Inr (halted d)" "ks_of (snd (ks_is_tripped d)) = ks_of d"
  by (auto simp: ks_run halted_def ks_of_def split: option.split)

lemma ks_trip_run:
  "ks_of (snd (ks_trip now r d)) = (if halted d then ks_of d
     else (ks_of d)\<lparr>ks_tripped := True, ks_reason := Some r, ks_tripped_at := Some now\<rparr>)"
  "map re_detail (risk_events (snd (ks_trip now r d))) =
     map re_detail (risk_events d) @ (if halted d then [] else [SwitchTripped r])"
  by (auto simp: ks_trip_def ks_run halted_def ks_of_def split: option.split)

lemma ks_reset_run:
  "fst (ks_reset r d) = (if halted d then Inr ((ks_of d)\<lparr>ks_tripped := False, ks_reason := None, ks_tripped_at := None, ks_consecutive_errors := 0\<rparr>)
     else Inl KillSwitchNotTripped)"
  "ks_of (snd (ks_reset r d)) = (if halted d
     then (ks_of d)\<lparr>ks_tripped := False, ks_reason := None, ks_tripped_at := None, ks_consecutive_errors := 0\<rparr> else ks_of d)"
  by (auto simp: ks_reset_def ks_run halted_def ks_of_def split: option.split)

lemma ks_record_error_run:
  "ks_consecutive_errors (ks_of (snd (ks_record_error now m d))) = ks_consecutive_errors (ks_of d) + 1"
  "halted (snd (ks_record_error now m d)) \<longleftrightarrow> halted d \<or> m \<le> ks_consecutive_errors (ks_of d) + 1"
  by (auto simp: ks_record_error_def ks_trip_def ks_run halted_def ks_of_def split: option.split)

lemma ks_record_success_run:
  "ks_consecutive_errors (ks_of (snd (ks_record_success d))) = 0"
  "halted (snd (ks_record_success d)) = halted d"
  by (auto simp: ks_record_success_def ks_run halted_def ks_of_def split: option.split)

text \<open>None of them touches the tables the store invariant reads.\<close>

lemma keeps_ks_put [keeps_intros]: "keeps store_ok (ks_put row)"
  unfolding ks_put_def by (rule keeps_modA, erule store_ok_same) simp_all

lemma keeps_ks_state [keeps_intros]: "keeps store_ok ks_state" "keeps store_ok ks_is_tripped"
  unfolding ks_is_tripped_def ks_state_def by (intro keeps_intros)+

lemma keeps_ks_trip [keeps_intros]: "keeps store_ok (ks_trip now r)"
  unfolding ks_trip_def Let_def by (intro keeps_intros)

lemma keeps_ks_rest [keeps_intros]:
  "keeps store_ok (ks_reset s)" "keeps store_ok (ks_record_error now m)" "keeps store_ok ks_record_success"
  unfolding ks_reset_def ks_record_error_def ks_record_success_def Let_def by (intro keeps_intros)+

text \<open>A run of \<open>k\<close> failures in a row.\<close>

primrec record_errors :: "nat \<Rightarrow> instant \<Rightarrow> int \<Rightarrow> store \<Rightarrow> store" where
  "record_errors 0 now m d = d"
| "record_errors (Suc k) now m d = record_errors k now m (snd (ks_record_error now m d))"

lemma record_errors_run:
  "ks_consecutive_errors (ks_of (record_errors k now m d)) = ks_consecutive_errors (ks_of d) + int k"
  "0 < k \<Longrightarrow> halted (record_errors k now m d) \<longleftrightarrow> halted d \<or> m \<le> ks_consecutive_errors (ks_of d) + int k"
proof (induction k arbitrary: d)
  case (Suc k)
  case 1
  show ?case by (simp add: Suc.IH ks_record_error_run)
  case 2
  show ?case
  proof (cases "k = 0")
    case True
    then show ?thesis by (simp add: ks_record_error_run)
  next
    case False
    then show ?thesis by (auto simp: Suc.IH ks_record_error_run)
  qed
qed simp_all

section \<open>The risk engine\<close>

record approved_order =
  ao_cid :: string
  ao_instrument :: nat
  ao_side :: order_side
  ao_type :: order_type
  ao_qty :: int
  ao_limit :: "rat option"

datatype risk_result = Approved approved_order | Rejected rejection_reason

definition to_tick_decimal :: "rat \<Rightarrow> rat \<Rightarrow> rat" where
  "to_tick_decimal price tick_size = (let raw = dec_of_float price in
     if tick_size \<le> 0 then raw
     else let ticks = of_int (rhe (dec_rnd (raw / tick_size))) in dec_mul ticks tick_size)"

definition risk_approve :: "string \<Rightarrow> instrument_row \<Rightarrow> order_side \<Rightarrow> int \<Rightarrow> risk_result" where
  "risk_approve cid inst side qty = Approved \<lparr>ao_cid = cid, ao_instrument = ins_id inst, ao_side = side,
     ao_type = MARKET, ao_qty = qty, ao_limit = None\<rparr>"

definition risk_reject :: "rejection_reason \<Rightarrow> risk_event_kind \<Rightarrow> (store, risk_result) act" where
  "risk_reject reason kind = seqA
     (add_risk_event \<lparr>re_id = 0, re_kind = kind, re_detail = RejectedSignal reason\<rparr>)
     (ret (Rejected reason))"

text \<open>Opening a position: the checks after \<open>ALREADY_IN_POSITION\<close>, with the sizer as argument.\<close>

definition evaluate_entry ::
  "(rat \<Rightarrow> rat \<Rightarrow> py_error + int) \<Rightarrow> risk_config \<Rightarrow> string \<Rightarrow> strategy_signal \<Rightarrow> instrument_row \<Rightarrow>
   trading_mode \<Rightarrow> rat \<Rightarrow> (store, risk_result) act" where
  "evaluate_entry sizer cfg cid sig inst mode equity = bindA (getA (count_open mode)) (\<lambda>open_count.
     if exceeds_max_open_positions (int open_count) (max_open_positions cfg)
     then risk_reject MAX_OPEN_POSITIONS LimitBreach
     else let price = to_tick_decimal (s_ref_price sig) (ins_tick_size inst) in
       bindA (liftE (sizer equity price)) (\<lambda>qty.
         if qty \<le> 0 then risk_reject ZERO_QUANTITY RiskRejection
         else ret (risk_approve cid inst (if s_direction sig = LONG then BUY else SELL) qty)))"

definition evaluate ::
  "(rat \<Rightarrow> rat \<Rightarrow> py_error + int) \<Rightarrow> risk_config \<Rightarrow> string \<Rightarrow> strategy_signal \<Rightarrow> instrument_row \<Rightarrow>
   trading_mode \<Rightarrow> rat \<Rightarrow> rat \<Rightarrow> bool \<Rightarrow> (store, risk_result) act" where
  "evaluate sizer cfg cid sig inst mode equity daily_pnl live_orders_enabled = bindA ks_is_tripped (\<lambda>tripped.
     if tripped then risk_reject KILL_SWITCH_TRIPPED RiskRejection
     else if mode = LIVE \<and> \<not> live_orders_enabled then risk_reject LIVE_ORDERS_DISABLED RiskRejection
     else if exceeds_max_daily_loss daily_pnl equity (max_daily_loss_pct cfg)
       then risk_reject MAX_DAILY_LOSS LimitBreach
     else bindA (getA (get_for (ins_id inst) mode)) (\<lambda>position.
       if s_direction sig = EXIT then
         (case position of
            None \<Rightarrow> risk_reject NO_OPEN_POSITION RiskRejection
          | Some p \<Rightarrow> if p_qty p = 0 then risk_reject NO_OPEN_POSITION RiskRejection
              else ret (risk_approve cid inst (if 0 < p_qty p then SELL else BUY) \<bar>p_qty p\<bar>))
       else
         (case position of
            None \<Rightarrow> evaluate_entry sizer cfg cid sig inst mode equity
          | Some p \<Rightarrow> if p_qty p \<noteq> 0 then risk_reject ALREADY_IN_POSITION RiskRejection
              else evaluate_entry sizer cfg cid sig inst mode equity)))"

subsection \<open>What an evaluation changes\<close>

lemma keeps_risk_reject [keeps_intros]: "keeps store_ok (risk_reject r k)"
  unfolding risk_reject_def by (intro keeps_intros)

lemma keeps_evaluate [keeps_intros]: "keeps store_ok (evaluate sizer cfg cid sig inst mode equity pnl live)"
  unfolding evaluate_def evaluate_entry_def Let_def by (intro keeps_intros)

text \<open>
  The part of the store that an evaluation may not touch: everything but the log of risk events
  and the row of the kill switch, of which only a fresh one may appear.
\<close>

definition trading_state :: "store \<Rightarrow> instrument_row list \<times> order_row list \<times> order_event_row list \<times> trade_row list \<times>
    position_row list \<times> rat option \<times> signal_row list \<times> kill_switch_row" where
  "trading_state d = (instruments d, orders d, order_events d, trades d, positions d, paper_account d, signals d, ks_of d)"

lemma frames_ks_is_tripped: "frames trading_state ks_is_tripped"
  by (auto simp: keeps_def trading_state_def ks_run ks_of_def split: option.split)

lemma frames_risk_reject: "frames trading_state (risk_reject r k)"
  by (auto simp: keeps_def trading_state_def risk_reject_def run_simps add_risk_event_def repo_add_def Let_def ks_of_def)

lemma evaluate_frame: "trading_state (snd (evaluate sizer cfg cid sig inst mode equity pnl live d)) = trading_state d"
proof (rule framesD, rule allI)
  fix v show "keeps (\<lambda>s. trading_state s = v) (evaluate sizer cfg cid sig inst mode equity pnl live)"
    unfolding evaluate_def evaluate_entry_def Let_def
    by (intro keeps_intros frames_ks_is_tripped [rule_format] frames_risk_reject [rule_format])
qed

lemma halted_trading_state: "trading_state e = trading_state d \<Longrightarrow> halted e = halted d"
  by (simp add: trading_state_def halted_def)

subsection \<open>What an approval guarantees\<close>

lemma run_risk_reject: "fst (risk_reject r k d) = Inr (Rejected r)"
  by (simp add: risk_reject_def run_simps add_risk_event_def repo_add_def Let_def)

text \<open>The cascade of guards, as a function of the store the evaluation starts in.\<close>

definition evaluate_result ::
  "(rat \<Rightarrow> rat \<Rightarrow> py_error + int) \<Rightarrow> risk_config \<Rightarrow> string \<Rightarrow> strategy_signal \<Rightarrow> instrument_row \<Rightarrow>
   trading_mode \<Rightarrow> rat \<Rightarrow> rat \<Rightarrow> bool \<Rightarrow> store \<Rightarrow> py_error + risk_result" where
  "evaluate_result sizer cfg cid sig inst mode equity pnl live d = (
     let held = (case get_for (ins_id inst) mode d of None \<Rightarrow> 0 | Some p \<Rightarrow> p_qty p) in
     if halted d then Inr (Rejected KILL_SWITCH_TRIPPED)
     else if mode = LIVE \<and> \<not> live then Inr (Rejected LIVE_ORDERS_DISABLED)
     else if exceeds_max_daily_loss pnl equity (max_daily_loss_pct cfg) then Inr (Rejected MAX_DAILY_LOSS)
     else if s_direction sig = EXIT then
       (if held = 0 then Inr (Rejected NO_OPEN_POSITION)
        else Inr (risk_approve cid inst (if 0 < held then SELL else BUY) \<bar>held\<bar>))
     else if held \<noteq> 0 then Inr (Rejected ALREADY_IN_POSITION)
     else if exceeds_max_open_positions (int (count_open mode d)) (max_open_positions cfg)
       then Inr (Rejected MAX_OPEN_POSITIONS)
     else bindE (sizer equity (to_tick_decimal (s_ref_price sig) (ins_tick_size inst))) (\<lambda>qty.
       if qty \<le> 0 then Inr (Rejected ZERO_QUANTITY)
       else Inr (risk_approve cid inst (if s_direction sig = LONG then BUY else SELL) qty)))"

lemma fst_evaluate_entry:
  "fst (evaluate_entry sizer cfg cid sig inst mode equity d) =
    (if exceeds_max_open_positions (int (count_open mode d)) (max_open_positions cfg)
       then Inr (Rejected MAX_OPEN_POSITIONS)
     else bindE (sizer equity (to_tick_decimal (s_ref_price sig) (ins_tick_size inst))) (\<lambda>qty.
       if qty \<le> 0 then Inr (Rejected ZERO_QUANTITY)
       else Inr (risk_approve cid inst (if s_direction sig = LONG then BUY else SELL) qty)))"
  by (auto simp: evaluate_entry_def run_simps run_risk_reject Let_def bindE_def split: sum.split)

lemma fst_evaluate:
  "fst (evaluate sizer cfg cid sig inst mode equity pnl live d) =
   evaluate_result sizer cfg cid sig inst mode equity pnl live d"
proof -
  obtain e where e: "ks_is_tripped d = (Inr (halted d), e)"
    using ks_is_tripped_run(1) [of d] by (cases "ks_is_tripped d") auto
  have "trading_state e = trading_state d"
    using framesD [OF frames_ks_is_tripped, of d] e by simp
  then have pos: "positions e = positions d" by (simp add: trading_state_def)
  then have get: "get_for i m e = get_for i m d" and count: "count_open m e = count_open m d" for i m
    by (simp_all add: get_for_def count_open_def)
  show ?thesis
    unfolding evaluate_def evaluate_result_def
    by (simp add: e run_bindA_Inr run_risk_reject fst_evaluate_entry count get run_getA run_ret Let_def
        split: option.split)
qed

lemma evaluate_Approved:
  assumes "evaluate sizer cfg cid sig inst mode equity pnl live d = (Inr (Approved ao), e)"
  shows "\<not> halted d" "mode = LIVE \<longrightarrow> live" "\<not> exceeds_max_daily_loss pnl equity (max_daily_loss_pct cfg)"
    "ao_cid ao = cid" "ao_instrument ao = ins_id inst" "ao_type ao = MARKET" "0 < ao_qty ao"
    "s_direction sig = EXIT \<Longrightarrow> \<exists>p. get_for (ins_id inst) mode d = Some p \<and> p_qty p \<noteq> 0 \<and> ao_qty ao = \<bar>p_qty p\<bar> \<and>
       ao_side ao = (if 0 < p_qty p then SELL else BUY)"
    "s_direction sig \<noteq> EXIT \<Longrightarrow> (\<forall>p. get_for (ins_id inst) mode d = Some p \<longrightarrow> p_qty p = 0) \<and>
       int (count_open mode d) < max_open_positions cfg \<and>
       sizer equity (to_tick_decimal (s_ref_price sig) (ins_tick_size inst)) = Inr (ao_qty ao) \<and>
       ao_side ao = (if s_direction sig = LONG then BUY else SELL)"
proof -
  have r: "evaluate_result sizer cfg cid sig inst mode equity pnl live d = Inr (Approved ao)"
    using assms fst_evaluate [of sizer cfg cid sig inst mode equity pnl live d] by simp
  show g: "\<not> halted d" "mode = LIVE \<longrightarrow> live" "\<not> exceeds_max_daily_loss pnl equity (max_daily_loss_pct cfg)"
    using r by (auto simp: evaluate_result_def Let_def split: if_splits)
  show "ao_cid ao = cid" "ao_instrument ao = ins_id inst" "ao_type ao = MARKET" "0 < ao_qty ao"
    using r by (auto simp: evaluate_result_def Let_def risk_approve_def bindE_Inr_conv split: if_splits)
  have g': "\<not> (mode = LIVE \<and> \<not> live)" using g(2) by blast
  note r' = r [unfolded evaluate_result_def Let_def if_not_P [OF g(1)] if_not_P [OF g'] if_not_P [OF g(3)]]
  show "\<exists>p. get_for (ins_id inst) mode d = Some p \<and> p_qty p \<noteq> 0 \<and> ao_qty ao = \<bar>p_qty p\<bar> \<and>
       ao_side ao = (if 0 < p_qty p then SELL else BUY)" if "s_direction sig = EXIT"
  proof (cases "get_for (ins_id inst) mode d")
    case None
    with r' that show ?thesis by simp
  next
    case (Some p)
    with r' that have "p_qty p \<noteq> 0" by (cases "p_qty p = 0") simp_all
    with Some r' that show ?thesis by (intro exI [of _ p]) (auto simp: risk_approve_def)
  qed
  let ?held = "case get_for (ins_id inst) mode d of None \<Rightarrow> 0 | Some p \<Rightarrow> p_qty p"
  show "(\<forall>p. get_for (ins_id inst) mode d = Some p \<longrightarrow> p_qty p = 0) \<and>
       int (count_open mode d) < max_open_positions cfg \<and>
       sizer equity (to_tick_decimal (s_ref_price sig) (ins_tick_size inst)) = Inr (ao_qty ao) \<and>
       ao_side ao = (if s_direction sig = LONG then BUY else SELL)" if "s_direction sig \<noteq> EXIT"
  proof -
    note r'' = r' [unfolded if_not_P [OF that]]
    have h: "?held = 0" using r'' by (cases "?held = 0") simp_all
    then have "\<forall>p. get_for (ins_id inst) mode d = Some p \<longrightarrow> p_qty p = 0" by auto
    moreover have c: "\<not> exceeds_max_open_positions (int (count_open mode d)) (max_open_positions cfg)"
      using r'' h by (cases "exceeds_max_open_positions (int (count_open mode d)) (max_open_positions cfg)") simp_all
    moreover obtain q where "sizer equity (to_tick_decimal (s_ref_price sig) (ins_tick_size inst)) = Inr q"
      "risk_approve cid inst (if s_direction sig = LONG then BUY else SELL) q = Approved ao"
      using r'' h c by (auto simp: bindE_Inr_conv split: if_split_asm)
    ultimately show ?thesis by (auto simp: risk_approve_def exceeds_max_open_positions_def)
  qed
qed

text \<open>With any sizer that keeps its promise, an approved entry stays within the sizer's budget.\<close>

context position_sizer
begin

lemma approved_within_budget:
  assumes "evaluate sizer cfg cid sig inst mode equity pnl live d = (Inr (Approved ao), e)"
    and "s_direction sig \<noteq> EXIT"
  shows "to_tick_decimal (s_ref_price sig) (ins_tick_size inst) * of_int (ao_qty ao) \<le> budget equity"
    and "0 < to_tick_decimal (s_ref_price sig) (ins_tick_size inst)"
  using evaluate_Approved(7,9) [OF assms(1)] assms(2) size_budget size_needs by blast+

end

end
