(* ===== verification/PT_Costs.thy ===== *)
theory PT_Costs
  imports PT_Config
begin

text \<open>
  The cost model of \<open>backtest/costs.py\<close>, which the backtester and both brokers share: adverse
  slippage and the itemised costs of one executed leg, in Decimal arithmetic. What is proved:
  every component is non-negative, a buy pays at least its turnover and a sale brings in at most
  its turnover, and the amount a buy pays grows with the quantity and the price; from that, that a
  loop which lowers a quantity until it fits the cash finds the greatest affordable one (locale
  \<open>cash_clamp\<close>, interpreted by the paper broker and by the backtester).
\<close>

section \<open>Slippage\<close>

definition apply_slippage :: "rat \<Rightarrow> order_side \<Rightarrow> rat \<Rightarrow> rat" where
  "apply_slippage price side slippage_bps = (let factor = dec_rnd (slippage_bps / 10000) in
     if side = BUY then dec_mul price (dec_add 1 factor) else dec_mul price (dec_sub 1 factor))"

lemma slippage_adverse:
  assumes p: "0 \<le> p" "dec_rnd p = p" and b: "0 \<le> bps"
  shows "p \<le> apply_slippage p BUY bps" "apply_slippage p SELL bps \<le> p"
proof -
  let ?f = "dec_rnd (bps / 10000)"
  have f: "0 \<le> ?f" using b by (simp add: dec.rnd_nonneg_iff)
  have one: "dec_rnd 1 = 1" by (rule dec.rnd_1) simp
  have "1 \<le> dec_rnd (1 + ?f)" using dec.rnd_add_right [OF one f] by simp
  then have "p \<le> p * dec_rnd (1 + ?f)" using p(1) by (simp add: mult_le_cancel_left1)
  then show "p \<le> apply_slippage p BUY bps"
    using dec.rnd_ge [OF _ p(2)] by (simp add: apply_slippage_def dec_mul_def dec_add_def Let_def)
  have "dec_rnd (1 - ?f) \<le> 1" using dec.rnd_sub_right [OF one f] by simp
  then have "p * dec_rnd (1 - ?f) \<le> p" using p(1) by (simp add: mult_left_le)
  then show "apply_slippage p SELL bps \<le> p"
    using dec.rnd_le [OF _ p(2)] by (simp add: apply_slippage_def dec_mul_def dec_sub_def Let_def)
qed

section \<open>The costs of a leg\<close>

record trade_costs =
  c_brokerage :: rat
  c_stt :: rat
  c_stamp_duty :: rat
  c_exchange_charges :: rat
  c_sebi_charges :: rat
  c_gst :: rat
  c_total :: rat
  c_net_amount :: rat

definition leg_costs :: "order_side \<Rightarrow> rat \<Rightarrow> int \<Rightarrow> segment \<Rightarrow> cost_config \<Rightarrow> trade_costs" where
  "leg_costs side price qty seg rates = (
     let turnover = dec_mul price (of_int qty);
         brokerage = min (dec_mul turnover (brokerage_pct rates)) (brokerage_max rates);
         stt = (if seg = DELIVERY then dec_mul turnover (stt_delivery_pct rates)
                else if side = SELL then dec_mul turnover (stt_intraday_sell_pct rates) else 0);
         stamp_duty = (if seg = DELIVERY
                then (if side = BUY then dec_mul turnover (stamp_duty_buy_delivery_pct rates) else 0)
                else (if side = BUY then dec_mul turnover (stamp_duty_buy_intraday_pct rates) else 0));
         exchange_charges = dec_mul turnover (exchange_txn_pct rates);
         sebi_charges = dec_mul turnover (sebi_pct rates);
         gst = dec_mul (dec_add (dec_add brokerage exchange_charges) sebi_charges) (gst_pct rates);
         total = dec_add (dec_add (dec_add (dec_add (dec_add brokerage stt) stamp_duty) exchange_charges) sebi_charges) gst;
         net_amount = (if side = SELL then dec_sub turnover total else dec_add turnover total)
     in \<lparr>c_brokerage = brokerage, c_stt = stt, c_stamp_duty = stamp_duty,
         c_exchange_charges = exchange_charges, c_sebi_charges = sebi_charges, c_gst = gst,
         c_total = total, c_net_amount = net_amount\<rparr>)"

definition calculate_costs ::
  "order_side \<Rightarrow> rat \<Rightarrow> int \<Rightarrow> segment \<Rightarrow> cost_config \<Rightarrow> py_error + trade_costs" where
  "calculate_costs side price qty seg rates =
     (if price \<le> 0 then Inl PyValueError
      else if qty \<le> 0 then Inl PyValueError
      else Inr (leg_costs side price qty seg rates))"

lemma calculate_costs_Inr:
  "calculate_costs side p q seg r = Inr c \<longleftrightarrow> 0 < p \<and> 0 < q \<and> c = leg_costs side p q seg r"
  by (auto simp: calculate_costs_def)

section \<open>Signs\<close>

lemma dec_mul_nonneg: "0 \<le> a \<Longrightarrow> 0 \<le> b \<Longrightarrow> 0 \<le> dec_mul a b"
  by (simp add: dec_mul_def dec.rnd_nonneg_iff)

lemma dec_mul_pos: "0 < a \<Longrightarrow> 0 < b \<Longrightarrow> 0 < dec_mul a b"
  by (simp add: dec_mul_def dec.rnd_pos_iff)

lemma dec_add_nonneg: "0 \<le> a \<Longrightarrow> 0 \<le> b \<Longrightarrow> 0 \<le> dec_add a b"
  by (simp add: dec_add_def dec.rnd_nonneg_iff)

lemmas dec_nonneg = dec_mul_nonneg dec_add_nonneg

lemma leg_costs_nonneg:
  assumes ok: "cost_config_ok r" and p: "0 < p" and q: "0 < q"
  shows "0 \<le> c_brokerage (leg_costs side p q seg r)" "0 \<le> c_stt (leg_costs side p q seg r)"
    "0 \<le> c_stamp_duty (leg_costs side p q seg r)" "0 \<le> c_exchange_charges (leg_costs side p q seg r)"
    "0 \<le> c_sebi_charges (leg_costs side p q seg r)" "0 \<le> c_gst (leg_costs side p q seg r)"
    "0 \<le> c_total (leg_costs side p q seg r)"
proof -
  have t: "0 \<le> dec_mul p (of_int q)" using p q by (simp add: dec_mul_nonneg)
  show "0 \<le> c_brokerage (leg_costs side p q seg r)" "0 \<le> c_stt (leg_costs side p q seg r)"
    "0 \<le> c_stamp_duty (leg_costs side p q seg r)" "0 \<le> c_exchange_charges (leg_costs side p q seg r)"
    "0 \<le> c_sebi_charges (leg_costs side p q seg r)" "0 \<le> c_gst (leg_costs side p q seg r)"
    "0 \<le> c_total (leg_costs side p q seg r)"
    using ok t by (simp_all add: leg_costs_def Let_def cost_config_ok_def dec_nonneg)
qed

lemma leg_costs_net:
  assumes ok: "cost_config_ok r" and p: "0 < p" and q: "0 < q"
  shows "dec_mul p (of_int q) \<le> c_net_amount (leg_costs BUY p q seg r)"
    "c_net_amount (leg_costs SELL p q seg r) \<le> dec_mul p (of_int q)"
proof -
  let ?t = "dec_mul p (of_int q)"
  have t: "dec_rnd ?t = ?t" by (simp add: dec_mul_def dec.rnd_idem)
  have net: "c_net_amount (leg_costs BUY p q seg r) = dec_add ?t (c_total (leg_costs BUY p q seg r))"
    "c_net_amount (leg_costs SELL p q seg r) = dec_sub ?t (c_total (leg_costs SELL p q seg r))"
    by (simp_all add: leg_costs_def Let_def)
  show "?t \<le> c_net_amount (leg_costs BUY p q seg r)"
    unfolding net(1) dec_add_def by (rule dec.rnd_add_right [OF t]) (rule leg_costs_nonneg [OF assms])
  show "c_net_amount (leg_costs SELL p q seg r) \<le> ?t"
    unfolding net(2) dec_sub_def by (rule dec.rnd_sub_right [OF t]) (rule leg_costs_nonneg [OF assms])
qed

lemma buy_net_pos: "cost_config_ok r \<Longrightarrow> 0 < p \<Longrightarrow> 0 < q \<Longrightarrow> 0 < c_net_amount (leg_costs BUY p q seg r)"
  using leg_costs_net(1) [of r p q seg] dec_mul_pos [of p "of_int q"] by simp

section \<open>Monotonicity\<close>

lemma dec_mul_mono: "0 \<le> c \<Longrightarrow> a \<le> b \<Longrightarrow> dec_mul a c \<le> dec_mul b c"
  by (simp add: dec_mul_def dec.rnd_mono mult_right_mono)

lemma dec_add_mono: "a \<le> b \<Longrightarrow> c \<le> d \<Longrightarrow> dec_add a c \<le> dec_add b d"
  by (simp add: dec_add_def dec.rnd_mono)

lemma buy_net_mono:
  assumes ok: "cost_config_ok r" and p: "0 \<le> p" "p \<le> p'" and q: "0 \<le> q" "q \<le> q'"
  shows "c_net_amount (leg_costs BUY p q seg r) \<le> c_net_amount (leg_costs BUY p' q' seg r)"
proof -
  have "p * of_int q \<le> p' * of_int q'" using p q by (intro mult_mono) simp_all
  then have t: "dec_mul p (of_int q) \<le> dec_mul p' (of_int q')" by (simp add: dec_mul_def dec.rnd_mono)
  have m: "dec_mul (dec_mul p (of_int q)) x \<le> dec_mul (dec_mul p' (of_int q')) x" if "0 \<le> x" for x
    using t that by (intro dec_mul_mono)
  have b: "min (dec_mul (dec_mul p (of_int q)) x) y \<le> min (dec_mul (dec_mul p' (of_int q')) x) y" if "0 \<le> x" for x y
    using m [OF that] by (simp add: min_le_iff_disj)
  note r = ok [unfolded cost_config_ok_def]
  show ?thesis
    by (cases seg) (simp_all add: leg_costs_def Let_def, (intro dec_add_mono dec_mul_mono t m b, use r in simp_all)+)
qed

section \<open>Rates at which a sale never costs more than it brings\<close>

definition rates_small :: "cost_config \<Rightarrow> bool" where
  "rates_small r \<longleftrightarrow> cost_config_ok r \<and> brokerage_pct r \<le> 1 / 10 \<and> stt_delivery_pct r \<le> 1 / 10 \<and>
     stt_intraday_sell_pct r \<le> 1 / 10 \<and> exchange_txn_pct r \<le> 1 / 10 \<and> sebi_pct r \<le> 1 / 10 \<and> gst_pct r \<le> 1"

lemma rates_small_default: "rates_small cost_config_default"
  by (simp add: rates_small_def cost_config_ok_def cost_config_default_def)

lemma dec_rnd_le_101: "0 \<le> x \<Longrightarrow> dec_rnd x \<le> 101 / 100 * x"
proof -
  assume x: "0 \<le> x"
  have "dec_rnd x - x \<le> 1 / (2 * 10 ^ 27) * \<bar>x\<bar>" using dec.rnd_error [of x] by linarith
  also have "\<dots> \<le> 1 / 100 * x" using x by (simp add: mult_right_mono)
  finally show ?thesis by simp
qed

lemma dec_add_le_101: "0 \<le> a \<Longrightarrow> 0 \<le> b \<Longrightarrow> dec_add a b \<le> 101 / 100 * (a + b)"
  unfolding dec_add_def by (rule dec_rnd_le_101) simp

lemma dec_mul_le_101: "0 \<le> a \<Longrightarrow> 0 \<le> b \<Longrightarrow> b \<le> c \<Longrightarrow> dec_mul a b \<le> 101 / 100 * (a * c)"
proof -
  assume h: "0 \<le> a" "0 \<le> b" "b \<le> c"
  have "dec_mul a b \<le> 101 / 100 * (a * b)" unfolding dec_mul_def using h by (intro dec_rnd_le_101) simp
  also have "a * b \<le> a * c" using h by (simp add: mult_left_mono)
  finally show ?thesis by simp
qed

lemma sell_net_nonneg:
  assumes small: "rates_small r" and p: "0 < p" and q: "0 < q"
  shows "0 \<le> c_net_amount (leg_costs SELL p q seg r)"
proof -
  define t where "t = dec_mul p (of_int q)"
  define b where "b = min (dec_mul t (brokerage_pct r)) (brokerage_max r)"
  define s where "s = (if seg = DELIVERY then dec_mul t (stt_delivery_pct r) else dec_mul t (stt_intraday_sell_pct r))"
  define x where "x = dec_mul t (exchange_txn_pct r)"
  define e where "e = dec_mul t (sebi_pct r)"
  define g where "g = dec_mul (dec_add (dec_add b x) e) (gst_pct r)"
  note r = small [unfolded rates_small_def cost_config_ok_def]
  have t: "0 \<le> t" unfolding t_def using p q by (simp add: dec_mul_nonneg)
  have nn: "0 \<le> b" "0 \<le> s" "0 \<le> x" "0 \<le> e" using t r by (auto simp: b_def s_def x_def e_def dec_mul_nonneg)
  then have gn: "0 \<le> g" unfolding g_def using r by (simp add: dec_nonneg)
  have m: "dec_mul t k \<le> 101 / 1000 * t" if "0 \<le> k" "k \<le> 1 / 10" for k
    using dec_mul_le_101 [OF t that] by simp
  have "b \<le> dec_mul t (brokerage_pct r)" by (simp add: b_def)
  with m [of "brokerage_pct r"] r have "b \<le> 101 / 1000 * t" by linarith
  moreover have "s \<le> 101 / 1000 * t" "x \<le> 101 / 1000 * t" "e \<le> 101 / 1000 * t"
    using m r by (auto simp: s_def x_def e_def)
  ultimately have le: "b \<le> 101 / 1000 * t" "s \<le> 101 / 1000 * t" "x \<le> 101 / 1000 * t" "e \<le> 101 / 1000 * t" .
  have g: "g \<le> 101 / 100 * dec_add (dec_add b x) e"
    unfolding g_def using nn r dec_mul_le_101 [of "dec_add (dec_add b x) e" "gst_pct r" 1] by (simp add: dec_nonneg)
  let ?u1 = "dec_add b s" and ?u2 = "dec_add (dec_add b s) 0" and ?u3 = "dec_add (dec_add (dec_add b s) 0) x"
    and ?u4 = "dec_add (dec_add (dec_add (dec_add b s) 0) x) e"
  have "?u1 \<le> 101 / 100 * (b + s)" "?u2 \<le> 101 / 100 * (?u1 + 0)" "?u3 \<le> 101 / 100 * (?u2 + x)" "?u4 \<le> 101 / 100 * (?u3 + e)"
    "dec_add ?u4 g \<le> 101 / 100 * (?u4 + g)" "dec_add b x \<le> 101 / 100 * (b + x)"
    "dec_add (dec_add b x) e \<le> 101 / 100 * (dec_add b x + e)"
    using nn gn by (intro dec_add_le_101 dec_nonneg; simp)+
  note steps = this [unfolded distrib_left]
  have "dec_add b x \<le> 21 / 100 * t" using steps(6) le t by linarith
  then have "dec_add (dec_add b x) e \<le> 32 / 100 * t" using steps(7) le t by linarith
  then have g': "g \<le> 33 / 100 * t" using g t by linarith
  have "?u1 \<le> 21 / 100 * t" using steps(1) le t by linarith
  then have "?u2 \<le> 22 / 100 * t" using steps(2) t by linarith
  then have "?u3 \<le> 33 / 100 * t" using steps(3) le t by linarith
  then have "?u4 \<le> 44 / 100 * t" using steps(4) le t by linarith
  then have "dec_add ?u4 g \<le> t" using steps(5) g' t by linarith
  moreover have "c_net_amount (leg_costs SELL p q seg r) = dec_sub t (dec_add ?u4 g)"
    by (simp add: leg_costs_def Let_def t_def b_def s_def x_def e_def g_def)
  ultimately show ?thesis by (simp add: dec_sub_def dec.rnd_nonneg_iff)
qed

section \<open>Clamping a quantity to the cash\<close>

locale cash_clamp =
  fixes clamp :: "int \<Rightarrow> rat \<Rightarrow> segment \<Rightarrow> cost_config \<Rightarrow> rat \<Rightarrow> py_error + int"
  assumes clamp_rec: "clamp q p seg r cash =
    (if 0 < q then bindE (calculate_costs BUY p q seg r) (\<lambda>c.
       if c_net_amount c \<le> cash then Inr q else clamp (q - 1) p seg r cash) else Inr 0)"
begin

lemma clamp_greatest:
  assumes p: "0 < p" and q: "0 \<le> q"
  shows "\<exists>k. clamp q p seg r cash = Inr k \<and> 0 \<le> k \<and> k \<le> q \<and>
    (0 < k \<longrightarrow> c_net_amount (leg_costs BUY p k seg r) \<le> cash) \<and>
    (\<forall>j. k < j \<and> j \<le> q \<longrightarrow> cash < c_net_amount (leg_costs BUY p j seg r))"
  using q
proof (induction q rule: int_ge_induct)
  case base
  then show ?case by (subst clamp_rec) simp
next
  case (step i)
  show ?case
  proof (cases "c_net_amount (leg_costs BUY p (i + 1) seg r) \<le> cash")
    case True
    then show ?thesis using p step.hyps by (subst clamp_rec) (simp add: calculate_costs_def)
  next
    case False
    then have eq: "clamp (i + 1) p seg r cash = clamp i p seg r cash"
      using p step.hyps by (subst clamp_rec) (simp add: calculate_costs_def)
    from step.IH obtain k where k: "clamp i p seg r cash = Inr k" "0 \<le> k" "k \<le> i"
      "0 < k \<longrightarrow> c_net_amount (leg_costs BUY p k seg r) \<le> cash"
      "\<forall>j. k < j \<and> j \<le> i \<longrightarrow> cash < c_net_amount (leg_costs BUY p j seg r)" by blast
    have "cash < c_net_amount (leg_costs BUY p j seg r)" if "k < j" "j \<le> i + 1" for j
      using k(5) that False by (cases "j = i + 1") auto
    then show ?thesis unfolding eq using k(1-4) by (intro exI [of _ k]) auto
  qed
qed

lemma clamp_affordable_iff:
  assumes ok: "cost_config_ok r" and p: "0 < p" and q: "0 \<le> q" and k: "clamp q p seg r cash = Inr k"
    and j: "0 < j" "j \<le> q"
  shows "j \<le> k \<longleftrightarrow> c_net_amount (leg_costs BUY p j seg r) \<le> cash"
proof -
  from clamp_greatest [OF p q, of seg r cash] k
  have k': "0 < k \<longrightarrow> c_net_amount (leg_costs BUY p k seg r) \<le> cash"
    "\<forall>j. k < j \<and> j \<le> q \<longrightarrow> cash < c_net_amount (leg_costs BUY p j seg r)" by auto
  show ?thesis
  proof (cases "j \<le> k")
    case True
    then have "c_net_amount (leg_costs BUY p j seg r) \<le> c_net_amount (leg_costs BUY p k seg r)"
      using ok p j by (intro buy_net_mono) simp_all
    with k'(1) True j show ?thesis by force
  next
    case False
    with k'(2) j show ?thesis by (simp add: not_le)
  qed
qed

lemma clamp_range: "0 < p \<Longrightarrow> 0 \<le> q \<Longrightarrow> clamp q p seg r cash = Inr k \<Longrightarrow> 0 \<le> k \<and> k \<le> q"
  using clamp_greatest [of p q seg r cash] by auto

lemma clamp_total: "0 < p \<Longrightarrow> 0 \<le> q \<Longrightarrow> \<exists>k. clamp q p seg r cash = Inr k"
  using clamp_greatest [of p q seg r cash] by blast

lemma clamp_unique:
  assumes other: "\<And>q p seg r cash. other q p seg r cash =
    (if 0 < q then bindE (calculate_costs BUY p q seg r) (\<lambda>c.
       if c_net_amount c \<le> cash then Inr q else other (q - 1) p seg r cash) else Inr 0)"
  shows "clamp q p seg r cash = other q p seg r cash"
proof (cases "0 \<le> q")
  case True
  then show ?thesis
  proof (induction q rule: int_ge_induct)
    case base
    then show ?case by (subst clamp_rec, subst other) simp
  next
    case (step i)
    then show ?case by (subst clamp_rec, subst other) (auto simp: bindE_def split: sum.split)
  qed
next
  case False
  then show ?thesis by (subst clamp_rec, subst other) simp
qed

end

end
