(* ===== verification/PT_Broker.thy ===== *)
theory PT_Broker
  imports PT_Repos PT_Costs
begin

text \<open>
  The broker contract of \<open>execution/broker.py\<close>: its transport records, the quote sources of
  \<open>execution/paper/quotes.py\<close>, the arithmetic of a fill on a position, and the locale
  \<open>broker\<close> that says what the orchestrator relies on. A broker is given as its operations on the
  store; the paper broker and the Upstox broker interpret the locale in their own theories.
\<close>

section \<open>Transport records\<close>

record order_request =
  rq_cid :: string
  rq_instrument :: nat
  rq_side :: order_side
  rq_type :: order_type
  rq_qty :: int
  rq_limit :: "rat option"

record order_ack =
  ack_cid :: string
  ack_broker_id :: string

record order_status =
  os_cid :: string
  os_broker_id :: "string option"
  os_state :: order_state
  os_qty :: int
  os_filled :: int
  os_avg_fill_price :: "rat option"

record broker_position =
  bp_instrument :: nat
  bp_qty :: int
  bp_avg_price :: rat

record funds =
  f_cash :: rat
  f_equity :: rat

record order_update =
  ou_cid :: string
  ou_broker_id :: "string option"
  ou_to_state :: order_state
  ou_filled :: int
  ou_fill_price :: "rat option"
  ou_at :: instant

section \<open>Quotes\<close>

text \<open>\<open>ReplayQuoteSource\<close>: the last synced close; \<open>read\<close> stands for the candle store.\<close>

definition replay_get_ltp :: "(string \<Rightarrow> string \<Rightarrow> rat list) \<Rightarrow> instrument_row \<Rightarrow> rat option" where
  "replay_get_ltp read inst = (case read (ins_symbol inst) (ins_exchange inst) of
     [] \<Rightarrow> None
   | closes \<Rightarrow> Some (dec_of_float (last closes)))"

text \<open>\<open>LiveQuoteSource\<close>: the last price per instrument key.\<close>

type_synonym live_quotes = "string \<Rightarrow> rat option"

definition live_quotes_update :: "string \<Rightarrow> rat \<Rightarrow> live_quotes \<Rightarrow> live_quotes" where
  "live_quotes_update key price q = q(key \<mapsto> price)"

definition live_get_ltp :: "live_quotes \<Rightarrow> instrument_row \<Rightarrow> rat option" where
  "live_get_ltp q inst = q (ins_key inst)"

lemma live_get_after_update:
  "live_get_ltp (live_quotes_update key price q) inst = (if ins_key inst = key then Some price else live_get_ltp q inst)"
  by (simp add: live_get_ltp_def live_quotes_update_def)

section \<open>What the orchestrator relies on\<close>

text \<open>The operations of a broker that the orchestrator calls, on the store of the open session.\<close>

record broker_ops =
  br_place_order :: "order_request \<Rightarrow> (store, order_ack) act"
  br_get_funds :: "(store, funds) act"

definition request_ok :: "order_request \<Rightarrow> bool" where
  "request_ok rq \<longleftrightarrow> 0 < rq_qty rq"

text \<open>The order that a placed request has become.\<close>

definition placed_as :: "order_request \<Rightarrow> trading_mode \<Rightarrow> order_row \<Rightarrow> bool" where
  "placed_as rq mode ord \<longleftrightarrow> o_cid ord = rq_cid rq \<and> o_instrument ord = rq_instrument rq \<and> o_side ord = rq_side rq \<and>
     o_type ord = rq_type rq \<and> o_qty ord = rq_qty rq \<and> o_limit ord = rq_limit rq \<and> o_mode ord = mode"

text \<open>
  Placing and asking for funds keep the store well-formed; a placement that returns acknowledges
  the client id of its request, and the order is then in the store as requested; asking for funds
  changes nothing but the creation of the account row.
\<close>

locale broker =
  fixes ops :: broker_ops and mode :: trading_mode
  assumes place_keeps: "keeps store_ok (br_place_order ops rq)"
    and funds_keeps: "keeps store_ok (br_get_funds ops)"
    and place_acks: "store_ok d \<Longrightarrow> br_place_order ops rq d = (Inr ack, e) \<Longrightarrow>
      ack_cid ack = rq_cid rq \<and> (\<exists>ord. get_by_client_order_id (rq_cid rq) e = Some ord \<and> placed_as rq mode ord \<and>
        o_state ord \<notin> {PENDING_RISK, REJECTED_RISK, SUBMITTING, FAILED})"
    and place_fresh: "store_ok d \<Longrightarrow> br_place_order ops rq d = (Inr ack, e) \<Longrightarrow> get_by_client_order_id (rq_cid rq) d = None"
    and funds_frame: "br_get_funds ops d = (r, e) \<Longrightarrow> e\<lparr>paper_account := None\<rparr> = d\<lparr>paper_account := None\<rparr>"

section \<open>A fill on a position\<close>

text \<open>
  The arithmetic that both brokers apply to the quantity, the average price and the realised
  profit of a position: an opening or adding leg moves the average, a closing leg realises profit
  against it.
\<close>

definition adds_to :: "int \<Rightarrow> order_side \<Rightarrow> bool" where
  "adds_to held side \<longleftrightarrow> held = 0 \<or> (0 < held) = (side = BUY)"

definition signed_qty :: "order_side \<Rightarrow> int \<Rightarrow> int" where
  "signed_qty side q = (if side = BUY then q else - q)"

text \<open>The \<open>Trade\<close> row of a fill (its id is given by the insertion).\<close>

definition fill_trade :: "nat \<Rightarrow> rat \<Rightarrow> int \<Rightarrow> trade_costs \<Rightarrow> rat option \<Rightarrow> instant \<Rightarrow> trade_row" where
  "fill_trade oid price qty costs realized ts = \<lparr>t_id = 0, t_order = oid, t_price = price, t_qty = qty,
     t_brokerage = c_brokerage costs, t_stt = c_stt costs, t_stamp_duty = c_stamp_duty costs, t_gst = c_gst costs,
     t_exchange_charges = c_exchange_charges costs, t_sebi_charges = c_sebi_charges costs,
     t_net_amount = c_net_amount costs, t_realized_pnl = realized, t_executed_at = ts\<rparr>"

lemma fill_trade_simps [simp]:
  "t_order (fill_trade oid price qty costs realized ts) = oid" "t_qty (fill_trade oid price qty costs realized ts) = qty"
  "t_price (fill_trade oid price qty costs realized ts) = price"
  "t_net_amount (fill_trade oid price qty costs realized ts) = c_net_amount costs"
  "t_realized_pnl (fill_trade oid price qty costs realized ts) = realized"
  "t_executed_at (fill_trade oid price qty costs realized ts) = ts"
  by (simp_all add: fill_trade_def)

text \<open>Booking a trade of an order and its quantity: what is left in the store.\<close>

definition booked :: "nat \<Rightarrow> trade_row \<Rightarrow> int \<Rightarrow> store \<Rightarrow> store" where
  "booked oid tr filled d = upd_order oid (\<lambda>r. r\<lparr>o_filled := filled\<rparr>)
     (d\<lparr>trades := trades d @ [tr\<lparr>t_id := next_id (map t_id (trades d))\<rparr>]\<rparr>)"

lemma booked_simps [simp]:
  "instruments (booked oid tr n d) = instruments d" "positions (booked oid tr n d) = positions d"
  "paper_account (booked oid tr n d) = paper_account d" "order_events (booked oid tr n d) = order_events d"
  "trades (booked oid tr n d) = trades d @ [tr\<lparr>t_id := next_id (map t_id (trades d))\<rparr>]"
  "kill_switch (booked oid tr n d) = kill_switch d" "risk_events (booked oid tr n d) = risk_events d"
  by (simp_all add: booked_def)

lemma get_order_trades [simp]: "get_order i (d\<lparr>trades := ts\<rparr>) = get_order i d"
  by (simp add: get_order_def repo_get_def)

lemma get_order_booked:
  "get_order i (booked oid tr n d) =
     (if i = oid then map_option (\<lambda>r. r\<lparr>o_filled := n\<rparr>) (get_order oid d) else get_order i d)"
  by (simp add: booked_def get_order_upd)

lemma run_book_trade:
  assumes ok: "store_ok d" and ord: "get_order oid d = Some ord" and tr: "t_order tr = oid" "0 < t_qty tr"
    and n: "n = o_filled ord + t_qty tr" "n \<le> o_qty ord"
  shows "bindA (add_trade tr) (\<lambda>_. seqA (set_filled_qty oid n) k) d = k (booked oid tr n d)"
    and "store_ok (booked oid tr n d)"
proof -
  have mem: "ord \<in> set (orders d)" "o_id ord = oid" using get_order_Some [OF ord] by simp_all
  have "0 \<le> o_filled ord" using ok mem by (auto simp: store_ok_def orders_wf_def order_row_ok_def)
  with n tr have n0: "\<not> (n < 0 \<or> o_qty ord < n)" by simp
  have "oid \<in> o_id ` set (orders d)" using mem by auto
  then show "bindA (add_trade tr) (\<lambda>_. seqA (set_filled_qty oid n) k) d = k (booked oid tr n d)"
    using tr ord n0 by (simp add: add_trade_def insert_trade_def repo_add_def Let_def run_simps set_filled_qty_def booked_def)
  show "store_ok (booked oid tr n d)"
    unfolding booked_def n(1) using store_ok_book_fill [OF ok ord, of "tr\<lparr>t_id := next_id (map t_id (trades d))\<rparr>"] tr n
    by simp
qed

end
