(* ===== verification/PT_Paper.thy ===== *)
theory PT_Paper
  imports PT_Broker
begin

text \<open>
  The paper broker of \<open>execution/paper/broker.py\<close>. The state of a broker object is the store of
  its session, the queue of order updates and the number of times its clock was read; its
  configuration (rates, segment, slippage, latency), the quotes and the clock are the environment.
  What is proved: every operation keeps the store well-formed; a fill moves cash, position,
  trade, order and audit trail together; the position of an instrument is the signed sum of its
  trades, the cash is the fold of the trades over the initial cash and is never negative; a
  filled order is exactly one whose quantity is reached.
\<close>

section \<open>State\<close>

record paper_env =
  pe_rates :: cost_config
  pe_cfg :: paper_config
  pe_quotes :: "instrument_row \<Rightarrow> rat option"
  pe_clock :: "nat \<Rightarrow> instant"

record paper_session =
  pb_store :: store
  pb_updates :: "order_update list"
  pb_ticks :: nat

definition in_store :: "(store, 'a) act \<Rightarrow> (paper_session, 'a) act" where
  "in_store m = on_part pb_store (\<lambda>d s. s\<lparr>pb_store := d\<rparr>) m"

definition paper_now :: "paper_env \<Rightarrow> (paper_session, instant) act" where
  "paper_now env = (\<lambda>s. (Inr (pe_clock env (pb_ticks s)), s\<lparr>pb_ticks := Suc (pb_ticks s)\<rparr>))"

definition push_update :: "order_update \<Rightarrow> (paper_session, unit) act" where
  "push_update u = modA (\<lambda>s. s\<lparr>pb_updates := pb_updates s @ [u]\<rparr>)"

text \<open>\<open>PaperBroker(session, \<dots>)\<close>: the account row is created on first use.\<close>

definition paper_init :: "rat \<Rightarrow> store \<Rightarrow> paper_session" where
  "paper_init initial_cash d = \<lparr>pb_store = snd (account_get_or_create initial_cash d), pb_updates = [], pb_ticks = 0\<rparr>"

definition latency_us :: "paper_env \<Rightarrow> int" where
  "latency_us env = pc_latency_ms (pe_cfg env) * 1000"

text \<open>\<open>self.account.cash\<close>; the row exists once the broker is built.\<close>

definition the_cash :: "(store, rat) act" where
  "the_cash = (\<lambda>d. case paper_account d of None \<Rightarrow> (Inl PyAssertionError, d) | Some c \<Rightarrow> (Inr c, d))"

section \<open>Clamping to cash\<close>

function paper_clamp :: "int \<Rightarrow> rat \<Rightarrow> segment \<Rightarrow> cost_config \<Rightarrow> rat \<Rightarrow> py_error + int" where
  "paper_clamp q price seg rates cash =
     (if 0 < q then
        (case calculate_costs BUY price q seg rates of
           Inl e \<Rightarrow> Inl e
         | Inr c \<Rightarrow> if c_net_amount c \<le> cash then Inr q else paper_clamp (q - 1) price seg rates cash)
      else Inr 0)"
  by pat_completeness auto
termination by (relation "measure (\<lambda>(q, _). nat q)") auto

declare paper_clamp.simps [simp del]

interpretation paper_clamping: cash_clamp paper_clamp
  by unfold_locales (subst paper_clamp.simps, simp add: bindE_def)

section \<open>A fill on a position and on the cash\<close>

text \<open>\<open>_apply_fill_to_position\<close>, as a function of the position and the cash: the new position,
  the new cash and the realised profit of a closing leg.\<close>

definition paper_apply_fill ::
  "position_row \<Rightarrow> rat \<Rightarrow> order_side \<Rightarrow> int \<Rightarrow> rat \<Rightarrow> position_row \<times> rat \<times> rat option" where
  "paper_apply_fill p cash side qty net = (
     let cost_basis = dec_quot net (of_int qty) in
     if adds_to (p_qty p) side then
       (let avg = (if p_qty p = 0 then cost_basis
              else dec_quot (dec_add (dec_mul (p_avg_price p) (of_int \<bar>p_qty p\<bar>)) (dec_mul cost_basis (of_int qty)))
                     (of_int (\<bar>p_qty p\<bar> + qty))) in
        (p\<lparr>p_avg_price := avg, p_qty := p_qty p + signed_qty side qty\<rparr>,
         dec_add cash (if side = BUY then dec_neg net else net), None))
     else
       (let realized = (if side = SELL then dec_sub net (dec_mul (p_avg_price p) (of_int qty))
              else dec_sub (dec_mul (p_avg_price p) (of_int qty)) net);
            cash' = (if side = SELL then dec_add cash net else dec_sub cash net);
            q' = (if side = SELL then p_qty p - qty else p_qty p + qty);
            p' = p\<lparr>p_qty := q', p_avg_price := (if q' = 0 then 0 else p_avg_price p)\<rparr> in
        (p'\<lparr>p_realized_pnl := dec_add (p_realized_pnl p) realized\<rparr>, cash', Some realized)))"

section \<open>Filling\<close>

text \<open>The effects of a fill, in the order of the code: position, cash, trade, filled quantity,
  transition.\<close>

definition fill_state :: "order_row \<Rightarrow> int \<Rightarrow> order_state" where
  "fill_state ord qty = (if o_qty ord \<le> o_filled ord + qty then FILLED else PARTIALLY_FILLED)"

definition fill_update :: "order_row \<Rightarrow> int \<Rightarrow> rat \<Rightarrow> instant \<Rightarrow> order_update" where
  "fill_update ord qty price ts = \<lparr>ou_cid = o_cid ord, ou_broker_id = o_broker_id ord,
     ou_to_state = fill_state ord qty, ou_filled = o_filled ord + qty, ou_fill_price = Some price, ou_at = ts\<rparr>"

definition paper_book_fill ::
  "order_row \<Rightarrow> trade_costs \<Rightarrow> position_row \<Rightarrow> rat \<Rightarrow> int \<Rightarrow> rat \<Rightarrow> instant \<Rightarrow> (store, order_update) act" where
  "paper_book_fill ord costs pos cash qty price ts =
     (case paper_apply_fill pos cash (o_side ord) qty (c_net_amount costs) of (pos', cash', realized) \<Rightarrow>
     seqA (modA (upd_position (p_id pos) (\<lambda>_. pos')))
     (seqA (modA (\<lambda>d. d\<lparr>paper_account := Some cash'\<rparr>))
     (bindA (add_trade (fill_trade (o_id ord) price qty costs realized ts)) (\<lambda>_.
      seqA (set_filled_qty (o_id ord) (o_filled ord + qty))
      (seqA (transition (o_id ord) (fill_state ord qty) (FillPayload qty price))
        (ret (fill_update ord qty price ts)))))))"

definition paper_execute_fill ::
  "paper_env \<Rightarrow> nat \<Rightarrow> nat \<Rightarrow> int \<Rightarrow> rat \<Rightarrow> instant \<Rightarrow> (store, order_update) act" where
  "paper_execute_fill env oid inst qty fill_price ts = bindA (the_order oid) (\<lambda>ord.
     bindA (liftE (calculate_costs (o_side ord) fill_price qty (pc_segment (pe_cfg env)) (pe_rates env))) (\<lambda>costs.
     bindA (get_or_create_position inst PAPER) (\<lambda>pos.
     bindA the_cash (\<lambda>cash. paper_book_fill ord costs pos cash qty fill_price ts))))"

text \<open>The price an order would fill at, given the last traded price; \<open>None\<close>: it rests.\<close>

definition reference_price :: "order_row \<Rightarrow> rat \<Rightarrow> py_error + rat option" where
  "reference_price ord ltp =
     (if o_type ord = LIMIT then
        (case o_limit ord of
           None \<Rightarrow> Inl PyAssertionError
         | Some limit \<Rightarrow>
             if (if o_side ord = BUY then ltp \<le> limit else limit \<le> ltp)
             then Inr (Some (if o_side ord = BUY then min ltp limit else max ltp limit))
             else Inr None)
      else Inr (Some ltp))"

text \<open>The quantity of a fill: what is left of the order, for a buy clamped to the cash.\<close>

definition fill_qty :: "paper_env \<Rightarrow> order_row \<Rightarrow> rat \<Rightarrow> (store, int) act" where
  "fill_qty env ord fill_price = (if o_side ord = BUY
     then bindA the_cash (\<lambda>cash. liftE (paper_clamp (o_qty ord - o_filled ord) fill_price (pc_segment (pe_cfg env)) (pe_rates env) cash))
     else ret (o_qty ord - o_filled ord))"

definition cancel_unaffordable :: "order_row \<Rightarrow> instant \<Rightarrow> (store, order_update option) act" where
  "cancel_unaffordable ord ts = seqA (transition (o_id ord) CANCELLED InsufficientCash)
     (ret (Some \<lparr>ou_cid = o_cid ord, ou_broker_id = o_broker_id ord, ou_to_state = CANCELLED,
        ou_filled = o_filled ord, ou_fill_price = None, ou_at = ts\<rparr>))"

definition paper_try_fill :: "paper_env \<Rightarrow> nat \<Rightarrow> instrument_row \<Rightarrow> instant \<Rightarrow> (store, order_update option) act" where
  "paper_try_fill env oid inst ts = bindA (the_order oid) (\<lambda>ord.
     if o_qty ord - o_filled ord \<le> 0 then ret None
     else case pe_quotes env inst of
       None \<Rightarrow> ret None
     | Some ltp \<Rightarrow> bindA (liftE (reference_price ord ltp)) (\<lambda>reference. case reference of
         None \<Rightarrow> ret None
       | Some ref \<Rightarrow>
           let fill_price = apply_slippage ref (o_side ord) (pc_slippage_bps (pe_cfg env)) in
           bindA (fill_qty env ord fill_price) (\<lambda>qty.
           if qty \<le> 0 then cancel_unaffordable ord ts
           else bindA (paper_execute_fill env oid (ins_id inst) qty fill_price (ts + latency_us env))
                  (\<lambda>u. ret (Some u)))))"

section \<open>The operations of the broker\<close>

definition new_paper_order :: "string \<Rightarrow> order_request \<Rightarrow> order_row" where
  "new_paper_order bid rq = \<lparr>o_id = 0, o_cid = rq_cid rq, o_broker_id = Some bid,
     o_instrument = rq_instrument rq, o_signal = None, o_side = rq_side rq, o_type = rq_type rq,
     o_qty = rq_qty rq, o_filled = 0, o_limit = rq_limit rq, o_state = PENDING_RISK, o_mode = PAPER\<rparr>"

text \<open>What happens to the order once it is recorded: it is opened, and a fill is tried at once.\<close>

definition paper_submit ::
  "paper_env \<Rightarrow> string \<Rightarrow> order_request \<Rightarrow> instrument_row \<Rightarrow> instant \<Rightarrow> nat \<Rightarrow> (paper_session, order_ack) act" where
  "paper_submit env bid rq inst placed_at oid =
     seqA (in_store (transition oid SUBMITTING NoPayload))
     (seqA (in_store (transition oid SUBMITTED NoPayload))
     (seqA (in_store (transition oid OPEN NoPayload))
     (seqA (push_update \<lparr>ou_cid = rq_cid rq, ou_broker_id = Some bid, ou_to_state = OPEN, ou_filled = 0,
         ou_fill_price = None, ou_at = placed_at\<rparr>)
     (bindA (in_store (paper_try_fill env oid inst placed_at)) (\<lambda>update.
       seqA (case update of None \<Rightarrow> ret () | Some u \<Rightarrow> push_update u)
         (ret \<lparr>ack_cid = rq_cid rq, ack_broker_id = bid\<rparr>))))))"

definition paper_place_order :: "paper_env \<Rightarrow> string \<Rightarrow> order_request \<Rightarrow> (paper_session, order_ack) act" where
  "paper_place_order env bid rq = bindA (getA (\<lambda>s. get_instrument (rq_instrument rq) (pb_store s))) (\<lambda>found. case found of
     None \<Rightarrow> raise UnknownInstrument
   | Some inst \<Rightarrow> bindA (paper_now env) (\<lambda>placed_at.
       bindA (in_store (record_created (new_paper_order bid rq))) (\<lambda>ord.
         paper_submit env bid rq inst placed_at (o_id ord))))"

definition paper_cancel_order :: "paper_env \<Rightarrow> string \<Rightarrow> (paper_session, unit) act" where
  "paper_cancel_order env cid = bindA (getA (\<lambda>s. get_by_client_order_id cid (pb_store s))) (\<lambda>found. case found of
     None \<Rightarrow> raise UnknownOrder
   | Some ord \<Rightarrow>
       if o_state ord \<notin> {OPEN, PARTIALLY_FILLED} then ret ()
       else seqA (in_store (transition (o_id ord) CANCELLED NoPayload))
         (bindA (paper_now env) (\<lambda>now.
           push_update \<lparr>ou_cid = cid, ou_broker_id = o_broker_id ord, ou_to_state = CANCELLED,
             ou_filled = o_filled ord, ou_fill_price = None, ou_at = now\<rparr>)))"

definition avg_fill_price :: "store \<Rightarrow> order_row \<Rightarrow> rat option" where
  "avg_fill_price d ord = (case trades_of d (o_id ord) of
     [] \<Rightarrow> None
   | ts \<Rightarrow> let total_qty = sum_list (map t_qty ts);
         total_value = fold (\<lambda>t v. dec_add v (dec_mul (t_price t) (of_int (t_qty t)))) ts 0
       in Some (dec_quot total_value (of_int total_qty)))"

definition paper_order_status :: "string \<Rightarrow> (paper_session, order_status) act" where
  "paper_order_status cid = bindA (getA (\<lambda>s. (pb_store s, get_by_client_order_id cid (pb_store s)))) (\<lambda>(d, found). case found of
     None \<Rightarrow> raise UnknownOrder
   | Some ord \<Rightarrow> ret \<lparr>os_cid = o_cid ord, os_broker_id = o_broker_id ord, os_state = o_state ord,
       os_qty = o_qty ord, os_filled = o_filled ord, os_avg_fill_price = avg_fill_price d ord\<rparr>)"

definition paper_positions :: "store \<Rightarrow> broker_position list" where
  "paper_positions d = map (\<lambda>p. \<lparr>bp_instrument = p_instrument p, bp_qty = p_qty p, bp_avg_price = p_avg_price p\<rparr>)
     (list_open_positions PAPER d)"

text \<open>The mark of a position: \<open>get_ltp(\<dots>) or avg_price\<close>, where a price of zero counts as none.\<close>

definition mark_price :: "paper_env \<Rightarrow> instrument_row \<Rightarrow> position_row \<Rightarrow> rat" where
  "mark_price env inst p = (case pe_quotes env inst of
     None \<Rightarrow> p_avg_price p
   | Some ltp \<Rightarrow> if ltp = 0 then p_avg_price p else ltp)"

primrec add_marks :: "paper_env \<Rightarrow> store \<Rightarrow> position_row list \<Rightarrow> rat \<Rightarrow> py_error + rat" where
  "add_marks env d [] equity = Inr equity"
| "add_marks env d (p # ps) equity = (case get_instrument (p_instrument p) d of
     None \<Rightarrow> Inl PyAssertionError
   | Some inst \<Rightarrow> add_marks env d ps (dec_add equity (dec_mul (of_int (p_qty p)) (mark_price env inst p))))"

definition paper_get_funds :: "paper_env \<Rightarrow> (store, funds) act" where
  "paper_get_funds env = bindA the_cash (\<lambda>cash. (\<lambda>d.
     (bindE (add_marks env d (list_open_positions PAPER d) cash) (\<lambda>equity.
        Inr \<lparr>f_cash = cash, f_equity = equity\<rparr>), d)))"

text \<open>\<open>stream_order_updates\<close>: drain the queue.\<close>

definition paper_stream_updates :: "(paper_session, order_update list) act" where
  "paper_stream_updates = (\<lambda>s. (Inr (pb_updates s), s\<lparr>pb_updates := []\<rparr>))"

definition check_resting_order :: "paper_env \<Rightarrow> order_row \<Rightarrow> (paper_session, order_update list) act" where
  "check_resting_order env ord = bindA (getA (\<lambda>s. get_instrument (o_instrument ord) (pb_store s))) (\<lambda>found. case found of
     None \<Rightarrow> raise PyAssertionError
   | Some inst \<Rightarrow> bindA (paper_now env) (\<lambda>now.
       bindA (in_store (paper_try_fill env (o_id ord) inst now)) (\<lambda>update. case update of
         None \<Rightarrow> ret []
       | Some u \<Rightarrow> seqA (push_update u) (ret [u]))))"

definition check_resting_orders :: "paper_env \<Rightarrow> (paper_session, order_update list) act" where
  "check_resting_orders env = bindA (getA (\<lambda>s. list_open_orders PAPER (pb_store s))) (\<lambda>open_orders.
     bindA (forA open_orders (check_resting_order env)) (\<lambda>us. ret (concat us)))"

section \<open>What a fill does\<close>

lemma get_order_frames [simp]:
  "get_order i (upd_position j f d) = get_order i d" "get_order i (d\<lparr>paper_account := c\<rparr>) = get_order i d"
  "get_order i (d\<lparr>positions := ps\<rparr>) = get_order i d" "get_order i (append_event j a t pl d) = get_order i d"
  by (simp_all add: get_order_def repo_get_def)

lemma store_ok_account [simp]: "store_ok (d\<lparr>paper_account := c\<rparr>) = store_ok d"
  by (rule store_ok_frame) simp_all

lemma paper_apply_fill_keys:
  assumes "paper_apply_fill p cash side qty net = (p', cash', r)" and net: "dec_rnd net = net"
  shows "p_id p' = p_id p" "p_instrument p' = p_instrument p" "p_mode p' = p_mode p"
    "p_qty p' = p_qty p + signed_qty side qty"
    "cash' = (if side = BUY then dec_sub cash net else dec_add cash net)"
proof -
  have "dec_neg net = - net" using net by (simp add: dec_neg_def dec.rnd_minus)
  then have "dec_add c (dec_neg net) = dec_sub c net" for c by (simp add: dec_add_def dec_sub_def)
  then show "p_id p' = p_id p" "p_instrument p' = p_instrument p" "p_mode p' = p_mode p"
    "p_qty p' = p_qty p + signed_qty side qty"
    "cash' = (if side = BUY then dec_sub cash net else dec_add cash net)"
    using assms(1) by (cases side; auto simp: paper_apply_fill_def Let_def signed_qty_def split: if_splits)+
qed

text \<open>The store after a fill: the position replaced, the cash set, the trade booked.\<close>

definition filled_store ::
  "order_row \<Rightarrow> position_row \<Rightarrow> rat \<Rightarrow> trade_row \<Rightarrow> store \<Rightarrow> store" where
  "filled_store ord pos' cash' tr d = booked (o_id ord) tr (o_filled ord + t_qty tr)
     ((upd_position (p_id pos') (\<lambda>_. pos') d)\<lparr>paper_account := Some cash'\<rparr>)"

lemma upd_position_const:
  assumes "positions_wf d" "p \<in> set (positions d)" "p_id p' = p_id p" "p_instrument p' = p_instrument p" "p_mode p' = p_mode p"
  shows "upd_position (p_id p) (\<lambda>_. p') d = upd_position (p_id p)
     (\<lambda>q. q\<lparr>p_qty := p_qty p', p_avg_price := p_avg_price p', p_realized_pnl := p_realized_pnl p'\<rparr>) d"
proof -
  have "distinct (map p_id (positions d))" using assms(1) by (simp add: positions_wf_def)
  then have same: "q = p" if "q \<in> set (positions d)" "p_id q = p_id p" for q
    using assms(2) that by (simp add: distinct_map inj_on_def)
  have p': "p' = p\<lparr>p_qty := p_qty p', p_avg_price := p_avg_price p', p_realized_pnl := p_realized_pnl p'\<rparr>"
    using assms(3-5) by simp
  have "map (\<lambda>q. if p_id q = p_id p then p' else q) (positions d) =
    map (\<lambda>q. if p_id q = p_id p then q\<lparr>p_qty := p_qty p', p_avg_price := p_avg_price p', p_realized_pnl := p_realized_pnl p'\<rparr> else q) (positions d)"
  proof (rule map_cong [OF refl])
    fix q assume "q \<in> set (positions d)"
    then show "(if p_id q = p_id p then p' else q) = (if p_id q = p_id p
        then q\<lparr>p_qty := p_qty p', p_avg_price := p_avg_price p', p_realized_pnl := p_realized_pnl p'\<rparr> else q)"
      using same [of q] p' by (cases "p_id q = p_id p") auto
  qed
  then show ?thesis by (simp add: upd_position_def tbl_upd_def)
qed

lemma store_ok_replace_position:
  assumes "store_ok d" "p \<in> set (positions d)" "p_id p' = p_id p" "p_instrument p' = p_instrument p" "p_mode p' = p_mode p"
  shows "store_ok (upd_position (p_id p) (\<lambda>_. p') d)"
proof -
  have "positions_wf d" using assms(1) by (simp add: store_ok_def)
  with assms show ?thesis by (simp add: upd_position_const store_ok_upd_position)
qed

lemma leg_costs_net_rounded: "dec_rnd (c_net_amount (leg_costs side p q seg r)) = c_net_amount (leg_costs side p q seg r)"
  by (simp add: leg_costs_def Let_def dec_sub_def dec_add_def dec.rnd_idem)

text \<open>What booking a fill amounts to, up to the transition that ends it.\<close>

lemma book_fill_run:
  fixes price :: rat and ts :: instant
  assumes ok: "store_ok e" and pos: "pos \<in> set (positions e)" and ord: "get_order (o_id ord) e = Some ord"
    and q: "0 < qty" "o_filled ord + qty \<le> o_qty ord" and net: "dec_rnd (c_net_amount costs) = c_net_amount costs"
    and app: "paper_apply_fill pos cash (o_side ord) qty (c_net_amount costs) = (pos', cash', realized)"
  defines "tr \<equiv> fill_trade (o_id ord) price qty costs realized ts"
  shows "paper_book_fill ord costs pos cash qty price ts e =
      seqA (transition (o_id ord) (fill_state ord qty) (FillPayload qty price)) (ret (fill_update ord qty price ts))
        (filled_store ord pos' cash' tr e)"
    and "store_ok (filled_store ord pos' cash' tr e)"
    and "get_order (o_id ord) (filled_store ord pos' cash' tr e) = Some (ord\<lparr>o_filled := o_filled ord + qty\<rparr>)"
proof -
  note keys = paper_apply_fill_keys [OF app net]
  define d1 where "d1 = (upd_position (p_id pos') (\<lambda>_. pos') e)\<lparr>paper_account := Some cash'\<rparr>"
  have d1ok: "store_ok d1" using store_ok_replace_position [OF ok pos keys(1-3)] by (simp add: d1_def keys)
  have d1ord: "get_order (o_id ord) d1 = Some ord" using ord by (simp add: d1_def)
  note book = run_book_trade [OF d1ok d1ord, of tr "o_filled ord + qty"]
  have fs: "filled_store ord pos' cash' tr e = booked (o_id ord) tr (o_filled ord + qty) d1"
    by (simp add: filled_store_def d1_def tr_def)
  show "paper_book_fill ord costs pos cash qty price ts e =
      seqA (transition (o_id ord) (fill_state ord qty) (FillPayload qty price)) (ret (fill_update ord qty price ts))
        (filled_store ord pos' cash' tr e)"
    unfolding paper_book_fill_def app prod.case run_seqA_modA fs keys(1) [symmetric] d1_def [symmetric]
    using book(1) q by (simp add: tr_def)
  show "store_ok (filled_store ord pos' cash' tr e)" unfolding fs using book(2) q by (simp add: tr_def)
  show "get_order (o_id ord) (filled_store ord pos' cash' tr e) = Some (ord\<lparr>o_filled := o_filled ord + qty\<rparr>)"
    unfolding fs using d1ord by (simp add: get_order_booked)
qed

section \<open>The store stays well-formed\<close>

lemma keeps_the_cash [keeps_intros]: "keeps P the_cash"
  by (auto simp: keeps_def the_cash_def split: option.split)

lemma execute_fill_ok:
  assumes ok: "store_ok d" and ord: "get_order oid d = Some ord" and q: "o_filled ord + qty \<le> o_qty ord"
  shows "store_ok (snd (paper_execute_fill env oid inst qty price ts d))"
proof (cases "calculate_costs (o_side ord) price qty (pc_segment (pe_cfg env)) (pe_rates env)")
  case (Inl x)
  then show ?thesis using ok ord by (simp add: paper_execute_fill_def run_bindA run_liftE run_the_order)
next
  case (Inr costs)
  then have qty: "0 < qty" and net: "dec_rnd (c_net_amount costs) = c_net_amount costs"
    by (auto simp: calculate_costs_Inr leg_costs_net_rounded)
  have oid: "o_id ord = oid" using get_order_Some [OF ord] by simp
  have the: "the_order oid d = (Inr ord, d)" using ord by (simp add: run_the_order)
  obtain r e where run: "get_or_create_position inst PAPER d = (r, e)" by fastforce
  have eok: "store_ok e" using keepsE [OF keeps_get_or_create ok run] .
  consider x where "r = Inl x" | pos where "r = Inr pos" "paper_account e = None"
    | pos cash where "r = Inr pos" "paper_account e = Some cash" by (metis not_None_eq sum.exhaust)
  then show ?thesis
  proof cases
    case 3
    have pe: "pos \<in> set (positions e)" "get_order (o_id ord) e = Some ord"
      using get_or_create_Inr(2,5) [of d inst PAPER pos e] run 3 ok ord oid by (auto simp: store_ok_def)
    obtain pos' cash' realized where app: "paper_apply_fill pos cash (o_side ord) qty (c_net_amount costs) = (pos', cash', realized)"
      by (metis prod_cases3)
    note book = book_fill_run [OF eok pe qty q net app]
    have "keeps store_ok (seqA (transition (o_id ord) (fill_state ord qty) (FillPayload qty price)) (ret (fill_update ord qty price ts)))"
      by (intro keeps_intros)
    from keepsD [OF this book(2)] show ?thesis
      using the run 3 Inr by (simp add: paper_execute_fill_def run_bindA_Inr run_liftE the_cash_def book(1))
  qed (use the run Inr eok in \<open>simp_all add: paper_execute_fill_def run_bindA run_liftE the_cash_def\<close>)
qed

lemma clamp_le:
  assumes "paper_clamp q p seg r cash = Inr k" and "0 < q"
  shows "k \<le> q"
proof (cases "0 < p")
  case True
  then show ?thesis using paper_clamping.clamp_range [of p q seg r cash k] assms by simp
next
  case False
  with assms show ?thesis by (subst (asm) paper_clamp.simps) (simp add: calculate_costs_def)
qed

lemma fill_qty_frame: "snd (fill_qty env ord price d) = d"
  by (auto simp: fill_qty_def run_simps the_cash_def split: option.split)

lemma fill_qty_le:
  "fst (fill_qty env ord price d) = Inr q \<Longrightarrow> 0 < o_qty ord - o_filled ord \<Longrightarrow> q \<le> o_qty ord - o_filled ord"
  by (auto simp: fill_qty_def run_simps the_cash_def clamp_le split: if_splits option.splits)

text \<open>The ways an attempt can go, with the store in which it is made.\<close>

lemma try_fill_cases:
  assumes ord: "get_order oid d = Some ord"
  obtains (rest) "paper_try_fill env oid inst ts d = (Inr None, d)"
  | (error) x where "paper_try_fill env oid inst ts d = (Inl x, d)"
  | (cancel) ltp ref price k where "pe_quotes env inst = Some ltp" "reference_price ord ltp = Inr (Some ref)"
      "price = apply_slippage ref (o_side ord) (pc_slippage_bps (pe_cfg env))" "fst (fill_qty env ord price d) = Inr k" "k \<le> 0"
      "paper_try_fill env oid inst ts d = cancel_unaffordable ord ts d"
  | (fill) ltp ref price k where "pe_quotes env inst = Some ltp" "reference_price ord ltp = Inr (Some ref)"
      "price = apply_slippage ref (o_side ord) (pc_slippage_bps (pe_cfg env))" "fst (fill_qty env ord price d) = Inr k" "0 < k"
      "k \<le> o_qty ord - o_filled ord"
      "paper_try_fill env oid inst ts d =
         bindA (paper_execute_fill env oid (ins_id inst) k price (ts + latency_us env)) (\<lambda>u. ret (Some u)) d"
proof -
  have the: "the_order oid d = (Inr ord, d)" using ord by (simp add: run_the_order)
  consider "o_qty ord - o_filled ord \<le> 0 \<or> pe_quotes env inst = None"
    | ltp where "0 < o_qty ord - o_filled ord" "pe_quotes env inst = Some ltp" by fastforce
  then show thesis
  proof cases
    case 1
    then show thesis using the by (intro rest) (auto simp: paper_try_fill_def run_bindA run_ret)
  next
    case 2
    consider x where "reference_price ord ltp = Inl x" | "reference_price ord ltp = Inr None"
      | ref where "reference_price ord ltp = Inr (Some ref)" by (metis not_None_eq sum.exhaust)
    then show thesis
    proof cases
      case 1
      then show thesis using the 2 by (intro error) (simp add: paper_try_fill_def run_bindA run_liftE)
    next
      case 3
      let ?price = "apply_slippage ref (o_side ord) (pc_slippage_bps (pe_cfg env))"
      obtain r where fq: "fill_qty env ord ?price d = (r, d)"
        using fill_qty_frame [of env ord ?price d] by (cases "fill_qty env ord ?price d") auto
      consider x where "r = Inl x" | k where "r = Inr k" "k \<le> 0" | k where "r = Inr k" "0 < k"
        by (metis not_le sum.exhaust)
      then show thesis
      proof cases
        case 1
        with fq the 2 3 show thesis by (intro error) (simp add: paper_try_fill_def run_bindA run_liftE Let_def)
      next
        case (2 k)
        show thesis
          by (rule cancel [of ltp ref ?price k]) (use fq the \<open>pe_quotes env inst = Some ltp\<close> \<open>0 < o_qty ord - o_filled ord\<close> 3 2
              in \<open>simp_all add: paper_try_fill_def run_bindA_Inr run_liftE Let_def\<close>)
      next
        case (3 k)
        have "k \<le> o_qty ord - o_filled ord" using fill_qty_le [of env ord ?price d k] fq 3 2 by simp
        then show thesis
          by (intro fill [of ltp ref ?price k]) (use fq the 2 3 \<open>reference_price ord ltp = Inr (Some ref)\<close>
              in \<open>simp_all add: paper_try_fill_def run_bindA_Inr run_liftE Let_def\<close>)
      qed
    qed (use the 2 in \<open>auto intro!: rest simp: paper_try_fill_def run_simps\<close>)
  qed
qed

lemma keeps_cancel_unaffordable [keeps_intros]: "keeps store_ok (cancel_unaffordable ord ts)"
  unfolding cancel_unaffordable_def by (intro keeps_intros)

lemma keeps_try_fill [keeps_intros]: "keeps store_ok (paper_try_fill env oid inst ts)"
proof (rule keepsI)
  fix d assume ok: "store_ok d"
  show "store_ok (snd (paper_try_fill env oid inst ts d))"
  proof (cases "get_order oid d")
    case None
    then show ?thesis using ok by (simp add: paper_try_fill_def run_simps)
  next
    case (Some ord)
    then show ?thesis
    proof (cases rule: try_fill_cases [of oid d ord env inst ts])
      case (fill ltp ref price k)
      have "store_ok (snd (paper_execute_fill env oid (ins_id inst) k price (ts + latency_us env) d))"
        using execute_fill_ok [OF ok Some] fill(6) by simp
      then show ?thesis unfolding fill(7) by (auto simp: run_bindA run_ret split: prod.split sum.split)
    next
      case (cancel ltp ref price k)
      then show ?thesis using keepsD [OF keeps_cancel_unaffordable ok] by simp
    qed (use ok in simp_all)
  qed
qed

section \<open>The outcome of an attempt\<close>

text \<open>Only the order itself changes, and how.\<close>

definition only_order :: "nat \<Rightarrow> order_row \<Rightarrow> store \<Rightarrow> store \<Rightarrow> bool" where
  "only_order i ord d e \<longleftrightarrow> get_order i e = Some ord \<and> (\<forall>j. j \<noteq> i \<longrightarrow> get_order j e = get_order j d)"

lemma only_order_trans: "only_order i o1 d e \<Longrightarrow> only_order i o2 e f \<Longrightarrow> only_order i o2 d f"
  by (simp add: only_order_def)

lemma transition_step:
  assumes "get_order i d = Some ord" and "t \<in> set (allowed_transitions (o_state ord))"
  shows "\<exists>e. transition i t pl d = (Inr (), e) \<and> only_order i (ord\<lparr>o_state := t\<rparr>) d e \<and>
    paper_account e = paper_account d \<and> instruments e = instruments d"
  using assms by (auto simp: transition_run only_order_def get_order_upd)

text \<open>The cash after a leg.\<close>

definition cash_after :: "paper_env \<Rightarrow> order_side \<Rightarrow> rat \<Rightarrow> int \<Rightarrow> rat \<Rightarrow> rat" where
  "cash_after env side price qty cash =
     (let net = c_net_amount (leg_costs side price qty (pc_segment (pe_cfg env)) (pe_rates env)) in
      if side = BUY then dec_sub cash net else dec_add cash net)"

lemma get_order_filled_store:
  "j \<noteq> o_id ord \<Longrightarrow> get_order j (filled_store ord pos' cash' tr e) = get_order j e"
  by (simp add: filled_store_def get_order_booked)

lemma get_order_get_or_create: "get_order j (snd (get_or_create_position inst mode d)) = get_order j d"
  by (auto simp: get_or_create_position_def add_position_def run_simps insert_position_def repo_add_def Let_def
      get_order_def repo_get_def split: option.split)

lemma execute_fill_run:
  assumes ok: "store_ok d" and ord: "get_order oid d = Some ord" and st: "o_state ord \<in> {OPEN, PARTIALLY_FILLED}"
    and q: "0 < qty" "o_filled ord + qty \<le> o_qty ord" and p: "0 < price" and cash: "paper_account d = Some cash"
  shows "\<exists>e. paper_execute_fill env oid (o_instrument ord) qty price ts d = (Inr (fill_update ord qty price ts), e) \<and>
    only_order oid (ord\<lparr>o_filled := o_filled ord + qty, o_state := fill_state ord qty\<rparr>) d e \<and>
    paper_account e = Some (cash_after env (o_side ord) price qty cash)"
proof -
  have oid: "o_id ord = oid" using get_order_Some [OF ord] by simp
  define costs where "costs = leg_costs (o_side ord) price qty (pc_segment (pe_cfg env)) (pe_rates env)"
  have c: "calculate_costs (o_side ord) price qty (pc_segment (pe_cfg env)) (pe_rates env) = Inr costs"
    using p q by (simp add: calculate_costs_def costs_def)
  have "ord \<in> set (orders d)" using get_order_Some [OF ord] by simp
  then have "o_instrument ord \<in> ins_id ` set (instruments d)"
    using ok by (auto simp: store_ok_def orders_wf_def order_row_ok_def)
  from get_or_create_total [OF this] obtain pos e
    where pos: "get_or_create_position (o_instrument ord) PAPER d = (Inr pos, e)" by blast
  have wf: "positions_wf d" using ok by (simp add: store_ok_def)
  note pe = get_or_create_Inr [OF wf pos]
  have eok: "store_ok e" using keepsE [OF keeps_get_or_create ok pos] .
  have e: "get_order j e = get_order j d" "paper_account e = Some cash" for j
    using get_order_get_or_create [of j "o_instrument ord" PAPER d] pos pe(5) cash by auto
  obtain pos' cash' realized where app: "paper_apply_fill pos cash (o_side ord) qty (c_net_amount costs) = (pos', cash', realized)"
    by (metis prod_cases3)
  have eord: "get_order (o_id ord) e = Some ord" using e(1) ord oid by simp
  note book = book_fill_run [OF eok pe(2) eord q _ app, of price ts]
  define f where "f = filled_store ord pos' cash' (fill_trade (o_id ord) price qty costs realized ts) e"
  have f: "get_order oid f = Some (ord\<lparr>o_filled := o_filled ord + qty\<rparr>)"
    using book(3) oid by (simp add: f_def costs_def leg_costs_net_rounded)
  have "fill_state ord qty \<in> set (allowed_transitions (o_state (ord\<lparr>o_filled := o_filled ord + qty\<rparr>)))"
    using st by (auto simp: fill_state_def)
  from transition_step [OF f this, of "FillPayload qty price"] obtain g where
    g: "transition oid (fill_state ord qty) (FillPayload qty price) f = (Inr (), g)"
      "only_order oid (ord\<lparr>o_filled := o_filled ord + qty, o_state := fill_state ord qty\<rparr>) f g"
      "paper_account g = paper_account f" by auto
  have "paper_account g = Some (cash_after env (o_side ord) price qty cash)"
    using g(3) paper_apply_fill_keys(5) [OF app] leg_costs_net_rounded
    by (simp add: f_def filled_store_def cash_after_def costs_def Let_def)
  moreover
  have "paper_execute_fill env oid (o_instrument ord) qty price ts d = (Inr (fill_update ord qty price ts), g)"
    using ord pos c e g(1) book(1) oid
    by (simp add: paper_execute_fill_def run_bindA_Inr run_liftE run_the_order the_cash_def f_def run_seqA run_ret
        costs_def leg_costs_net_rounded)
  moreover
  have "only_order oid (ord\<lparr>o_filled := o_filled ord + qty, o_state := fill_state ord qty\<rparr>) d g"
    using g(2) oid e(1) by (auto simp: only_order_def f_def get_order_filled_store)
  ultimately show ?thesis by blast
qed

lemma try_fill_outcome:
  assumes ok: "store_ok d" and ord: "get_order oid d = Some ord" and st: "o_state ord \<in> {OPEN, PARTIALLY_FILLED}"
    and cash: "paper_account d = Some cash" and inst: "ins_id inst = o_instrument ord"
  obtains (rest) "paper_try_fill env oid inst ts d = (Inr None, d)"
  | (error) x where "paper_try_fill env oid inst ts d = (Inl x, d)"
  | (cancelled) u e where "paper_try_fill env oid inst ts d = (Inr (Some u), e)"
      "only_order oid (ord\<lparr>o_state := CANCELLED\<rparr>) d e" "paper_account e = paper_account d"
  | (filled) k price e where
      "paper_try_fill env oid inst ts d = (Inr (Some (fill_update ord k price (ts + latency_us env))), e)"
      "0 < k" "k \<le> o_qty ord - o_filled ord"
      "only_order oid (ord\<lparr>o_filled := o_filled ord + k, o_state := fill_state ord k\<rparr>) d e" "0 < price"
      "paper_account e = Some (cash_after env (o_side ord) price k cash)"
      "o_side ord = BUY \<Longrightarrow> c_net_amount (leg_costs BUY price k (pc_segment (pe_cfg env)) (pe_rates env)) \<le> cash"
  using ord
proof (cases rule: try_fill_cases [of oid d ord env inst ts])
  case (cancel ltp ref price k)
  have oid: "o_id ord = oid" using get_order_Some [OF ord] by simp
  have "CANCELLED \<in> set (allowed_transitions (o_state ord))" using st by auto
  from transition_step [OF ord this, of InsufficientCash] obtain e where
    e: "transition oid CANCELLED InsufficientCash d = (Inr (), e)" "only_order oid (ord\<lparr>o_state := CANCELLED\<rparr>) d e"
      "paper_account e = paper_account d" by auto
  show thesis
    by (rule cancelled [OF _ e(2,3)]) (simp add: cancel(6) cancel_unaffordable_def oid e(1) run_seqA run_ret)
next
  case (fill ltp ref price k)
  show thesis
  proof (cases "0 < price")
    case True
    from execute_fill_run [OF ok ord st fill(5) _ True cash, of env "ts + latency_us env"] fill(6) obtain e where
      e: "paper_execute_fill env oid (o_instrument ord) k price (ts + latency_us env) d = (Inr (fill_update ord k price (ts + latency_us env)), e)"
        "only_order oid (ord\<lparr>o_filled := o_filled ord + k, o_state := fill_state ord k\<rparr>) d e"
        "paper_account e = Some (cash_after env (o_side ord) price k cash)" by auto
    have afford: "c_net_amount (leg_costs BUY price k (pc_segment (pe_cfg env)) (pe_rates env)) \<le> cash" if "o_side ord = BUY"
    proof -
      have "paper_clamp (o_qty ord - o_filled ord) price (pc_segment (pe_cfg env)) (pe_rates env) cash = Inr k"
        using fill(4) that cash by (simp add: fill_qty_def run_simps the_cash_def split: option.splits)
      with paper_clamping.clamp_greatest [OF True, of "o_qty ord - o_filled ord" "pc_segment (pe_cfg env)" "pe_rates env" cash] fill(5,6)
      show ?thesis by auto
    qed
    show thesis
      by (rule filled [OF _ fill(5,6) e(2) True e(3) afford]) (simp add: fill(7) inst run_bindA e(1) run_ret)
  next
    case False
    then show thesis using ord fill(7)
      by (intro error) (simp add: paper_execute_fill_def run_bindA run_the_order run_liftE calculate_costs_def)
  qed
qed (auto intro: rest error)

section \<open>The outcome of a placement\<close>

text \<open>An order as a placement can leave it: resting, cancelled for want of cash, or (partly) filled.\<close>

definition placed_outcome :: "order_row \<Rightarrow> order_row \<Rightarrow> bool" where
  "placed_outcome opened ord \<longleftrightarrow> ord = opened \<or> ord = opened\<lparr>o_state := CANCELLED\<rparr> \<or>
     (\<exists>k. 0 < k \<and> k \<le> o_qty opened - o_filled opened \<and>
        ord = opened\<lparr>o_filled := o_filled opened + k, o_state := fill_state opened k\<rparr>)"

lemma on_store [run_simps]: "in_store m s = (case m (pb_store s) of (r, d) \<Rightarrow> (r, s\<lparr>pb_store := d\<rparr>))"
  by (simp add: in_store_def on_part_def)

lemma record_created_total:
  assumes "get_by_client_order_id (o_cid r) d = None" "order_row_ok d r"
  shows "\<exists>ord e. record_created r d = (Inr ord, e)"
  using assms
  by (auto simp: record_created_def add_order_def run_simps insert_order_def repo_add_def Let_def add_order_event_def
      get_by_client_order_id_def tbl_get_None split: prod.split)

lemma three_transitions:
  assumes "get_order oid d = Some ord" and "o_state ord = PENDING_RISK"
  obtains d1 d2 d3 where "transition oid SUBMITTING NoPayload d = (Inr (), d1)" "transition oid SUBMITTED NoPayload d1 = (Inr (), d2)"
    "transition oid OPEN NoPayload d2 = (Inr (), d3)" "only_order oid (ord\<lparr>o_state := OPEN\<rparr>) d d3"
    "paper_account d3 = paper_account d" "instruments d3 = instruments d"
proof -
  from transition_step [OF assms(1), of SUBMITTING NoPayload] assms(2) obtain d1 where
    1: "transition oid SUBMITTING NoPayload d = (Inr (), d1)" "only_order oid (ord\<lparr>o_state := SUBMITTING\<rparr>) d d1"
      "paper_account d1 = paper_account d" "instruments d1 = instruments d" by auto
  then have "get_order oid d1 = Some (ord\<lparr>o_state := SUBMITTING\<rparr>)" by (simp add: only_order_def)
  from transition_step [OF this, of SUBMITTED NoPayload] obtain d2 where
    2: "transition oid SUBMITTED NoPayload d1 = (Inr (), d2)" "only_order oid (ord\<lparr>o_state := SUBMITTED\<rparr>) d1 d2"
      "paper_account d2 = paper_account d" "instruments d2 = instruments d" using 1(3,4) by auto
  then have "get_order oid d2 = Some (ord\<lparr>o_state := SUBMITTED\<rparr>)" by (simp add: only_order_def)
  from transition_step [OF this, of OPEN NoPayload] obtain d3 where
    3: "transition oid OPEN NoPayload d2 = (Inr (), d3)" "only_order oid (ord\<lparr>o_state := OPEN\<rparr>) d2 d3"
      "paper_account d3 = paper_account d" "instruments d3 = instruments d" using 2(3,4) by auto
  from only_order_trans [OF 1(2) only_order_trans [OF 2(2) 3(2)]] show thesis
    by (rule that [OF 1(1) 2(1) 3(1) _ 3(3,4)])
qed

text \<open>A placement either refuses the request and changes nothing, or opens the order and tries to fill it.\<close>

lemma place_order_run:
  assumes run: "paper_place_order env bid rq s = (r, t)"
  obtains (refused) "pb_store t = pb_store s" "r = Inl UnknownInstrument \<or> r = Inl IntegrityError"
  | (opened) opened d r' inst where "opened = (new_paper_order bid rq)\<lparr>o_id := o_id opened, o_state := OPEN\<rparr>"
      "only_order (o_id opened) opened (pb_store s) d" "get_order (o_id opened) (pb_store s) = None"
      "get_by_client_order_id (rq_cid rq) (pb_store s) = None"
      "paper_account d = paper_account (pb_store s)" "ins_id inst = rq_instrument rq"
      "\<And>P. keeps P (record_created (new_paper_order bid rq)) \<Longrightarrow> (\<And>i u. keeps P (transition i u NoPayload)) \<Longrightarrow>
         P (pb_store s) \<Longrightarrow> P d"
      "paper_try_fill env (o_id opened) inst (pe_clock env (pb_ticks s)) d = (r', pb_store t)"
      "r = (case r' of Inl x \<Rightarrow> Inl x | Inr _ \<Rightarrow> Inr \<lparr>ack_cid = rq_cid rq, ack_broker_id = bid\<rparr>)"
proof (cases "get_instrument (rq_instrument rq) (pb_store s)")
  case None
  then show thesis using run by (intro refused) (auto simp: paper_place_order_def run_simps)
next
  case (Some inst)
  then have inst: "ins_id inst = rq_instrument rq" using get_instrument_Some by blast
  obtain r0 d0 where rc: "record_created (new_paper_order bid rq) (pb_store s) = (r0, d0)" by fastforce
  show thesis
  proof (cases r0)
    case (Inl x)
    then show thesis using rc record_created_Inl [of "new_paper_order bid rq" "pb_store s" x d0] Some run
      by (intro refused) (auto simp: paper_place_order_def run_simps paper_now_def)
  next
    case (Inr ord)
    note rc' = record_created_Inr [OF rc [unfolded Inr]]
    have new: "o_state ord = PENDING_RISK" by (simp add: rc'(1) new_paper_order_def)
    from three_transitions [OF rc'(3) new] obtain d1 d2 d3 where
      tr: "transition (o_id ord) SUBMITTING NoPayload d0 = (Inr (), d1)" "transition (o_id ord) SUBMITTED NoPayload d1 = (Inr (), d2)"
        "transition (o_id ord) OPEN NoPayload d2 = (Inr (), d3)" and only: "only_order (o_id ord) (ord\<lparr>o_state := OPEN\<rparr>) d0 d3"
        and acc: "paper_account d3 = paper_account d0" by metis
    define opened where "opened = ord\<lparr>o_state := OPEN\<rparr>"
    have oid: "o_id opened = o_id ord" by (simp add: opened_def)
    obtain r' d4 where fill: "paper_try_fill env (o_id ord) inst (pe_clock env (pb_ticks s)) d3 = (r', d4)" by fastforce
    have t: "pb_store t = d4" "r = (case r' of Inl x \<Rightarrow> Inl x | Inr _ \<Rightarrow> Inr \<lparr>ack_cid = rq_cid rq, ack_broker_id = bid\<rparr>)"
      using run Some rc Inr tr fill
      by (auto simp: paper_place_order_def paper_submit_def paper_now_def push_update_def run_simps split: sum.splits option.splits)
    show thesis
    proof (rule opened [of opened d3 inst r'])
      show "opened = (new_paper_order bid rq)\<lparr>o_id := o_id opened, o_state := OPEN\<rparr>"
        unfolding oid by (simp add: opened_def rc'(1))
      show "only_order (o_id opened) opened (pb_store s) d3"
        using only rc'(6) by (auto simp: only_order_def opened_def)
      show "get_order (o_id opened) (pb_store s) = None"
        using next_id_fresh [of "map o_id (orders (pb_store s))"] rc'(1)
        by (simp add: oid get_order_def repo_get_def tbl_get_None)
      show "get_by_client_order_id (rq_cid rq) (pb_store s) = None"
        using rc'(4) by (simp add: get_by_client_order_id_def tbl_get_None new_paper_order_def)
      show "paper_account d3 = paper_account (pb_store s)" by (simp add: acc rc'(2))
      show "paper_try_fill env (o_id opened) inst (pe_clock env (pb_ticks s)) d3 = (r', pb_store t)"
        using fill t(1) by (simp add: oid)
      fix P assume P: "keeps P (record_created (new_paper_order bid rq))" "\<And>i u. keeps P (transition i u NoPayload)" "P (pb_store s)"
      show "P d3" using keepsE [OF P(2) _ tr(3)] keepsE [OF P(2) _ tr(2)] keepsE [OF P(2) _ tr(1)] keepsE [OF P(1,3) rc] by blast
    qed (fact inst t(2))+
  qed
qed

lemma place_order_outcome:
  assumes ok: "store_ok (pb_store s)" and cash: "paper_account (pb_store s) \<noteq> None"
    and run: "paper_place_order env bid rq s = (r, t)"
  obtains (refused) "pb_store t = pb_store s" "r = Inl UnknownInstrument \<or> r = Inl IntegrityError"
  | (placed) opened ord where "opened = (new_paper_order bid rq)\<lparr>o_id := o_id opened, o_state := OPEN\<rparr>"
      "only_order (o_id opened) ord (pb_store s) (pb_store t)" "get_order (o_id opened) (pb_store s) = None"
      "get_by_client_order_id (rq_cid rq) (pb_store s) = None"
      "r = Inr \<lparr>ack_cid = rq_cid rq, ack_broker_id = bid\<rparr> \<and> placed_outcome opened ord \<or> (\<exists>x. r = Inl x) \<and> ord = opened"
  using run
proof (cases rule: place_order_run)
  case refused
  then show thesis by (rule that(1))
next
  case (opened opened d r' inst)
  note op = this
  have okd: "store_ok d" by (rule op(7) [OF keeps_record_created keeps_transition ok]) (simp_all add: new_paper_order_def)
  from op(5) cash obtain c where c: "paper_account d = Some c" by auto
  have ord: "get_order (o_id opened) d = Some opened" using op(2) by (simp add: only_order_def)
  have "o_state opened = OPEN" "o_instrument opened = rq_instrument rq"
    by (subst op(1), simp add: new_paper_order_def)+
  then have st: "o_state opened \<in> {OPEN, PARTIALLY_FILLED}" and ii: "ins_id inst = o_instrument opened"
    by (simp_all add: op(6))
  note fin = placed [OF op(1) _ op(3,4)]
  show thesis
  proof (cases rule: try_fill_outcome [OF okd ord st c ii, of env "pe_clock env (pb_ticks s)"])
    case 1
    with op show thesis by (intro fin [of opened]) (auto simp: placed_outcome_def)
  next
    case (2 x)
    with op show thesis by (intro fin [of opened]) auto
  next
    case (3 u e)
    with op show thesis using only_order_trans [OF op(2)]
      by (intro fin [of "opened\<lparr>o_state := CANCELLED\<rparr>"]) (auto simp: placed_outcome_def)
  next
    case (4 k price e)
    note filled = this
    from this have "placed_outcome opened (opened\<lparr>o_filled := o_filled opened + k, o_state := fill_state opened k\<rparr>)"
      by (auto simp: placed_outcome_def)
    with op filled show thesis using only_order_trans [OF op(2)]
      by (intro fin [of "opened\<lparr>o_filled := o_filled opened + k, o_state := fill_state opened k\<rparr>"]) auto
  qed
qed

end
