(* ===== verification/PT_Backtest.thy ===== *)
theory PT_Backtest
  imports PT_Runner PT_Risk PT_Paper
begin

text \<open>
  The event-driven backtester of \<open>backtest/engine.py\<close>: a strategy is replayed over the candles of
  one instrument, a signal of bar i fills at the open of bar i + 1. Here the engine; the theories
  PT_Lookahead and PT_Backtest_Safety prove that it never looks ahead and that its portfolio is sound.
\<close>

section \<open>Results\<close>

record executed_trade =
  et_index :: nat
  et_ts :: instant
  et_side :: order_side
  et_qty :: int
  et_price :: rat
  et_costs :: trade_costs
  et_signal_index :: nat
  et_pnl :: "rat option"

record equity_point =
  eq_index :: nat
  eq_ts :: instant
  eq_cash :: rat
  eq_qty :: int
  eq_value :: rat
  eq_equity :: rat

record unfilled_signal =
  uf_index :: nat
  uf_ts :: instant
  uf_direction :: signal_direction

record backtest_result =
  br_trades :: "executed_trade list"
  br_curve :: "equity_point list"
  br_unfilled :: "unfilled_signal list"
  br_final :: position_view

section \<open>The portfolio\<close>

record portfolio =
  pf_cash :: rat
  pf_qty :: int
  pf_avg :: rat

definition pf_equity :: "rat \<Rightarrow> portfolio \<Rightarrow> rat" where
  "pf_equity mark pf = dec_add (pf_cash pf) (dec_mul (of_int (pf_qty pf)) mark)"

definition as_view :: "portfolio \<Rightarrow> position_view" where
  "as_view pf = (if pf_qty pf = 0 then FLAT_POSITION else \<lparr>pv_qty = pf_qty pf, pv_avg_price = fl_rnd (pf_avg pf)\<rparr>)"

definition resolve_action :: "int \<Rightarrow> signal_direction \<Rightarrow> (order_side \<times> bool) option" where
  "resolve_action qty dir = (case dir of
     LONG \<Rightarrow> if qty = 0 then Some (BUY, False) else None
   | SHORT \<Rightarrow> if qty = 0 then Some (SELL, False) else None
   | EXIT \<Rightarrow> if 0 < qty then Some (SELL, True) else if qty < 0 then Some (BUY, True) else None)"

function bt_clamp :: "int \<Rightarrow> rat \<Rightarrow> segment \<Rightarrow> cost_config \<Rightarrow> rat \<Rightarrow> py_error + int" where
  "bt_clamp qty price seg rates cash =
     (if 0 < qty then bindE (calculate_costs BUY price qty seg rates) (\<lambda>c.
        if c_net_amount c \<le> cash then Inr qty else bt_clamp (qty - 1) price seg rates cash)
      else Inr 0)"
  by pat_completeness auto
termination by (relation "measure (\<lambda>(q, _). nat q)") auto

declare bt_clamp.simps [simp del]

interpretation bt_clamping: cash_clamp bt_clamp
  by unfold_locales (subst bt_clamp.simps, simp)

definition open_or_add :: "order_side \<Rightarrow> int \<Rightarrow> rat \<Rightarrow> portfolio \<Rightarrow> py_error + portfolio" where
  "open_or_add side qty net pf = (let signed = (if side = BUY then qty else - qty) in
     bindE (dec_div net (of_int qty)) (\<lambda>basis.
     bindE (if pf_qty pf = 0 then Inr (pf\<lparr>pf_qty := signed, pf_avg := basis\<rparr>)
       else let total = dec_add (dec_mul (pf_avg pf) (of_int \<bar>pf_qty pf\<bar>)) (dec_mul basis (of_int qty)); q = pf_qty pf + signed in
         bindE (dec_div total (of_int \<bar>q\<bar>)) (\<lambda>avg. Inr (pf\<lparr>pf_qty := q, pf_avg := avg\<rparr>))) (\<lambda>pf'.
     Inr (pf'\<lparr>pf_cash := dec_add (pf_cash pf') (if side = SELL then net else dec_neg net)\<rparr>))))"

definition bt_close :: "order_side \<Rightarrow> int \<Rightarrow> rat \<Rightarrow> portfolio \<Rightarrow> rat \<times> portfolio" where
  "bt_close side qty net pf = (let cost = dec_mul (pf_avg pf) (of_int qty) in
     if side = SELL then (dec_sub net cost, pf\<lparr>pf_cash := dec_add (pf_cash pf) net, pf_qty := 0, pf_avg := 0\<rparr>)
     else (dec_sub cost net, pf\<lparr>pf_cash := dec_sub (pf_cash pf) net, pf_qty := 0, pf_avg := 0\<rparr>))"

section \<open>Executing a signal\<close>

record bt_env =
  be_lib :: numlib
  be_sizer :: "rat \<Rightarrow> rat \<Rightarrow> py_error + int"
  be_rates :: cost_config
  be_segment :: segment
  be_slippage :: rat

text \<open>The part of \<open>_execute_signal\<close> after the sizing: price, clamp, costs and booking.\<close>

definition execute_sized :: "bt_env \<Rightarrow> nat \<Rightarrow> nat \<Rightarrow> instant \<Rightarrow> rat \<Rightarrow> order_side \<Rightarrow> bool \<Rightarrow> int \<Rightarrow> portfolio \<Rightarrow>
    py_error + executed_trade option \<times> portfolio" where
  "execute_sized env signal_index fill_index ts raw_open side closing qty0 pf = (
     let price = apply_slippage raw_open side (be_slippage env) in
     bindE (if side = BUY then bt_clamp qty0 price (be_segment env) (be_rates env) (pf_cash pf) else Inr qty0) (\<lambda>qty.
     if side = BUY \<and> qty \<le> 0 then Inr (None, pf)
     else bindE (calculate_costs side price qty (be_segment env) (be_rates env)) (\<lambda>costs.
       bindE (if closing then Inr (map_prod Some id (bt_close side qty (c_net_amount costs) pf))
         else bindE (open_or_add side qty (c_net_amount costs) pf) (\<lambda>pf'. Inr (None, pf'))) (\<lambda>(pnl, pf').
       Inr (Some \<lparr>et_index = fill_index, et_ts = ts, et_side = side, et_qty = qty, et_price = price, et_costs = costs,
         et_signal_index = signal_index, et_pnl = pnl\<rparr>, pf')))))"

definition execute_signal :: "bt_env \<Rightarrow> signal_direction \<Rightarrow> nat \<Rightarrow> nat \<Rightarrow> instant \<Rightarrow> rat \<Rightarrow> portfolio \<Rightarrow>
    py_error + executed_trade option \<times> portfolio" where
  "execute_signal env dir signal_index fill_index ts raw_open pf = (case resolve_action (pf_qty pf) dir of
     None \<Rightarrow> Inr (None, pf)
   | Some (side, closing) \<Rightarrow>
       bindE (if closing then Inr \<bar>pf_qty pf\<bar> else be_sizer env (pf_equity raw_open pf) raw_open) (\<lambda>qty.
       if qty \<le> 0 then Inr (None, pf)
       else execute_sized env signal_index fill_index ts raw_open side closing qty pf))"

section \<open>The replay\<close>

record 'st bt_state =
  bs_pf :: portfolio
  bs_trades :: "executed_trade list"
  bs_curve :: "equity_point list"
  bs_unfilled :: "unfilled_signal list"
  bs_pending :: "(signal_direction \<times> nat) option"
  bs_strategy :: 'st

definition bt_fill :: "bt_env \<Rightarrow> candle list \<Rightarrow> nat \<Rightarrow> 'st bt_state \<Rightarrow> py_error + 'st bt_state" where
  "bt_fill env candles i s = (case bs_pending s of
     None \<Rightarrow> Inr s
   | Some (dir, j) \<Rightarrow>
       bindE (execute_signal env dir j i (cd_ts (candles ! i)) (dec_of_float (cd_open (candles ! i))) (bs_pf s)) (\<lambda>(tr, pf).
       Inr (s\<lparr>bs_pf := pf, bs_trades := bs_trades s @ (case tr of None \<Rightarrow> [] | Some t \<Rightarrow> [t]), bs_pending := None\<rparr>)))"

definition bt_mark :: "candle list \<Rightarrow> nat \<Rightarrow> 'st bt_state \<Rightarrow> 'st bt_state" where
  "bt_mark candles i s = (let close = dec_of_float (cd_close (candles ! i)); pf = bs_pf s in
     s\<lparr>bs_curve := bs_curve s @ [\<lparr>eq_index = i, eq_ts = cd_ts (candles ! i), eq_cash = pf_cash pf, eq_qty = pf_qty pf,
       eq_value = dec_mul (of_int (pf_qty pf)) close, eq_equity = pf_equity close pf\<rparr>]\<rparr>)"

definition bt_context :: "candle list \<Rightarrow> (string \<times> series) list \<Rightarrow> nat \<Rightarrow> portfolio \<Rightarrow> strategy_context" where
  "bt_context candles series i pf = \<lparr>ctx_index = i, ctx_ts = cd_ts (candles ! i), ctx_candles = take (Suc i) candles,
     ctx_indicators = batch_view series i, ctx_position = as_view pf\<rparr>"

definition bt_signal :: "nat \<Rightarrow> instant \<Rightarrow> bool \<Rightarrow> strategy_signal option \<Rightarrow> 'st bt_state \<Rightarrow> 'st bt_state" where
  "bt_signal i ts at_end sig s = (case sig of
     None \<Rightarrow> s
   | Some g \<Rightarrow> if at_end
       then s\<lparr>bs_unfilled := bs_unfilled s @ [\<lparr>uf_index = i, uf_ts = ts, uf_direction = s_direction g\<rparr>]\<rparr>
       else s\<lparr>bs_pending := Some (s_direction g, i)\<rparr>)"

definition bt_decide :: "'st strategy \<Rightarrow> candle list \<Rightarrow> (string \<times> series) list \<Rightarrow> int \<Rightarrow> nat \<Rightarrow> nat \<Rightarrow> 'st bt_state \<Rightarrow> py_error + 'st bt_state" where
  "bt_decide strat candles series start n i s = (if int i < start then Inr s
     else bindE (st_on_candle strat (bs_strategy s) (bt_context candles series i (bs_pf s))) (\<lambda>(sig, st).
       Inr (bt_signal i (cd_ts (candles ! i)) (Suc i = n) sig (s\<lparr>bs_strategy := st\<rparr>))))"

definition bt_bar :: "bt_env \<Rightarrow> 'st strategy \<Rightarrow> candle list \<Rightarrow> (string \<times> series) list \<Rightarrow> int \<Rightarrow> nat \<Rightarrow> nat \<Rightarrow> 'st bt_state \<Rightarrow> py_error + 'st bt_state" where
  "bt_bar env strat candles series start n i s =
     bindE (bt_fill env candles i s) (\<lambda>t. bt_decide strat candles series start n i (bt_mark candles i t))"

primrec bt_loop :: "bt_env \<Rightarrow> 'st strategy \<Rightarrow> candle list \<Rightarrow> (string \<times> series) list \<Rightarrow> int \<Rightarrow> nat \<Rightarrow> nat list \<Rightarrow> 'st bt_state \<Rightarrow> py_error + 'st bt_state" where
  "bt_loop env strat candles series start n [] s = Inr s"
| "bt_loop env strat candles series start n (i # is) s =
     bindE (bt_bar env strat candles series start n i s) (bt_loop env strat candles series start n is)"

definition bt_init :: "'st strategy \<Rightarrow> rat \<Rightarrow> 'st bt_state" where
  "bt_init strat initial_capital = \<lparr>bs_pf = \<lparr>pf_cash = initial_capital, pf_qty = 0, pf_avg = 0\<rparr>, bs_trades = [], bs_curve = [],
     bs_unfilled = [], bs_pending = None, bs_strategy = st_init strat\<rparr>"

definition effective_start :: "'st strategy \<Rightarrow> (string \<times> series) list \<Rightarrow> int" where
  "effective_start strat series = max (st_warmup_bars strat) (int (first_all_valid_index series))"

definition run_backtest :: "bt_env \<Rightarrow> 'st strategy \<Rightarrow> candle list \<Rightarrow> rat \<Rightarrow> py_error + backtest_result" where
  "run_backtest env strat candles initial_capital =
     (if candles = [] then Inl BacktestError
      else if initial_capital \<le> 0 then Inl BacktestError
      else bindE (compute_indicator_set (be_lib env) candles (st_required strat)) (\<lambda>series.
        bindE (bt_loop env strat candles series (effective_start strat series) (length candles) [0..<length candles]
            (bt_init strat initial_capital)) (\<lambda>s.
        Inr \<lparr>br_trades = bs_trades s, br_curve = bs_curve s, br_unfilled = bs_unfilled s, br_final = as_view (bs_pf s)\<rparr>)))"

section \<open>Basic facts\<close>

text \<open>The backtester and the paper broker clamp alike.\<close>

lemma bt_clamp_paper: "bt_clamp q p seg r cash = paper_clamp q p seg r cash"
  by (rule bt_clamping.clamp_unique) (subst paper_clamp.simps, simp add: bindE_def)

lemma bt_loop_append:
  "bt_loop env strat candles series start n (is @ js) s =
     bindE (bt_loop env strat candles series start n is s) (bt_loop env strat candles series start n js)"
proof (induction "is" arbitrary: s)
  case (Cons i "is")
  then show ?case by (cases "bt_bar env strat candles series start n i s") simp_all
qed simp

lemma bt_mark_sel [simp]: "bs_pf (bt_mark candles i s) = bs_pf s" "bs_trades (bt_mark candles i s) = bs_trades s"
  "bs_unfilled (bt_mark candles i s) = bs_unfilled s" "bs_pending (bt_mark candles i s) = bs_pending s"
  "bs_strategy (bt_mark candles i s) = bs_strategy s"
  by (simp_all add: bt_mark_def Let_def)

lemma length_bt_mark [simp]: "length (bs_curve (bt_mark candles i s)) = Suc (length (bs_curve s))"
  by (simp add: bt_mark_def Let_def)

text \<open>Elimination of a decision and of a fill.\<close>

lemma bt_decide_cases:
  assumes "bt_decide strat candles series start n i s = Inr t"
  obtains "int i < start" "t = s"
    | st where "start \<le> int i" "st_on_candle strat (bs_strategy s) (bt_context candles series i (bs_pf s)) = Inr (None, st)"
        "t = s\<lparr>bs_strategy := st\<rparr>"
    | g st where "start \<le> int i" "st_on_candle strat (bs_strategy s) (bt_context candles series i (bs_pf s)) = Inr (Some g, st)"
        "t = (if Suc i = n then s\<lparr>bs_strategy := st, bs_unfilled := bs_unfilled s @ [\<lparr>uf_index = i, uf_ts = cd_ts (candles ! i), uf_direction = s_direction g\<rparr>]\<rparr>
              else s\<lparr>bs_strategy := st, bs_pending := Some (s_direction g, i)\<rparr>)"
proof (cases "int i < start")
  case True
  then show thesis using that(1) assms by (simp add: bt_decide_def)
next
  case False
  then obtain sig st where call: "st_on_candle strat (bs_strategy s) (bt_context candles series i (bs_pf s)) = Inr (sig, st)"
    using assms by (auto simp: bt_decide_def bindE_Inr_conv)
  show thesis
  proof (cases sig)
    case None
    then show thesis using that(2) [of st] False call assms by (simp add: bt_decide_def bt_signal_def)
  next
    case (Some g)
    then show thesis using that(3) [of g st] False call assms by (simp add: bt_decide_def bt_signal_def split: if_splits)
  qed
qed

lemma bt_fill_cases:
  assumes "bt_fill env candles i s = Inr t"
  obtains "bs_pending s = None" "t = s"
    | dir j pf where "bs_pending s = Some (dir, j)"
        "execute_signal env dir j i (cd_ts (candles ! i)) (dec_of_float (cd_open (candles ! i))) (bs_pf s) = Inr (None, pf)"
        "t = s\<lparr>bs_pf := pf, bs_pending := None\<rparr>"
    | dir j tr pf where "bs_pending s = Some (dir, j)"
        "execute_signal env dir j i (cd_ts (candles ! i)) (dec_of_float (cd_open (candles ! i))) (bs_pf s) = Inr (Some tr, pf)"
        "t = s\<lparr>bs_pf := pf, bs_trades := bs_trades s @ [tr], bs_pending := None\<rparr>"
proof (cases "bs_pending s")
  case None
  then show thesis using that(1) assms by (simp add: bt_fill_def)
next
  case (Some p)
  obtain dir j where p: "p = (dir, j)" by fastforce
  obtain tr pf where ex: "execute_signal env dir j i (cd_ts (candles ! i)) (dec_of_float (cd_open (candles ! i))) (bs_pf s) = Inr (tr, pf)"
    using assms Some p by (auto simp: bt_fill_def bindE_Inr_conv)
  then have t: "t = s\<lparr>bs_pf := pf, bs_trades := bs_trades s @ (case tr of None \<Rightarrow> [] | Some t \<Rightarrow> [t]), bs_pending := None\<rparr>"
    using assms Some p by (simp add: bt_fill_def)
  show thesis
  proof (cases tr)
    case None
    have "s\<lparr>bs_trades := bs_trades s\<rparr> = s" by simp
    then show thesis using that(2) [of dir j pf] Some p ex t None by simp
  next
    case (Some x)
    then show thesis using that(3) [of dir j x pf] \<open>bs_pending s = Some p\<close> p ex t by simp
  qed
qed

end
