(* ===== verification/PT_Lookahead.thy ===== *)
theory PT_Lookahead
  imports PT_Backtest
begin

text \<open>
  The backtester never looks ahead: on a prefix of the candles it produces the same equity curve
  and the same trades as on all of them. And the live runner shows its strategy what the
  backtester shows it.
\<close>

section \<open>Indicators of a prefix\<close>

lemma dispatch_other: "dispatch lib kind params cs = Inr out \<Longrightarrow> \<exists>out'. dispatch lib kind params ds = Inr out'"
  unfolding dispatch_def Let_def sma_def ema_def rsi_def atr_def macd_def bollinger_def supertrend_def
  by (auto simp: bindE_Inr_conv split: if_splits)

lemma compute_loop_other:
  "compute_loop lib cs specs r = Inr res \<Longrightarrow> \<exists>res'. compute_loop lib ds specs r' = Inr res'"
proof (induction specs arbitrary: r r')
  case (Cons ns specs)
  then obtain out where out: "dispatch lib (spec_kind (snd ns)) (spec_params (snd ns)) cs = Inr out"
    and rest: "compute_loop lib cs specs (store_output (fst ns) out r) = Inr res" by (auto simp: bindE_Inr_conv)
  obtain out' where "dispatch lib (spec_kind (snd ns)) (spec_params (snd ns)) ds = Inr out'" using dispatch_other [OF out] by blast
  then show ?case using Cons.IH [OF rest] by simp
qed simp

lemma compute_other: "compute_indicator_set lib cs specs = Inr res \<Longrightarrow> \<exists>res'. compute_indicator_set lib ds specs = Inr res'"
  unfolding compute_indicator_set_def by (rule compute_loop_other)

lemma batch_view_take:
  assumes "i < m" shows "batch_view (map (\<lambda>(k, s). (k, take m s)) series) i = batch_view series i"
proof -
  have "map_of (map (\<lambda>(k, s). (k, take m s)) series) k = map_option (take m) (map_of series k)" for k
    by (simp add: map_of_map)
  then show ?thesis using assms by (auto simp: batch_view_def fun_eq_iff split: option.split)
qed

lemma prefix_series:
  assumes "numlib_ok lib" "live_view_init specs = Inr v" "distinct (live_names specs)"
    "compute_indicator_set lib candles specs = Inr series"
  shows "compute_indicator_set lib (take m candles) specs = Inr (map (\<lambda>(k, s). (k, take m s)) series)"
proof -
  obtain res where res: "compute_indicator_set lib (take m candles) specs = Inr res" using compute_other [OF assms(4)] by blast
  have "res = stream_table lib (lv_states v) (map bar_of (take m candles))"
    using parity_follows(2) [OF assms(1-3) res] .
  also have "\<dots> = map (\<lambda>(k, s). (k, take m s)) (stream_table lib (lv_states v) (map bar_of candles))"
    unfolding take_map [symmetric] by (rule stream_table_take)
  also have "stream_table lib (lv_states v) (map bar_of candles) = series" using parity_follows(2) [OF assms] by simp
  finally show ?thesis using res by simp
qed

lemma prefix_start:
  assumes "numlib_ok lib" "live_view_init (st_required strat) = Inr v" "distinct (live_names (st_required strat))"
    "compute_indicator_set lib candles (st_required strat) = Inr series" and i: "i < m" "i < length candles"
  shows "int i < effective_start strat (map (\<lambda>(k, s). (k, take m s)) series) \<longleftrightarrow> int i < effective_start strat series"
proof -
  let ?series = "map (\<lambda>(k, s). (k, take m s)) series"
  have full: "first_all_valid_index series \<le> i \<longleftrightarrow> (\<forall>x \<in> set series. snd x ! i \<noteq> None)"
    by (rule first_all_valid_le [OF parity_follows(3) [OF assms(1-4)] i(2)])
  have "first_all_valid_index ?series \<le> i \<longleftrightarrow> (\<forall>x \<in> set ?series. snd x ! i \<noteq> None)"
  proof (rule first_all_valid_le)
    show "(k, s) \<in> set ?series \<Longrightarrow> warms s \<and> length s = min (length candles) m" for k s
      using parity_follows(3) [OF assms(1-4)] warms_take by fastforce
    show "i < min (length candles) m" using i by simp
  qed
  also have "\<dots> \<longleftrightarrow> (\<forall>x \<in> set series. snd x ! i \<noteq> None)" using i(1) by (auto simp: nth_take)
  finally show ?thesis using full by (auto simp: effective_start_def less_max_iff_disj not_le [symmetric])
qed

section \<open>The bars of a prefix\<close>

lemma bt_fill_prefix: "i < m \<Longrightarrow> bt_fill env (take m candles) i s = bt_fill env candles i s"
  by (cases "bs_pending s") (simp_all add: bt_fill_def split_beta)

lemma bt_mark_prefix: "i < m \<Longrightarrow> bt_mark (take m candles) i s = bt_mark candles i s"
  by (simp add: bt_mark_def)

lemma bt_context_prefix: "i < m \<Longrightarrow>
    bt_context (take m candles) (map (\<lambda>(k, s). (k, take m s)) series) i pf = bt_context candles series i pf"
  by (simp add: bt_context_def batch_view_take min_def)

lemma bt_bar_prefix:
  assumes "i < m" "int i < start' \<longleftrightarrow> int i < start" "Suc i = n' \<longleftrightarrow> Suc i = n"
  shows "bt_bar env strat (take m candles) (map (\<lambda>(k, s). (k, take m s)) series) start' n' i s = bt_bar env strat candles series start n i s"
  using assms by (simp add: bt_bar_def bt_decide_def bt_fill_prefix bt_mark_prefix bt_context_prefix cong: if_cong)

lemma bt_loop_cong:
  "(\<And>i s. i \<in> set is \<Longrightarrow> bt_bar env strat cs series start n i s = bt_bar env strat cs' series' start' n' i s) \<Longrightarrow>
   bt_loop env strat cs series start n is s = bt_loop env strat cs' series' start' n' is s"
proof (induction "is" arbitrary: s)
  case (Cons i "is")
  have "bt_loop env strat cs series start n is = bt_loop env strat cs' series' start' n' is"
    using Cons by (intro ext) simp
  then show ?case using Cons.prems [of i] by simp
qed simp

text \<open>The last bar of a prefix: the decision may differ, the fills and the equity do not.\<close>

lemma bt_decide_frame:
  assumes "bt_decide strat candles series start n i s = Inr t"
  shows "bs_trades t = bs_trades s" "bs_curve t = bs_curve s" "bs_pf t = bs_pf s"
  using assms by (rule bt_decide_cases; simp split: if_splits)+

lemma bt_decide_other_end:
  assumes "bt_decide strat candles series start n i s = Inr t" and "int i < start' \<longleftrightarrow> int i < start" and "i < m"
  shows "\<exists>u. bt_decide strat (take m candles) (map (\<lambda>(k, s). (k, take m s)) series) start' n' i s = Inr u"
  using assms unfolding bt_decide_def
  by (auto simp: bt_context_prefix bindE_Inr_conv split: if_splits)

lemma bt_bar_other_end:
  assumes "bt_bar env strat candles series start n i s = Inr t" and "int i < start' \<longleftrightarrow> int i < start" and "i < m"
  shows "\<exists>u. bt_bar env strat (take m candles) (map (\<lambda>(k, s). (k, take m s)) series) start' n' i s = Inr u \<and>
    bs_trades u = bs_trades t \<and> bs_curve u = bs_curve t"
proof -
  obtain x where x: "bt_fill env candles i s = Inr x" "bt_decide strat candles series start n i (bt_mark candles i x) = Inr t"
    using assms(1) by (auto simp: bt_bar_def bindE_Inr_conv)
  obtain u where u: "bt_decide strat (take m candles) (map (\<lambda>(k, s). (k, take m s)) series) start' n' i (bt_mark candles i x) = Inr u"
    using bt_decide_other_end [OF x(2) assms(2,3)] by blast
  show ?thesis using bt_decide_frame [OF u] bt_decide_frame [OF x(2)] assms(3) u x(1)
    by (intro exI [of _ u]) (simp add: bt_bar_def bt_fill_prefix bt_mark_prefix)
qed

section \<open>What later bars add\<close>

lemma execute_sized_indices:
  assumes "execute_sized env j i ts raw side closing q pf = Inr (Some tr, pf')"
  shows "et_index tr = i \<and> et_signal_index tr = j \<and> et_side tr = side \<and> et_ts tr = ts \<and>
    et_price tr = apply_slippage raw side (be_slippage env)"
  using assms by (auto simp: execute_sized_def Let_def bindE_Inr_conv split: if_splits)

lemma execute_signal_indices:
  assumes "execute_signal env dir j i ts raw pf = Inr (Some tr, pf')"
  shows "et_index tr = i \<and> et_signal_index tr = j \<and> et_ts tr = ts \<and> et_price tr = apply_slippage raw (et_side tr) (be_slippage env)"
  using assms execute_sized_indices
  by (auto simp: execute_signal_def bindE_Inr_conv split: option.splits if_splits)

lemma bt_bar_adds:
  assumes "bt_bar env strat candles series start n i s = Inr t"
  shows "\<exists>trs p. bs_trades t = bs_trades s @ trs \<and> (\<forall>tr \<in> set trs. et_index tr = i) \<and> bs_curve t = bs_curve s @ [p]"
proof -
  obtain x where x: "bt_fill env candles i s = Inr x" and d: "bt_decide strat candles series start n i (bt_mark candles i x) = Inr t"
    using assms by (auto simp: bt_bar_def bindE_Inr_conv)
  note frame = bt_decide_frame [OF d]
  have "\<exists>p. bs_curve t = bs_curve x @ [p]" by (simp add: frame bt_mark_def Let_def)
  moreover have "\<exists>trs. bs_trades x = bs_trades s @ trs \<and> (\<forall>tr \<in> set trs. et_index tr = i) \<and> bs_curve x = bs_curve s"
    using x execute_signal_indices by (elim bt_fill_cases) auto
  ultimately show ?thesis using frame(1) by auto
qed

lemma bt_loop_adds:
  "bt_loop env strat candles series start n is s = Inr t \<Longrightarrow>
   \<exists>trs ps. bs_trades t = bs_trades s @ trs \<and> (\<forall>tr \<in> set trs. et_index tr \<in> set is) \<and>
     bs_curve t = bs_curve s @ ps \<and> length ps = length is"
proof (induction "is" arbitrary: s)
  case (Cons i "is")
  obtain u where u: "bt_bar env strat candles series start n i s = Inr u" and rest: "bt_loop env strat candles series start n is u = Inr t"
    using Cons.prems by (auto simp: bindE_Inr_conv)
  obtain trs p where a: "bs_trades u = bs_trades s @ trs" "\<forall>tr \<in> set trs. et_index tr = i" "bs_curve u = bs_curve s @ [p]"
    using bt_bar_adds [OF u] by blast
  obtain trs' ps where b: "bs_trades t = bs_trades u @ trs'" "\<forall>tr \<in> set trs'. et_index tr \<in> set is"
    "bs_curve t = bs_curve u @ ps" "length ps = length is"
    using Cons.IH [OF rest] by blast
  show ?case using a b by (intro exI [of _ "trs @ trs'"] exI [of _ "p # ps"]) auto
qed simp

section \<open>No look-ahead\<close>

lemma run_backtest_Inr:
  assumes "run_backtest env strat candles cash = Inr res"
  obtains series s where "candles \<noteq> []" "0 < cash" "compute_indicator_set (be_lib env) candles (st_required strat) = Inr series"
    "bt_loop env strat candles series (effective_start strat series) (length candles) [0..<length candles] (bt_init strat cash) = Inr s"
    "res = \<lparr>br_trades = bs_trades s, br_curve = bs_curve s, br_unfilled = bs_unfilled s, br_final = as_view (bs_pf s)\<rparr>"
  using assms by (auto simp: run_backtest_def bindE_Inr_conv split: if_splits)

lemma run_backtest_prefix:
  assumes lib: "numlib_ok (be_lib env)" and v: "live_view_init (st_required strat) = Inr v"
    and names: "distinct (live_names (st_required strat))"
    and run: "run_backtest env strat candles cash = Inr res" and m: "1 \<le> m" "m \<le> length candles"
  shows "\<exists>res'. run_backtest env strat (take m candles) cash = Inr res' \<and>
    br_curve res' = take m (br_curve res) \<and> br_trades res' = filter (\<lambda>t. et_index t < m) (br_trades res)"
proof -
  obtain series s where r: "candles \<noteq> []" "0 < cash" "compute_indicator_set (be_lib env) candles (st_required strat) = Inr series"
    "bt_loop env strat candles series (effective_start strat series) (length candles) [0..<length candles] (bt_init strat cash) = Inr s"
    "res = \<lparr>br_trades = bs_trades s, br_curve = bs_curve s, br_unfilled = bs_unfilled s, br_final = as_view (bs_pf s)\<rparr>"
    using run by (rule run_backtest_Inr)
  let ?n = "length candles" and ?series = "map (\<lambda>(k, s). (k, take m s)) series"
  let ?start = "effective_start strat series" and ?start' = "effective_start strat (map (\<lambda>(k, s). (k, take m s)) series)"
  obtain l where l: "m = Suc l" using m(1) by (cases m) auto
  have split: "[0..<?n] = [0..<l] @ l # [m..<?n]" unfolding l using m(2) l
    by (metis Suc_le_eq le_add1 le_add_diff_inverse less_imp_le_nat upt_add_eq_append upt_conv_Cons add_0)
  obtain x y where x: "bt_loop env strat candles series ?start ?n [0..<l] (bt_init strat cash) = Inr x"
    and y: "bt_bar env strat candles series ?start ?n l x = Inr y"
    and z: "bt_loop env strat candles series ?start ?n [m..<?n] y = Inr s"
    using r(4) unfolding split bt_loop_append bt_loop.simps by (auto simp: bindE_Inr_conv)
  have start: "int i < ?start' \<longleftrightarrow> int i < ?start" if "i < m" for i
    using prefix_start [OF lib v names r(3) that] that m(2) by simp
  have x': "bt_loop env strat (take m candles) ?series ?start' m [0..<l] (bt_init strat cash) = Inr x"
    unfolding x [symmetric] using l m(2) by (intro bt_loop_cong bt_bar_prefix start) auto
  obtain u where u: "bt_bar env strat (take m candles) ?series ?start' m l x = Inr u" "bs_trades u = bs_trades y" "bs_curve u = bs_curve y"
    using bt_bar_other_end [OF y start, of m m] l by blast
  obtain trs ps where a: "bs_trades s = bs_trades y @ trs" "\<forall>tr \<in> set trs. et_index tr \<in> set [m..<?n]" "bs_curve s = bs_curve y @ ps"
    using bt_loop_adds [OF z] by blast
  have "bt_loop env strat candles series ?start ?n [0..<m] (bt_init strat cash) = Inr y"
    using x y by (simp add: l bt_loop_append)
  from bt_loop_adds [OF this] have b: "\<forall>tr \<in> set (bs_trades y). et_index tr < m" "length (bs_curve y) = m"
    by (auto simp: bt_init_def)
  have "run_backtest env strat (take m candles) cash = Inr \<lparr>br_trades = bs_trades u, br_curve = bs_curve u,
      br_unfilled = bs_unfilled u, br_final = as_view (bs_pf u)\<rparr>"
    using r(1,2) m x' u(1) prefix_series [OF lib v names r(3), of m]
    by (auto simp: run_backtest_def min_def l bt_loop_append)
  moreover have "bs_curve u = take m (bs_curve s)" using a(3) b(2) u(3) by simp
  moreover have "bs_trades u = filter (\<lambda>t. et_index t < m) (bs_trades s)"
    using a(1,2) b(1) u(2) by (auto simp: filter_id_conv filter_empty_conv)
  ultimately show ?thesis by (simp add: r(5))
qed

section \<open>Live and replayed decisions\<close>

lemma ascending_take: "ascending cs \<Longrightarrow> ascending (take n cs)"
  by (simp add: ascending_def take_map [symmetric] sorted_wrt_take)

text \<open>
  The runner at bar i, after the bars before it: it asks its strategy exactly when one bar less than
  the warm-up has passed and every indicator has a value, and then with the context of the backtest.
\<close>

lemma runner_context_same:
  assumes lib: "numlib_ok lib" and v: "live_view_init (st_required strat) = Inr v"
    and names: "distinct (live_names (st_required strat))"
    and series: "compute_indicator_set lib (map candle_row es) (st_required strat) = Inr series"
    and asc: "ascending (map candle_row es)" and i: "i < length es"
    and r: "runner_after lib inst strat v (take (Suc i) es) r"
  shows "same_context (runner_context (es ! i) (as_view pf) r) (bt_context (map candle_row es) series i pf)"
    and "all_warm (ru_indicators r) \<longleftrightarrow> first_all_valid_index series \<le> i"
proof -
  let ?cs = "map candle_row es"
  have ind: "ru_indicators r = bars_view lib v (map bar_of (take (Suc i) ?cs))"
    using r by (simp add: runner_after_def take_map)
  have rows: "ru_rows r = take (Suc i) ?cs" "ru_bar_count r = int (Suc i)" using r i by (simp_all add: runner_after_def take_map)
  have frame: "buffer_frame (ru_rows r) = take (Suc i) ?cs"
    using i ascending_take [OF asc, of "Suc i"] unfolding rows(1) by (auto simp: buffer_frame_def normalize_id)
  have ic: "i < length ?cs" using i by simp
  have "same_view (live_indicator_view (ru_indicators r)) (batch_view series i)"
    using parity_value [OF lib v names series ic] parity_window [OF lib v names series ic]
    by (simp add: same_view_def ind fun_eq_iff)
  then show "same_context (runner_context (es ! i) (as_view pf) r) (bt_context ?cs series i pf)"
    using i by (simp add: same_context_def runner_context_def bt_context_def frame rows(2) candle_row_def)
  show "all_warm (ru_indicators r) \<longleftrightarrow> first_all_valid_index series \<le> i"
    unfolding ind by (rule parity_warm [OF lib v names series ic])
qed

lemma runner_matches_backtest:
  assumes lib: "numlib_ok lib" and v: "live_view_init (st_required strat) = Inr v"
    and names: "distinct (live_names (st_required strat))"
    and series: "compute_indicator_set lib (map candle_row es) (st_required strat) = Inr series"
    and asc: "ascending (map candle_row es)" and i: "i < length es"
    and r: "runner_after lib inst strat v (take i es) r" and vd: "view_driven (st_on_candle strat)"
  shows "fst (runner_on_candle lib (es ! i) (as_view pf) r) =
    (if int i + 1 < st_warmup_bars strat \<or> i < first_all_valid_index series then Inr None
     else map_sum id fst (st_on_candle strat (ru_state r) (bt_context (map candle_row es) series i pf)))"
proof -
  let ?r = "runner_receive lib (es ! i) r"
  have after: "runner_after lib inst strat v (take (Suc i) es) ?r"
    using runner_after_receive [OF r, of "es ! i"] i by (simp add: take_Suc_conv_app_nth)
  note same = runner_context_same [OF lib v names series asc i after]
  have st: "ru_strategy r = strat" "ru_bar_count ?r = int i + 1" using r after i by (simp_all add: runner_after_def)
  have "st_on_candle strat (ru_state r) (runner_context (es ! i) (as_view pf) ?r) =
      st_on_candle strat (ru_state r) (bt_context (map candle_row es) series i pf)"
    by (rule view_driven.same_answer [OF vd same(1)])
  then show ?thesis
    using same(2) by (auto simp: runner_on_candle_run Let_def st not_le split: sum.split prod.split)
qed

end
