(* ===== verification/PT_Backtest_Safety.thy ===== *)
theory PT_Backtest_Safety
  imports PT_Lookahead
begin

text \<open>
  The portfolio of a backtest of a long-only strategy: trades come in round trips of equal
  quantity, each one bar after its signal, the cash is the fold of the trades and never negative.
\<close>

section \<open>Round trips\<close>

text \<open>The quantity held after some trades, if they are round trips; \<open>None\<close> otherwise.\<close>

fun legs :: "int \<Rightarrow> executed_trade list \<Rightarrow> int option" where
  "legs held [] = Some held"
| "legs held (t # ts) =
     (if held = 0 \<and> et_side t = BUY \<and> 0 < et_qty t \<and> et_pnl t = None then legs (et_qty t) ts
      else if 0 < held \<and> et_side t = SELL \<and> et_qty t = held \<and> et_pnl t \<noteq> None then legs 0 ts
      else None)"

lemma legs_append: "legs q (ts @ us) = Option.bind (legs q ts) (\<lambda>r. legs r us)"
  by (induction ts arbitrary: q) auto

lemma legs_nonneg: "0 \<le> q \<Longrightarrow> legs q ts = Some r \<Longrightarrow> 0 \<le> r"
proof (induction ts arbitrary: q)
  case (Cons t ts)
  show ?case using Cons.prems Cons.IH [of "et_qty t"] Cons.IH [of 0] by (simp split: if_splits)
qed simp

text \<open>The cash after some trades.\<close>

definition trade_cash :: "rat \<Rightarrow> executed_trade list \<Rightarrow> rat" where
  "trade_cash c ts = foldl (\<lambda>c t. dec_add c (if et_side t = SELL then c_net_amount (et_costs t) else dec_neg (c_net_amount (et_costs t)))) c ts"

lemma trade_cash_snoc [simp]: "trade_cash c (ts @ [t]) =
    dec_add (trade_cash c ts) (if et_side t = SELL then c_net_amount (et_costs t) else dec_neg (c_net_amount (et_costs t)))"
  by (simp add: trade_cash_def)

definition filled_next_bar :: "bt_env \<Rightarrow> candle list \<Rightarrow> executed_trade \<Rightarrow> bool" where
  "filled_next_bar env candles t \<longleftrightarrow> et_index t = Suc (et_signal_index t) \<and> et_index t < length candles \<and>
     et_ts t = cd_ts (candles ! et_index t) \<and>
     et_price t = apply_slippage (dec_of_float (cd_open (candles ! et_index t))) (et_side t) (be_slippage env)"

section \<open>One fill\<close>

lemma net_exact: "dec_neg (c_net_amount (leg_costs side p q seg r)) = - c_net_amount (leg_costs side p q seg r)"
  by (simp add: dec_neg_def leg_costs_def Let_def dec_add_def dec_sub_def dec.rnd_minus dec.rnd_idem)

lemma fill_entry:
  assumes "execute_signal env LONG j i ts raw pf = Inr (Some tr, pf')" and "pf_qty pf = 0"
  shows "legs 0 [tr] = Some (pf_qty pf')" "0 < pf_qty pf'" "pf_cash pf' = dec_add (pf_cash pf) (dec_neg (c_net_amount (et_costs tr)))"
    "et_side tr = BUY" "0 \<le> pf_cash pf'"
proof -
  let ?p = "apply_slippage raw BUY (be_slippage env)"
  obtain q0 where "execute_sized env j i ts raw BUY False q0 pf = Inr (Some tr, pf')" "0 < q0"
    using assms by (auto simp: execute_signal_def resolve_action_def bindE_Inr_conv split: if_splits)
  then obtain k basis where k: "bt_clamp q0 ?p (be_segment env) (be_rates env) (pf_cash pf) = Inr k" "0 < k"
    and c: "0 < ?p" "et_costs tr = leg_costs BUY ?p k (be_segment env) (be_rates env)"
    and tr: "et_side tr = BUY" "et_qty tr = k" "et_pnl tr = None"
    and pf: "pf' = pf\<lparr>pf_qty := k, pf_avg := basis, pf_cash := dec_add (pf_cash pf) (dec_neg (c_net_amount (et_costs tr)))\<rparr>"
    using assms(2) by (auto simp: execute_sized_def open_or_add_def Let_def bindE_Inr_conv calculate_costs_Inr split: if_splits)
  show "legs 0 [tr] = Some (pf_qty pf')" "0 < pf_qty pf'" "et_side tr = BUY"
    "pf_cash pf' = dec_add (pf_cash pf) (dec_neg (c_net_amount (et_costs tr)))" using tr k(2) pf by simp_all
  have "c_net_amount (et_costs tr) \<le> pf_cash pf"
    using bt_clamping.clamp_greatest [OF c(1), of q0 "be_segment env" "be_rates env" "pf_cash pf"] \<open>0 < q0\<close> k c(2) by auto
  then show "0 \<le> pf_cash pf'" unfolding pf by (simp add: c(2) net_exact dec_add_def dec.rnd_nonneg_iff)
qed

lemma fill_exit:
  assumes "execute_signal env EXIT j i ts raw pf = Inr (Some tr, pf')" and "0 < pf_qty pf" and small: "rates_small (be_rates env)"
    and cash: "0 \<le> pf_cash pf"
  shows "legs (pf_qty pf) [tr] = Some (pf_qty pf')" "pf_qty pf' = 0" "pf_cash pf' = dec_add (pf_cash pf) (c_net_amount (et_costs tr))"
    "et_side tr = SELL" "0 \<le> pf_cash pf'"
    "et_pnl tr = Some (dec_sub (c_net_amount (et_costs tr)) (dec_mul (pf_avg pf) (of_int (pf_qty pf))))"
proof -
  let ?p = "apply_slippage raw SELL (be_slippage env)"
  have "execute_sized env j i ts raw SELL True (pf_qty pf) pf = Inr (Some tr, pf')"
    using assms(1,2) by (auto simp: execute_signal_def resolve_action_def)
  then have c: "0 < ?p" "et_costs tr = leg_costs SELL ?p (pf_qty pf) (be_segment env) (be_rates env)"
    and tr: "et_side tr = SELL" "et_qty tr = pf_qty pf"
      "et_pnl tr = Some (dec_sub (c_net_amount (et_costs tr)) (dec_mul (pf_avg pf) (of_int (pf_qty pf))))"
    and pf: "pf' = pf\<lparr>pf_cash := dec_add (pf_cash pf) (c_net_amount (et_costs tr)), pf_qty := 0, pf_avg := 0\<rparr>"
    using assms(2) by (auto simp: execute_sized_def bt_close_def Let_def bindE_Inr_conv calculate_costs_Inr)
  show "legs (pf_qty pf) [tr] = Some (pf_qty pf')" "pf_qty pf' = 0" "et_side tr = SELL"
    "pf_cash pf' = dec_add (pf_cash pf) (c_net_amount (et_costs tr))"
    "et_pnl tr = Some (dec_sub (c_net_amount (et_costs tr)) (dec_mul (pf_avg pf) (of_int (pf_qty pf))))" using tr assms(2) pf by simp_all
  have "0 \<le> c_net_amount (et_costs tr)" unfolding c(2) by (rule sell_net_nonneg [OF small c(1) assms(2)])
  then show "0 \<le> pf_cash pf'" unfolding pf using cash by (simp add: dec_add_nonneg)
qed

lemma no_trade_same:
  assumes "execute_signal env dir j i ts raw pf = Inr (None, pf')"
  shows "pf' = pf"
  using assms by (auto simp: execute_signal_def execute_sized_def Let_def bindE_Inr_conv split: option.splits if_splits prod.splits)

section \<open>The invariant of the replay\<close>

definition bt_safe :: "bt_env \<Rightarrow> candle list \<Rightarrow> rat \<Rightarrow> nat \<Rightarrow> 'st bt_state \<Rightarrow> bool" where
  "bt_safe env candles cash i s \<longleftrightarrow>
     legs 0 (bs_trades s) = Some (pf_qty (bs_pf s)) \<and> pf_cash (bs_pf s) = trade_cash cash (bs_trades s) \<and> 0 \<le> pf_cash (bs_pf s) \<and>
     (\<forall>t \<in> set (bs_trades s). filled_next_bar env candles t) \<and>
     (\<forall>p \<in> set (bs_curve s). 0 \<le> eq_cash p \<and> 0 \<le> eq_qty p \<and> eq_equity p = dec_add (eq_cash p) (eq_value p)) \<and>
     (\<forall>dir j. bs_pending s = Some (dir, j) \<longrightarrow> Suc j = i \<and>
        (dir = LONG \<and> pf_qty (bs_pf s) = 0 \<or> dir = EXIT \<and> 0 < pf_qty (bs_pf s)))"

lemma bt_safe_fill:
  assumes safe: "bt_safe env candles cash i s" and fill: "bt_fill env candles i s = Inr t"
    and small: "rates_small (be_rates env)" and i: "i < length candles"
  shows "bt_safe env candles cash i t \<and> bs_pending t = None"
  using fill
proof (cases rule: bt_fill_cases)
  case 1
  then show ?thesis using safe by simp
next
  case (2 dir j pf)
  then show ?thesis using safe no_trade_same [OF 2(2)] by (simp add: bt_safe_def)
next
  case (3 dir j tr pf)
  have p: "Suc j = i" "dir = LONG \<and> pf_qty (bs_pf s) = 0 \<or> dir = EXIT \<and> 0 < pf_qty (bs_pf s)" "0 \<le> pf_cash (bs_pf s)"
    and l: "legs 0 (bs_trades s) = Some (pf_qty (bs_pf s))" "pf_cash (bs_pf s) = trade_cash cash (bs_trades s)"
    using safe 3(1) by (simp_all add: bt_safe_def)
  have next_bar: "filled_next_bar env candles tr"
    using execute_signal_indices [OF 3(2)] i by (auto simp: filled_next_bar_def p(1))
  from p(2) have step: "legs (pf_qty (bs_pf s)) [tr] = Some (pf_qty pf) \<and> 0 \<le> pf_cash pf \<and>
      pf_cash pf = dec_add (pf_cash (bs_pf s)) (if et_side tr = SELL then c_net_amount (et_costs tr) else dec_neg (c_net_amount (et_costs tr)))"
  proof
    assume d: "dir = LONG \<and> pf_qty (bs_pf s) = 0"
    note f = fill_entry [OF 3(2) [unfolded conjunct1 [OF d]] conjunct2 [OF d]]
    show ?thesis using f d by simp
  next
    assume d: "dir = EXIT \<and> 0 < pf_qty (bs_pf s)"
    note f = fill_exit [OF 3(2) [unfolded conjunct1 [OF d]] conjunct2 [OF d] small p(3)]
    show ?thesis using f by simp
  qed
  then show ?thesis using safe next_bar 3(3) l by (simp add: bt_safe_def legs_append del: legs.simps)
qed

lemma bt_safe_mark:
  assumes "bt_safe env candles cash i s" "bs_pending s = None"
  shows "bt_safe env candles cash i (bt_mark candles i s)"
proof -
  have "0 \<le> pf_qty (bs_pf s)" using assms legs_nonneg [of 0 "bs_trades s"] by (simp add: bt_safe_def)
  then show ?thesis using assms by (auto simp: bt_safe_def bt_mark_def Let_def pf_equity_def)
qed

lemma flat_view [simp]: "is_flat (as_view pf) \<longleftrightarrow> pf_qty pf = 0"
  by (simp add: is_flat_def as_view_def FLAT_POSITION_def)

context long_only
begin

lemma bt_safe_decide:
  assumes safe: "bt_safe env candles cash i s" and none: "bs_pending s = None" and strat: "st_on_candle strat = on_candle"
    and d: "bt_decide strat candles series start n i s = Inr t"
  shows "bt_safe env candles cash (Suc i) t"
proof -
  have nn: "0 \<le> pf_qty (bs_pf s)" using safe legs_nonneg [of 0 "bs_trades s"] by (simp add: bt_safe_def)
  show ?thesis using d
  proof (cases rule: bt_decide_cases)
    case (3 g st)
    have "s_direction g = LONG \<and> pf_qty (bs_pf s) = 0 \<or> s_direction g = EXIT \<and> pf_qty (bs_pf s) \<noteq> 0"
      using opens_or_exits [OF 3(2) [unfolded strat]] by (simp add: bt_context_def)
    then show ?thesis using safe none nn 3(3) by (auto simp: bt_safe_def)
  qed (use safe none in \<open>auto simp: bt_safe_def\<close>)
qed

lemma bt_safe_bar:
  assumes "bt_safe env candles cash i s" "st_on_candle strat = on_candle" "rates_small (be_rates env)" "i < length candles"
    and "bt_bar env strat candles series start n i s = Inr t"
  shows "bt_safe env candles cash (Suc i) t"
proof -
  obtain x where x: "bt_fill env candles i s = Inr x" "bt_decide strat candles series start n i (bt_mark candles i x) = Inr t"
    using assms(5) by (auto simp: bt_bar_def bindE_Inr_conv)
  have f: "bt_safe env candles cash i x" "bs_pending x = None" using bt_safe_fill [OF assms(1) x(1) assms(3,4)] by auto
  show ?thesis by (rule bt_safe_decide [OF bt_safe_mark [OF f] _ assms(2) x(2)]) (simp add: f(2))
qed

lemma bt_safe_loop:
  assumes "st_on_candle strat = on_candle" "rates_small (be_rates env)" "0 \<le> cash"
  shows "m \<le> length candles \<Longrightarrow> bt_loop env strat candles series start n [0..<m] (bt_init strat cash) = Inr t \<Longrightarrow>
    bt_safe env candles cash m t"
proof (induction m arbitrary: t)
  case 0
  then show ?case using assms(3) by (auto simp: bt_init_def bt_safe_def trade_cash_def)
next
  case (Suc m)
  obtain s where s: "bt_loop env strat candles series start n [0..<m] (bt_init strat cash) = Inr s"
    and b: "bt_bar env strat candles series start n m s = Inr t"
    using Suc.prems by (auto simp: bt_loop_append bindE_Inr_conv)
  show ?case using bt_safe_bar [OF Suc.IH [OF _ s] assms(1,2) _ b] Suc.prems(1) by simp
qed

text \<open>What a backtest of a long-only strategy guarantees.\<close>

lemma backtest_sound:
  assumes strat: "st_on_candle strat = on_candle" and small: "rates_small (be_rates env)"
    and run: "run_backtest env strat candles cash = Inr res"
  shows "\<exists>held. legs 0 (br_trades res) = Some held \<and> pv_qty (br_final res) = held \<and> 0 \<le> trade_cash cash (br_trades res) \<and>
    (\<forall>t \<in> set (br_trades res). filled_next_bar env candles t) \<and> length (br_curve res) = length candles \<and>
    (\<forall>p \<in> set (br_curve res). 0 \<le> eq_cash p \<and> 0 \<le> eq_qty p \<and> eq_equity p = dec_add (eq_cash p) (eq_value p))"
proof -
  obtain series s where r: "0 < cash"
    "bt_loop env strat candles series (effective_start strat series) (length candles) [0..<length candles] (bt_init strat cash) = Inr s"
    "res = \<lparr>br_trades = bs_trades s, br_curve = bs_curve s, br_unfilled = bs_unfilled s, br_final = as_view (bs_pf s)\<rparr>"
    using run by (rule run_backtest_Inr)
  have safe: "bt_safe env candles cash (length candles) s"
    by (rule bt_safe_loop [OF strat small _ order_refl r(2)]) (use r(1) in simp)
  have "length (bs_curve s) = length candles" using bt_loop_adds [OF r(2)] by (auto simp: bt_init_def)
  then show ?thesis using safe by (simp add: r(3) bt_safe_def as_view_def FLAT_POSITION_def)
qed

end

section \<open>A backtest completes\<close>

lemma slippage_pos:
  assumes "0 < raw" "0 \<le> bps" "bps \<le> 9999"
  shows "0 < apply_slippage raw side bps"
proof -
  let ?f = "dec_rnd (bps / 10000)"
  have f: "0 \<le> ?f" using assms(2) by (simp add: dec.rnd_nonneg_iff)
  have "dec_rnd (9999 / 10000) = 9999 / 10000" using dec_rnd_literal [of 9999 4] by simp
  then have "?f \<le> 9999 / 10000" using assms(3) by (intro dec.rnd_le) simp_all
  then have "0 < dec_sub 1 ?f" by (simp add: dec_sub_def dec.rnd_pos_iff)
  moreover have "0 < dec_add 1 ?f" using f by (simp add: dec_add_def dec.rnd_pos_iff)
  ultimately show ?thesis using assms(1) by (simp add: apply_slippage_def Let_def dec_mul_pos)
qed

lemma execute_sized_total:
  assumes p: "0 < apply_slippage raw side (be_slippage env)" and q: "0 < q" and entry: "\<not> closing \<longrightarrow> pf_qty pf = 0"
  shows "\<exists>r. execute_sized env j i ts raw side closing q pf = Inr r"
proof -
  let ?p = "apply_slippage raw side (be_slippage env)"
  have costs: "calculate_costs side ?p k (be_segment env) (be_rates env) = Inr (leg_costs side ?p k (be_segment env) (be_rates env))"
    if "0 < k" for k using that p by (simp add: calculate_costs_def)
  have book: "\<exists>pnl pf'. (if closing then Inr (map_prod Some id (bt_close side k net pf))
      else bindE (open_or_add side k net pf) (\<lambda>pf'. Inr (None, pf'))) = Inr (pnl, pf')" if "0 < k" for k net
    using that entry by (cases closing) (auto simp: open_or_add_def dec_div_def Let_def map_prod_def split: prod.split)
  obtain k where k: "(if side = BUY then bt_clamp q ?p (be_segment env) (be_rates env) (pf_cash pf) else Inr q) = Inr k"
    "side = BUY \<or> 0 < k"
    using bt_clamping.clamp_total [OF p, of q "be_segment env" "be_rates env" "pf_cash pf"] q by (cases "side = BUY") auto
  show ?thesis
  proof (cases "0 < k")
    case True
    obtain pnl pf' where "(if closing then Inr (map_prod Some id (bt_close side k (c_net_amount (leg_costs side ?p k (be_segment env) (be_rates env))) pf))
        else bindE (open_or_add side k (c_net_amount (leg_costs side ?p k (be_segment env) (be_rates env))) pf) (\<lambda>pf'. Inr (None, pf'))) = Inr (pnl, pf')"
      using book [OF True] by blast
    then show ?thesis using True unfolding execute_sized_def Let_def k(1) bindE_simps costs [OF True] by simp
  next
    case False
    then show ?thesis using k(2) unfolding execute_sized_def Let_def k(1) bindE_simps by simp
  qed
qed

lemma execute_signal_total:
  assumes raw: "0 < raw" "0 \<le> be_slippage env" "be_slippage env \<le> 9999" and sizer: "\<And>e p. \<exists>q. be_sizer env e p = Inr q"
  shows "\<exists>r. execute_signal env dir j i ts raw pf = Inr r"
proof (cases "resolve_action (pf_qty pf) dir")
  case (Some a)
  obtain side closing where a: "a = (side, closing)" by fastforce
  have entry: "\<not> closing \<longrightarrow> pf_qty pf = 0"
    using Some by (auto simp: a resolve_action_def split: signal_direction.splits if_splits)
  obtain q where q: "(if closing then Inr \<bar>pf_qty pf\<bar> else be_sizer env (pf_equity raw pf) raw) = Inr q"
    using sizer by (cases closing) auto
  show ?thesis
    using execute_sized_total [OF slippage_pos [OF raw], where q = q and closing = closing and pf = pf and side = side] entry q
    by (cases "0 < q") (simp_all add: execute_signal_def Some a)
qed (simp add: execute_signal_def)

definition answers :: "'st strategy \<Rightarrow> candle list \<Rightarrow> (string \<times> series) list \<Rightarrow> bool" where
  "answers strat candles series \<longleftrightarrow>
     (\<forall>st i pf. i < length candles \<longrightarrow> (\<exists>r. st_on_candle strat st (bt_context candles series i pf) = Inr r))"

lemma bt_loop_total:
  assumes ans: "answers strat candles series" and opens: "\<forall>c \<in> set candles. 0 < cd_open c"
    and slip: "0 \<le> be_slippage env" "be_slippage env \<le> 9999" and sizer: "\<And>e p. \<exists>q. be_sizer env e p = Inr q"
  shows "set is \<subseteq> {..<length candles} \<Longrightarrow> \<exists>t. bt_loop env strat candles series start n is s = Inr t"
proof (induction "is" arbitrary: s)
  case (Cons i "is")
  then have i: "i < length candles" by simp
  have "\<exists>x. bt_fill env candles i s = Inr x"
  proof (cases "bs_pending s")
    case (Some p)
    obtain dir j where p: "p = (dir, j)" by fastforce
    have "0 < dec_of_float (cd_open (candles ! i))" using opens i by (simp add: dec_of_float_pos)
    from execute_signal_total [OF this slip sizer] obtain tr pf where
      "execute_signal env dir j i (cd_ts (candles ! i)) (dec_of_float (cd_open (candles ! i))) (bs_pf s) = Inr (tr, pf)"
      by (metis prod.collapse)
    then show ?thesis by (simp add: bt_fill_def Some p)
  qed (simp add: bt_fill_def)
  then obtain x where x: "bt_fill env candles i s = Inr x" by blast
  have "\<exists>u. bt_decide strat candles series start n i (bt_mark candles i x) = Inr u"
  proof (cases "int i < start")
    case False
    obtain r where "st_on_candle strat (bs_strategy (bt_mark candles i x)) (bt_context candles series i (bs_pf (bt_mark candles i x))) = Inr r"
      using ans i unfolding answers_def by blast
    then show ?thesis by (cases r) (simp add: bt_decide_def False)
  qed (simp add: bt_decide_def)
  then obtain u where "bt_bar env strat candles series start n i s = Inr u" using x by (auto simp: bt_bar_def)
  then show ?case using Cons.IH [of u] Cons.prems by simp
qed simp

lemma run_backtest_total:
  assumes "candles \<noteq> []" "0 < cash" "compute_indicator_set (be_lib env) candles (st_required strat) = Inr series"
    and "answers strat candles series" "\<forall>c \<in> set candles. 0 < cd_open c"
    and "0 \<le> be_slippage env" "be_slippage env \<le> 9999" and "\<And>e p. \<exists>q. be_sizer env e p = Inr q"
  shows "\<exists>res. run_backtest env strat candles cash = Inr res"
proof -
  have "set [0..<length candles] \<subseteq> {..<length candles}" by auto
  from bt_loop_total [OF assms(4-8) this] show ?thesis using assms(1-3) by (auto simp: run_backtest_def) (metis bindE_simps(2))
qed

lemma value_declared:
  "map_of series name = Some s \<Longrightarrow> i < length s \<Longrightarrow> \<exists>v. iv_value (batch_view series i) name = Inr v"
  "map_of series name = Some s \<Longrightarrow> \<exists>w. iv_window (batch_view series i) name n = Inr w"
  by (simp_all add: batch_view_def)

text \<open>A strategy whose two lines are declared always answers.\<close>

lemma sma_answers:
  assumes "map_of series ''fast'' = Some f" "map_of series ''slow'' = Some g" "length f = length candles" "length g = length candles"
    and "st_on_candle strat = sma_on_candle"
  shows "answers strat candles series"
  unfolding answers_def
proof (intro allI impI)
  fix st i pf assume i: "i < length candles"
  let ?v = "batch_view series i"
  obtain a where a: "iv_value ?v ''fast'' = Inr a" using value_declared(1) [OF assms(1), of i] assms(3) i by force
  obtain b where b: "iv_value ?v ''slow'' = Inr b" using value_declared(1) [OF assms(2), of i] assms(4) i by force
  obtain c where c: "iv_window ?v ''fast'' 2 = Inr c" using value_declared(2) [OF assms(1)] by blast
  obtain d where d: "iv_window ?v ''slow'' 2 = Inr d" using value_declared(2) [OF assms(2)] by blast
  obtain x where x: "last_close (bt_context candles series i pf) = Inr x"
    using i by (cases "take (Suc i) candles") (auto simp: last_close_def bt_context_def)
  have ind: "ctx_indicators (bt_context candles series i pf) = ?v" by (simp add: bt_context_def)
  show "\<exists>r. st_on_candle strat st (bt_context candles series i pf) = Inr r"
    by (auto simp: assms(5) sma_on_candle_def Let_def ind a b c d x split: option.split)
qed

section \<open>Covering a short\<close>

text \<open>
  \<open>_execute_signal\<close> clamps every buy to the cash, \<open>_close\<close> then flattens the position whatever the
  quantity: a short that cannot be bought back in full disappears from the books.
\<close>

lemma short_cover_flattens:
  assumes "pf_qty pf = - q" "0 < q" and k: "bt_clamp q (apply_slippage raw BUY (be_slippage env)) (be_segment env) (be_rates env) (pf_cash pf) = Inr k"
    and "0 < k" "k < q" and p: "0 < apply_slippage raw BUY (be_slippage env)"
  shows "\<exists>tr pf'. execute_signal env EXIT j i ts raw pf = Inr (Some tr, pf') \<and> et_side tr = BUY \<and> et_qty tr = k \<and> pf_qty pf' = 0"
  using assms by (simp add: execute_signal_def resolve_action_def execute_sized_def Let_def calculate_costs_def bt_close_def)

end
