(* ===== verification/PT_Ledger.thy ===== *)
theory PT_Ledger
  imports PT_Paper
begin

text \<open>
  The ledger of the paper broker: what cash, positions and realised profit have to do with the
  trades. The specification of a store is a function of its list of paper trades (the legs, each
  with the side and the instrument of its order): the cash is the initial cash with every leg's
  net amount taken out (buys) or put in (sales), the quantity held of an instrument is the signed
  sum of its legs, its realised profit the sum over its closing legs. Every operation of the
  broker keeps the store and this specification together.
\<close>

section \<open>The specification\<close>

text \<open>The instrument and the side of a trade, if its order is a paper order.\<close>

definition paper_leg :: "store \<Rightarrow> trade_row \<Rightarrow> (nat \<times> order_side) option" where
  "paper_leg d t = (case static_of d (t_order t) of
     None \<Rightarrow> None
   | Some (_, inst, side, _, _, _, mode) \<Rightarrow> if mode = PAPER then Some (inst, side) else None)"

definition cash_step :: "store \<Rightarrow> rat \<Rightarrow> trade_row \<Rightarrow> rat" where
  "cash_step d c t = (case paper_leg d t of
     None \<Rightarrow> c
   | Some (_, side) \<Rightarrow> if side = BUY then dec_sub c (t_net_amount t) else dec_add c (t_net_amount t))"

definition qty_step :: "store \<Rightarrow> nat \<Rightarrow> trade_row \<Rightarrow> int" where
  "qty_step d inst t = (case paper_leg d t of
     None \<Rightarrow> 0
   | Some (i, side) \<Rightarrow> if i = inst then signed_qty side (t_qty t) else 0)"

definition realized_step :: "store \<Rightarrow> nat \<Rightarrow> rat \<Rightarrow> trade_row \<Rightarrow> rat" where
  "realized_step d inst r t = (case paper_leg d t of
     None \<Rightarrow> r
   | Some (i, side) \<Rightarrow> if i = inst then (case t_realized_pnl t of None \<Rightarrow> r | Some x \<Rightarrow> dec_add r x) else r)"

definition ledger_cash :: "rat \<Rightarrow> store \<Rightarrow> rat" where
  "ledger_cash c0 d = foldl (cash_step d) c0 (trades d)"

definition ledger_qty :: "store \<Rightarrow> nat \<Rightarrow> int" where
  "ledger_qty d inst = sum_list (map (qty_step d inst) (trades d))"

definition ledger_realized :: "store \<Rightarrow> nat \<Rightarrow> rat" where
  "ledger_realized d inst = foldl (realized_step d inst) 0 (trades d)"

definition held :: "store \<Rightarrow> nat \<Rightarrow> int" where
  "held d inst = (case get_for inst PAPER d of None \<Rightarrow> 0 | Some p \<Rightarrow> p_qty p)"

definition realized :: "store \<Rightarrow> nat \<Rightarrow> rat" where
  "realized d inst = (case get_for inst PAPER d of None \<Rightarrow> 0 | Some p \<Rightarrow> p_realized_pnl p)"

definition ledger :: "rat \<Rightarrow> store \<Rightarrow> bool" where
  "ledger c0 d \<longleftrightarrow> paper_account d = Some (ledger_cash c0 d) \<and>
     (\<forall>inst. held d inst = ledger_qty d inst \<and> realized d inst = ledger_realized d inst)"

definition paper_ok :: "rat \<Rightarrow> store \<Rightarrow> bool" where
  "paper_ok c0 d \<longleftrightarrow> store_ok d \<and> ledger c0 d"

section \<open>What the specification depends on\<close>

lemma foldl_cong_set: "(\<And>c x. x \<in> set xs \<Longrightarrow> f c x = g c x) \<Longrightarrow> foldl f c xs = foldl g c xs"
  by (induction xs arbitrary: c) auto

lemma ledger_same:
  assumes st: "\<And>t. t \<in> set (trades d) \<Longrightarrow> static_of e (t_order t) = static_of d (t_order t)"
    and same: "trades e = trades d" "paper_account e = paper_account d"
      "\<And>inst. held e inst = held d inst" "\<And>inst. realized e inst = realized d inst"
  shows "ledger c0 e = ledger c0 d"
proof -
  have leg: "paper_leg e t = paper_leg d t" if "t \<in> set (trades d)" for t
    using st [OF that] by (simp add: paper_leg_def)
  have "ledger_cash c0 e = ledger_cash c0 d" "\<And>inst. ledger_realized e inst = ledger_realized d inst"
    unfolding ledger_cash_def ledger_realized_def same(1)
    by (rule foldl_cong_set; simp add: cash_step_def realized_step_def leg)+
  moreover have "ledger_qty e inst = ledger_qty d inst" for inst
    unfolding ledger_qty_def same(1) by (rule arg_cong [where f = sum_list], rule map_cong) (simp_all add: qty_step_def leg)
  ultimately show ?thesis by (simp add: ledger_def same)
qed

lemma held_same_positions:
  "positions e = positions d \<Longrightarrow> held e = held d" "positions e = positions d \<Longrightarrow> realized e = realized d"
  by (simp_all add: held_def realized_def get_for_def fun_eq_iff)

lemma ledger_orders_only:
  assumes "\<And>i. static_of d i \<noteq> None \<Longrightarrow> static_of e i = static_of d i" and "fills_wf d"
    and "trades e = trades d" "paper_account e = paper_account d" "positions e = positions d"
  shows "ledger c0 e = ledger c0 d"
proof (rule ledger_same)
  fix t assume "t \<in> set (trades d)"
  with assms(2) have "get_order (t_order t) d \<noteq> None"
    by (auto simp: fills_wf_def get_order_def repo_get_def tbl_get_None)
  then show "static_of e (t_order t) = static_of d (t_order t)"
    using assms(1) by (simp add: static_of_def)
next
  show "held e inst = held d inst" "realized e inst = realized d inst" for inst
    using held_same_positions [OF assms(5)] by simp_all
  show "trades e = trades d" by (rule assms(3))
  show "paper_account e = paper_account d" by (rule assms(4))
qed

section \<open>The operations on orders\<close>

lemma paper_ok_transition [keeps_intros]: "keeps (paper_ok c0) (transition i t pl)"
proof (rule keepsI)
  fix d assume ok: "paper_ok c0 d"
  let ?e = "snd (transition i t pl d)"
  have "store_ok ?e" using keepsD [OF keeps_transition] ok by (simp add: paper_ok_def)
  moreover have "ledger c0 ?e = ledger c0 d"
  proof (rule ledger_orders_only)
    show "fills_wf d" using ok by (simp add: paper_ok_def store_ok_def)
    show "static_of ?e i = static_of d i" for i by (simp add: static_of_transition)
  qed (auto simp: transition_run split: option.split)
  ultimately show "paper_ok c0 ?e" using ok by (simp add: paper_ok_def)
qed

lemma paper_ok_record_created [keeps_intros]:
  assumes "o_state r = PENDING_RISK" "o_filled r = 0"
  shows "keeps (paper_ok c0) (record_created r)"
proof (rule keepsI)
  fix d assume ok: "paper_ok c0 d"
  let ?e = "snd (record_created r d)"
  have "store_ok ?e" using keepsD [OF keeps_record_created [OF assms]] ok by (simp add: paper_ok_def)
  moreover have "ledger c0 ?e = ledger c0 d"
  proof (rule ledger_orders_only)
    show "static_of d i \<noteq> None \<Longrightarrow> static_of ?e i = static_of d i" for i using static_of_record_created by auto
    show "fills_wf d" using ok by (simp add: paper_ok_def store_ok_def)
  qed (auto simp: record_created_def add_order_def run_simps insert_order_def repo_add_def Let_def add_order_event_def)
  ultimately show "paper_ok c0 ?e" using ok by (simp add: paper_ok_def)
qed

lemma paper_ok_get_or_create [keeps_intros]: "keeps (paper_ok c0) (get_or_create_position inst mode)"
proof (rule keepsI)
  fix d assume ok: "paper_ok c0 d"
  obtain r e where run: "get_or_create_position inst mode d = (r, e)" by fastforce
  have eok: "store_ok e" using keepsE [OF keeps_get_or_create _ run] ok by (simp add: paper_ok_def)
  have wf: "positions_wf d" using ok by (simp add: paper_ok_def store_ok_def)
  have "ledger c0 e = ledger c0 d"
  proof (rule ledger_same)
    show "static_of e (t_order t) = static_of d (t_order t)" for t
      using static_of_get_or_create [of inst mode d] run by simp
    have e: "e = d \<or> (\<exists>p. get_for inst mode d = None \<and> e = d\<lparr>positions := positions d @ [p]\<rparr> \<and>
        p_instrument p = inst \<and> p_mode p = mode \<and> p_qty p = 0 \<and> p_realized_pnl p = 0)"
    proof (cases r)
      case (Inl x)
      then show ?thesis using run get_or_create_Inl by blast
    next
      case (Inr p)
      show ?thesis using get_or_create_Inr(3-5) [OF wf run [unfolded Inr]]
        by (auto simp: new_position_def) (metis position_row.select_convs(3,5) position_row.surjective position_row.update_convs(1))
    qed
    then show "trades e = trades d" "paper_account e = paper_account d" by auto
    have "find P (xs @ [p]) = (case find P xs of None \<Rightarrow> if P p then Some p else None | Some x \<Rightarrow> Some x)" for P xs and p :: position_row
      by (induction xs) auto
    then have g: "get_for i PAPER (d\<lparr>positions := positions d @ [p]\<rparr>) =
        (case get_for i PAPER d of None \<Rightarrow> if p_instrument p = i \<and> p_mode p = PAPER then Some p else None | Some x \<Rightarrow> Some x)" for i p
      by (simp add: get_for_def)
    show "held e i = held d i" "realized e i = realized d i" for i
      using e by (auto simp: held_def realized_def g split: option.split if_splits)
  qed
  then show "paper_ok c0 (snd (get_or_create_position inst mode d))" using ok eok run by (simp add: paper_ok_def)
qed

section \<open>A fill\<close>

lemma paper_apply_fill_realized:
  "paper_apply_fill p cash side qty net = (p', cash', r) \<Longrightarrow>
   p_realized_pnl p' = (case r of None \<Rightarrow> p_realized_pnl p | Some x \<Rightarrow> dec_add (p_realized_pnl p) x)"
  by (auto simp: paper_apply_fill_def Let_def split: if_splits)

lemma static_of_filled: "static_of (filled_store ord pos' cash' tr e) = static_of e"
proof
  fix i
  have "static_of (filled_store ord pos' cash' tr e) i =
      static_of ((upd_position (p_id pos') (\<lambda>_. pos') e)\<lparr>paper_account := Some cash',
        trades := trades e @ [tr\<lparr>t_id := next_id (map t_id (trades e))\<rparr>]\<rparr>) i"
    by (simp add: filled_store_def booked_def static_of_upd_order)
  also have "\<dots> = static_of e i" by (rule fun_cong [OF static_of_same_orders]) simp
  finally show "static_of (filled_store ord pos' cash' tr e) i = static_of e i" .
qed

lemma held_filled:
  assumes "positions_wf e" "pos \<in> set (positions e)" "p_mode pos = PAPER"
    "p_id pos' = p_id pos" "p_instrument pos' = p_instrument pos" "p_mode pos' = p_mode pos"
  shows "held (filled_store ord pos' cash' tr e) inst = (if inst = p_instrument pos then p_qty pos' else held e inst)"
    "realized (filled_store ord pos' cash' tr e) inst = (if inst = p_instrument pos then p_realized_pnl pos' else realized e inst)"
proof -
  let ?f = "\<lambda>q. q\<lparr>p_qty := p_qty pos', p_avg_price := p_avg_price pos', p_realized_pnl := p_realized_pnl pos'\<rparr>"
  have "positions (filled_store ord pos' cash' tr e) = positions (upd_position (p_id pos) ?f e)"
    using upd_position_const [OF assms(1,2,4-6)] assms(4) by (simp add: filled_store_def)
  then have "get_for inst PAPER (filled_store ord pos' cash' tr e) = get_for inst PAPER (upd_position (p_id pos) ?f e)"
    by (simp add: get_for_def)
  also have "\<dots> = (if inst = p_instrument pos then Some (?f pos) else get_for inst PAPER e)"
    using get_for_upd [OF assms(1,2), of ?f inst PAPER] assms(3) by simp
  finally show "held (filled_store ord pos' cash' tr e) inst = (if inst = p_instrument pos then p_qty pos' else held e inst)"
    "realized (filled_store ord pos' cash' tr e) inst = (if inst = p_instrument pos then p_realized_pnl pos' else realized e inst)"
    by (simp_all add: held_def realized_def)
qed

lemma ledger_filled:
  assumes ok: "paper_ok c0 e" and pos: "pos \<in> set (positions e)" "p_instrument pos = o_instrument ord" "p_mode pos = PAPER"
    and ord: "get_order (o_id ord) e = Some ord" "o_mode ord = PAPER" and cash: "paper_account e = Some cash"
    and net: "dec_rnd (c_net_amount costs) = c_net_amount costs"
    and app: "paper_apply_fill pos cash (o_side ord) qty (c_net_amount costs) = (pos', cash', r)"
  shows "ledger c0 (filled_store ord pos' cash' (fill_trade (o_id ord) price qty costs r ts) e)"
    (is "ledger c0 ?F")
proof -
  note keys = paper_apply_fill_keys [OF app net]
  have wf: "positions_wf e" using ok by (simp add: paper_ok_def store_ok_def)
  note h = held_filled [OF wf pos(1,3) keys(1-3)]
  have old: "held e (o_instrument ord) = p_qty pos" "realized e (o_instrument ord) = p_realized_pnl pos"
    using get_for_member [OF wf pos(1)] pos by (simp_all add: held_def realized_def)
  let ?t = "(fill_trade (o_id ord) price qty costs r ts)\<lparr>t_id := next_id (map t_id (trades e))\<rparr>"
  have tr: "trades ?F = trades e @ [?t]" by (simp add: filled_store_def)
  have leg: "paper_leg ?F = paper_leg e" by (simp add: paper_leg_def static_of_filled fun_eq_iff)
  have legt: "paper_leg e ?t = Some (o_instrument ord, o_side ord)"
    using ord by (simp add: paper_leg_def static_of_def order_static_def)
  have steps: "cash_step ?F = cash_step e" "qty_step ?F = qty_step e" "realized_step ?F = realized_step e"
    by (simp_all add: cash_step_def qty_step_def realized_step_def leg fun_eq_iff)
  from ok cash have l: "ledger_cash c0 e = cash" "\<And>i. held e i = ledger_qty e i" "\<And>i. realized e i = ledger_realized e i"
    by (simp_all add: paper_ok_def ledger_def)
  have "ledger_cash c0 ?F = cash_step e (ledger_cash c0 e) ?t" by (simp add: ledger_cash_def tr steps)
  also have "\<dots> = cash'" using l(1) by (simp add: cash_step_def legt keys(5))
  finally have "paper_account ?F = Some (ledger_cash c0 ?F)" by (simp add: filled_store_def)
  moreover have "held ?F i = ledger_qty ?F i" for i
    using l(2) [of i] old(1) pos(2) by (auto simp: h(1) keys(4) ledger_qty_def tr steps qty_step_def legt)
  moreover have "realized ?F i = ledger_realized ?F i" for i
    using l(3) [of i] old(2) pos(2) paper_apply_fill_realized [OF app]
    by (auto simp: h(2) ledger_realized_def tr steps realized_step_def legt split: option.split)
  ultimately show ?thesis by (simp add: ledger_def)
qed

text \<open>An attempt to fill a paper order against its own instrument.\<close>

definition paper_order_known :: "nat \<Rightarrow> nat \<Rightarrow> store \<Rightarrow> bool" where
  "paper_order_known oid inst d \<longleftrightarrow> (\<forall>ord. get_order oid d = Some ord \<longrightarrow> o_instrument ord = inst \<and> o_mode ord = PAPER)"

lemma paper_ok_execute_fill:
  assumes ok: "paper_ok c0 d" and ord: "get_order oid d = Some ord" and q: "o_filled ord + qty \<le> o_qty ord"
    and known: "o_instrument ord = inst" "o_mode ord = PAPER"
  shows "paper_ok c0 (snd (paper_execute_fill env oid inst qty price ts d))"
proof (cases "calculate_costs (o_side ord) price qty (pc_segment (pe_cfg env)) (pe_rates env)")
  case (Inl x)
  then show ?thesis using ok ord by (simp add: paper_execute_fill_def run_bindA run_liftE run_the_order)
next
  case (Inr costs)
  then have qty: "0 < qty" and net: "dec_rnd (c_net_amount costs) = c_net_amount costs"
    by (auto simp: calculate_costs_Inr leg_costs_net_rounded)
  have oid: "o_id ord = oid" using get_order_Some [OF ord] by simp
  have the: "the_order oid d = (Inr ord, d)" using ord by (simp add: run_the_order)
  obtain r e where run: "get_or_create_position inst PAPER d = (r, e)" by fastforce
  have eok: "paper_ok c0 e" using keepsE [OF paper_ok_get_or_create ok run] .
  consider x where "r = Inl x" | pos where "r = Inr pos" "paper_account e = None"
    | pos cash where "r = Inr pos" "paper_account e = Some cash" by (metis not_None_eq sum.exhaust)
  then show ?thesis
  proof cases
    case 3
    have wf: "positions_wf d" using ok by (simp add: paper_ok_def store_ok_def)
    note pe = get_or_create_Inr [OF wf run [unfolded 3(1)]]
    have eord: "get_order (o_id ord) e = Some ord" using pe(5) ord oid by auto
    obtain pos' cash' realized where app: "paper_apply_fill pos cash (o_side ord) qty (c_net_amount costs) = (pos', cash', realized)"
      by (metis prod_cases3)
    have sok: "store_ok e" using eok by (simp add: paper_ok_def)
    note book = book_fill_run [OF sok pe(2) eord qty q net app]
    have "ledger c0 (filled_store ord pos' cash' (fill_trade (o_id ord) price qty costs realized ts) e)"
      using pe(2-4) known by (intro ledger_filled [OF eok _ _ _ eord _ 3(2) net app]) simp_all
    with book(2) have "paper_ok c0 (filled_store ord pos' cash' (fill_trade (o_id ord) price qty costs realized ts) e)"
      by (simp add: paper_ok_def)
    moreover have "keeps (paper_ok c0) (seqA (transition (o_id ord) (fill_state ord qty) (FillPayload qty price)) (ret (fill_update ord qty price ts)))"
      by (intro keeps_intros)
    ultimately show ?thesis
      using the run 3 Inr by (simp add: paper_execute_fill_def run_bindA_Inr run_liftE the_cash_def book(1) keepsD)
  qed (use the run Inr eok in \<open>simp_all add: paper_execute_fill_def run_bindA run_liftE the_cash_def\<close>)
qed

lemma paper_ok_cancel_unaffordable [keeps_intros]: "keeps (paper_ok c0) (cancel_unaffordable ord ts)"
  unfolding cancel_unaffordable_def by (intro keeps_intros)

lemma paper_ok_try_fill:
  assumes ok: "paper_ok c0 d" and known: "paper_order_known oid (ins_id inst) d"
  shows "paper_ok c0 (snd (paper_try_fill env oid inst ts d))"
proof (cases "get_order oid d")
  case None
  then show ?thesis using ok by (simp add: paper_try_fill_def run_simps)
next
  case (Some ord)
  then show ?thesis
  proof (cases rule: try_fill_cases [of oid d ord env inst ts])
    case (fill ltp ref price k)
    have "paper_ok c0 (snd (paper_execute_fill env oid (ins_id inst) k price (ts + latency_us env) d))"
      using paper_ok_execute_fill [OF ok Some] fill(6) known Some by (simp add: paper_order_known_def)
    then show ?thesis unfolding fill(7) by (auto simp: run_bindA run_ret split: prod.split sum.split)
  next
    case (cancel ltp ref price k)
    then show ?thesis using keepsD [OF paper_ok_cancel_unaffordable ok] by simp
  qed (use ok in simp_all)
qed

section \<open>The operations of the broker\<close>

lemma in_store_keeps [keeps_intros]: "keeps P m \<Longrightarrow> keeps (\<lambda>s. P (pb_store s)) (in_store m)"
  unfolding in_store_def by (rule keeps_on_part) simp_all

lemma paper_session_keeps [keeps_intros]:
  "keeps (\<lambda>s. P (pb_store s)) (paper_now env)" "keeps (\<lambda>s. P (pb_store s)) (push_update u)"
  by (auto simp: keeps_def paper_now_def push_update_def modA_def)

lemma known_static: "static_of e oid = static_of d oid \<Longrightarrow> paper_order_known oid inst e = paper_order_known oid inst d"
proof -
  have "paper_order_known oid inst d = (\<forall>k. static_of d oid = Some k \<longrightarrow> (case k of (_, i, _, _, _, _, m) \<Rightarrow> i = inst \<and> m = PAPER))" for d
    by (auto simp: paper_order_known_def static_of_def order_static_def)
  then show "static_of e oid = static_of d oid \<Longrightarrow> paper_order_known oid inst e = paper_order_known oid inst d" by simp
qed

text \<open>The paper store, and an order of it whose instrument and mode are known.\<close>

definition paper_knows :: "rat \<Rightarrow> nat \<Rightarrow> nat \<Rightarrow> store \<Rightarrow> bool" where
  "paper_knows c0 oid inst d \<longleftrightarrow> paper_ok c0 d \<and> paper_order_known oid inst d"

lemma paper_knows_transition [keeps_intros]: "keeps (paper_knows c0 oid inst) (transition i t pl)"
  unfolding keeps_def paper_knows_def
  using keepsD [OF paper_ok_transition] known_static [OF fun_cong [OF static_of_transition]] by blast

lemma static_of_execute_fill: "static_of (snd (paper_execute_fill env oid inst qty price ts d)) i = static_of d i"
proof -
  have keep: "keeps (\<lambda>d. static_of d i = v) m" if "\<And>d. static_of (snd (m d)) = static_of d" for m :: "(store, 'z) act" and v
    using that by (simp add: keeps_def)
  have "keeps (\<lambda>d. static_of d i = v) (paper_execute_fill env oid inst qty price ts)" for v
    unfolding paper_execute_fill_def paper_book_fill_def
    by (intro keeps_intros keep static_of_get_or_create static_of_set_filled static_of_transition static_of_same_orders)
       (simp_all add: modA_def add_trade_def insert_trade_def repo_add_def Let_def run_simps)
  from keepsD [OF this refl] show ?thesis .
qed

lemma static_of_try_fill: "static_of (snd (paper_try_fill env oid inst ts d)) i = static_of d i"
proof (cases "get_order oid d")
  case (Some ord)
  then show ?thesis
  proof (cases rule: try_fill_cases [of oid d ord env inst ts])
    case (fill ltp ref price k)
    have "snd (paper_try_fill env oid inst ts d) = snd (paper_execute_fill env oid (ins_id inst) k price (ts + latency_us env) d)"
      unfolding fill(7) by (auto simp: run_bindA run_ret split: prod.split sum.split)
    then show ?thesis by (simp add: static_of_execute_fill)
  next
    case (cancel ltp ref price k)
    have "snd (cancel_unaffordable ord ts d) = snd (transition (o_id ord) CANCELLED InsufficientCash d)"
      by (auto simp: cancel_unaffordable_def run_seqA run_ret split: prod.split sum.split)
    then show ?thesis using cancel by (simp add: static_of_transition)
  qed simp_all
qed (simp add: paper_try_fill_def run_simps)

lemma valid_record_created:
  assumes "o_state r = PENDING_RISK" "o_filled r = 0" "o_instrument r = inst" "o_mode r = PAPER"
  shows "valid (paper_ok c0) (record_created r) (\<lambda>ord. paper_knows c0 (o_id ord) inst) (paper_ok c0)"
proof (rule validI)
  fix d assume ok: "paper_ok c0 d"
  obtain res e where run: "record_created r d = (res, e)" by fastforce
  have "paper_ok c0 e" using keepsE [OF paper_ok_record_created [OF assms(1,2)] ok run] .
  moreover have "res = Inr ord \<Longrightarrow> paper_order_known (o_id ord) inst e" for ord
    using record_created_Inr(1,3) [of r d ord e] run assms(3,4) by (simp add: paper_order_known_def)
  ultimately show "case record_created r d of (Inl e, t) \<Rightarrow> paper_ok c0 t | (Inr x, t) \<Rightarrow> paper_knows c0 (o_id x) inst t"
    using run by (auto simp: paper_knows_def split: sum.split)
qed

lemma valid_try_fill:
  "valid (paper_knows c0 oid (ins_id inst)) (paper_try_fill env oid inst ts) (\<lambda>_. paper_ok c0) (paper_ok c0)"
proof (rule validI)
  fix d assume "paper_knows c0 oid (ins_id inst) d"
  then have "paper_ok c0 (snd (paper_try_fill env oid inst ts d))"
    by (intro paper_ok_try_fill) (simp_all add: paper_knows_def)
  then show "case paper_try_fill env oid inst ts d of (Inl e, t) \<Rightarrow> paper_ok c0 t | (Inr x, t) \<Rightarrow> paper_ok c0 t"
    by (auto split: prod.split sum.split)
qed

lemma in_store_valid: "valid P m Q E \<Longrightarrow> valid (\<lambda>s. P (pb_store s)) (in_store m) (\<lambda>x s. Q x (pb_store s)) (\<lambda>s. E (pb_store s))"
  unfolding in_store_def by (rule valid_on_part) simp_all

text \<open>A step that keeps \<open>paper_knows\<close>, inside an operation that ends in \<open>paper_ok\<close>.\<close>

lemma valid_known_step:
  "keeps (\<lambda>s. paper_knows c0 i inst (pb_store s)) m \<Longrightarrow>
   valid (\<lambda>s. paper_knows c0 i inst (pb_store s)) m (\<lambda>_ s. paper_knows c0 i inst (pb_store s)) (\<lambda>s. paper_ok c0 (pb_store s))"
  by (drule valid_keeps, erule valid_conseq) (simp_all add: paper_knows_def)

lemma valid_submit:
  "valid (\<lambda>s. paper_knows c0 oid (ins_id inst) (pb_store s)) (paper_submit env bid rq inst placed oid)
     (\<lambda>_ s. paper_ok c0 (pb_store s)) (\<lambda>s. paper_ok c0 (pb_store s))"
  unfolding paper_submit_def
  by (intro valid_seqA [OF valid_known_step] keeps_intros valid_bindA [OF in_store_valid [OF valid_try_fill]] valid_keeps)

lemma paper_ok_place_order [keeps_intros]: "keeps (\<lambda>s. paper_ok c0 (pb_store s)) (paper_place_order env bid rq)"
proof (rule keepsI)
  fix s :: paper_session assume ok: "paper_ok c0 (pb_store s)"
  show "paper_ok c0 (pb_store (snd (paper_place_order env bid rq s)))"
  proof (cases "get_instrument (rq_instrument rq) (pb_store s)")
    case None
    then show ?thesis using ok by (simp add: paper_place_order_def run_simps)
  next
    case (Some inst)
    then have inst: "ins_id inst = rq_instrument rq" using get_instrument_Some by blast
    have "valid (\<lambda>s. paper_ok c0 (pb_store s)) (bindA (paper_now env) (\<lambda>placed_at.
        bindA (in_store (record_created (new_paper_order bid rq))) (\<lambda>ord. paper_submit env bid rq inst placed_at (o_id ord))))
        (\<lambda>_ s. paper_ok c0 (pb_store s)) (\<lambda>s. paper_ok c0 (pb_store s))"
      by (rule valid_bindA [OF valid_keeps [OF paper_session_keeps(1)]],
          rule valid_bindA [OF in_store_valid [OF valid_record_created] valid_submit]) (simp_all add: new_paper_order_def inst)
    from keepsD [OF keeps_valid [OF this] ok] show ?thesis using Some by (simp add: paper_place_order_def run_simps)
  qed
qed

lemma paper_ok_cancel_order [keeps_intros]: "keeps (\<lambda>s. paper_ok c0 (pb_store s)) (paper_cancel_order env cid)"
  unfolding paper_cancel_order_def by (intro keeps_intros)

lemma paper_ok_check_resting: "keeps (\<lambda>s. paper_ok c0 (pb_store s)) (check_resting_orders env)"
proof (rule keepsI)
  fix s :: paper_session assume ok: "paper_ok c0 (pb_store s)"
  define ords where "ords = list_open_orders PAPER (pb_store s)"
  define P where "P d = (paper_ok c0 d \<and> (\<forall>ord \<in> set ords. paper_order_known (o_id ord) (o_instrument ord) d))" for d
  have "paper_order_known (o_id ord) (o_instrument ord) (pb_store s)" if "ord \<in> set ords" for ord
    using that ok get_order_member [of "pb_store s" ord]
    by (auto simp: paper_order_known_def ords_def list_open_orders_def paper_ok_def store_ok_def)
  then have start: "P (pb_store s)" using ok by (simp add: P_def)
  have "keeps (\<lambda>s. P (pb_store s)) (check_resting_order env ord)" if ord: "ord \<in> set ords" for ord
  proof -
    have fill: "keeps P (paper_try_fill env (o_id ord) inst ts)" if "ins_id inst = o_instrument ord" for inst ts
    proof (rule keepsI)
      fix d assume d: "P d"
      then have "paper_ok c0 (snd (paper_try_fill env (o_id ord) inst ts d))"
        using ord that by (intro paper_ok_try_fill) (simp_all add: P_def)
      then show "P (snd (paper_try_fill env (o_id ord) inst ts d))"
        using d by (auto simp: P_def known_static [OF static_of_try_fill])
    qed
    show ?thesis
    proof (rule keepsI)
      fix s :: paper_session assume s: "P (pb_store s)"
      show "P (pb_store (snd (check_resting_order env ord s)))"
      proof (cases "get_instrument (o_instrument ord) (pb_store s)")
        case (Some inst)
        then have "ins_id inst = o_instrument ord" using get_instrument_Some by blast
        then have "keeps (\<lambda>s. P (pb_store s)) (bindA (paper_now env) (\<lambda>now.
            bindA (in_store (paper_try_fill env (o_id ord) inst now)) (\<lambda>update. case update of
              None \<Rightarrow> ret [] | Some u \<Rightarrow> seqA (push_update u) (ret [u]))))"
          by (intro keeps_intros fill)
        from keepsD [OF this s] Some show ?thesis by (simp add: check_resting_order_def run_simps)
      qed (use s in \<open>simp add: check_resting_order_def run_simps\<close>)
    qed
  qed
  then have loop: "keeps (\<lambda>s. P (pb_store s)) (forA ords (check_resting_order env))"
    by (intro keeps_valid [OF valid_forA] valid_keeps)
  have "keeps (\<lambda>s. P (pb_store s)) (bindA (forA ords (check_resting_order env)) (\<lambda>us. ret (concat us)))"
    by (rule keeps_bindA [OF loop keeps_ret])
  from keepsD [OF this start] show "paper_ok c0 (pb_store (snd (check_resting_orders env s)))"
    by (simp add: check_resting_orders_def run_bindA run_getA ords_def P_def)
qed

end
