(* ===== verification/PT_Paper_Safety.thy ===== *)
theory PT_Paper_Safety
  imports PT_Ledger
begin

text \<open>
  The safety of the paper broker. On top of the ledger: the state of every paper order agrees
  with its filled quantity, no paper order is left between submission and the exchange, and the
  cash is never negative as long as the rates are such that a sale brings in at least its costs.
  The interface \<open>broker\<close> is interpreted here on the model of the paper broker.
\<close>

section \<open>Consistent orders\<close>

definition order_consistent :: "order_row \<Rightarrow> bool" where
  "order_consistent ord \<longleftrightarrow>
     (o_state ord = FILLED \<longleftrightarrow> o_filled ord = o_qty ord) \<and>
     (o_state ord = PARTIALLY_FILLED \<longrightarrow> 0 < o_filled ord) \<and>
     (0 < o_filled ord \<longrightarrow> o_state ord \<in> {PARTIALLY_FILLED, FILLED, CANCELLED}) \<and>
     o_state ord \<notin> {PENDING_RISK, SUBMITTING, SUBMITTED}"

definition paper_orders_consistent :: "store \<Rightarrow> bool" where
  "paper_orders_consistent d \<longleftrightarrow> (\<forall>ord \<in> set (orders d). o_mode ord = PAPER \<longrightarrow> order_consistent ord)"

definition solvent :: "store \<Rightarrow> bool" where
  "solvent d \<longleftrightarrow> (case paper_account d of None \<Rightarrow> False | Some c \<Rightarrow> 0 \<le> c)"

definition paper_safe :: "rat \<Rightarrow> store \<Rightarrow> bool" where
  "paper_safe c0 d \<longleftrightarrow> paper_ok c0 d \<and> paper_orders_consistent d \<and> solvent d"

lemma paper_orders_consistent_get:
  "orders_wf d \<Longrightarrow> paper_orders_consistent d \<longleftrightarrow>
     (\<forall>i ord. get_order i d = Some ord \<longrightarrow> o_mode ord = PAPER \<longrightarrow> order_consistent ord)"
  unfolding paper_orders_consistent_def using get_order_Some get_order_member by blast

lemma paper_ok_wf: "paper_ok c0 d \<Longrightarrow> orders_wf d" "paper_ok c0 d \<Longrightarrow> store_ok d"
  by (simp_all add: paper_ok_def store_ok_def)

lemma consistent_only_order:
  assumes "orders_wf d" "orders_wf e" "paper_orders_consistent d" "only_order i ord d e"
    and "o_mode ord = PAPER \<Longrightarrow> order_consistent ord"
  shows "paper_orders_consistent e"
  using assms by (metis only_order_def option.inject paper_orders_consistent_get)

section \<open>Attempts\<close>

lemma cash_after_nonneg:
  assumes "rates_small (pe_rates env)" "0 < price" "0 < k" "0 \<le> cash"
    and "side = BUY \<Longrightarrow> c_net_amount (leg_costs BUY price k (pc_segment (pe_cfg env)) (pe_rates env)) \<le> cash"
  shows "0 \<le> cash_after env side price k cash"
  using assms sell_net_nonneg [of "pe_rates env" price k]
  by (cases side) (auto simp: cash_after_def Let_def dec_sub_def dec_add_nonneg dec.rnd_nonneg_iff)

lemma filled_consistent:
  assumes "order_consistent ord" "0 < k" "k \<le> o_qty ord - o_filled ord" "0 \<le> o_filled ord"
  shows "order_consistent (ord\<lparr>o_filled := o_filled ord + k, o_state := fill_state ord k\<rparr>)"
  using assms by (auto simp: order_consistent_def fill_state_def)

lemma cancelled_consistent:
  "order_consistent ord \<Longrightarrow> o_state ord \<in> {OPEN, PARTIALLY_FILLED} \<Longrightarrow> order_consistent (ord\<lparr>o_state := CANCELLED\<rparr>)"
  by (auto simp: order_consistent_def)

lemma paper_safe_try_fill:
  assumes small: "rates_small (pe_rates env)" and safe: "paper_safe c0 d" and ord: "get_order oid d = Some ord"
    and st: "o_state ord \<in> {OPEN, PARTIALLY_FILLED}" and paper: "o_mode ord = PAPER" and inst: "ins_id inst = o_instrument ord"
  shows "paper_safe c0 (snd (paper_try_fill env oid inst ts d))"
    and "j \<noteq> oid \<Longrightarrow> get_order j (snd (paper_try_fill env oid inst ts d)) = get_order j d"
proof -
  have ok: "paper_ok c0 d" and con: "paper_orders_consistent d" and sol: "solvent d"
    using safe by (simp_all add: paper_safe_def)
  then obtain cash where cash: "paper_account d = Some cash" "0 \<le> cash" by (auto simp: solvent_def split: option.splits)
  have oc: "order_consistent ord" using con ord paper paper_orders_consistent_get [OF paper_ok_wf(1) [OF ok]] by blast
  have mem: "ord \<in> set (orders d)" using get_order_Some [OF ord] by simp
  have f0: "0 \<le> o_filled ord" using paper_ok_wf(1) [OF ok] mem by (auto simp: orders_wf_def order_row_ok_def)
  let ?e = "snd (paper_try_fill env oid inst ts d)"
  have ok': "paper_ok c0 ?e"
    by (rule paper_ok_try_fill [OF ok]) (use ord paper inst in \<open>simp add: paper_order_known_def\<close>)
  note con' = consistent_only_order [OF paper_ok_wf(1) [OF ok] paper_ok_wf(1) [OF ok'] con]
  have "paper_safe c0 ?e \<and> (j \<noteq> oid \<longrightarrow> get_order j ?e = get_order j d)"
  proof (cases rule: try_fill_outcome [OF paper_ok_wf(2) [OF ok] ord st cash(1) inst, of env ts])
    case (3 u e)
    then have "paper_orders_consistent ?e" "solvent ?e"
      using con' [of oid "ord\<lparr>o_state := CANCELLED\<rparr>"] cancelled_consistent [OF oc st] sol by (simp_all add: solvent_def)
    with ok' 3 show ?thesis by (auto simp: paper_safe_def only_order_def)
  next
    case (4 k price e)
    then have "paper_orders_consistent ?e"
      using con' [OF _ filled_consistent [OF oc 4(2,3) f0]] by simp
    moreover have "solvent ?e"
      using 4 cash_after_nonneg [OF small 4(5,2) cash(2)] by (auto simp: solvent_def)
    ultimately show ?thesis using ok' 4 by (auto simp: paper_safe_def only_order_def)
  qed (use safe in simp_all)
  then show "paper_safe c0 ?e" "j \<noteq> oid \<Longrightarrow> get_order j ?e = get_order j d" by simp_all
qed

section \<open>The operations\<close>

lemma paper_safe_place_order:
  assumes small: "rates_small (pe_rates env)" and safe: "paper_safe c0 (pb_store s)"
  shows "paper_safe c0 (pb_store (snd (paper_place_order env bid rq s)))"
proof -
  obtain r t where run: "paper_place_order env bid rq s = (r, t)" by fastforce
  then show ?thesis
  proof (cases rule: place_order_run)
    case refused
    then show ?thesis using safe run by simp
  next
    case (opened opened d r' inst)
    note 2 = this
    have ok: "paper_ok c0 (pb_store s)" using safe by (simp add: paper_safe_def)
    have okd: "paper_ok c0 d"
      by (rule 2(7) [OF paper_ok_record_created paper_ok_transition ok]) (simp_all add: new_paper_order_def)
    have op: "o_state opened = OPEN" "o_filled opened = 0" "o_qty opened = rq_qty rq" "o_mode opened = PAPER" "o_instrument opened = rq_instrument rq"
      by (subst 2(1), simp add: new_paper_order_def)+
    have ord: "get_order (o_id opened) d = Some opened" using 2(2) by (simp add: only_order_def)
    then have "0 < o_qty opened"
      using get_order_Some [OF ord] paper_ok_wf(1) [OF okd] by (auto simp: orders_wf_def order_row_ok_def)
    then have "order_consistent opened" by (simp add: order_consistent_def op)
    then have "paper_orders_consistent d"
      using consistent_only_order [OF paper_ok_wf(1) [OF ok] paper_ok_wf(1) [OF okd] _ 2(2)] safe by (simp add: paper_safe_def)
    then have "paper_safe c0 d" using okd safe 2(5) by (simp add: paper_safe_def solvent_def)
    from paper_safe_try_fill(1) [OF small this ord, of inst "pe_clock env (pb_ticks s)"] 2(6,8) show ?thesis
      by (simp add: op run)
  qed
qed

lemma paper_safe_cancel_order:
  assumes safe: "paper_safe c0 (pb_store s)"
  shows "paper_safe c0 (pb_store (snd (paper_cancel_order env cid s)))"
proof (cases "get_by_client_order_id cid (pb_store s)")
  case None
  then show ?thesis using safe by (simp add: paper_cancel_order_def run_simps)
next
  case (Some ord)
  note ok = safe [unfolded paper_safe_def, THEN conjunct1]
  have ord: "get_order (o_id ord) (pb_store s) = Some ord"
    using get_order_member [OF paper_ok_wf(1) [OF ok]] get_by_cid_Some [OF Some] by simp
  show ?thesis
  proof (cases "o_state ord \<in> {OPEN, PARTIALLY_FILLED}")
    case True
    then have "CANCELLED \<in> set (allowed_transitions (o_state ord))" by auto
    from transition_step [OF ord this, of NoPayload] obtain e where
      e: "transition (o_id ord) CANCELLED NoPayload (pb_store s) = (Inr (), e)" "only_order (o_id ord) (ord\<lparr>o_state := CANCELLED\<rparr>) (pb_store s) e"
        "paper_account e = paper_account (pb_store s)" by auto
    have oke: "paper_ok c0 e" using keepsE [OF paper_ok_transition ok e(1)] .
    have con: "paper_orders_consistent (pb_store s)" using safe by (simp add: paper_safe_def)
    then have "o_mode ord = PAPER \<Longrightarrow> order_consistent ord"
      using ord paper_orders_consistent_get [OF paper_ok_wf(1) [OF ok]] by blast
    then have "paper_orders_consistent e"
      using consistent_only_order [OF paper_ok_wf(1) [OF ok] paper_ok_wf(1) [OF oke] con e(2)] cancelled_consistent True by simp
    then have "paper_safe c0 e" using oke safe e(3) by (simp add: paper_safe_def solvent_def)
    then show ?thesis using Some True e(1)
      by (simp add: paper_cancel_order_def run_simps paper_now_def push_update_def)
  qed (use safe Some in \<open>simp add: paper_cancel_order_def run_simps\<close>)
qed

text \<open>The orders a sweep has still to visit are as they were when it started.\<close>

definition sweep_inv :: "rat \<Rightarrow> order_row list \<Rightarrow> paper_session \<Rightarrow> bool" where
  "sweep_inv c0 ords s \<longleftrightarrow> paper_safe c0 (pb_store s) \<and> distinct (map o_id ords) \<and>
     (\<forall>ord \<in> set ords. get_order (o_id ord) (pb_store s) = Some ord \<and> o_mode ord = PAPER \<and>
        o_state ord \<in> {OPEN, PARTIALLY_FILLED})"

lemma sweep_start:
  assumes "paper_safe c0 (pb_store s)"
  shows "sweep_inv c0 (list_open_orders PAPER (pb_store s)) s"
proof -
  let ?d = "pb_store s"
  have ok: "orders_wf ?d" and con: "paper_orders_consistent ?d"
    using assms paper_ok_wf(1) [of c0 "pb_store s"] by (auto simp: paper_safe_def)
  have "distinct (map o_id (list_open_orders PAPER ?d))"
    using ok by (simp add: orders_wf_def list_open_orders_def distinct_map_filter)
  moreover have "get_order (o_id ord) ?d = Some ord \<and> o_mode ord = PAPER \<and> o_state ord \<in> {OPEN, PARTIALLY_FILLED}"
    if "ord \<in> set (list_open_orders PAPER ?d)" for ord
    using that get_order_member [OF ok] con
    by (auto simp: list_open_orders_def open_states_def paper_orders_consistent_def order_consistent_def)
  ultimately show ?thesis using assms by (simp add: sweep_inv_def)
qed

lemma sweep_step:
  assumes small: "rates_small (pe_rates env)"
  shows "valid (sweep_inv c0 (ord # ords)) (check_resting_order env ord) (\<lambda>_. sweep_inv c0 ords) (\<lambda>s. paper_safe c0 (pb_store s))"
proof (rule validI)
  fix s assume inv: "sweep_inv c0 (ord # ords) s"
  then have safe: "paper_safe c0 (pb_store s)" and ord: "get_order (o_id ord) (pb_store s) = Some ord"
    and st: "o_state ord \<in> {OPEN, PARTIALLY_FILLED}" "o_mode ord = PAPER" by (simp_all add: sweep_inv_def)
  show "case check_resting_order env ord s of (Inl e, t) \<Rightarrow> paper_safe c0 (pb_store t) | (Inr x, t) \<Rightarrow> sweep_inv c0 ords t"
  proof (cases "get_instrument (o_instrument ord) (pb_store s)")
    case None
    then show ?thesis using safe by (simp add: check_resting_order_def run_simps)
  next
    case (Some inst)
    then have inst: "ins_id inst = o_instrument ord" using get_instrument_Some by blast
    obtain r d where fill: "paper_try_fill env (o_id ord) inst (pe_clock env (pb_ticks s)) (pb_store s) = (r, d)" by fastforce
    note after = paper_safe_try_fill [where ts = "pe_clock env (pb_ticks s)", OF small safe ord st inst, unfolded fill snd_conv]
    obtain t where t: "pb_store t = d" "check_resting_order env ord s = (case r of Inl e \<Rightarrow> Inl e
        | Inr u \<Rightarrow> Inr (case u of None \<Rightarrow> [] | Some v \<Rightarrow> [v]), t)"
    proof -
      have "pb_store (snd (check_resting_order env ord s)) = d"
        "fst (check_resting_order env ord s) = (case r of Inl e \<Rightarrow> Inl e | Inr u \<Rightarrow> Inr (case u of None \<Rightarrow> [] | Some v \<Rightarrow> [v]))"
        using Some fill by (auto simp: check_resting_order_def run_simps paper_now_def push_update_def split: option.split sum.split)
      then show thesis by (intro that [of "snd (check_resting_order env ord s)"]) (auto simp: prod_eq_iff)
    qed
    have "get_order (o_id q) d = Some q \<and> o_mode q = PAPER \<and> o_state q \<in> {OPEN, PARTIALLY_FILLED}" if "q \<in> set ords" for q
    proof -
      have "o_id ord \<notin> o_id ` set ords" using inv by (simp add: sweep_inv_def)
      with imageI [OF that, of o_id] have "o_id q \<noteq> o_id ord" by (metis)
      then have "get_order (o_id q) d = get_order (o_id q) (pb_store s)" by (rule after(2))
      then show ?thesis using inv that by (simp add: sweep_inv_def)
    qed
    then have "sweep_inv c0 ords t" using inv after(1) t(1) by (simp add: sweep_inv_def)
    then show ?thesis using t by (auto simp: sweep_inv_def split: sum.split)
  qed
qed

lemma paper_safe_check_resting:
  assumes small: "rates_small (pe_rates env)" and safe: "paper_safe c0 (pb_store s)"
  shows "paper_safe c0 (pb_store (snd (check_resting_orders env s)))"
proof -
  let ?ords = "list_open_orders PAPER (pb_store s)"
  obtain r t where run: "forA ?ords (check_resting_order env) s = (r, t)" by fastforce
  have v: "valid (sweep_inv c0 ?ords) (forA ?ords (check_resting_order env)) (\<lambda>_. sweep_inv c0 []) (\<lambda>s. paper_safe c0 (pb_store s))"
    by (rule valid_forA_suffix [OF sweep_step [OF small]])
  have "paper_safe c0 (pb_store t)"
    using valid_InlD [OF v sweep_start [OF safe]] valid_InrD [OF v sweep_start [OF safe]] run
    by (cases r) (auto simp: sweep_inv_def)
  then show ?thesis using run by (auto simp: check_resting_orders_def run_simps split: sum.split)
qed

section \<open>The interface\<close>

lemma placed_outcome_facts:
  assumes "placed_outcome opened ord"
  shows "o_state opened = OPEN \<Longrightarrow> o_state ord \<notin> {PENDING_RISK, REJECTED_RISK, SUBMITTING, FAILED}"
    and "placed_as rq m opened \<Longrightarrow> placed_as rq m ord"
  using assms unfolding placed_outcome_def placed_as_def fill_state_def by (elim disjE exE; simp)+

text \<open>What the orchestrator calls: a broker built on the session's store, and its operations.\<close>

definition paper_ops :: "paper_env \<Rightarrow> rat \<Rightarrow> string \<Rightarrow> broker_ops" where
  "paper_ops env initial_cash bid = \<lparr>
     br_place_order = (\<lambda>rq d. case paper_place_order env bid rq (paper_init initial_cash d) of (r, s) \<Rightarrow> (r, pb_store s)),
     br_get_funds = (\<lambda>d. paper_get_funds env (pb_store (paper_init initial_cash d)))\<rparr>"

lemma paper_init_store: "pb_store (paper_init c d) = d\<lparr>paper_account := Some (case paper_account d of None \<Rightarrow> c | Some x \<Rightarrow> x)\<rparr>"
  by (auto simp: paper_init_def account_get_or_create_def split: option.split)

lemma paper_get_funds_frame: "snd (paper_get_funds env d) = d"
  by (auto simp: paper_get_funds_def run_bindA the_cash_def split: option.split)

interpretation paper_broker: broker "paper_ops env initial_cash bid" PAPER for env initial_cash bid
proof
  fix rq d ack e r
  show "keeps store_ok (br_place_order (paper_ops env initial_cash bid) rq)"
  proof (rule keepsI)
    fix d assume ok: "store_ok d"
    obtain r s where run: "paper_place_order env bid rq (paper_init initial_cash d) = (r, s)" by fastforce
    have ok': "store_ok (pb_store (paper_init initial_cash d))" using ok by (simp add: paper_init_store)
    from run have "store_ok (pb_store s)"
    proof (cases rule: place_order_run)
      case refused
      then show ?thesis using ok' by simp
    next
      case (opened opened d' r' inst)
      have "store_ok d'"
        by (rule opened(7) [OF keeps_record_created keeps_transition ok']) (simp_all add: new_paper_order_def)
      then show ?thesis using keepsE [OF keeps_try_fill _ opened(8)] by blast
    qed
    then show "store_ok (snd (br_place_order (paper_ops env initial_cash bid) rq d))" by (simp add: paper_ops_def run)
  qed
  show "keeps store_ok (br_get_funds (paper_ops env initial_cash bid))"
    by (simp add: keeps_def paper_ops_def paper_get_funds_frame paper_init_store)
  show "e\<lparr>paper_account := None\<rparr> = d\<lparr>paper_account := None\<rparr>" if "br_get_funds (paper_ops env initial_cash bid) d = (r, e)"
    using that paper_get_funds_frame [of env "pb_store (paper_init initial_cash d)"] by (simp add: paper_ops_def paper_init_store)
  assume ok: "store_ok d" and place: "br_place_order (paper_ops env initial_cash bid) rq d = (Inr ack, e)"
  then obtain s where run: "paper_place_order env bid rq (paper_init initial_cash d) = (Inr ack, s)" and e: "e = pb_store s"
    by (auto simp: paper_ops_def split: prod.splits)
  have ok': "store_ok (pb_store (paper_init initial_cash d))" using ok by (simp add: paper_init_store)
  have acc: "paper_account (pb_store (paper_init initial_cash d)) \<noteq> None" by (simp add: paper_init_store)
  have oke: "store_ok e"
    using keepsE [OF \<open>keeps store_ok (br_place_order (paper_ops env initial_cash bid) rq)\<close> ok place] .
  have outcome: "ack_cid ack = rq_cid rq \<and> get_by_client_order_id (rq_cid rq) d = None \<and>
      (\<exists>ord. get_by_client_order_id (rq_cid rq) e = Some ord \<and> placed_as rq PAPER ord \<and>
        o_state ord \<notin> {PENDING_RISK, REJECTED_RISK, SUBMITTING, FAILED})"
  proof (cases rule: place_order_outcome [OF ok' acc run])
    case (2 opened ord)
    have ack: "ack_cid ack = rq_cid rq" and po: "placed_outcome opened ord" using 2(5) by auto
    have new: "placed_as rq PAPER opened" "o_state opened = OPEN"
      by (subst 2(1), simp add: placed_as_def new_paper_order_def)+
    then have ord: "placed_as rq PAPER ord" "o_state ord \<notin> {PENDING_RISK, REJECTED_RISK, SUBMITTING, FAILED}"
      using placed_outcome_facts [OF po] by simp_all
    have "ord \<in> set (orders e)" using 2(2) e by (auto simp: only_order_def dest: get_order_Some)
    with oke have "get_by_client_order_id (o_cid ord) e = Some ord" by (simp add: store_ok_def get_by_cid_member)
    moreover have "o_cid ord = rq_cid rq" using ord(1) by (simp add: placed_as_def)
    ultimately show ?thesis using ack ord 2(4) by (simp add: paper_init_store get_by_client_order_id_def)
  qed simp
  show "ack_cid ack = rq_cid rq \<and> (\<exists>ord. get_by_client_order_id (rq_cid rq) e = Some ord \<and> placed_as rq PAPER ord \<and>
        o_state ord \<notin> {PENDING_RISK, REJECTED_RISK, SUBMITTING, FAILED})"
    and "get_by_client_order_id (rq_cid rq) d = None"
    using outcome by simp_all
qed

end
