(* ===== verification/PT_Json.thy ===== *)
theory PT_Json
  imports PT_Store
begin

text \<open>
  What the program does with parsed JSON and with text: dictionary access, truth values,
  \<open>int(\<dots>)\<close> and \<open>Decimal(str(\<dots>))\<close> of a value, lower-casing. Numbers of a JSON document are
  floats or small integers, both exact as rationals. Texts that are numbers are read as an optional
  sign, digits and (for Decimals) a fraction; Python's further spellings (exponents, underscores,
  surrounding blanks) are rejected here.
\<close>

section \<open>Dictionaries\<close>

text \<open>\<open>d.get(k, default)\<close> and \<open>d[k]\<close>.\<close>

definition dict_get :: "json \<Rightarrow> string \<Rightarrow> json \<Rightarrow> py_error + json" where
  "dict_get j k dflt = (case j of
     JObj kvs \<Rightarrow> Inr (case map_of kvs k of None \<Rightarrow> dflt | Some v \<Rightarrow> v)
   | _ \<Rightarrow> Inl PyAttributeError)"

definition dict_item :: "json \<Rightarrow> string \<Rightarrow> py_error + json" where
  "dict_item j k = (case j of
     JObj kvs \<Rightarrow> (case map_of kvs k of None \<Rightarrow> Inl PyKeyError | Some v \<Rightarrow> Inr v)
   | _ \<Rightarrow> Inl PyTypeError)"

fun truthy :: "json \<Rightarrow> bool" where
  "truthy JNull = False"
| "truthy (JBool b) = b"
| "truthy (JNum r) = (r \<noteq> 0)"
| "truthy (JStr s) = (s \<noteq> [])"
| "truthy (JList xs) = (xs \<noteq> [])"
| "truthy (JObj kvs) = (kvs \<noteq> [])"

text \<open>\<open>list(x or [])\<close>.\<close>

fun list_or_empty :: "json \<Rightarrow> py_error + json list" where
  "list_or_empty (JList xs) = Inr xs"
| "list_or_empty (JObj kvs) = Inr (map (\<lambda>(k, _). JStr k) kvs)"
| "list_or_empty (JStr s) = Inr (map (\<lambda>c. JStr [c]) s)"
| "list_or_empty j = (if truthy j then Inl PyTypeError else Inr [])"

section \<open>Text\<close>

definition lower_char :: "char \<Rightarrow> char" where
  "lower_char c = (let n = of_char c :: nat in if 65 \<le> n \<and> n \<le> 90 then char_of (n + 32) else c)"

definition lower :: "string \<Rightarrow> string" where
  "lower s = map lower_char s"

definition digit_val :: "char \<Rightarrow> nat option" where
  "digit_val c = (let n = of_char c :: nat in if 48 \<le> n \<and> n \<le> 57 then Some (n - 48) else None)"

fun digits_val :: "nat \<Rightarrow> string \<Rightarrow> nat option" where
  "digits_val acc [] = Some acc"
| "digits_val acc (c # cs) = (case digit_val c of None \<Rightarrow> None | Some d \<Rightarrow> digits_val (10 * acc + d) cs)"

definition nat_of_text :: "string \<Rightarrow> nat option" where
  "nat_of_text s = (if s = [] then None else digits_val 0 s)"

fun signed_text :: "string \<Rightarrow> int \<times> string" where
  "signed_text [] = (1, [])"
| "signed_text (c # cs) = (if c = CHR ''-'' then (- 1, cs) else if c = CHR ''+'' then (1, cs) else (1, c # cs))"

definition int_of_text :: "string \<Rightarrow> int option" where
  "int_of_text s = (case signed_text s of (sg, t) \<Rightarrow> map_option (\<lambda>n. sg * int n) (nat_of_text t))"

definition decimal_of_text :: "string \<Rightarrow> rat option" where
  "decimal_of_text s = (case signed_text s of (sg, t) \<Rightarrow>
     let whole = takeWhile (\<lambda>c. c \<noteq> CHR ''.'') t; rest = drop (length whole) t in
     if rest = [] then map_option (\<lambda>n. of_int (sg * int n)) (nat_of_text whole)
     else let frac = tl rest in
       if whole = [] \<and> frac = [] then None
       else (case (digits_val 0 whole, digits_val 0 frac) of
          (Some n, Some f) \<Rightarrow> Some (of_int sg * (of_nat n + of_nat f / 10 ^ length frac))
        | _ \<Rightarrow> None))"

section \<open>Numbers\<close>

text \<open>\<open>int(x)\<close> truncates a float; \<open>Decimal(str(x))\<close> reads the text of a value.\<close>

fun py_int :: "json \<Rightarrow> py_error + int" where
  "py_int (JNum r) = Inr (trunc_rat r)"
| "py_int (JBool b) = Inr (if b then 1 else 0)"
| "py_int (JStr s) = (case int_of_text s of None \<Rightarrow> Inl PyValueError | Some n \<Rightarrow> Inr n)"
| "py_int _ = Inl PyTypeError"

fun decimal_of_json :: "json \<Rightarrow> py_error + rat" where
  "decimal_of_json (JNum r) = Inr (dec_of_float r)"
| "decimal_of_json (JStr s) = (case decimal_of_text s of None \<Rightarrow> Inl DecimalInvalidOperation | Some r \<Rightarrow> Inr r)"
| "decimal_of_json _ = Inl DecimalInvalidOperation"

text \<open>
  \<open>str(x)\<close>, for a value that the program only compares with fixed texts: a value that is not a
  text equals none of them.
\<close>

fun text_or_none :: "json \<Rightarrow> string" where
  "text_or_none (JStr s) = s"
| "text_or_none _ = []"

lemma trunc_rat_of_int [simp]: "trunc_rat (of_int n) = n"
  by (simp add: trunc_rat_def flip: of_int_minus)

lemma py_int_of_int: "py_int (JNum (of_int n)) = Inr n"
  by simp

end
