(* ===== verification/PT_Upstox.thy ===== *)
theory PT_Upstox
  imports PT_Paper PT_Json
begin

text \<open>
  The live broker of \<open>execution/upstox/broker.py\<close> and the backoff policy of
  \<open>data/providers/reconnect.py\<close>. Upstox itself is not under \<open>src/\<close>: its answers are the function
  \<open>ue_net\<close> of the environment, which says what the n-th HTTP request of a broker object meets (a
  parsed JSON body, a bad status, or a transport failure). The state of a broker object is the
  store of its session, the requests it has sent, the delays it has slept and the number of times
  its clock was read.
\<close>

section \<open>Backoff\<close>

record reconnect_policy =
  rp_base_delay :: rat
  rp_max_delay :: rat
  rp_factor :: rat

definition reconnect_init :: "rat \<Rightarrow> rat \<Rightarrow> rat \<Rightarrow> py_error + reconnect_policy" where
  "reconnect_init base_delay max_delay factor =
     (if base_delay \<le> 0 then Inl PyValueError
      else if max_delay < base_delay then Inl PyValueError
      else if factor \<le> 1 then Inl PyValueError
      else Inr \<lparr>rp_base_delay = base_delay, rp_max_delay = max_delay, rp_factor = factor\<rparr>)"

text \<open>\<open>factor ** attempt\<close> of floats is taken to be correctly rounded, which it is for the factor 2
  that the program uses.\<close>

definition delay_for :: "reconnect_policy \<Rightarrow> int \<Rightarrow> py_error + rat" where
  "delay_for p attempt = (if attempt < 0 then Inl PyValueError
     else Inr (min (fl_mul (rp_base_delay p) (fl_rnd (rp_factor p ^ nat attempt))) (rp_max_delay p)))"

lemma reconnect_init_Inr:
  "reconnect_init b m f = Inr p \<longleftrightarrow> 0 < b \<and> b \<le> m \<and> 1 < f \<and> p = \<lparr>rp_base_delay = b, rp_max_delay = m, rp_factor = f\<rparr>"
  by (auto simp: reconnect_init_def)

lemma delay_for_bounds:
  assumes p: "reconnect_init b m f = Inr p" and d: "delay_for p n = Inr x" and b: "fl_rnd b = b"
  shows "b \<le> x" "x \<le> m"
proof -
  from p have h: "0 < b" "b \<le> m" "1 < f" "p = \<lparr>rp_base_delay = b, rp_max_delay = m, rp_factor = f\<rparr>"
    by (auto simp: reconnect_init_Inr)
  with d have x: "x = min (fl_mul b (fl_rnd (f ^ nat n))) m" by (auto simp: delay_for_def split: if_splits)
  show "x \<le> m" by (simp add: x)
  have "1 \<le> f ^ nat n" using h(3) by (simp add: one_le_power)
  then have "1 \<le> fl_rnd (f ^ nat n)" using fl.rnd_mono [of 1 "f ^ nat n"] fl.rnd_1 by simp
  then have "b \<le> b * fl_rnd (f ^ nat n)" using h(1) by simp
  then have "b \<le> fl_mul b (fl_rnd (f ^ nat n))" unfolding fl_mul_def by (rule fl.rnd_ge) (rule b)
  then show "b \<le> x" using h(2) by (simp add: x)
qed

lemma delay_for_mono:
  assumes p: "reconnect_init b m f = Inr p" and ij: "0 \<le> i" "i \<le> j"
    and d: "delay_for p i = Inr x" "delay_for p j = Inr y"
  shows "x \<le> y"
proof -
  from p have h: "0 < b" "1 < f" "p = \<lparr>rp_base_delay = b, rp_max_delay = m, rp_factor = f\<rparr>"
    by (auto simp: reconnect_init_Inr)
  have "f ^ nat i \<le> f ^ nat j" using h(2) ij by (intro power_increasing) auto
  then have "fl_mul b (fl_rnd (f ^ nat i)) \<le> fl_mul b (fl_rnd (f ^ nat j))"
    unfolding fl_mul_def using h(1) by (intro fl.rnd_mono mult_left_mono) simp_all
  then show ?thesis using d ij h by (auto simp: delay_for_def min_le_iff_disj)
qed

section \<open>Requests\<close>

text \<open>What an HTTP request can meet: a body that parses as JSON, a status that
  \<open>raise_for_status\<close> rejects, or any other failure of the transport or of the parser.\<close>

datatype http_outcome = HttpOk json | HttpStatus nat | HttpFailure

record place_body =
  pl_quantity :: int
  pl_product :: string
  pl_price :: rat
  pl_tag :: string
  pl_instrument_token :: string
  pl_order_type :: string
  pl_transaction_type :: string
  pl_trigger_price :: rat

datatype upstox_call =
    PlaceOrder place_body
  | CancelOrder string
  | OrderDetails string
  | GetPositions
  | GetFunds

record upstox_env =
  ue_cfg :: upstox_config
  ue_rates :: cost_config
  ue_net :: "nat \<Rightarrow> upstox_call \<Rightarrow> http_outcome"
  ue_clock :: "nat \<Rightarrow> instant"

record upstox_session =
  us_store :: store
  us_sent :: "upstox_call list"
  us_slept :: "rat list"
  us_ticks :: nat

definition on_upstox_store :: "(store, 'a) act \<Rightarrow> (upstox_session, 'a) act" where
  "on_upstox_store m = on_part us_store (\<lambda>d s. s\<lparr>us_store := d\<rparr>) m"

definition upstox_init :: "store \<Rightarrow> upstox_session" where
  "upstox_init d = \<lparr>us_store = d, us_sent = [], us_slept = [], us_ticks = 0\<rparr>"

definition retry_policy :: reconnect_policy where
  "retry_policy = \<lparr>rp_base_delay = 1 / 2, rp_max_delay = 8, rp_factor = 2\<rparr>"

definition retryable :: "nat \<Rightarrow> bool" where
  "retryable status \<longleftrightarrow> status = 429 \<or> 500 \<le> status"

text \<open>\<open>_request\<close>: the loop over \<open>attempt\<close>.\<close>

function request_loop :: "upstox_env \<Rightarrow> upstox_call \<Rightarrow> nat \<Rightarrow> (upstox_session, json) act" where
  "request_loop env call attempt s = (
     let out = ue_net env (length (us_sent s)) call; s' = s\<lparr>us_sent := us_sent s @ [call]\<rparr> in
     case out of
       HttpOk j \<Rightarrow> (Inr j, s')
     | HttpFailure \<Rightarrow> (Inl UpstoxBrokerError, s')
     | HttpStatus status \<Rightarrow>
         if \<not> retryable status \<or> uc_max_retries (ue_cfg env) \<le> attempt then (Inl UpstoxBrokerError, s')
         else (case delay_for retry_policy (int attempt) of
             Inl e \<Rightarrow> (Inl e, s')
           | Inr delay \<Rightarrow> request_loop env call (Suc attempt) (s'\<lparr>us_slept := us_slept s' @ [delay]\<rparr>)))"
  by pat_completeness auto
termination by (relation "measure (\<lambda>(env, call, attempt, s). uc_max_retries (ue_cfg env) - attempt)") auto

declare request_loop.simps [simp del]

definition upstox_request :: "upstox_env \<Rightarrow> upstox_call \<Rightarrow> (upstox_session, json) act" where
  "upstox_request env call = request_loop env call 0"

text \<open>A request sends at most \<open>max_retries + 1\<close> times the same call, and touches nothing else.\<close>

lemma request_loop_frame:
  "request_loop env call attempt s = (r, t) \<Longrightarrow> us_store t = us_store s \<and> us_ticks t = us_ticks s \<and>
    (\<exists>k. 1 \<le> k \<and> k \<le> Suc (uc_max_retries (ue_cfg env) - attempt) \<and> us_sent t = us_sent s @ replicate k call)"
proof (induction env call attempt s arbitrary: t rule: request_loop.induct)
  case (1 env call attempt s)
  let ?out = "ue_net env (length (us_sent s)) call" and ?s = "s\<lparr>us_sent := us_sent s @ [call]\<rparr>"
  show ?case
  proof (cases "\<exists>st. ?out = HttpStatus st \<and> retryable st \<and> attempt < uc_max_retries (ue_cfg env)")
    case False
    then have "t = ?s" using 1(2) by (subst (asm) request_loop.simps) (auto split: http_outcome.splits if_splits simp: not_less Let_def)
    then show ?thesis by (auto intro!: exI [of _ 1])
  next
    case True
    then obtain st where st: "?out = HttpStatus st" "retryable st" "attempt < uc_max_retries (ue_cfg env)" by blast
    obtain x where x: "delay_for retry_policy (int attempt) = Inr x" by (simp add: delay_for_def)
    have run: "request_loop env call (Suc attempt) (?s\<lparr>us_slept := us_slept ?s @ [x]\<rparr>) = (r, t)"
      using 1(2) st x by (subst (asm) request_loop.simps) simp
    have nb: "\<not> (\<not> retryable st \<or> uc_max_retries (ue_cfg env) \<le> attempt)" using st by simp
    note IH = 1(1) [OF refl refl st(1) nb x run]
    then obtain k where k: "1 \<le> k" "k \<le> Suc (uc_max_retries (ue_cfg env) - Suc attempt)"
      "us_sent t = (us_sent s @ [call]) @ replicate k call" by auto
    then show ?thesis using IH st(3) by (auto intro!: exI [of _ "Suc k"])
  qed
qed

text \<open>The outcome: the first answer that is not retried, if it comes before the attempts run out.\<close>

definition gives_up :: "http_outcome \<Rightarrow> bool" where
  "gives_up out \<longleftrightarrow> (case out of HttpOk _ \<Rightarrow> False | HttpFailure \<Rightarrow> True | HttpStatus st \<Rightarrow> \<not> retryable st)"

definition transient :: "http_outcome \<Rightarrow> bool" where
  "transient out \<longleftrightarrow> (\<exists>st. out = HttpStatus st \<and> retryable st)"

lemma request_loop_outcome:
  assumes "attempt + k \<le> uc_max_retries (ue_cfg env)"
    and "\<forall>i < k. transient (ue_net env (length (us_sent s) + i) call)"
    and "\<not> transient (ue_net env (length (us_sent s) + k) call)"
  shows "fst (request_loop env call attempt s) =
    (case ue_net env (length (us_sent s) + k) call of HttpOk j \<Rightarrow> Inr j | _ \<Rightarrow> Inl UpstoxBrokerError)"
  using assms
proof (induction k arbitrary: attempt s)
  case 0
  then show ?case by (subst request_loop.simps) (auto simp: transient_def Let_def split: http_outcome.split)
next
  case (Suc k)
  from Suc.prems(2) obtain st where st: "ue_net env (length (us_sent s)) call = HttpStatus st" "retryable st"
    by (auto simp: transient_def)
  have "\<forall>i < k. transient (ue_net env (Suc (length (us_sent s)) + i) call)" using Suc.prems(2) by auto
  then show ?case using Suc.prems(1,3) st
    by (subst request_loop.simps) (simp add: Let_def delay_for_def Suc.IH)
qed

lemma request_loop_exhausted:
  assumes "\<forall>i. i + attempt \<le> uc_max_retries (ue_cfg env) \<longrightarrow> transient (ue_net env (length (us_sent s) + i) call)"
    and "attempt \<le> uc_max_retries (ue_cfg env)"
  shows "fst (request_loop env call attempt s) = Inl UpstoxBrokerError"
  using assms
proof (induction "uc_max_retries (ue_cfg env) - attempt" arbitrary: attempt s)
  case 0
  then have "attempt = uc_max_retries (ue_cfg env)" by simp
  with 0 show ?case by (subst request_loop.simps) (auto simp: transient_def Let_def split: http_outcome.split dest: spec [of _ 0])
next
  case (Suc n)
  from Suc.prems have "transient (ue_net env (length (us_sent s)) call)" by (auto dest: spec [of _ 0])
  then obtain st where st: "ue_net env (length (us_sent s)) call = HttpStatus st" "retryable st" by (auto simp: transient_def)
  have more: "attempt < uc_max_retries (ue_cfg env)" using Suc(2) by simp
  have "transient (ue_net env (Suc (length (us_sent s)) + i) call)" if "i + Suc attempt \<le> uc_max_retries (ue_cfg env)" for i
    using Suc.prems(1) [rule_format, of "Suc i"] that by simp
  then show ?case using Suc(1) [of "Suc attempt"] Suc(2) st more
    by (subst request_loop.simps) (simp add: Let_def delay_for_def)
qed

section \<open>Placing and cancelling\<close>

definition product_of :: "segment \<Rightarrow> string" where
  "product_of seg = (case seg of DELIVERY \<Rightarrow> ''D'' | INTRADAY \<Rightarrow> ''I'')"

definition transaction_type_of :: "order_side \<Rightarrow> string" where
  "transaction_type_of side = (case side of BUY \<Rightarrow> ''BUY'' | SELL \<Rightarrow> ''SELL'')"

definition upstox_order_type :: "order_type \<Rightarrow> string" where
  "upstox_order_type ty = (case ty of MARKET \<Rightarrow> ''MARKET'' | LIMIT \<Rightarrow> ''LIMIT'' | SL \<Rightarrow> ''SL-M'')"

definition terminal_status :: "string \<Rightarrow> order_state option" where
  "terminal_status s = map_of [(''complete'', FILLED), (''rejected'', REJECTED_BROKER),
     (''cancelled'', CANCELLED), (''cancelled after market order'', CANCELLED)] s"

definition map_status :: "string \<Rightarrow> int \<Rightarrow> int \<Rightarrow> order_state" where
  "map_status status filled qty = (case terminal_status (lower status) of
     Some st \<Rightarrow> st
   | None \<Rightarrow> if 0 < filled then PARTIALLY_FILLED else OPEN)"

definition new_live_order :: "order_request \<Rightarrow> order_row" where
  "new_live_order rq = \<lparr>o_id = 0, o_cid = rq_cid rq, o_broker_id = None, o_instrument = rq_instrument rq,
     o_signal = None, o_side = rq_side rq, o_type = rq_type rq, o_qty = rq_qty rq, o_filled = 0,
     o_limit = rq_limit rq, o_state = PENDING_RISK, o_mode = LIVE\<rparr>"

definition place_body_of :: "upstox_env \<Rightarrow> order_request \<Rightarrow> instrument_row \<Rightarrow> place_body" where
  "place_body_of env rq inst = \<lparr>pl_quantity = rq_qty rq, pl_product = product_of (uc_segment (ue_cfg env)),
     pl_price = (case rq_limit rq of Some l \<Rightarrow> if rq_type rq = LIMIT then fl_rnd l else 0 | None \<Rightarrow> 0),
     pl_tag = take 20 (rq_cid rq), pl_instrument_token = ins_key inst,
     pl_order_type = upstox_order_type (rq_type rq), pl_transaction_type = transaction_type_of (rq_side rq),
     pl_trigger_price = (case rq_limit rq of Some l \<Rightarrow> if rq_type rq = SL then fl_rnd l else 0 | None \<Rightarrow> 0)\<rparr>"

text \<open>\<open>str(payload["data"]["order_id"])\<close>; the id that Upstox issues is a text.\<close>

definition placed_order_id :: "json \<Rightarrow> py_error + string" where
  "placed_order_id payload = bindE (dict_item payload ''data'') (\<lambda>data.
     bindE (dict_item data ''order_id'') (\<lambda>j. Inr (text_or_none j)))"

definition upstox_submit ::
  "upstox_env \<Rightarrow> order_request \<Rightarrow> instrument_row \<Rightarrow> nat \<Rightarrow> (upstox_session, order_ack) act" where
  "upstox_submit env rq inst oid =
     seqA (on_upstox_store (transition oid SUBMITTING NoPayload))
     (bindA
       (catchA (bindA (upstox_request env (PlaceOrder (place_body_of env rq inst))) (\<lambda>payload. liftE (placed_order_id payload)))
         (\<lambda>e. if e \<in> {UpstoxBrokerError, PyKeyError, PyTypeError}
           then seqA (on_upstox_store (transition oid FAILED PlaceFailed)) (raise UpstoxBrokerError)
           else raise e))
       (\<lambda>broker_order_id.
         seqA (on_upstox_store (set_broker_id oid broker_order_id))
         (seqA (on_upstox_store (transition oid SUBMITTED NoPayload))
           (ret \<lparr>ack_cid = rq_cid rq, ack_broker_id = broker_order_id\<rparr>))))"

definition upstox_place_order :: "upstox_env \<Rightarrow> order_request \<Rightarrow> (upstox_session, order_ack) act" where
  "upstox_place_order env rq = bindA (getA (\<lambda>s. get_instrument (rq_instrument rq) (us_store s))) (\<lambda>found. case found of
     None \<Rightarrow> raise UnknownInstrument
   | Some inst \<Rightarrow> bindA (on_upstox_store (record_created (new_live_order rq))) (\<lambda>ord.
       upstox_submit env rq inst (o_id ord)))"

definition upstox_cancel_order :: "upstox_env \<Rightarrow> string \<Rightarrow> (upstox_session, unit) act" where
  "upstox_cancel_order env cid = bindA (getA (\<lambda>s. get_by_client_order_id cid (us_store s))) (\<lambda>found. case found of
     None \<Rightarrow> raise UnknownOrder
   | Some ord \<Rightarrow> (case o_broker_id ord of
       None \<Rightarrow> raise UnknownOrder
     | Some b \<Rightarrow>
         if o_state ord \<notin> {OPEN, PARTIALLY_FILLED} then ret ()
         else bindA (upstox_request env (CancelOrder b)) (\<lambda>_. ret ())))"

section \<open>Reading the account\<close>

text \<open>\<open>Decimal(str(x)) if x else None\<close>.\<close>

definition optional_price :: "json \<Rightarrow> py_error + rat option" where
  "optional_price j = (if truthy j then bindE (decimal_of_json j) (\<lambda>r. Inr (Some r)) else Inr None)"

definition status_of_details :: "order_row \<Rightarrow> string \<Rightarrow> json \<Rightarrow> py_error + order_status" where
  "status_of_details ord broker_id payload =
     bindE (dict_get payload ''data'' (JObj [])) (\<lambda>data.
     bindE (dict_get data ''quantity'' (JNum (of_int (o_qty ord)))) (\<lambda>jq. bindE (py_int jq) (\<lambda>qty.
     bindE (dict_get data ''filled_quantity'' (JNum 0)) (\<lambda>jf. bindE (py_int jf) (\<lambda>filled.
     bindE (dict_get data ''status'' (JStr [])) (\<lambda>js.
     bindE (dict_get data ''average_price'' JNull) (\<lambda>ja. bindE (optional_price ja) (\<lambda>avg.
       Inr \<lparr>os_cid = o_cid ord, os_broker_id = Some broker_id, os_state = map_status (text_or_none js) filled qty,
         os_qty = qty, os_filled = filled, os_avg_fill_price = avg\<rparr>))))))))"

definition upstox_order_status :: "upstox_env \<Rightarrow> string \<Rightarrow> (upstox_session, order_status) act" where
  "upstox_order_status env cid = bindA (getA (\<lambda>s. get_by_client_order_id cid (us_store s))) (\<lambda>found. case found of
     None \<Rightarrow> raise UnknownOrder
   | Some ord \<Rightarrow> (case o_broker_id ord of
       None \<Rightarrow> raise UnknownOrder
     | Some b \<Rightarrow> bindA (upstox_request env (OrderDetails b)) (\<lambda>payload. liftE (status_of_details ord b payload))))"

definition raw_positions :: "upstox_env \<Rightarrow> (upstox_session, json list) act" where
  "raw_positions env = bindA (upstox_request env GetPositions) (\<lambda>payload.
     liftE (bindE (dict_get payload ''data'' JNull) list_or_empty))"

primrec positions_of_rows :: "store \<Rightarrow> json list \<Rightarrow> py_error + broker_position list" where
  "positions_of_rows d [] = Inr []"
| "positions_of_rows d (row # rows) =
     bindE (dict_get row ''instrument_token'' (JStr [])) (\<lambda>jt.
       case get_by_instrument_key (text_or_none jt) d of
         None \<Rightarrow> positions_of_rows d rows
       | Some inst \<Rightarrow>
           bindE (dict_get row ''quantity'' (JNum 0)) (\<lambda>jq. bindE (py_int jq) (\<lambda>qty.
             if qty = 0 then positions_of_rows d rows
             else bindE (dict_get row ''average_price'' (JStr ''0'')) (\<lambda>ja. bindE (decimal_of_json ja) (\<lambda>avg.
               bindE (positions_of_rows d rows) (\<lambda>ps.
                 Inr (\<lparr>bp_instrument = ins_id inst, bp_qty = qty, bp_avg_price = avg\<rparr> # ps)))))))"

definition upstox_positions :: "upstox_env \<Rightarrow> (upstox_session, broker_position list) act" where
  "upstox_positions env = bindA (raw_positions env) (\<lambda>rows.
     bindA (getA us_store) (\<lambda>d. liftE (positions_of_rows d rows)))"

primrec mark_rows :: "json list \<Rightarrow> rat \<Rightarrow> py_error + rat" where
  "mark_rows [] mtm = Inr mtm"
| "mark_rows (row # rows) mtm =
     bindE (dict_get row ''quantity'' (JNum 0)) (\<lambda>jq. bindE (py_int jq) (\<lambda>qty.
     bindE (dict_get row ''last_price'' JNull) (\<lambda>jl.
       if qty \<noteq> 0 \<and> jl \<noteq> JNull
       then bindE (decimal_of_json jl) (\<lambda>last_price. mark_rows rows (dec_add mtm (dec_mul (of_int qty) last_price)))
       else mark_rows rows mtm)))"

definition upstox_get_funds :: "upstox_env \<Rightarrow> (upstox_session, funds) act" where
  "upstox_get_funds env = bindA (upstox_request env GetFunds) (\<lambda>payload.
     bindA (liftE (bindE (dict_get payload ''data'' (JObj [])) (\<lambda>data.
       bindE (dict_get data ''equity'' (JObj [])) (\<lambda>equity_data.
       bindE (dict_get equity_data ''available_margin'' (JStr ''0'')) decimal_of_json)))) (\<lambda>cash.
     bindA (raw_positions env) (\<lambda>rows.
     bindA (liftE (mark_rows rows 0)) (\<lambda>mark_to_market.
       ret \<lparr>f_cash = cash, f_equity = dec_add cash mark_to_market\<rparr>))))"

section \<open>Applying what Upstox reports\<close>

definition upstox_now :: "upstox_env \<Rightarrow> (upstox_session, instant) act" where
  "upstox_now env = (\<lambda>s. (Inr (ue_clock env (us_ticks s)), s\<lparr>us_ticks := Suc (us_ticks s)\<rparr>))"

text \<open>\<open>_apply_fill_to_position\<close> without a cash ledger.\<close>

definition upstox_apply_fill :: "position_row \<Rightarrow> order_side \<Rightarrow> int \<Rightarrow> rat \<Rightarrow> position_row \<times> rat option" where
  "upstox_apply_fill p side qty net = (
     let cost_basis = dec_quot net (of_int qty) in
     if adds_to (p_qty p) side then
       (let avg = (if p_qty p = 0 then cost_basis
              else dec_quot (dec_add (dec_mul (p_avg_price p) (of_int \<bar>p_qty p\<bar>)) (dec_mul cost_basis (of_int qty)))
                     (of_int (\<bar>p_qty p\<bar> + qty))) in
        (p\<lparr>p_avg_price := avg, p_qty := p_qty p + signed_qty side qty\<rparr>, None))
     else
       (let realized = (if side = SELL then dec_sub net (dec_mul (p_avg_price p) (of_int qty))
              else dec_sub (dec_mul (p_avg_price p) (of_int qty)) net);
            q' = (if side = SELL then p_qty p - qty else p_qty p + qty) in
        (p\<lparr>p_qty := q', p_avg_price := (if q' = 0 then 0 else p_avg_price p),
           p_realized_pnl := dec_add (p_realized_pnl p) realized\<rparr>, Some realized)))"

definition upstox_record_fill ::
  "upstox_env \<Rightarrow> order_row \<Rightarrow> nat \<Rightarrow> int \<Rightarrow> rat \<Rightarrow> instant \<Rightarrow> (store, trade_row) act" where
  "upstox_record_fill env ord inst qty fill_price ts =
     bindA (liftE (calculate_costs (o_side ord) fill_price qty (uc_segment (ue_cfg env)) (ue_rates env))) (\<lambda>costs.
     bindA (get_or_create_position inst LIVE) (\<lambda>pos.
     (case upstox_apply_fill pos (o_side ord) qty (c_net_amount costs) of (pos', realized) \<Rightarrow>
       seqA (modA (upd_position (p_id pos) (\<lambda>_. pos')))
         (add_trade (fill_trade (o_id ord) fill_price qty costs realized ts)))))"

definition upstox_book_fill ::
  "upstox_env \<Rightarrow> order_row \<Rightarrow> int \<Rightarrow> rat \<Rightarrow> instant \<Rightarrow> (store, unit) act" where
  "upstox_book_fill env ord filled_qty price ts =
     bindA (getA (get_instrument (o_instrument ord))) (\<lambda>found. case found of
       None \<Rightarrow> raise PyAssertionError
     | Some inst \<Rightarrow> bindA (upstox_record_fill env ord (ins_id inst) (filled_qty - o_filled ord) price ts) (\<lambda>_.
         set_filled_qty (o_id ord) filled_qty))"

text \<open>Moving the order to the reported state, through \<open>OPEN\<close> where the state machine asks for it.\<close>

definition advance_state :: "nat \<Rightarrow> order_state \<Rightarrow> string \<Rightarrow> (store, unit) act" where
  "advance_state oid new_state status = bindA (the_order oid) (\<lambda>ord.
     if new_state = o_state ord then ret ()
     else seqA (if o_state ord = SUBMITTED \<and> new_state \<notin> {OPEN, REJECTED_BROKER, FAILED}
            then transition oid OPEN (UpstoxStatus status) else ret ())
       (bindA (the_order oid) (\<lambda>ord'.
          if new_state = o_state ord' then ret () else transition oid new_state (UpstoxStatus status))))"

definition poll_reading :: "order_row \<Rightarrow> json \<Rightarrow> py_error + int \<times> string" where
  "poll_reading ord data =
     bindE (dict_get data ''quantity'' (JNum (of_int (o_qty ord)))) (\<lambda>jq. bindE (py_int jq) (\<lambda>qty.
     bindE (dict_get data ''filled_quantity'' (JNum 0)) (\<lambda>jf. bindE (py_int jf) (\<lambda>filled.
     bindE (dict_get data ''status'' (JStr [])) (\<lambda>js. Inr (filled, text_or_none js))))))"

definition upstox_apply_update :: "upstox_env \<Rightarrow> nat \<Rightarrow> json \<Rightarrow> (upstox_session, order_update option) act" where
  "upstox_apply_update env oid data = bindA (on_upstox_store (the_order oid)) (\<lambda>ord.
     bindA (liftE (poll_reading ord data)) (\<lambda>(filled_qty, status).
       let new_state = map_status status filled_qty (o_qty ord); newly_filled = filled_qty - o_filled ord in
       if new_state = o_state ord \<and> newly_filled \<le> 0 then ret None
       else bindA (upstox_now env) (\<lambda>ts.
         bindA (liftE (bindE (dict_get data ''average_price'' JNull) optional_price)) (\<lambda>fill_price.
         seqA (case fill_price of
             None \<Rightarrow> ret ()
           | Some price \<Rightarrow> if 0 < newly_filled then on_upstox_store (upstox_book_fill env ord filled_qty price ts) else ret ())
         (seqA (on_upstox_store (advance_state oid new_state status))
           (ret (Some \<lparr>ou_cid = o_cid ord, ou_broker_id = o_broker_id ord, ou_to_state = new_state,
              ou_filled = filled_qty, ou_fill_price = fill_price, ou_at = ts\<rparr>)))))))"

definition poll_order :: "upstox_env \<Rightarrow> order_row \<Rightarrow> (upstox_session, order_update list) act" where
  "poll_order env ord = (case o_broker_id ord of
     None \<Rightarrow> ret []
   | Some b \<Rightarrow> bindA (catchA (bindA (upstox_request env (OrderDetails b)) (\<lambda>payload. ret (Some payload)))
         (\<lambda>e. if e = UpstoxBrokerError then ret None else raise e)) (\<lambda>answer. case answer of
       None \<Rightarrow> ret []
     | Some payload \<Rightarrow> bindA (liftE (dict_get payload ''data'' (JObj []))) (\<lambda>data.
         bindA (upstox_apply_update env (o_id ord) data) (\<lambda>update. case update of
           None \<Rightarrow> ret []
         | Some u \<Rightarrow> ret [u]))))"

definition poll_and_apply_fills :: "upstox_env \<Rightarrow> (upstox_session, order_update list) act" where
  "poll_and_apply_fills env = bindA (getA (\<lambda>s. list_open_orders LIVE (us_store s))) (\<lambda>open_orders.
     bindA (forA open_orders (poll_order env)) (\<lambda>us. ret (concat us)))"

text \<open>\<open>stream_order_updates\<close> yields nothing.\<close>

definition upstox_stream_updates :: "(upstox_session, order_update list) act" where
  "upstox_stream_updates = ret []"

section \<open>What the operations do to the store\<close>

lemma on_upstox_store_run [run_simps]:
  "on_upstox_store m s = (case m (us_store s) of (r, d) \<Rightarrow> (r, s\<lparr>us_store := d\<rparr>))"
  by (simp add: on_upstox_store_def on_part_def)

lemma keeps_on_upstox_store: "keeps P m \<Longrightarrow> keeps (\<lambda>s. P (us_store s)) (on_upstox_store m)"
  unfolding on_upstox_store_def by (rule keeps_on_part) simp_all

lemma valid_on_upstox_store:
  "valid P m Q E \<Longrightarrow> valid (\<lambda>s. P (us_store s)) (on_upstox_store m) (\<lambda>x s. Q x (us_store s)) (\<lambda>s. E (us_store s))"
  unfolding on_upstox_store_def by (rule valid_on_part) simp_all

lemma upstox_request_store: "upstox_request env call s = (r, t) \<Longrightarrow> us_store t = us_store s"
  unfolding upstox_request_def using request_loop_frame by blast

lemma keeps_upstox_request [keeps_intros]: "keeps (\<lambda>s. P (us_store s)) (upstox_request env call)"
  by (rule keepsI) (metis prod.collapse upstox_request_store)

lemma keeps_upstox_now [keeps_intros]: "keeps (\<lambda>s. P (us_store s)) (upstox_now env)"
  by (simp add: keeps_def upstox_now_def)

text \<open>The live position arithmetic is the paper broker's without its cash ledger.\<close>

lemma upstox_apply_fill_keys:
  assumes "upstox_apply_fill p side qty net = (p', realized)"
  shows "p_id p' = p_id p" "p_instrument p' = p_instrument p" "p_mode p' = p_mode p"
    and "p_qty p' = p_qty p + signed_qty side qty"
  using assms by (cases side; auto simp: upstox_apply_fill_def Let_def signed_qty_def split: if_splits)+

lemma keeps_upstox_submit: "keeps (\<lambda>s. store_ok (us_store s)) (upstox_submit env rq inst oid)"
  unfolding upstox_submit_def
  by (intro keeps_intros keeps_on_upstox_store)

lemma keeps_upstox_place: "keeps (\<lambda>s. store_ok (us_store s)) (upstox_place_order env rq)"
  unfolding upstox_place_order_def
  by (intro keeps_intros keeps_on_upstox_store keeps_upstox_submit) (simp_all add: new_live_order_def)

lemma keeps_upstox_cancel: "keeps (\<lambda>s. P (us_store s)) (upstox_cancel_order env cid)"
  unfolding upstox_cancel_order_def by (intro keeps_intros)

lemma keeps_upstox_funds: "keeps (\<lambda>s. P (us_store s)) (upstox_get_funds env)"
  unfolding upstox_get_funds_def raw_positions_def by (intro keeps_intros)

lemma keeps_upstox_positions: "keeps (\<lambda>s. P (us_store s)) (upstox_positions env)"
  unfolding upstox_positions_def raw_positions_def by (intro keeps_intros)

text \<open>Booking a reported fill keeps the store well-formed when it returns.\<close>

lemma upstox_book_fill_run:
  assumes ok: "store_ok d" and ord: "get_order (o_id ord) d = Some ord" and more: "o_filled ord < filled"
    and run: "upstox_book_fill env ord filled price ts d = (Inr u, e)"
  shows "store_ok e" and "get_order j e = (if j = o_id ord then Some (ord\<lparr>o_filled := filled\<rparr>) else get_order j d)"
    and "filled \<le> o_qty ord"
    and "\<exists>tr. trades e = trades d @ [tr] \<and> t_order tr = o_id ord \<and> t_qty tr = filled - o_filled ord \<and> t_price tr = price"
proof -
  obtain inst where inst: "get_instrument (o_instrument ord) d = Some inst"
    using run by (auto simp: upstox_book_fill_def run_simps split: option.splits)
  let ?q = "filled - o_filled ord"
  obtain costs where costs: "calculate_costs (o_side ord) price ?q (uc_segment (ue_cfg env)) (ue_rates env) = Inr costs"
    using run inst
    by (cases "calculate_costs (o_side ord) price ?q (uc_segment (ue_cfg env)) (ue_rates env)")
       (auto simp: upstox_book_fill_def upstox_record_fill_def run_simps)
  obtain r d1 where goc: "get_or_create_position (ins_id inst) LIVE d = (r, d1)" by fastforce
  obtain p where p: "r = Inr p"
    using run inst costs goc by (cases r) (auto simp: upstox_book_fill_def upstox_record_fill_def run_simps)
  have ok1: "store_ok d1" using keepsE [OF keeps_get_or_create ok goc] .
  have "positions_wf d" using ok by (simp add: store_ok_def)
  note facts = get_or_create_Inr [OF this goc [unfolded p]]
  have ord1: "get_order j d1 = get_order j d" for j using get_order_get_or_create [of j "ins_id inst" LIVE d] goc by simp
  have tr1: "trades d1 = trades d" using facts(5) by auto
  obtain p' realized where af: "upstox_apply_fill p (o_side ord) ?q (c_net_amount costs) = (p', realized)" by fastforce
  note keys = upstox_apply_fill_keys [OF af]
  define d2 where "d2 = upd_position (p_id p) (\<lambda>_. p') d1"
  have ok2: "store_ok d2" unfolding d2_def by (rule store_ok_replace_position [OF ok1 facts(2)]) (simp_all add: keys)
  have ord2: "get_order j d2 = get_order j d" for j using ord1 by (simp add: d2_def)
  define tr where "tr = fill_trade (o_id ord) price ?q costs realized ts"
  have mem: "o_id ord \<in> o_id ` set (orders d2)" using get_order_Some [of "o_id ord" d2 ord] ord2 ord by force
  define d3 where "d3 = d2\<lparr>trades := trades d2 @ [tr\<lparr>t_id := next_id (map t_id (trades d2))\<rparr>]\<rparr>"
  have added: "add_trade tr d2 = (Inr (tr\<lparr>t_id := next_id (map t_id (trades d2))\<rparr>), d3)"
    using mem by (simp add: add_trade_def insert_trade_def repo_add_def Let_def run_simps tr_def d3_def)
  have "upstox_book_fill env ord filled price ts d = set_filled_qty (o_id ord) filled d3"
    using inst costs goc p af added [unfolded tr_def d2_def]
    by (simp add: upstox_book_fill_def upstox_record_fill_def run_simps)
  with run have "set_filled_qty (o_id ord) filled d3 = (Inr u, e)" by simp
  then have le: "filled \<le> o_qty ord" and e: "e = booked (o_id ord) tr filled d2"
    using ord2 ord by (auto simp: set_filled_qty_def run_simps booked_def d3_def split: if_splits)
  show "filled \<le> o_qty ord" by (rule le)
  have "store_ok (booked (o_id ord) tr filled d2)"
    by (rule run_book_trade(2) [OF ok2, where ord = ord]) (use ord2 ord more le in \<open>simp_all add: tr_def\<close>)
  then show "store_ok e" by (simp add: e)
  show "get_order j e = (if j = o_id ord then Some (ord\<lparr>o_filled := filled\<rparr>) else get_order j d)"
    using ord ord2 by (simp add: e get_order_booked)
  show "\<exists>tr. trades e = trades d @ [tr] \<and> t_order tr = o_id ord \<and> t_qty tr = filled - o_filled ord \<and> t_price tr = price"
    using tr1 by (simp add: e d2_def tr_def)
qed

lemma valid_success: "keeps P m \<Longrightarrow> valid P m (\<lambda>_. P) (\<lambda>_. True)"
  by (rule valid_conseq [OF valid_keeps]) simp_all

lemma keeps_advance_state: "keeps store_ok (advance_state oid st status)"
  unfolding advance_state_def by (intro keeps_intros)

abbreviation live_ok :: "upstox_session \<Rightarrow> bool" where
  "live_ok s \<equiv> store_ok (us_store s)"

lemma valid_apply_update: "valid live_ok (upstox_apply_update env oid data) (\<lambda>_. live_ok) (\<lambda>_. True)"
proof -
  have book: "valid (\<lambda>s. live_ok s \<and> get_order (o_id ord) (us_store s) = Some ord)
      (on_upstox_store (upstox_book_fill env ord filled price ts)) (\<lambda>_. live_ok) (\<lambda>_. True)"
    if "0 < filled - o_filled ord" for ord filled price ts
  proof (rule valid_conseq [OF valid_on_upstox_store])
    show "valid (\<lambda>d. store_ok d \<and> get_order (o_id ord) d = Some ord) (upstox_book_fill env ord filled price ts)
        (\<lambda>_. store_ok) (\<lambda>_. True)"
      unfolding valid_def using that upstox_book_fill_run(1) by (auto split: prod.split sum.split)
  qed simp_all
  have state: "valid live_ok (seqA (on_upstox_store (advance_state oid st status)) (ret u)) (\<lambda>_. live_ok) (\<lambda>_. True)" for st status and u :: "order_update option"
    by (rule valid_success) (intro keeps_intros keeps_on_upstox_store keeps_advance_state)
  have rest: "valid (\<lambda>s. live_ok s \<and> get_order (o_id ord) (us_store s) = Some ord)
      (seqA (case fill_price of None \<Rightarrow> ret () | Some price \<Rightarrow>
          if 0 < filled - o_filled ord then on_upstox_store (upstox_book_fill env ord filled price ts) else ret ())
        (seqA (on_upstox_store (advance_state oid st status)) (ret u))) (\<lambda>_. live_ok) (\<lambda>_. True)"
    for ord fill_price filled ts st status and u :: "order_update option"
  proof (rule valid_seqA [OF _ state])
    show "valid (\<lambda>s. live_ok s \<and> get_order (o_id ord) (us_store s) = Some ord)
      (case fill_price of None \<Rightarrow> ret () | Some price \<Rightarrow>
          if 0 < filled - o_filled ord then on_upstox_store (upstox_book_fill env ord filled price ts) else ret ())
      (\<lambda>_. live_ok) (\<lambda>_. True)"
      by (intro valid_option valid_if book) (simp_all add: valid_def ret_def)
  qed
  show ?thesis
    unfolding upstox_apply_update_def
  proof (rule valid_bindA [where Q = "\<lambda>ord s. live_ok s \<and> get_order (o_id ord) (us_store s) = Some ord"])
    show "valid live_ok (on_upstox_store (the_order oid))
        (\<lambda>ord s. live_ok s \<and> get_order (o_id ord) (us_store s) = Some ord) (\<lambda>_. True)"
      by (auto simp: valid_def run_simps split: option.split dest: get_order_Some)
    fix ord
    let ?P = "\<lambda>s. live_ok s \<and> get_order (o_id ord) (us_store s) = Some ord"
    have pure: "valid ?P (liftE r) (\<lambda>_. ?P) (\<lambda>_. True)" for r :: "py_error + 'x"
      by (rule valid_success) (rule keeps_liftE)
    have clock: "valid ?P (upstox_now env) (\<lambda>_. ?P) (\<lambda>_. True)"
      by (rule valid_success) (rule keeps_conj keeps_upstox_now)+
    show "valid ?P (bindA (liftE (poll_reading ord data)) (\<lambda>(filled_qty, status).
       let new_state = map_status status filled_qty (o_qty ord); newly_filled = filled_qty - o_filled ord in
       if new_state = o_state ord \<and> newly_filled \<le> 0 then ret None
       else bindA (upstox_now env) (\<lambda>ts.
         bindA (liftE (bindE (dict_get data ''average_price'' JNull) optional_price)) (\<lambda>fill_price.
         seqA (case fill_price of
             None \<Rightarrow> ret ()
           | Some price \<Rightarrow> if 0 < newly_filled then on_upstox_store (upstox_book_fill env ord filled_qty price ts) else ret ())
         (seqA (on_upstox_store (advance_state oid new_state status))
           (ret (Some \<lparr>ou_cid = o_cid ord, ou_broker_id = o_broker_id ord, ou_to_state = new_state,
              ou_filled = filled_qty, ou_fill_price = fill_price, ou_at = ts\<rparr>))))))) (\<lambda>_. live_ok) (\<lambda>_. True)"
      unfolding Let_def
      by (rule valid_bindA [OF pure]; (split prod.split)?; intro allI impI valid_if valid_bindA [OF clock] valid_bindA [OF pure] rest)
         (simp add: valid_def ret_def)
  qed
qed

lemma keeps_poll_request:
  "keeps live_ok (catchA (bindA (upstox_request env (OrderDetails b)) (\<lambda>payload. ret (Some payload)))
         (\<lambda>e. if e = UpstoxBrokerError then ret None else raise e))"
  by (intro keeps_intros)

lemma valid_poll_order: "valid live_ok (poll_order env ord) (\<lambda>_. live_ok) (\<lambda>_. True)"
proof (cases "o_broker_id ord")
  case None
  then show ?thesis by (simp add: poll_order_def valid_def ret_def)
next
  case (Some b)
  have r: "valid live_ok (ret x) (\<lambda>_. live_ok) (\<lambda>_. True)" for x :: 'x
    by (simp add: valid_def ret_def)
  have l: "valid live_ok (liftE x) (\<lambda>_. live_ok) (\<lambda>_. True)" for x :: "py_error + 'x"
    by (rule valid_success) (rule keeps_liftE)
  show ?thesis
    unfolding poll_order_def Some option.simps
    by (intro valid_bindA [OF valid_success [OF keeps_poll_request]] valid_option r valid_bindA [OF l]
        valid_bindA [OF valid_apply_update])
qed

lemma valid_poll: "valid live_ok (poll_and_apply_fills env) (\<lambda>_. live_ok) (\<lambda>_. True)"
proof -
  have loop: "valid live_ok (forA ords (poll_order env)) (\<lambda>_. live_ok) (\<lambda>_. True)" for ords
    by (rule valid_forA_suffix [where I = "\<lambda>_. live_ok"]) (rule valid_poll_order)
  have last: "valid live_ok (ret x) (\<lambda>_. live_ok) (\<lambda>_. True)" for x :: "order_update list"
    by (simp add: valid_def ret_def)
  show ?thesis unfolding poll_and_apply_fills_def
    by (rule valid_bindA [OF valid_success [OF keeps_getA]]) (rule valid_bindA [OF loop last])
qed

section \<open>Outcomes of a poll\<close>

lemma advance_state_Inr:
  assumes ord: "get_order oid d = Some ord" and run: "advance_state oid st status d = (Inr u, e)"
  shows "get_order oid e = Some (ord\<lparr>o_state := st\<rparr>)" and "j \<noteq> oid \<Longrightarrow> get_order j e = get_order j d"
    and "trades e = trades d" "positions e = positions d"
  using assms by (auto simp: advance_state_def run_simps transition_run get_order_upd split: if_splits option.splits)

lemma advance_state_reject:
  assumes "get_order oid d = Some ord" "o_state ord \<in> {OPEN, PARTIALLY_FILLED}"
  shows "advance_state oid REJECTED_BROKER status d = (Inl InvalidOrderTransition, d)"
  using assms by (auto simp: advance_state_def run_simps transition_run)

text \<open>The order after a poll that returned: the reported state, and the reported quantity if it came with a price.\<close>

lemma apply_update_run:
  assumes ok: "live_ok s" and ord: "get_order oid (us_store s) = Some ord"
    and read: "poll_reading ord data = Inr (filled, status)"
    and run: "upstox_apply_update env oid data s = (Inr res, t)"
    and st: "st = map_status status filled (o_qty ord)"
  shows "if st = o_state ord \<and> filled \<le> o_filled ord then res = None \<and> t = s
    else \<exists>price u. bindE (dict_get data ''average_price'' JNull) optional_price = Inr price \<and> res = Some u \<and>
      ou_to_state u = st \<and>
      get_order oid (us_store t) = Some (ord\<lparr>o_filled := (if price \<noteq> None \<and> o_filled ord < filled then filled else o_filled ord), o_state := st\<rparr>) \<and>
      (if price \<noteq> None \<and> o_filled ord < filled
       then \<exists>tr. trades (us_store t) = trades (us_store s) @ [tr] \<and> t_order tr = oid \<and> t_qty tr = filled - o_filled ord \<and> Some (t_price tr) = price
       else trades (us_store t) = trades (us_store s))"
proof (cases "st = o_state ord \<and> filled \<le> o_filled ord")
  case True
  then show ?thesis using run ord read by (auto simp: upstox_apply_update_def run_simps st [symmetric] Let_def)
next
  case False
  have oid: "o_id ord = oid" using get_order_Some [OF ord] by simp
  let ?ts = "ue_clock env (us_ticks s)"
  obtain price where price: "bindE (dict_get data ''average_price'' JNull) optional_price = Inr price"
    using run ord read False
    by (cases "bindE (dict_get data ''average_price'' JNull) optional_price")
       (auto simp: upstox_apply_update_def run_simps st [symmetric] Let_def upstox_now_def)
  let ?book = "price \<noteq> None \<and> o_filled ord < filled"
  obtain d1 where d1: "if ?book then upstox_book_fill env ord filled (the price) ?ts (us_store s) = (Inr (), d1) else d1 = us_store s"
    and adv: "advance_state oid st status d1 = (Inr (), us_store t)"
    and res: "\<exists>u. res = Some u \<and> ou_to_state u = st"
  proof (cases ?book)
    case True
    then obtain x where x: "price = Some x" by auto
    show thesis
    proof (cases "upstox_book_fill env ord filled x ?ts (us_store s)")
      case (Pair r e)
      then show thesis using run ord read False price x True that [of e]
        by (cases r)
           (auto simp: upstox_apply_update_def run_simps st [symmetric] Let_def upstox_now_def split: prod.splits sum.splits)
    qed
  next
    case nb: False
    show thesis using run ord read False price nb that [of "us_store s"]
      by (auto simp: upstox_apply_update_def run_simps st [symmetric] Let_def upstox_now_def split: prod.splits sum.splits option.splits)
  qed
  show ?thesis
  proof (cases ?book)
    case True
    then have run1: "upstox_book_fill env ord filled (the price) ?ts (us_store s) = (Inr (), d1)" using d1 by simp
    have ord': "get_order (o_id ord) (us_store s) = Some ord" using ord oid by simp
    have lt: "o_filled ord < filled" using True by simp
    note b = upstox_book_fill_run [OF ok ord' lt run1]
    have "get_order oid d1 = Some (ord\<lparr>o_filled := filled\<rparr>)" using b(2) oid by simp
    note a = advance_state_Inr [OF this adv]
    show ?thesis using b(4) a(1,3) False True price res oid by auto
  next
    case nb: False
    then have "get_order oid d1 = Some ord" using d1 ord by (simp split: if_splits)
    note a = advance_state_Inr [OF this adv]
    have "ord\<lparr>o_filled := o_filled ord\<rparr> = ord" by simp
    then show ?thesis using a(1,3) d1 False nb price res by (auto split: if_splits)
  qed
qed

text \<open>A rejection of an order that was already open aborts the whole poll.\<close>

lemma poll_rejected:
  assumes ord: "list_open_orders LIVE (us_store s) = ord # rest" and wf: "orders_wf (us_store s)"
    and st: "o_state ord \<in> {OPEN, PARTIALLY_FILLED}" and b: "o_broker_id ord = Some b"
    and net: "ue_net env (length (us_sent s)) (OrderDetails b) = HttpOk (JObj [(''data'', JObj [(''status'', JStr ''rejected'')])])"
    and filled: "0 \<le> o_filled ord"
  shows "fst (poll_and_apply_fills env s) = Inl InvalidOrderTransition"
proof -
  have "ord \<in> set (list_open_orders LIVE (us_store s))" by (simp add: ord)
  then have mem: "ord \<in> set (orders (us_store s))" by (simp add: list_open_orders_def)
  have get: "get_order (o_id ord) (us_store s) = Some ord" by (rule get_order_member [OF wf mem])
  let ?data = "JObj [(''status'', JStr ''rejected'')]"
  have read: "poll_reading ord ?data = Inr (0, ''rejected'')"
    using py_int_of_int [of 0] py_int_of_int [of "o_qty ord"] by (simp add: poll_reading_def dict_get_def)
  have ms: "map_status ''rejected'' 0 (o_qty ord) = REJECTED_BROKER"
    by (simp add: map_status_def terminal_status_def lower_def lower_char_def Let_def)
  let ?s1 = "s\<lparr>us_sent := us_sent s @ [OrderDetails b]\<rparr>"
  have req: "upstox_request env (OrderDetails b) s = (Inr (JObj [(''data'', ?data)]), ?s1)"
    using net by (simp add: upstox_request_def request_loop.simps [of env "OrderDetails b" 0])
  have "fst (upstox_apply_update env (o_id ord) ?data ?s1) = Inl InvalidOrderTransition"
    using st filled
    by (auto simp: upstox_apply_update_def run_simps get read ms Let_def upstox_now_def optional_price_def dict_get_def
        advance_state_reject [OF get])
  then have "fst (poll_order env ord s) = Inl InvalidOrderTransition"
    by (auto simp: poll_order_def b run_bindA catchA_def req run_ret run_liftE dict_get_def split: prod.split sum.split)
  then show ?thesis
    by (auto simp: poll_and_apply_fills_def run_simps ord split: prod.split sum.split)
qed

section \<open>The interface\<close>

definition upstox_ops :: "upstox_env \<Rightarrow> broker_ops" where
  "upstox_ops env = \<lparr>
     br_place_order = (\<lambda>rq d. case upstox_place_order env rq (upstox_init d) of (r, s) \<Rightarrow> (r, us_store s)),
     br_get_funds = (\<lambda>d. case upstox_get_funds env (upstox_init d) of (r, s) \<Rightarrow> (r, us_store s))\<rparr>"

lemma upstox_place_outcome:
  assumes ok: "live_ok s" and run: "upstox_place_order env rq s = (Inr ack, t)"
  shows "ack_cid ack = rq_cid rq" "get_by_client_order_id (rq_cid rq) (us_store s) = None"
    and "\<exists>ord. get_by_client_order_id (rq_cid rq) (us_store t) = Some ord \<and> placed_as rq LIVE ord \<and> o_state ord = SUBMITTED \<and>
      o_broker_id ord = Some (ack_broker_id ack)"
proof -
  obtain inst where inst: "get_instrument (rq_instrument rq) (us_store s) = Some inst"
    using run by (auto simp: upstox_place_order_def run_simps split: option.splits)
  obtain ord d1 where rc: "record_created (new_live_order rq) (us_store s) = (Inr ord, d1)"
    and sub: "upstox_submit env rq inst (o_id ord) (s\<lparr>us_store := d1\<rparr>) = (Inr ack, t)"
    using run inst by (auto simp: upstox_place_order_def run_simps split: prod.splits sum.splits)
  note r = record_created_Inr [OF rc]
  have okt: "live_ok t" using keepsE [OF keeps_upstox_place ok run] .
  let ?i = "o_id ord"
  obtain d2 where t1: "transition ?i SUBMITTING NoPayload d1 = (Inr (), d2)"
    using sub by (auto simp: upstox_submit_def run_simps split: prod.splits sum.splits)
  have o2: "get_order ?i d2 = Some (ord\<lparr>o_state := SUBMITTING\<rparr>)"
    using t1 r(3) by (auto simp: transition_run get_order_upd split: if_splits)
  obtain res s3 where q: "upstox_request env (PlaceOrder (place_body_of env rq inst)) (s\<lparr>us_store := d2\<rparr>) = (res, s3)" by fastforce
  have s3: "us_store s3 = d2" using upstox_request_store [OF q] by simp
  obtain bid where bid: "bindE res placed_order_id = Inr bid"
    and fin: "seqA (on_upstox_store (set_broker_id ?i bid))
         (seqA (on_upstox_store (transition ?i SUBMITTED NoPayload)) (ret \<lparr>ack_cid = rq_cid rq, ack_broker_id = bid\<rparr>)) s3 = (Inr ack, t)"
  proof (cases "bindE res placed_order_id")
    case (Inr b)
    then show thesis using sub t1 q that [of b]
      by (cases res) (auto simp: upstox_submit_def run_simps catchA_def)
  next
    case (Inl e)
    then show thesis using sub t1 q
      by (cases res) (auto simp: upstox_submit_def run_simps catchA_def split: if_splits prod.splits sum.splits)
  qed
  have o3: "get_order ?i (upd_order ?i (\<lambda>r. r\<lparr>o_broker_id := Some bid\<rparr>) d2) = Some (ord\<lparr>o_state := SUBMITTING, o_broker_id := Some bid\<rparr>)"
    using o2 by (simp add: get_order_upd)
  have ack: "ack = \<lparr>ack_cid = rq_cid rq, ack_broker_id = bid\<rparr>"
    and o4: "get_order ?i (us_store t) = Some (ord\<lparr>o_state := SUBMITTED, o_broker_id := Some bid\<rparr>)"
    using fin s3 o3 by (auto simp: run_simps set_broker_id_def transition_run get_order_upd split: if_splits option.splits prod.splits sum.splits)
  show "ack_cid ack = rq_cid rq" by (simp add: ack)
  show "get_by_client_order_id (rq_cid rq) (us_store s) = None"
    using r(4) by (simp add: get_by_client_order_id_def tbl_get_None new_live_order_def)
  let ?ord = "ord\<lparr>o_state := SUBMITTED, o_broker_id := Some bid\<rparr>"
  have "?ord \<in> set (orders (us_store t))" using get_order_Some [OF o4] by simp
  with okt have "get_by_client_order_id (o_cid ?ord) (us_store t) = Some ?ord"
    unfolding store_ok_def by (intro get_by_cid_member) simp_all
  moreover have "o_cid ?ord = rq_cid rq" "placed_as rq LIVE ?ord"
    by (subst r(1), simp add: new_live_order_def placed_as_def)+
  ultimately show "\<exists>ord. get_by_client_order_id (rq_cid rq) (us_store t) = Some ord \<and> placed_as rq LIVE ord \<and> o_state ord = SUBMITTED \<and>
      o_broker_id ord = Some (ack_broker_id ack)"
    by (intro exI [of _ ?ord]) (simp add: ack)
qed

interpretation upstox_broker: broker "upstox_ops env" LIVE for env
proof
  fix rq d ack e r
  have init: "us_store (upstox_init d) = d" for d by (simp add: upstox_init_def)
  show keeps: "keeps store_ok (br_place_order (upstox_ops env) rq)"
  proof (rule keepsI)
    fix d assume "store_ok d"
    then have "live_ok (snd (upstox_place_order env rq (upstox_init d)))" by (intro keepsD [OF keeps_upstox_place]) (simp add: init)
    then show "store_ok (snd (br_place_order (upstox_ops env) rq d))" by (auto simp: upstox_ops_def split: prod.split)
  qed
  have same: "us_store (snd (upstox_get_funds env (upstox_init d))) = d" for d
    using keeps_upstox_funds [of "\<lambda>x. x = d" env] by (simp add: keeps_def init)
  show "keeps store_ok (br_get_funds (upstox_ops env))"
    using same by (auto simp: keeps_def upstox_ops_def split: prod.split) (metis snd_conv)
  show "e\<lparr>paper_account := None\<rparr> = d\<lparr>paper_account := None\<rparr>" if "br_get_funds (upstox_ops env) d = (r, e)"
    using that same [of d] by (auto simp: upstox_ops_def split: prod.splits)
  assume ok: "store_ok d" and place: "br_place_order (upstox_ops env) rq d = (Inr ack, e)"
  then obtain t where run: "upstox_place_order env rq (upstox_init d) = (Inr ack, t)" and e: "e = us_store t"
    by (auto simp: upstox_ops_def split: prod.splits)
  have ok': "live_ok (upstox_init d)" using ok by (simp add: init)
  note out = upstox_place_outcome [OF ok' run, unfolded init, folded e]
  show "ack_cid ack = rq_cid rq \<and> (\<exists>ord. get_by_client_order_id (rq_cid rq) e = Some ord \<and> placed_as rq LIVE ord \<and>
        o_state ord \<notin> {PENDING_RISK, REJECTED_RISK, SUBMITTING, FAILED})"
    using out(1,3) by auto
  show "get_by_client_order_id (rq_cid rq) d = None" by (rule out(2))
qed

text \<open>The live position arithmetic is the paper broker's, without its cash ledger.\<close>

lemma upstox_apply_fill_paper:
  assumes "dec_rnd net = net"
  shows "paper_apply_fill p cash side qty net =
    (fst (upstox_apply_fill p side qty net),
     (if side = BUY then dec_sub cash net else dec_add cash net),
     snd (upstox_apply_fill p side qty net))"
proof -
  have "dec_neg net = - net" using assms by (simp add: dec_neg_def dec.rnd_minus)
  then have "dec_add cash (dec_neg net) = dec_sub cash net" by (simp add: dec_add_def dec_sub_def)
  then show ?thesis by (cases side) (simp_all add: paper_apply_fill_def upstox_apply_fill_def Let_def)
qed

end
