(* ===== verification/PT_Reconcile.thy ===== *)
theory PT_Reconcile
  imports PT_Upstox PT_Risk
begin

text \<open>
  Startup reconciliation (\<open>orchestrator/reconcile.py\<close>): orders that were left between submission
  and the exchange are failed, or resolved by asking Upstox, and the local live positions are
  corrected to the broker's. The iteration order of a Python set is a parameter (\<open>iter\<close>), as is
  the clock of the kill switch.
\<close>

section \<open>Stuck orders\<close>

record finding =
  fd_cid :: string
  fd_was_state :: order_state

definition stuck_states :: "order_state list" where
  "stuck_states = [SUBMITTING, SUBMITTED]"

definition list_stuck :: "trading_mode \<Rightarrow> bool \<Rightarrow> store \<Rightarrow> order_row list" where
  "list_stuck mode with_broker d = filter (\<lambda>ord. o_mode ord = mode \<and> o_state ord \<in> set stuck_states \<and>
     (with_broker \<longrightarrow> o_broker_id ord = None)) (orders d)"

definition fail_stuck :: "order_row \<Rightarrow> (store, finding) act" where
  "fail_stuck ord =
     seqA (transition (o_id ord) FAILED FoundAtStartup)
     (seqA (add_risk_event \<lparr>re_id = 0, re_kind = RiskRejection, re_detail = StuckOrder (o_cid ord) (o_state ord)\<rparr>)
       (ret \<lparr>fd_cid = o_cid ord, fd_was_state = o_state ord\<rparr>))"

definition fail_all_stuck :: "trading_mode \<Rightarrow> bool \<Rightarrow> (store, finding list) act" where
  "fail_all_stuck mode with_broker = bindA (getA (list_stuck mode with_broker)) (\<lambda>ords. forA ords fail_stuck)"

section \<open>Positions\<close>

text \<open>A dict comprehension: for a repeated key the last entry counts.\<close>

definition by_instrument :: "broker_position list \<Rightarrow> nat \<rightharpoonup> broker_position" where
  "by_instrument ps = map_of (rev (map (\<lambda>p. (bp_instrument p, p)) ps))"

definition local_by_instrument :: "position_row list \<Rightarrow> nat \<rightharpoonup> position_row" where
  "local_by_instrument ps = map_of (rev (map (\<lambda>p. (p_instrument p, p)) ps))"

definition broker_qty :: "(nat \<rightharpoonup> broker_position) \<Rightarrow> nat \<Rightarrow> int" where
  "broker_qty b i = (case b i of None \<Rightarrow> 0 | Some p \<Rightarrow> bp_qty p)"

definition local_qty :: "(nat \<rightharpoonup> position_row) \<Rightarrow> nat \<Rightarrow> int" where
  "local_qty l i = (case l i of None \<Rightarrow> 0 | Some p \<Rightarrow> p_qty p)"

text \<open>One turn of the loop of \<open>_reconcile_positions\<close>.\<close>

definition correct_position ::
  "instant \<Rightarrow> int \<Rightarrow> (nat \<rightharpoonup> broker_position) \<Rightarrow> (nat \<rightharpoonup> position_row) \<Rightarrow> nat \<Rightarrow> (store, unit) act" where
  "correct_position now threshold b l i =
     (if broker_qty b i = local_qty l i then ret ()
      else let divergence = \<bar>broker_qty b i - local_qty l i\<bar>; breach = threshold < divergence in
       bindA (case l i of None \<Rightarrow> get_or_create_position i LIVE | Some p \<Rightarrow> ret p) (\<lambda>pos.
       seqA (modA (upd_position (p_id pos) (\<lambda>p. p\<lparr>p_qty := broker_qty b i,
           p_avg_price := (case b i of Some q \<Rightarrow> bp_avg_price q | None \<Rightarrow> 0)\<rparr>)))
       (seqA (bindA (add_risk_event \<lparr>re_id = 0, re_kind = (if breach then LimitBreach else RiskRejection),
           re_detail = PositionMismatch i (local_qty l i) (broker_qty b i)\<rparr>) (\<lambda>_. ret ()))
       (if breach then bindA (ks_trip now (PositionDivergence divergence threshold i)) (\<lambda>_. ret ()) else ret ()))))"

definition reconcile_positions ::
  "(nat list \<Rightarrow> nat list) \<Rightarrow> instant \<Rightarrow> int \<Rightarrow> broker_position list \<Rightarrow> (store, unit) act" where
  "reconcile_positions iter now threshold broker_positions = bindA (getA (list_open_positions LIVE)) (\<lambda>local.
     let b = by_instrument broker_positions; l = local_by_instrument local in
     bindA (forA (iter (map bp_instrument broker_positions @ map p_instrument local)) (correct_position now threshold b l))
       (\<lambda>_. ret ()))"

section \<open>The whole reconciliation\<close>

definition reconcile_on_startup ::
  "(nat list \<Rightarrow> nat list) \<Rightarrow> instant \<Rightarrow> trading_mode \<Rightarrow> upstox_env option \<Rightarrow> int \<Rightarrow> (upstox_session, finding list) act" where
  "reconcile_on_startup iter now mode live threshold =
     bindA (on_upstox_store (fail_all_stuck mode (live \<noteq> None))) (\<lambda>findings.
     case live of
       None \<Rightarrow> ret findings
     | Some env \<Rightarrow>
         bindA (poll_and_apply_fills env) (\<lambda>_.
         bindA (upstox_positions env) (\<lambda>ps.
         bindA (on_upstox_store (reconcile_positions iter now threshold ps)) (\<lambda>_. ret findings))))"

section \<open>Every stuck order is resolved\<close>

lemma keeps_fail_stuck [keeps_intros]: "keeps store_ok (fail_stuck ord)"
  unfolding fail_stuck_def by (intro keeps_intros)

lemma keeps_fail_all_stuck [keeps_intros]: "keeps store_ok (fail_all_stuck mode b)"
  unfolding fail_all_stuck_def by (intro keeps_intros)

text \<open>The loop invariant: what is still to be failed is unchanged, everything else that is stuck is not to be failed.\<close>

definition failing :: "store \<Rightarrow> order_row list \<Rightarrow> order_row list \<Rightarrow> store \<Rightarrow> bool" where
  "failing d0 all todo d \<longleftrightarrow> store_ok d \<and> distinct (map o_id todo) \<and> set todo \<subseteq> set all \<and>
     (\<forall>ord \<in> set todo. get_order (o_id ord) d = Some ord \<and> o_state ord \<in> set stuck_states) \<and>
     (\<forall>i. get_order i d = (case get_order i d0 of None \<Rightarrow> None
        | Some ord \<Rightarrow> Some (if ord \<in> set all - set todo then ord\<lparr>o_state := FAILED\<rparr> else ord)))"

lemma run_add_risk_event: "\<exists>r. add_risk_event x d = (Inr r, d\<lparr>risk_events := risk_events d @ [r]\<rparr>)"
  by (simp add: add_risk_event_def repo_add_def Let_def)

lemma fail_stuck_run:
  assumes "get_order (o_id ord) d = Some ord" "o_state ord \<in> set stuck_states"
  shows "\<exists>f e. fail_stuck ord d = (Inr f, e) \<and> only_order (o_id ord) (ord\<lparr>o_state := FAILED\<rparr>) d e \<and>
    f = \<lparr>fd_cid = o_cid ord, fd_was_state = o_state ord\<rparr>"
proof -
  have "FAILED \<in> set (allowed_transitions (o_state ord))" using assms(2) by (auto simp: stuck_states_def)
  from transition_step [OF assms(1) this, of FoundAtStartup] obtain d1 where
    d1: "transition (o_id ord) FAILED FoundAtStartup d = (Inr (), d1)" "only_order (o_id ord) (ord\<lparr>o_state := FAILED\<rparr>) d d1"
    by auto
  show ?thesis using d1 run_add_risk_event [of _ d1]
    by (auto simp: fail_stuck_def run_simps only_order_def get_order_def repo_get_def add_risk_event_def repo_add_def Let_def)
qed

lemma failing_step: "valid (failing d0 all (ord # todo)) (fail_stuck ord) (\<lambda>_. failing d0 all todo) (\<lambda>_. False)"
proof (rule validI)
  fix d assume inv: "failing d0 all (ord # todo) d"
  then have o: "get_order (o_id ord) d = Some ord" "o_state ord \<in> set stuck_states" and ok: "store_ok d"
    and d: "o_id ord \<notin> o_id ` set todo" "distinct (map o_id todo)" and sub: "ord \<in> set all" "set todo \<subseteq> set all"
    by (auto simp: failing_def)
  from fail_stuck_run [OF o] obtain f e where run: "fail_stuck ord d = (Inr f, e)"
    and only: "only_order (o_id ord) (ord\<lparr>o_state := FAILED\<rparr>) d e" by blast
  have all: "get_order i d = (case get_order i d0 of None \<Rightarrow> None
      | Some q \<Rightarrow> Some (if q \<in> set all - set (ord # todo) then q\<lparr>o_state := FAILED\<rparr> else q))" for i
    using inv by (simp add: failing_def)
  have "get_order (o_id q) e = Some q \<and> o_state q \<in> set stuck_states" if "q \<in> set todo" for q
  proof -
    have "o_id q \<noteq> o_id ord" using imageI [OF that, of o_id] d(1) by metis
    then have same: "get_order (o_id q) e = get_order (o_id q) d" using only by (simp add: only_order_def)
    have "\<forall>q \<in> set (ord # todo). get_order (o_id q) d = Some q \<and> o_state q \<in> set stuck_states"
      using inv unfolding failing_def by (elim conjE)
    then show ?thesis unfolding same using that by simp
  qed
  moreover have "get_order i e = (case get_order i d0 of None \<Rightarrow> None
      | Some q \<Rightarrow> Some (if q \<in> set all - set todo then q\<lparr>o_state := FAILED\<rparr> else q))" for i
  proof (cases "i = o_id ord")
    case False
    then have same: "get_order i e = get_order i d" using only by (simp add: only_order_def)
    show ?thesis
    proof (cases "get_order i d0")
      case (Some q)
      then have "q \<noteq> ord" using get_order_Some [OF Some] False by auto
      then show ?thesis using all [of i] Some same by simp
    qed (use all [of i] same in simp)
  next
    case True
    have "ord \<notin> set todo" using d(1) by auto
    from all [of i] o(1) True obtain q where q: "get_order i d0 = Some q"
      "ord = (if q \<in> set all - set (ord # todo) then q\<lparr>o_state := FAILED\<rparr> else q)" by (auto split: option.splits)
    have "o_state ord \<noteq> FAILED" using o(2) by (auto simp: stuck_states_def)
    with q(2) have "q = ord" by (auto split: if_splits)
    then show ?thesis using q(1) True only sub(1) \<open>ord \<notin> set todo\<close> by (simp add: only_order_def)
  qed
  moreover have "store_ok e" using keepsE [OF keeps_fail_stuck ok run] .
  ultimately show "case fail_stuck ord d of (Inl x, t) \<Rightarrow> False | (Inr x, t) \<Rightarrow> failing d0 all todo t"
    using run d(2) sub by (simp add: failing_def)
qed

text \<open>Failing the stuck orders never raises, and changes the state of exactly those orders.\<close>

lemma fail_all_stuck_run:
  assumes ok: "store_ok d"
  shows "\<exists>fs e. fail_all_stuck mode b d = (Inr fs, e) \<and> store_ok e \<and>
    (\<forall>i. get_order i e = (case get_order i d of None \<Rightarrow> None
       | Some ord \<Rightarrow> Some (if ord \<in> set (list_stuck mode b d) then ord\<lparr>o_state := FAILED\<rparr> else ord)))"
proof -
  let ?all = "list_stuck mode b d"
  have wf: "orders_wf d" using ok by (simp add: store_ok_def)
  then have "distinct (map o_id ?all)" by (simp add: orders_wf_def list_stuck_def distinct_map_filter)
  moreover have "get_order (o_id ord) d = Some ord \<and> o_state ord \<in> set stuck_states" if "ord \<in> set ?all" for ord
    using that get_order_member [OF wf] by (auto simp: list_stuck_def)
  ultimately have start: "failing d ?all ?all d" using ok by (auto simp: failing_def split: option.split)
  have v: "valid (failing d ?all ?all) (forA ?all fail_stuck) (\<lambda>_. failing d ?all []) (\<lambda>_. False)"
    by (rule valid_forA_suffix [where I = "failing d ?all"]) (rule failing_step)
  obtain r e where run: "forA ?all fail_stuck d = (r, e)" by fastforce
  show ?thesis
  proof (cases r)
    case (Inl x)
    then show ?thesis using valid_InlD [OF v start] run by auto
  next
    case (Inr fs)
    then have "failing d ?all [] e" using valid_InrD [OF v start] run by auto
    then have "store_ok e" "\<forall>i. get_order i e = (case get_order i d of None \<Rightarrow> None
       | Some ord \<Rightarrow> Some (if ord \<in> set ?all then ord\<lparr>o_state := FAILED\<rparr> else ord))"
      unfolding failing_def list.set Diff_empty by blast+
    then show ?thesis using run Inr by (intro exI [of _ fs] exI [of _ e]) (simp add: fail_all_stuck_def run_simps)
  qed
qed

section \<open>The broker wins\<close>

definition live_qty :: "store \<Rightarrow> nat \<Rightarrow> int" where
  "live_qty d i = (case get_for i LIVE d of None \<Rightarrow> 0 | Some p \<Rightarrow> p_qty p)"

lemma find_append_one: "find P (xs @ [y]) = (case find P xs of None \<Rightarrow> if P y then Some y else None | Some x \<Rightarrow> Some x)"
  by (induction xs) simp_all

lemma map_of_rev_Some: "map_of (rev (map (\<lambda>p. (key p, p)) ps)) i = Some p \<Longrightarrow> p \<in> set ps \<and> key p = i"
  by (auto dest!: map_of_SomeD)

lemma map_of_rev_None: "map_of (rev (map (\<lambda>p. (key p, p)) ps)) i = None \<longleftrightarrow> i \<notin> key ` set ps"
  by (force simp: map_of_eq_None_iff)

lemma broker_qty_absent: "i \<notin> bp_instrument ` set ps \<Longrightarrow> broker_qty (by_instrument ps) i = 0"
  by (simp add: broker_qty_def by_instrument_def map_of_rev_None [THEN iffD2])

text \<open>The local positions are read once; the open one of an instrument is the row of the table.\<close>

lemma local_open:
  assumes wf: "positions_wf d"
  shows "local_by_instrument (list_open_positions LIVE d) i =
    (case get_for i LIVE d of None \<Rightarrow> None | Some p \<Rightarrow> if p_qty p = 0 then None else Some p)"
proof -
  let ?l = "local_by_instrument (list_open_positions LIVE d)"
  have mem: "p \<in> set (list_open_positions LIVE d) \<longleftrightarrow> p \<in> set (positions d) \<and> p_mode p = LIVE \<and> p_qty p \<noteq> 0" for p
    by (simp add: list_open_positions_def)
  show ?thesis
  proof (cases "?l i")
    case None
    then have "i \<notin> p_instrument ` set (list_open_positions LIVE d)" by (simp add: local_by_instrument_def map_of_rev_None)
    then have "p_qty p = 0" if "get_for i LIVE d = Some p" for p
      using get_for_Some [OF that] mem [of p] by (auto simp: image_iff)
    then show ?thesis using None by (simp split: option.split)
  next
    case (Some p)
    then have p: "p \<in> set (list_open_positions LIVE d)" "p_instrument p = i"
      using map_of_rev_Some [of p_instrument "list_open_positions LIVE d" i p] unfolding local_by_instrument_def by blast+
    then have "get_for i LIVE d = Some p" using get_for_member [OF wf, of p] mem [of p] by simp
    then show ?thesis using Some p mem [of p] by simp
  qed
qed

lemma local_qty_live: "positions_wf d \<Longrightarrow> local_qty (local_by_instrument (list_open_positions LIVE d)) i = live_qty d i"
  by (simp add: local_qty_def local_open live_qty_def split: option.split)

text \<open>The loop invariant: instruments still to be visited are as they were, all others are as the broker has them.\<close>

definition breach :: "int \<Rightarrow> (nat \<rightharpoonup> broker_position) \<Rightarrow> store \<Rightarrow> nat \<Rightarrow> bool" where
  "breach threshold b d i \<longleftrightarrow> broker_qty b i \<noteq> live_qty d i \<and> threshold < \<bar>broker_qty b i - live_qty d i\<bar>"

definition correcting :: "int \<Rightarrow> store \<Rightarrow> (nat \<rightharpoonup> broker_position) \<Rightarrow> nat list \<Rightarrow> store \<Rightarrow> bool" where
  "correcting threshold d0 b todo d \<longleftrightarrow> store_ok d \<and> distinct todo \<and> instruments d = instruments d0 \<and>
     (\<forall>i \<in> set todo. get_for i LIVE d = get_for i LIVE d0) \<and>
     (\<forall>i. i \<notin> set todo \<longrightarrow> live_qty d i = broker_qty b i \<and> (breach threshold b d0 i \<longrightarrow> halted d))"

lemma run_ks_trip: "\<exists>row e. ks_trip now r d = (Inr row, e) \<and> positions e = positions d \<and> orders e = orders d \<and>
    instruments e = instruments d \<and> trades e = trades d \<and> order_events e = order_events d \<and> paper_account e = paper_account d"
  by (auto simp: ks_trip_def ks_run split: option.split)

lemma halted_trip: "halted (snd (ks_trip now r d))"
  unfolding halted_def ks_trip_run by (simp add: halted_def)

lemma live_qty_upd:
  assumes "positions_wf d" "p \<in> set (positions d)" "p_mode p = LIVE"
  shows "live_qty (upd_position (p_id p) (\<lambda>r. r\<lparr>p_qty := q, p_avg_price := a\<rparr>) d) i =
    (if i = p_instrument p then q else live_qty d i)"
  using get_for_upd [OF assms(1,2), of "\<lambda>r. r\<lparr>p_qty := q, p_avg_price := a\<rparr>" i LIVE] assms(3) by (simp add: live_qty_def)

lemma correct_position_run:
  assumes ok: "store_ok d" and known: "i \<in> ins_id ` set (instruments d)"
    and l: "\<And>p. l i = Some p \<Longrightarrow> get_for i LIVE d = Some p"
    and none: "l i = None \<Longrightarrow> live_qty d i = 0"
  shows "\<exists>e. correct_position now threshold b l i d = (Inr (), e) \<and> store_ok e \<and> instruments e = instruments d \<and>
    live_qty e i = broker_qty b i \<and> (\<forall>j. j \<noteq> i \<longrightarrow> get_for j LIVE e = get_for j LIVE d) \<and>
    (threshold < \<bar>broker_qty b i - live_qty d i\<bar> \<and> broker_qty b i \<noteq> live_qty d i \<longrightarrow> halted e) \<and> (halted d \<longrightarrow> halted e)"
proof -
  have lq: "local_qty l i = live_qty d i"
    using l none by (cases "l i") (auto simp: local_qty_def live_qty_def)
  show ?thesis
  proof (cases "broker_qty b i = live_qty d i")
    case True
    then show ?thesis using ok by (simp add: correct_position_def lq run_ret)
  next
    case False
    let ?get = "case l i of None \<Rightarrow> get_or_create_position i LIVE | Some p \<Rightarrow> ret p"
    obtain p d1 where get: "?get d = (Inr p, d1)" and p: "p \<in> set (positions d1)" "p_instrument p = i" "p_mode p = LIVE"
      and ok1: "store_ok d1" and same1: "instruments d1 = instruments d" "kill_switch d1 = kill_switch d"
      "\<And>j. j \<noteq> i \<Longrightarrow> get_for j LIVE d1 = get_for j LIVE d"
    proof (cases "l i")
      case (Some q)
      then have "get_for i LIVE d = Some q" by (rule l)
      from get_for_Some [OF this] show thesis using Some ok by (intro that [of q d]) (simp_all add: run_ret)
    next
      case None
      obtain q d1 where g: "get_or_create_position i LIVE d = (Inr q, d1)" using get_or_create_total [OF known] by blast
      have "positions_wf d" using ok by (simp add: store_ok_def)
      note f = get_or_create_Inr [OF this g]
      have "get_for j LIVE d1 = get_for j LIVE d" if "j \<noteq> i" for j
        using f(3,5) that by (auto simp: get_for_def find_append_one split: option.splits)
      then show thesis using None g f keepsE [OF keeps_get_or_create ok g] by (intro that [of q d1]) auto
    qed
    define d2 where "d2 = upd_position (p_id p) (\<lambda>r. r\<lparr>p_qty := broker_qty b i,
        p_avg_price := (case b i of Some q \<Rightarrow> bp_avg_price q | None \<Rightarrow> 0)\<rparr>) d1"
    have ok2: "store_ok d2" unfolding d2_def by (rule store_ok_upd_position [OF ok1]) simp_all
    have wf1: "positions_wf d1" using ok1 by (simp add: store_ok_def)
    have q2: "live_qty d2 i = broker_qty b i" using live_qty_upd [OF wf1 p(1,3)] p(2) by (simp add: d2_def)
    have g2: "get_for j LIVE d2 = get_for j LIVE d" if "j \<noteq> i" for j
      using get_for_upd [OF wf1 p(1), of "\<lambda>r. r\<lparr>p_qty := broker_qty b i,
        p_avg_price := (case b i of Some q \<Rightarrow> bp_avg_price q | None \<Rightarrow> 0)\<rparr>" j LIVE] p(2) same1(3) [OF that] that
      by (simp add: d2_def)
    define large where "large \<longleftrightarrow> threshold < \<bar>broker_qty b i - live_qty d i\<bar>"
    obtain r where r: "add_risk_event \<lparr>re_id = 0, re_kind = (if large then LimitBreach else RiskRejection),
           re_detail = PositionMismatch i (local_qty l i) (broker_qty b i)\<rparr> d2 = (Inr r, d2\<lparr>risk_events := risk_events d2 @ [r]\<rparr>)"
      using run_add_risk_event by blast
    let ?d3 = "d2\<lparr>risk_events := risk_events d2 @ [r]\<rparr>"
    have ok3: "store_ok ?d3" using ok2 by (rule store_ok_same) simp_all
    have pos3: "get_for j LIVE ?d3 = get_for j LIVE d2" for j by (simp add: get_for_def)
    obtain e where fin: "(if large then bindA (ks_trip now (PositionDivergence \<bar>broker_qty b i - live_qty d i\<bar> threshold i)) (\<lambda>_. ret ()) else ret ()) ?d3 = (Inr (), e)"
      and e: "positions e = positions d2" "instruments e = instruments d2" "store_ok e" "large \<longrightarrow> halted e" "halted d2 \<longrightarrow> halted e"
    proof (cases large)
      case True
      obtain row e where t: "ks_trip now (PositionDivergence \<bar>broker_qty b i - live_qty d i\<bar> threshold i) ?d3 = (Inr row, e)"
        "positions e = positions ?d3" "instruments e = instruments ?d3" using run_ks_trip by blast
      have "store_ok e" by (rule keepsE [OF keeps_ks_trip ok3 t(1)])
      moreover have "halted e" using halted_trip [of now "PositionDivergence \<bar>broker_qty b i - live_qty d i\<bar> threshold i" ?d3] unfolding t(1) snd_conv .
      ultimately show thesis using True t by (intro that [of e]) (simp_all add: run_simps)
    next
      case nb: False
      have "halted ?d3 = halted d2" by (simp add: halted_def ks_of_def)
      then show thesis using nb ok3 by (intro that [of ?d3]) (simp_all add: run_ret)
    qed
    have "correct_position now threshold b l i d = (Inr (), e)"
      using False get r fin
      by (simp add: correct_position_def lq run_bindA run_seqA run_modA run_ret d2_def large_def Let_def)
    moreover have "get_for j LIVE e = get_for j LIVE d2" for j using e(1) by (simp add: get_for_def)
    moreover have "halted d2 = halted d" by (simp add: halted_def ks_of_def d2_def same1(2))
    ultimately show ?thesis using e g2 q2 same1(1) by (intro exI [of _ e]) (auto simp: large_def d2_def live_qty_def)
  qed
qed

lemma correcting_step:
  assumes known: "i \<in> ins_id ` set (instruments d0)" and wf0: "positions_wf d0"
    and l: "l = local_by_instrument (list_open_positions LIVE d0)"
  shows "valid (correcting threshold d0 b (i # todo)) (correct_position now threshold b l i)
    (\<lambda>_. correcting threshold d0 b todo) (\<lambda>_. False)"
proof (rule validI)
  fix d assume inv: "correcting threshold d0 b (i # todo) d"
  then have ok: "store_ok d" and dist: "i \<notin> set todo" "distinct todo" and ins: "instruments d = instruments d0"
    and same: "\<forall>j \<in> set (i # todo). get_for j LIVE d = get_for j LIVE d0"
    and rest: "\<forall>j. j \<notin> set (i # todo) \<longrightarrow> live_qty d j = broker_qty b j \<and> (breach threshold b d0 j \<longrightarrow> halted d)"
    unfolding correcting_def by simp_all
  have i: "get_for i LIVE d = get_for i LIVE d0" using same by simp
  then have q: "live_qty d i = live_qty d0 i" by (simp add: live_qty_def)
  have li: "l i = (case get_for i LIVE d of None \<Rightarrow> None | Some p \<Rightarrow> if p_qty p = 0 then None else Some p)"
    unfolding l i by (rule local_open [OF wf0])
  have "get_for i LIVE d = Some p" if "l i = Some p" for p
    using that unfolding li by (auto split: option.splits if_splits)
  moreover have "live_qty d i = 0" if "l i = None"
    using that unfolding li live_qty_def by (auto split: option.splits if_splits)
  ultimately obtain e where run: "correct_position now threshold b l i d = (Inr (), e)"
    and e: "store_ok e" "instruments e = instruments d" "live_qty e i = broker_qty b i"
      "\<And>j. j \<noteq> i \<Longrightarrow> get_for j LIVE e = get_for j LIVE d"
      "breach threshold b d0 i \<Longrightarrow> halted e" "halted d \<Longrightarrow> halted e"
    using correct_position_run [OF ok, of i l now threshold b] known ins unfolding breach_def q [symmetric]
    by (metis (no_types, lifting))
  have "correcting threshold d0 b todo e"
    unfolding correcting_def
  proof (intro conjI ballI allI impI)
    show "store_ok e" "distinct todo" "instruments e = instruments d0" using e dist ins by simp_all
  next
    fix j assume j: "j \<in> set todo"
    with dist have "j \<noteq> i" by auto
    with j show "get_for j LIVE e = get_for j LIVE d0" using e(4) same by simp
  next
    fix j assume j: "j \<notin> set todo"
    show "live_qty e j = broker_qty b j" using e(3,4) rest j by (cases "j = i") (simp_all add: live_qty_def)
  next
    fix j assume j: "j \<notin> set todo" "breach threshold b d0 j"
    show "halted e" using e(5,6) rest j by (cases "j = i") simp_all
  qed
  then show "case correct_position now threshold b l i d of (Inl x, t) \<Rightarrow> False | (Inr x, t) \<Rightarrow> correcting threshold d0 b todo t"
    by (simp add: run)
qed

lemma correcting_all:
  assumes "set ids \<subseteq> ins_id ` set (instruments d0)" and "positions_wf d0"
    and "l = local_by_instrument (list_open_positions LIVE d0)"
  shows "valid (correcting threshold d0 b ids) (forA ids (correct_position now threshold b l))
    (\<lambda>_. correcting threshold d0 b []) (\<lambda>_. False)"
  using assms(1)
proof (induction ids)
  case Nil
  then show ?case by (simp add: valid_def ret_def)
next
  case (Cons i ids)
  have last: "valid (correcting threshold d0 b []) (ret (y # ys)) (\<lambda>_. correcting threshold d0 b []) (\<lambda>_. False)" for y and ys :: "unit list"
    by (simp add: valid_def ret_def)
  show ?case unfolding forA.simps using Cons
    by (intro valid_bindA [OF correcting_step [OF _ assms(2,3)]] valid_bindA [OF Cons.IH last]) simp_all
qed

text \<open>
  Reconciling the positions never raises for positions in known instruments, makes every live
  quantity the broker's, and trips the kill switch when one divergence was beyond the threshold.
\<close>

lemma reconcile_positions_run:
  assumes ok: "store_ok d" and iter: "\<And>xs. set (iter xs) = set xs \<and> distinct (iter xs)"
    and known: "bp_instrument ` set ps \<subseteq> ins_id ` set (instruments d)"
  shows "\<exists>e. reconcile_positions iter now threshold ps d = (Inr (), e) \<and> store_ok e \<and>
    (\<forall>i. live_qty e i = broker_qty (by_instrument ps) i \<and> (breach threshold (by_instrument ps) d i \<longrightarrow> halted e))"
proof -
  let ?open = "list_open_positions LIVE d" and ?b = "by_instrument ps"
  let ?ids = "iter (map bp_instrument ps @ map p_instrument ?open)" and ?l = "local_by_instrument (list_open_positions LIVE d)"
  have wf: "positions_wf d" using ok by (simp add: store_ok_def)
  have ids: "set ?ids = bp_instrument ` set ps \<union> p_instrument ` set ?open" using iter by simp
  have sub: "set ?ids \<subseteq> ins_id ` set (instruments d)"
    unfolding ids using known wf by (auto simp: positions_wf_def list_open_positions_def)
  have out: "live_qty d i = broker_qty ?b i" if "i \<notin> set ?ids" for i
  proof -
    have "broker_qty ?b i = 0" using that ids by (simp add: broker_qty_absent)
    moreover have "?l i = None" using that ids by (simp add: local_by_instrument_def map_of_rev_None)
    ultimately show ?thesis using local_qty_live [OF wf, of i] by (simp add: local_qty_def)
  qed
  have start: "correcting threshold d ?b ?ids d"
    using ok iter out by (simp add: correcting_def breach_def)
  note v = correcting_all [OF sub wf refl, of threshold ?b now]
  obtain r e where run: "forA ?ids (correct_position now threshold ?b ?l) d = (r, e)" by fastforce
  show ?thesis
  proof (cases r)
    case (Inl x)
    then show ?thesis using valid_InlD [OF v start] run by blast
  next
    case (Inr us)
    then have "correcting threshold d ?b [] e" using valid_InrD [OF v start] run by blast
    then show ?thesis using run Inr by (intro exI [of _ e]) (simp add: reconcile_positions_def run_simps Let_def correcting_def)
  qed
qed

text \<open>The positions that Upstox reports are in known instruments.\<close>

lemma positions_of_rows_known:
  "positions_of_rows d rows = Inr ps \<Longrightarrow> bp_instrument ` set ps \<subseteq> ins_id ` set (instruments d)"
proof (induction rows arbitrary: ps)
  case (Cons row rows)
  from Cons.prems obtain jt where jt: "dict_get row ''instrument_token'' (JStr []) = Inr jt"
    by (auto simp: bindE_Inr_conv)
  show ?case
  proof (cases "get_by_instrument_key (text_or_none jt) d")
    case None
    then show ?thesis using Cons jt by simp
  next
    case (Some inst)
    then have inst: "inst \<in> set (instruments d)" unfolding get_by_instrument_key_def by (blast dest: find_SomeD)
    show ?thesis
    proof (cases "positions_of_rows d rows")
      case (Inr qs)
      then have "ps = qs \<or> (\<exists>q a. ps = \<lparr>bp_instrument = ins_id inst, bp_qty = q, bp_avg_price = a\<rparr> # qs)"
        using Cons.prems jt Some by (auto simp: bindE_Inr_conv split: if_splits)
      then show ?thesis using Cons.IH [OF Inr] imageI [OF inst, of ins_id] by (elim disjE exE) simp_all
    next
      case (Inl x)
      then show ?thesis using Cons.prems jt Some by (auto simp: bindE_Inr_conv split: if_splits)
    qed
  qed
qed simp

lemma upstox_positions_Inr:
  assumes "upstox_positions env s = (Inr ps, t)"
  shows "us_store t = us_store s" "bp_instrument ` set ps \<subseteq> ins_id ` set (instruments (us_store s))"
proof -
  have "keeps (\<lambda>x. us_store x = us_store s) (upstox_positions env)" by (rule keeps_upstox_positions)
  from keepsD [OF this refl] show store: "us_store t = us_store s" using assms by simp
  obtain rows u where u: "raw_positions env s = (Inr rows, u)"
    "bindA (getA us_store) (\<lambda>d. liftE (positions_of_rows d rows)) u = (Inr ps, t)"
    using assms unfolding upstox_positions_def by (rule bindA_InrE)
  from u(2) have "positions_of_rows (us_store u) rows = Inr ps" "t = u"
    by (auto simp: run_bindA run_getA run_liftE)
  then show "bp_instrument ` set ps \<subseteq> ins_id ` set (instruments (us_store s))"
    using positions_of_rows_known store by fastforce
qed

text \<open>No live order without an acknowledgement waits between submission and the exchange.\<close>

definition acked :: "store \<Rightarrow> bool" where
  "acked d \<longleftrightarrow> (\<forall>ord \<in> set (orders d). o_mode ord = LIVE \<and> o_state ord \<in> set stuck_states \<longrightarrow> o_broker_id ord \<noteq> None)"

lemma acked_same: "acked d \<Longrightarrow> orders e = orders d \<Longrightarrow> acked e"
  by (simp add: acked_def)

lemma acked_upd:
  assumes "acked d" and "\<And>ord. o_mode ord = LIVE \<and> o_state ord \<in> set stuck_states \<longrightarrow> o_broker_id ord \<noteq> None \<Longrightarrow>
    o_mode (f ord) = LIVE \<and> o_state (f ord) \<in> set stuck_states \<longrightarrow> o_broker_id (f ord) \<noteq> None"
  shows "acked (upd_order i f d)"
  using assms unfolding acked_def upd_order_simps tbl_upd_member Ball_def by metis

lemma acked_append_event [simp]: "acked (append_event i f t pl d) = acked d"
  by (simp add: acked_def)

lemma keeps_acked_transition: "st \<notin> set stuck_states \<Longrightarrow> keeps acked (transition i st pl)"
  by (rule keepsI) (auto simp: transition_run intro!: acked_upd split: option.split)

lemma keeps_acked_rest:
  "keeps acked (get_or_create_position i m)" "keeps acked (add_trade tr)" "keeps acked (modA (upd_position j g))"
  "keeps acked (set_filled_qty i n)"
proof -
  show "keeps acked (get_or_create_position i m)"
    by (rule keepsI, erule acked_same)
       (auto simp: get_or_create_position_def add_position_def insert_position_def repo_add_def Let_def run_simps split: option.split)
  show "keeps acked (add_trade tr)"
    by (rule keepsI, erule acked_same) (auto simp: add_trade_def insert_trade_def repo_add_def Let_def run_simps)
  show "keeps acked (modA (upd_position j g))"
    by (rule keeps_modA, erule acked_same) simp
  show "keeps acked (set_filled_qty i n)"
    unfolding set_filled_qty_def by (intro keeps_intros keeps_modA acked_upd) simp_all
qed

lemma map_status_not_stuck: "map_status s f q \<notin> set stuck_states"
proof -
  have "st \<notin> set stuck_states" if "terminal_status x = Some st" for x st
    using that by (auto simp: terminal_status_def stuck_states_def split: if_splits)
  then show ?thesis by (auto simp: map_status_def stuck_states_def split: option.split)
qed

lemma keeps_acked_advance: "st \<notin> set stuck_states \<Longrightarrow> keeps acked (advance_state oid st status)"
  unfolding advance_state_def by (intro keeps_intros keeps_acked_transition) (simp_all add: stuck_states_def)

lemma keeps_acked_book: "keeps acked (upstox_book_fill env ord n p ts)"
  unfolding upstox_book_fill_def upstox_record_fill_def by (intro keeps_intros keeps_acked_rest)

lemma keeps_acked_apply: "keeps (\<lambda>s. acked (us_store s)) (upstox_apply_update env oid data)"
  unfolding upstox_apply_update_def Let_def
  by (intro keeps_intros keeps_on_upstox_store keeps_acked_advance keeps_acked_book map_status_not_stuck)

lemma keeps_acked_poll: "keeps (\<lambda>s. acked (us_store s)) (poll_and_apply_fills env)"
  unfolding poll_and_apply_fills_def poll_order_def by (intro keeps_intros keeps_acked_apply)

lemma keeps_acked_positions: "keeps acked (reconcile_positions iter now threshold ps)"
proof -
  have "keeps acked (add_risk_event x)" for x
    by (rule keepsI, erule acked_same) (simp add: add_risk_event_def repo_add_def Let_def)
  moreover have "keeps acked (ks_trip now r)" for r
    by (rule keepsI, erule acked_same) (auto simp: ks_trip_def ks_run split: option.split)
  ultimately show ?thesis unfolding reconcile_positions_def correct_position_def Let_def
    by (intro keeps_intros keeps_acked_rest)
qed

lemma fail_all_stuck_acked:
  assumes "store_ok d" "fail_all_stuck LIVE True d = (r, e)"
  shows "acked e"
proof -
  from fail_all_stuck_run [OF assms(1), of LIVE True] assms(2) have wf: "orders_wf e" and
    all: "\<And>i. get_order i e = (case get_order i d of None \<Rightarrow> None
       | Some ord \<Rightarrow> Some (if ord \<in> set (list_stuck LIVE True d) then ord\<lparr>o_state := FAILED\<rparr> else ord))"
    by (auto simp: store_ok_def)
  show ?thesis unfolding acked_def
  proof (intro ballI impI)
    fix ord assume ord: "ord \<in> set (orders e)" "o_mode ord = LIVE \<and> o_state ord \<in> set stuck_states"
    from get_order_member [OF wf ord(1)] all [of "o_id ord"] obtain q where q: "get_order (o_id ord) d = Some q"
      "ord = (if q \<in> set (list_stuck LIVE True d) then q\<lparr>o_state := FAILED\<rparr> else q)" by (auto split: option.splits)
    have "q \<notin> set (list_stuck LIVE True d)" "ord = q" using q(2) ord(2) by (auto simp: stuck_states_def split: if_splits)
    then show "o_broker_id ord \<noteq> None" using ord(2) get_order_Some [OF q(1)] by (auto simp: list_stuck_def)
  qed
qed

lemma reconcile_live_run:
  assumes ok: "live_ok s" and iter: "\<And>xs. set (iter xs) = set xs \<and> distinct (iter xs)"
    and run: "reconcile_on_startup iter now LIVE (Some env) threshold s = (Inr fs, t)"
  shows "live_ok t" "acked (us_store t)"
    and "\<exists>u ps v. upstox_positions env u = (Inr ps, v) \<and> us_sent t = us_sent v \<and>
     (\<forall>i. live_qty (us_store t) i = broker_qty (by_instrument ps) i \<and>
        (breach threshold (by_instrument ps) (us_store u) i \<longrightarrow> halted (us_store t)))"
proof -
  obtain d1 where d1: "fail_all_stuck LIVE True (us_store s) = (Inr fs, d1)"
    and run1: "bindA (poll_and_apply_fills env) (\<lambda>_. bindA (upstox_positions env) (\<lambda>ps.
         bindA (on_upstox_store (reconcile_positions iter now threshold ps)) (\<lambda>_. ret fs))) (s\<lparr>us_store := d1\<rparr>) = (Inr fs, t)"
    using run by (auto simp: reconcile_on_startup_def run_bindA on_upstox_store_run run_ret split: prod.splits sum.splits)
  obtain us u where u: "poll_and_apply_fills env (s\<lparr>us_store := d1\<rparr>) = (Inr us, u)"
    and run2: "bindA (upstox_positions env) (\<lambda>ps. bindA (on_upstox_store (reconcile_positions iter now threshold ps)) (\<lambda>_. ret fs)) u = (Inr fs, t)"
    using run1 by (rule bindA_InrE)
  obtain ps v where v: "upstox_positions env u = (Inr ps, v)"
    and run3: "bindA (on_upstox_store (reconcile_positions iter now threshold ps)) (\<lambda>_. ret fs) v = (Inr fs, t)"
    using run2 by (rule bindA_InrE)
  have ok1: "live_ok (s\<lparr>us_store := d1\<rparr>)" using keepsE [OF keeps_fail_all_stuck ok d1] by simp
  have oku: "live_ok u" using valid_InrD [OF valid_poll ok1 u] .
  note pos = upstox_positions_Inr [OF v]
  from reconcile_positions_run [OF oku iter pos(2), of now threshold] obtain e where
    e: "reconcile_positions iter now threshold ps (us_store u) = (Inr (), e)" "store_ok e"
      "\<forall>i. live_qty e i = broker_qty (by_instrument ps) i \<and> (breach threshold (by_instrument ps) (us_store u) i \<longrightarrow> halted e)"
    by blast
  have t: "t = v\<lparr>us_store := e\<rparr>" using run3 e(1) pos(1) by (simp add: run_simps)
  show "live_ok t" by (simp add: t e(2))
  have "acked d1" by (rule fail_all_stuck_acked [OF ok d1])
  then have "acked (us_store u)" using keepsE [OF keeps_acked_poll _ u] by simp
  then have "acked e" using keepsE [OF keeps_acked_positions _ e(1)] by simp
  then show "acked (us_store t)" by (simp add: t)
  show "\<exists>u ps v. upstox_positions env u = (Inr ps, v) \<and> us_sent t = us_sent v \<and>
     (\<forall>i. live_qty (us_store t) i = broker_qty (by_instrument ps) i \<and>
        (breach threshold (by_instrument ps) (us_store u) i \<longrightarrow> halted (us_store t)))"
    using v e(3) by (intro exI [of _ u] exI [of _ ps] exI [of _ v]) (simp add: t)
qed

end
