(* ===== verification/PT_Orchestrator.thy ===== *)
theory PT_Orchestrator
  imports PT_Runner PT_Risk PT_Paper_Safety PT_Reconcile
begin

text \<open>
  The orchestrator of \<open>orchestrator/service.py\<close>: it drives candle, strategy, risk gate and broker
  inside one unit of work per candle, contains every exception and feeds it to the kill switch.
  The store is the database, rolled back when a handler raises; quotes and runners live in memory
  and are not. What is read from outside while one event is handled (uuid4, the clock, the answers
  of Upstox) is an argument of the handler.
\<close>

section \<open>State\<close>

record orch_cfg =
  oc_mode :: trading_mode
  oc_risk :: risk_config
  oc_sizer :: "rat \<Rightarrow> rat \<Rightarrow> py_error + int"
  oc_rates :: cost_config
  oc_paper :: paper_config
  oc_initial_cash :: rat
  oc_strategy_name :: string
  oc_strategy_params :: json
  oc_live_orders :: bool
  oc_upstox :: "upstox_config option"
  oc_lib :: numlib

record 'st orch =
  or_store :: store
  or_quotes :: live_quotes
  or_runners :: "string \<rightharpoonup> 'st runner"
  or_run_id :: "nat option"

record outside =
  in_cid :: string
  in_bid :: string
  in_now :: instant
  in_clock :: "nat \<Rightarrow> instant"
  in_net :: "nat \<Rightarrow> upstox_call \<Rightarrow> http_outcome"

definition live_env :: "orch_cfg \<Rightarrow> upstox_config \<Rightarrow> outside \<Rightarrow> upstox_env" where
  "live_env cfg ucfg inp = \<lparr>ue_cfg = ucfg, ue_rates = oc_rates cfg, ue_net = in_net inp, ue_clock = in_clock inp\<rparr>"

definition paper_env_of :: "orch_cfg \<Rightarrow> live_quotes \<Rightarrow> outside \<Rightarrow> paper_env" where
  "paper_env_of cfg quotes inp = \<lparr>pe_rates = oc_rates cfg, pe_cfg = oc_paper cfg, pe_quotes = live_get_ltp quotes, pe_clock = in_clock inp\<rparr>"

definition build_broker :: "orch_cfg \<Rightarrow> live_quotes \<Rightarrow> outside \<Rightarrow> py_error + broker_ops" where
  "build_broker cfg quotes inp = (if oc_mode cfg = LIVE
     then (case oc_upstox cfg of None \<Rightarrow> Inl PyRuntimeError | Some ucfg \<Rightarrow> Inr (upstox_ops (live_env cfg ucfg inp)))
     else Inr (paper_ops (paper_env_of cfg quotes inp) (oc_initial_cash cfg) (in_bid inp)))"

section \<open>A signal\<close>

definition set_signal_status :: "nat \<Rightarrow> signal_status \<Rightarrow> (store, unit) act" where
  "set_signal_status i st = modA (\<lambda>d. d\<lparr>signals := map (\<lambda>g. if sg_id g = i then g\<lparr>sg_status := st\<rparr> else g) (signals d)\<rparr>)"

definition signal_row_of :: "instrument_row \<Rightarrow> nat \<Rightarrow> strategy_signal \<Rightarrow> signal_row" where
  "signal_row_of inst run sig = \<lparr>sg_id = 0, sg_instrument = ins_id inst, sg_strategy_run = run, sg_direction = s_direction sig,
     sg_ref_price = dec_of_float (s_ref_price sig), sg_context = s_context sig, sg_status = SignalNew\<rparr>"

definition request_of :: "approved_order \<Rightarrow> order_request" where
  "request_of ao = \<lparr>rq_cid = ao_cid ao, rq_instrument = ao_instrument ao, rq_side = ao_side ao, rq_type = ao_type ao,
     rq_qty = ao_qty ao, rq_limit = ao_limit ao\<rparr>"

text \<open>The part of \<open>_process_candle\<close> after the broker was built, with the broker's operations.\<close>

definition place_approved :: "broker_ops \<Rightarrow> nat \<Rightarrow> approved_order \<Rightarrow> (store, unit) act" where
  "place_approved ops sig_id ao =
     seqA (set_signal_status sig_id SignalApproved)
     (bindA (br_place_order ops (request_of ao)) (\<lambda>ack.
     seqA (bindA (getA (get_by_client_order_id (ack_cid ack))) (\<lambda>found. case found of
         None \<Rightarrow> ret ()
       | Some ord \<Rightarrow> set_signal (o_id ord) sig_id))
     (bindA ks_record_success (\<lambda>_. ret ()))))"

definition decide_signal :: "orch_cfg \<Rightarrow> outside \<Rightarrow> broker_ops \<Rightarrow> instrument_row \<Rightarrow> strategy_signal \<Rightarrow> nat \<Rightarrow> (store, unit) act" where
  "decide_signal cfg inp ops inst sig sig_id =
     bindA (br_get_funds ops) (\<lambda>funds.
     bindA (getA (sum_realized_pnl_since (oc_mode cfg) (ist_midnight_utc (in_now inp)))) (\<lambda>pnl.
     bindA (evaluate (oc_sizer cfg) (oc_risk cfg) (in_cid inp) sig inst (oc_mode cfg) (f_equity funds) pnl (oc_live_orders cfg)) (\<lambda>res.
     case res of
       Rejected r \<Rightarrow> set_signal_status sig_id SignalRejected
     | Approved ao \<Rightarrow> place_approved ops sig_id ao)))"

definition process_signal ::
  "orch_cfg \<Rightarrow> live_quotes \<Rightarrow> outside \<Rightarrow> nat option \<Rightarrow> instrument_row \<Rightarrow> strategy_signal \<Rightarrow> (store, unit) act" where
  "process_signal cfg quotes inp run inst sig = (case run of
     None \<Rightarrow> raise PyRuntimeError
   | Some i \<Rightarrow> bindA (add_signal (signal_row_of inst i sig)) (\<lambda>row.
       bindA (liftE (build_broker cfg quotes inp)) (\<lambda>ops. decide_signal cfg inp ops inst sig (sg_id row))))"

section \<open>A candle\<close>

definition position_of :: "position_row option \<Rightarrow> position_view" where
  "position_of p = (case p of
     None \<Rightarrow> FLAT_POSITION
   | Some r \<Rightarrow> if p_qty r = 0 then FLAT_POSITION else \<lparr>pv_qty = p_qty r, pv_avg_price = fl_rnd (p_avg_price r)\<rparr>)"

definition process_candle ::
  "orch_cfg \<Rightarrow> live_quotes \<Rightarrow> outside \<Rightarrow> nat option \<Rightarrow> candle_received \<Rightarrow> 'st runner \<Rightarrow> store \<Rightarrow> ((py_error + unit) \<times> store) \<times> 'st runner" where
  "process_candle cfg quotes inp run e r d = (
     case runner_on_candle (oc_lib cfg) e (position_of (get_for (ins_id (ru_instrument r)) (oc_mode cfg) d)) r of
       (Inl x, r') \<Rightarrow> ((Inl x, d), r')
     | (Inr None, r') \<Rightarrow> ((Inr (), d), r')
     | (Inr (Some sig), r') \<Rightarrow> (process_signal cfg quotes inp run (ru_instrument r) sig d, r'))"

text \<open>\<open>_on_candle\<close>: one unit of work, and a second one for the kill switch when the first failed.\<close>

definition on_candle :: "orch_cfg \<Rightarrow> outside \<Rightarrow> candle_received \<Rightarrow> 'st orch \<Rightarrow> 'st orch" where
  "on_candle cfg inp e s = (
     let quotes = live_quotes_update (ce_instrument_key e) (ce_close e) (or_quotes s); s1 = s\<lparr>or_quotes := quotes\<rparr> in
     case or_runners s (ce_instrument_key e) of
       None \<Rightarrow> s1
     | Some r \<Rightarrow> (case session_scope (\<lambda>d. fst (process_candle cfg quotes inp (or_run_id s) e r d)) (or_store s) of (res, d) \<Rightarrow>
         let s2 = s1\<lparr>or_store := d, or_runners := (or_runners s)(ce_instrument_key e \<mapsto>
             snd (process_candle cfg quotes inp (or_run_id s) e r (or_store s)))\<rparr> in
         case res of
           Inr _ \<Rightarrow> s2
         | Inl _ \<Rightarrow> s2\<lparr>or_store := snd (session_scope
             (ks_record_error (in_now inp) (max_consecutive_errors (rc_kill_switch (oc_risk cfg)))) d)\<rparr>))"

section \<open>Housekeeping and start-up\<close>

definition housekeeping_body :: "orch_cfg \<Rightarrow> live_quotes \<Rightarrow> outside \<Rightarrow> (store, unit) act" where
  "housekeeping_body cfg quotes inp d = (if oc_mode cfg = LIVE
     then (case oc_upstox cfg of
       None \<Rightarrow> (Inl PyRuntimeError, d)
     | Some ucfg \<Rightarrow> (case poll_and_apply_fills (live_env cfg ucfg inp) (upstox_init d) of (r, t) \<Rightarrow>
         (map_sum id (\<lambda>_. ()) r, us_store t)))
     else (case check_resting_orders (paper_env_of cfg quotes inp) (paper_init (oc_initial_cash cfg) d) of (r, t) \<Rightarrow>
       (map_sum id (\<lambda>_. ()) r, pb_store t)))"

text \<open>Every exception is swallowed, after the roll-back. (The staleness check of the feed follows; it has no access to the store.)\<close>

definition run_housekeeping :: "orch_cfg \<Rightarrow> outside \<Rightarrow> 'st orch \<Rightarrow> 'st orch" where
  "run_housekeeping cfg inp s = s\<lparr>or_store := snd (session_scope (housekeeping_body cfg (or_quotes s) inp) (or_store s))\<rparr>"

definition start_strategy_run :: "orch_cfg \<Rightarrow> ('st orch, nat) act" where
  "start_strategy_run cfg s = (case session_scope (add_strategy_run \<lparr>sr_id = 0, sr_strategy_name = oc_strategy_name cfg,
       sr_params = oc_strategy_params cfg, sr_mode = oc_mode cfg\<rparr>) (or_store s) of
     (Inl x, d) \<Rightarrow> (Inl x, s\<lparr>or_store := d\<rparr>)
   | (Inr row, d) \<Rightarrow> (Inr (sr_id row), s\<lparr>or_store := d, or_run_id := Some (sr_id row)\<rparr>))"

definition reconcile_body :: "orch_cfg \<Rightarrow> (nat list \<Rightarrow> nat list) \<Rightarrow> outside \<Rightarrow> (store, finding list) act" where
  "reconcile_body cfg iter inp d = (
     let threshold = (case oc_upstox cfg of None \<Rightarrow> 0 | Some u \<Rightarrow> uc_kill_threshold_qty u) in
     if oc_mode cfg = LIVE \<and> oc_upstox cfg = None then (Inl PyRuntimeError, d)
     else (case reconcile_on_startup iter (in_now inp) (oc_mode cfg)
         (if oc_mode cfg = LIVE then map_option (\<lambda>u. live_env cfg u inp) (oc_upstox cfg) else None) threshold (upstox_init d) of
       (r, t) \<Rightarrow> (r, us_store t)))"

definition reconcile :: "orch_cfg \<Rightarrow> (nat list \<Rightarrow> nat list) \<Rightarrow> outside \<Rightarrow> ('st orch, finding list) act" where
  "reconcile cfg iter inp s = (case session_scope (reconcile_body cfg iter inp) (or_store s) of (r, d) \<Rightarrow> (r, s\<lparr>or_store := d\<rparr>))"

section \<open>What the risk gate and the book-keeping leave alone\<close>

text \<open>The books of the store: everything that orders and fills write, without the links to signals.\<close>

definition unlink :: "order_row \<Rightarrow> order_row" where
  "unlink ord = ord\<lparr>o_signal := None\<rparr>"

definition books :: "store \<Rightarrow> instrument_row list \<times> order_row list \<times> order_event_row list \<times> trade_row list \<times> position_row list \<times> rat option" where
  "books d = (instruments d, map unlink (orders d), order_events d, trades d, positions d, paper_account d)"

definition stripped :: "store \<Rightarrow> store" where
  "stripped d = d\<lparr>orders := map unlink (orders d)\<rparr>"

lemma unlink_simps [simp]:
  "o_id (unlink r) = o_id r" "o_cid (unlink r) = o_cid r" "o_qty (unlink r) = o_qty r" "o_filled (unlink r) = o_filled r"
  "o_state (unlink r) = o_state r" "o_mode (unlink r) = o_mode r" "o_instrument (unlink r) = o_instrument r"
  "o_side (unlink r) = o_side r" "order_static (unlink r) = order_static r"
  by (simp_all add: unlink_def)

lemma store_ok_stripped: "store_ok (stripped d) = store_ok d"
  by (simp add: store_ok_def orders_wf_def trails_wf_def fills_wf_def positions_wf_def order_row_ok_def stripped_def
      trail_of_def trades_of_def comp_def image_image)

lemma store_ok_books: "books e = books d \<Longrightarrow> store_ok e = store_ok d"
  unfolding store_ok_stripped [of e, symmetric] store_ok_stripped [of d, symmetric]
  by (rule store_ok_frame) (simp_all add: books_def stripped_def)

lemma tbl_get_map: "(\<And>r. key (f r) = key r) \<Longrightarrow> tbl_get key k (map f rows) = map_option f (tbl_get key k rows)"
  by (induction rows) (auto simp: tbl_get_def)

lemma get_order_stripped: "get_order i (stripped d) = map_option unlink (get_order i d)"
  by (simp add: get_order_def repo_get_def stripped_def tbl_get_map)

lemma static_of_stripped: "static_of (stripped d) i = static_of d i"
  by (simp add: static_of_def get_order_stripped option.map_comp comp_def)

lemma paper_safe_stripped: "paper_safe c0 (stripped d) = paper_safe c0 d"
proof -
  have "ledger c0 (stripped d) = ledger c0 d"
    by (rule ledger_same) (simp_all only: static_of_stripped, simp_all add: stripped_def held_def realized_def get_for_def)
  moreover have "paper_orders_consistent (stripped d) = paper_orders_consistent d"
    by (simp add: paper_orders_consistent_def stripped_def order_consistent_def)
  moreover have "solvent (stripped d) = solvent d" by (simp add: solvent_def stripped_def)
  ultimately show ?thesis by (simp add: paper_safe_def paper_ok_def store_ok_stripped)
qed

lemma paper_safe_frame:
  assumes "instruments e = instruments d" "orders e = orders d" "order_events e = order_events d"
    "trades e = trades d" "positions e = positions d" "paper_account e = paper_account d"
  shows "paper_safe c0 e = paper_safe c0 d"
proof -
  have "ledger c0 e = ledger c0 d"
    by (rule ledger_same) (use assms in \<open>simp_all add: static_of_def get_order_def repo_get_def held_def realized_def get_for_def\<close>)
  then show ?thesis using store_ok_frame [OF assms(1-5)] assms
    by (simp add: paper_safe_def paper_ok_def paper_orders_consistent_def solvent_def)
qed

lemma paper_safe_books: "books e = books d \<Longrightarrow> paper_safe c0 e = paper_safe c0 d"
  unfolding paper_safe_stripped [of c0 e, symmetric] paper_safe_stripped [of c0 d, symmetric]
  by (rule paper_safe_frame) (simp_all add: books_def stripped_def)

lemma books_trading_state: "trading_state e = trading_state d \<Longrightarrow> books e = books d"
  by (simp add: trading_state_def books_def)

lemma frames_books_add_signal: "frames books (add_signal g)"
  by (auto simp: keeps_def books_def add_signal_def repo_add_def Let_def)

lemma frames_books_status: "frames books (set_signal_status i st)"
  by (auto simp: keeps_def books_def set_signal_status_def modA_def)

lemma frames_books_set_signal: "frames books (set_signal i g)"
  by (auto simp: keeps_def books_def set_signal_def modA_def upd_order_def tbl_upd_def unlink_def intro!: map_cong)

lemma frames_books_success: "frames books ks_record_success"
  by (auto simp: keeps_def books_def ks_record_success_def ks_run split: option.split)

lemma frames_books_error: "frames books (ks_record_error now m)"
  by (auto simp: keeps_def books_def ks_record_error_def ks_trip_def ks_run split: option.split)

lemma frames_books_evaluate: "frames books (evaluate sizer cfg cid sig inst mode equity pnl live)"
  unfolding keeps_def using books_trading_state [OF evaluate_frame] by simp

lemma bindA_liftE [simp]: "bindA (liftE (Inr x)) f = f x" "bindA (liftE (Inl e)) f = raise e"
  by (simp_all add: act_defs fun_eq_iff)

end
