(* ===== verification/PT_Session.thy ===== *)
theory PT_Session
  imports PT_Orchestrator
begin

text \<open>
  Trading sessions: the steps of an orchestrator (candles, housekeeping, start-up) as a relation, the
  invariants of every reachable state, and the gate: nothing but an approved signal moves the books.
\<close>

section \<open>Brokers that keep an invariant of the books\<close>

locale safe_broker = broker ops mode for ops :: broker_ops and mode :: trading_mode +
  fixes safe :: "store \<Rightarrow> bool"
  assumes safe_place: "keeps safe (br_place_order ops rq)"
    and safe_funds: "keeps safe (br_get_funds ops)"
    and safe_books: "books e = books d \<Longrightarrow> safe e = safe d"
begin

lemma frames_safe: "frames books m \<Longrightarrow> keeps safe m"
  using safe_books framesD by (metis keepsI)

lemma place_approved_safe: "keeps safe (place_approved ops i ao)"
  unfolding place_approved_def
  by (intro keeps_intros safe_place frames_safe frames_books_status frames_books_set_signal frames_books_success)

lemma decide_signal_safe: "keeps safe (decide_signal cfg inp ops inst sig i)"
proof -
  have "keeps safe (case res of Rejected r \<Rightarrow> set_signal_status i SignalRejected | Approved ao \<Rightarrow> place_approved ops i ao)" for res
    by (cases res) (simp_all add: place_approved_safe frames_safe frames_books_status)
  then show ?thesis unfolding decide_signal_def
    by (intro keeps_intros safe_funds frames_safe [OF frames_books_evaluate])
qed

end

lemma paper_init_safe: "paper_safe c0 d \<Longrightarrow> pb_store (paper_init cash d) = d"
  by (auto simp: paper_safe_def solvent_def paper_init_store split: option.splits)

interpretation paper_safe_broker:
  safe_broker "paper_ops env cash bid" PAPER "\<lambda>d. rates_small (pe_rates env) \<longrightarrow> paper_safe c0 d" for env cash bid c0
proof
  fix rq d and e :: store
  show "keeps (\<lambda>d. rates_small (pe_rates env) \<longrightarrow> paper_safe c0 d) (br_place_order (paper_ops env cash bid) rq)"
  proof (intro keepsI impI)
    fix d assume h: "rates_small (pe_rates env) \<longrightarrow> paper_safe c0 d" "rates_small (pe_rates env)"
    from paper_safe_place_order [of env c0 "paper_init cash d" bid rq] h
    show "paper_safe c0 (snd (br_place_order (paper_ops env cash bid) rq d))"
      by (simp add: paper_ops_def paper_init_safe case_prod_beta')
  qed
  show "keeps (\<lambda>d. rates_small (pe_rates env) \<longrightarrow> paper_safe c0 d) (br_get_funds (paper_ops env cash bid))"
    by (rule keepsI) (auto simp: paper_ops_def paper_get_funds_frame paper_init_safe)
  show "books e = books d \<Longrightarrow> (rates_small (pe_rates env) \<longrightarrow> paper_safe c0 e) = (rates_small (pe_rates env) \<longrightarrow> paper_safe c0 d)"
    using paper_safe_books by blast
qed

interpretation paper_wf_broker: safe_broker "paper_ops env cash bid" PAPER store_ok for env cash bid
  by unfold_locales (rule paper_broker.place_keeps paper_broker.funds_keeps store_ok_books, assumption?)+

interpretation upstox_wf_broker: safe_broker "upstox_ops env" LIVE store_ok for env
  by unfold_locales (rule upstox_broker.place_keeps upstox_broker.funds_keeps store_ok_books, assumption?)+

lemma keeps_decide_ok:
  assumes "build_broker cfg quotes inp = Inr ops"
  shows "keeps store_ok (decide_signal cfg' inp' ops inst sig i)"
  using assms paper_wf_broker.decide_signal_safe upstox_wf_broker.decide_signal_safe
  by (auto simp: build_broker_def split: if_splits option.splits)

lemma keeps_process_ok: "keeps store_ok (process_signal cfg quotes inp run inst sig)"
proof (cases "build_broker cfg quotes inp")
  case (Inr ops)
  show ?thesis unfolding process_signal_def Inr bindA_liftE by (intro keeps_intros keeps_decide_ok [OF Inr])
next
  case (Inl x)
  show ?thesis unfolding process_signal_def Inl bindA_liftE by (intro keeps_intros)
qed

lemma keeps_process_paper:
  assumes "oc_mode cfg \<noteq> LIVE" and "rates_small (oc_rates cfg)"
  shows "keeps (paper_safe c0) (process_signal cfg quotes inp run inst sig)"
proof -
  have b: "build_broker cfg quotes inp = Inr (paper_ops (paper_env_of cfg quotes inp) (oc_initial_cash cfg) (in_bid inp))"
    using assms(1) by (simp add: build_broker_def)
  have r: "rates_small (pe_rates (paper_env_of cfg quotes inp))" using assms(2) by (simp add: paper_env_of_def)
  have "keeps (paper_safe c0) (decide_signal cfg inp (paper_ops (paper_env_of cfg quotes inp) (oc_initial_cash cfg) (in_bid inp)) inst sig i)" for i
    using paper_safe_broker.decide_signal_safe [where env = "paper_env_of cfg quotes inp"] r by simp
  moreover have "keeps (paper_safe c0) (add_signal g)" for g
    by (rule keepsI) (metis frames_books_add_signal framesD paper_safe_books)
  ultimately show ?thesis unfolding process_signal_def b bindA_liftE by (intro keeps_intros)
qed

section \<open>One candle\<close>

lemma process_candle_store:
  obtains r' x where "process_candle cfg quotes inp run e r d = ((Inl x, d), r')"
    | r' where "process_candle cfg quotes inp run e r d = ((Inr (), d), r')"
    | r' sig where "process_candle cfg quotes inp run e r d = (process_signal cfg quotes inp run (ru_instrument r) sig d, r')"
proof -
  obtain res r' where run: "runner_on_candle (oc_lib cfg) e (position_of (get_for (ins_id (ru_instrument r)) (oc_mode cfg) d)) r = (res, r')"
    by fastforce
  show thesis
  proof (cases res)
    case (Inl x)
    then show thesis using that(1) run by (simp add: process_candle_def)
  next
    case (Inr sig)
    then show thesis using that(2,3) run by (cases sig) (simp_all add: process_candle_def)
  qed
qed

lemma keeps_process_candle:
  assumes "\<And>sig. keeps P (process_signal cfg quotes inp run (ru_instrument r) sig)"
  shows "keeps P (\<lambda>d. fst (process_candle cfg quotes inp run e r d))"
proof (rule keepsI)
  fix d assume "P d"
  then show "P (snd (fst (process_candle cfg quotes inp run e r d)))"
    using keepsD [OF assms] by (cases rule: process_candle_store [of cfg quotes inp run e r d]) auto
qed

lemma keeps_ks_error: "(\<And>d e. books e = books d \<Longrightarrow> P d \<Longrightarrow> P e) \<Longrightarrow> keeps P (ks_record_error now m)"
  by (rule keepsI) (metis frames_books_error framesD)

lemma ks_error_total: "\<exists>row. fst (ks_record_error now m d) = Inr row"
  by (auto simp: ks_record_error_def ks_trip_def ks_run split: option.split)

lemma ks_error_scope: "snd (session_scope (ks_record_error now m) d) = snd (ks_record_error now m d)"
  using ks_error_total [of now m d] by (auto simp: session_scope_def split: prod.split)

text \<open>A candle commits its whole unit of work, or rolls it back and counts one failure.\<close>

lemma on_candle_store:
  "or_store (on_candle cfg inp e s) = (case or_runners s (ce_instrument_key e) of
     None \<Rightarrow> or_store s
   | Some r \<Rightarrow> (case fst (process_candle cfg (live_quotes_update (ce_instrument_key e) (ce_close e) (or_quotes s)) inp (or_run_id s) e r (or_store s)) of
       (Inr _, d) \<Rightarrow> d
     | (Inl _, d) \<Rightarrow> snd (ks_record_error (in_now inp) (max_consecutive_errors (rc_kill_switch (oc_risk cfg))) (or_store s))))"
  by (auto simp: on_candle_def Let_def session_scope_def ks_error_scope [unfolded session_scope_def] split: option.split prod.split sum.split)

lemma on_candle_keeps:
  assumes "\<And>d e. books e = books d \<Longrightarrow> P d \<Longrightarrow> P e" and "\<And>quotes run inst sig. keeps P (process_signal cfg quotes inp run inst sig)"
    and "P (or_store s)"
  shows "P (or_store (on_candle cfg inp e s))"
proof (cases "or_runners s (ce_instrument_key e)")
  case (Some r)
  let ?m = "\<lambda>d. fst (process_candle cfg (live_quotes_update (ce_instrument_key e) (ce_close e) (or_quotes s)) inp (or_run_id s) e r d)"
  obtain res d where m: "?m (or_store s) = (res, d)" by fastforce
  have "P d" using keepsE [OF keeps_process_candle [OF assms(2)] assms(3) m] .
  moreover have "P (snd (ks_record_error now k (or_store s)))" for now k
    by (rule keepsD [where P = P, OF keeps_ks_error assms(3)]) (rule assms(1))
  ultimately show ?thesis using m Some by (auto simp: on_candle_store split: sum.split)
qed (use assms(3) in \<open>simp add: on_candle_store\<close>)

section \<open>Sessions\<close>

inductive orch_step :: "orch_cfg \<Rightarrow> 'st orch \<Rightarrow> 'st orch \<Rightarrow> bool" for cfg where
  candle: "orch_step cfg s (on_candle cfg inp e s)"
| housekeeping: "orch_step cfg s (run_housekeeping cfg inp s)"
| start: "orch_step cfg s (snd (start_strategy_run cfg s))"
| reconciled: "(\<And>xs. set (iter xs) = set xs \<and> distinct (iter xs)) \<Longrightarrow> orch_step cfg s (snd (reconcile cfg iter inp s))"

inductive_cases orch_stepE: "orch_step cfg s t"

lemma session_scope_keeps_valid: "valid P m (\<lambda>_. P) E \<Longrightarrow> P s \<Longrightarrow> P (snd (session_scope m s))"
  by (auto simp: session_scope_def dest: valid_InrD split: prod.split sum.split)

lemma map_sum_Inr: "map_sum id g x = Inr y \<longleftrightarrow> (\<exists>z. x = Inr z \<and> y = g z)"
  by (cases x) auto

lemma keeps_check_resting: "keeps (\<lambda>s. store_ok (pb_store s)) (check_resting_orders env)"
  unfolding check_resting_orders_def check_resting_order_def by (intro keeps_intros)

lemma housekeeping_ok:
  assumes "store_ok (or_store s)" shows "store_ok (or_store (run_housekeeping cfg inp s))"
proof -
  have "valid store_ok (housekeeping_body cfg quotes inp) (\<lambda>_. store_ok) (\<lambda>_. True)" for quotes
  proof (cases "oc_mode cfg = LIVE")
    case True
    have "store_ok (us_store t)" if "store_ok d" "poll_and_apply_fills env (upstox_init d) = (Inr us, t)" for d env us t
      using valid_InrD [OF valid_poll _ that(2)] that(1) by (simp add: upstox_init_def)
    then show ?thesis using True by (auto simp: valid_def housekeeping_body_def map_sum_Inr split: option.split prod.split sum.split)
  next
    case False
    have "store_ok (pb_store t)" if "store_ok d" "check_resting_orders env (paper_init c d) = (r, t)" for d env c r t
    proof -
      have "store_ok (pb_store (paper_init c d))" using that(1) by (simp add: paper_init_store)
      then show ?thesis using keepsE [OF keeps_check_resting _ that(2)] by simp
    qed
    then show ?thesis using False by (auto simp: valid_def housekeeping_body_def split: prod.split sum.split)
  qed
  from session_scope_keeps_valid [OF this assms] show ?thesis by (simp add: run_housekeeping_def)
qed

lemma start_books: "books (or_store (snd (start_strategy_run cfg s))) = books (or_store s)"
  by (simp add: start_strategy_run_def session_scope_def add_strategy_run_def repo_add_def Let_def books_def)

lemma reconcile_store: "or_store (snd (reconcile cfg iter inp s)) = snd (session_scope (reconcile_body cfg iter inp) (or_store s))"
  by (simp add: reconcile_def split: prod.split)

lemma reconcile_offline: "reconcile_on_startup iter now mode None threshold s =
    (case fail_all_stuck mode False (us_store s) of (r, d) \<Rightarrow> (r, s\<lparr>us_store := d\<rparr>))"
  by (auto simp: reconcile_on_startup_def run_bindA on_upstox_store_run run_ret split: prod.split sum.split)

lemma reconcile_ok:
  assumes iter: "\<And>xs. set (iter xs) = set xs \<and> distinct (iter xs)" and ok: "store_ok (or_store s)"
  shows "store_ok (or_store (snd (reconcile cfg iter inp s)))"
proof -
  have "valid store_ok (reconcile_body cfg iter inp) (\<lambda>_. store_ok) (\<lambda>_. True)"
  proof (rule validI)
    fix d assume d: "store_ok d"
    obtain r t where run: "reconcile_on_startup iter (in_now inp) (oc_mode cfg)
        (if oc_mode cfg = LIVE then map_option (\<lambda>u. live_env cfg u inp) (oc_upstox cfg) else None)
        (case oc_upstox cfg of None \<Rightarrow> 0 | Some u \<Rightarrow> uc_kill_threshold_qty u) (upstox_init d) = (r, t)" by fastforce
    have init: "us_store (upstox_init d) = d" by (simp add: upstox_init_def)
    have "store_ok (us_store t)" if r: "r = Inr fs" and live: "\<not> (oc_mode cfg = LIVE \<and> oc_upstox cfg = None)" for fs
    proof (cases "oc_mode cfg = LIVE")
      case True
      then obtain u where u: "oc_upstox cfg = Some u" using live by (cases "oc_upstox cfg") simp_all
      then have "reconcile_on_startup iter (in_now inp) LIVE (Some (live_env cfg u inp)) (uc_kill_threshold_qty u) (upstox_init d) = (Inr fs, t)"
        using run True r by simp
      from reconcile_live_run(1) [OF _ iter this] show ?thesis by (simp add: init d)
    next
      case False
      then show ?thesis using run keepsD [OF keeps_fail_all_stuck d, of "oc_mode cfg" False]
        by (auto simp: reconcile_offline init split: prod.splits)
    qed
    then show "case reconcile_body cfg iter inp d of (Inl e, t) \<Rightarrow> True | (Inr x, t) \<Rightarrow> store_ok t"
      using run by (auto simp: reconcile_body_def Let_def split: sum.split)
  qed
  from session_scope_keeps_valid [OF this ok] show ?thesis by (simp add: reconcile_store)
qed

lemma step_store_ok:
  assumes "orch_step cfg s t" "store_ok (or_store s)" shows "store_ok (or_store t)"
  using assms
proof (cases rule: orch_step.cases)
  case (candle inp e)
  show ?thesis unfolding candle
    by (rule on_candle_keeps [where P = store_ok, OF _ keeps_process_ok assms(2)]) (blast dest: store_ok_books)
next
  case (start)
  then show ?thesis using store_ok_books [OF start_books, of cfg s] assms(2) by simp
next
  case (reconciled iter inp)
  then show ?thesis using reconcile_ok [OF reconciled(2) assms(2)] by simp
qed (use assms(2) in \<open>simp add: housekeeping_ok\<close>)

lemma session_store_ok:
  "(orch_step cfg)\<^sup>*\<^sup>* s t \<Longrightarrow> store_ok (or_store s) \<Longrightarrow> store_ok (or_store t)"
proof (induction rule: rtranclp_induct)
  case (step t u)
  show ?case by (rule step_store_ok [OF step(2) step(3) [OF step(4)]])
qed

section \<open>Paper sessions\<close>

lemma housekeeping_paper:
  assumes "oc_mode cfg \<noteq> LIVE" "rates_small (oc_rates cfg)" "paper_safe c0 (or_store s)"
  shows "paper_safe c0 (or_store (run_housekeeping cfg inp s))"
proof -
  let ?env = "paper_env_of cfg (or_quotes s) inp"
  obtain r t where run: "check_resting_orders ?env (paper_init (oc_initial_cash cfg) (or_store s)) = (r, t)" by fastforce
  have "paper_safe c0 (pb_store t)"
    using paper_safe_check_resting [of ?env c0 "paper_init (oc_initial_cash cfg) (or_store s)"] assms run
    by (simp add: paper_env_of_def paper_init_safe)
  then show ?thesis using assms run
    by (auto simp: run_housekeeping_def session_scope_def housekeeping_body_def split: sum.split prod.split)
qed

text \<open>No paper order waits between submission and the exchange, so the start-up finds nothing.\<close>

lemma nothing_stuck:
  assumes "paper_safe c0 d" "m = PAPER"
  shows "fail_all_stuck m False d = (Inr [], d)"
proof -
  have "list_stuck PAPER False d = []"
    using assms(1) by (auto simp: list_stuck_def stuck_states_def paper_safe_def paper_orders_consistent_def order_consistent_def filter_empty_conv)
  then show ?thesis by (simp add: assms(2) fail_all_stuck_def run_bindA run_getA run_ret)
qed

lemma step_paper_safe:
  assumes "orch_step cfg s t" "oc_mode cfg = PAPER" "rates_small (oc_rates cfg)" "paper_safe c0 (or_store s)"
  shows "paper_safe c0 (or_store t)"
  using assms(1)
proof (cases rule: orch_step.cases)
  case (candle inp e)
  show ?thesis unfolding candle
    by (rule on_candle_keeps [where P = "paper_safe c0", OF _ keeps_process_paper assms(4)])
      (use assms(2,3) paper_safe_books in \<open>blast, simp_all\<close>)
next
  case (housekeeping inp)
  then show ?thesis using housekeeping_paper [of cfg c0 s inp] assms(2-4) by simp
next
  case (start)
  then show ?thesis using paper_safe_books [OF start_books, of c0 cfg s] assms(4) by simp
next
  case (reconciled iter inp)
  then show ?thesis using nothing_stuck [OF assms(4,2)] assms(2,4)
    by (simp add: reconcile_store reconcile_body_def reconcile_offline session_scope_def upstox_init_def split: option.split)
qed

lemma session_paper_safe:
  "(orch_step cfg)\<^sup>*\<^sup>* s t \<Longrightarrow> oc_mode cfg = PAPER \<Longrightarrow> rates_small (oc_rates cfg) \<Longrightarrow> paper_safe c0 (or_store s) \<Longrightarrow>
   paper_safe c0 (or_store t)"
proof (induction rule: rtranclp_induct)
  case (step t u)
  show ?case by (rule step_paper_safe [OF step(2) step(4,5) step(3) [OF step(4-6)]])
qed

end
