(* ===== verification/PT_Gate.thy ===== *)
theory PT_Gate
  imports PT_Session
begin

text \<open>
  The gate of a session. Orders, trades and positions change on a candle only when the risk engine
  approved the signal of that candle; a tripped kill switch, or a live session without the second
  key, leaves them as they are. Candles that fail one after another trip the kill switch.
\<close>

section \<open>What only an approval moves\<close>

definition trading_tables :: "store \<Rightarrow> order_row list \<times> order_event_row list \<times> trade_row list \<times> position_row list" where
  "trading_tables d = (orders d, order_events d, trades d, positions d)"

text \<open>The gate reads the switch too.\<close>

definition gate_state where
  "gate_state d = (trading_tables d, halted d)"

lemma gate_state_same: "trading_state e = trading_state d \<Longrightarrow> gate_state e = gate_state d"
  by (simp add: gate_state_def trading_tables_def trading_state_def halted_def)

lemma frames_gate_signal: "frames gate_state (add_signal g)" "frames gate_state (set_signal_status i st)"
  by (auto simp: keeps_def gate_state_def trading_tables_def halted_def ks_of_def add_signal_def repo_add_def Let_def
      set_signal_status_def modA_def)

lemma frames_tables_error: "frames trading_tables (ks_record_error now m)"
  by (auto simp: keeps_def trading_tables_def ks_record_error_def ks_trip_def ks_run split: option.split)

context broker
begin

lemma funds_gate: "br_get_funds ops d = (r, e) \<Longrightarrow> gate_state e = gate_state d"
proof -
  assume run: "br_get_funds ops d = (r, e)"
  have "gate_state (e\<lparr>paper_account := None\<rparr>) = gate_state (d\<lparr>paper_account := None\<rparr>)" using funds_frame [OF run] by simp
  then show ?thesis by (simp add: gate_state_def trading_tables_def halted_def ks_of_def)
qed

text \<open>The tables move only behind an approval.\<close>

lemma decide_signal_gate:
  assumes run: "decide_signal cfg inp ops inst sig i d = (r, e)" and moved: "gate_state e \<noteq> gate_state d"
  shows "\<exists>f d1 pnl ao d2. br_get_funds ops d = (Inr f, d1) \<and>
    evaluate (oc_sizer cfg) (oc_risk cfg) (in_cid inp) sig inst (oc_mode cfg) (f_equity f) pnl (oc_live_orders cfg) d1 = (Inr (Approved ao), d2) \<and>
    gate_state d1 = gate_state d \<and> (r, e) = place_approved ops i ao d2"
proof -
  obtain rf d1 where f: "br_get_funds ops d = (rf, d1)" by fastforce
  have g1: "gate_state d1 = gate_state d" by (rule funds_gate [OF f])
  obtain funds where rf: "rf = Inr funds"
    using run f moved g1 by (cases rf) (auto simp: decide_signal_def run_bindA)
  let ?pnl = "sum_realized_pnl_since (oc_mode cfg) (ist_midnight_utc (in_now inp)) d1"
  let ?eval = "evaluate (oc_sizer cfg) (oc_risk cfg) (in_cid inp) sig inst (oc_mode cfg) (f_equity funds) ?pnl (oc_live_orders cfg)"
  obtain re d2 where ev: "?eval d1 = (re, d2)" by fastforce
  have g2: "gate_state d2 = gate_state d1" using gate_state_same [OF evaluate_frame] ev by (metis snd_conv)
  have rest: "(r, e) = (case re of Inl x \<Rightarrow> (Inl x, d2) | Inr (Rejected x) \<Rightarrow> set_signal_status i SignalRejected d2
      | Inr (Approved ao) \<Rightarrow> place_approved ops i ao d2)"
    using run f rf ev by (auto simp: decide_signal_def run_bindA run_getA split: sum.splits risk_result.splits)
  have status: "gate_state (snd (set_signal_status i SignalRejected d2)) = gate_state d2"
    by (rule framesD [OF frames_gate_signal(2)])
  obtain ao where ao: "re = Inr (Approved ao)"
  proof (cases re)
    case (Inl x)
    then show thesis using rest moved g1 g2 by simp
  next
    case (Inr x)
    show thesis
    proof (cases x)
      case (Rejected y)
      then have "e = snd (set_signal_status i SignalRejected d2)" using rest Inr by (metis (no_types, lifting) old.sum.simps(6) risk_result.simps(6) snd_conv)
      then show thesis using moved g1 g2 status by simp
    qed (use that Inr in simp)
  qed
  show ?thesis using f rf ev ao g1 rest by auto
qed

end

lemma build_broker_cases:
  assumes "build_broker cfg quotes inp = Inr ops"
  obtains env where "ops = upstox_ops env" | env cash bid where "ops = paper_ops env cash bid"
  using assms by (auto simp: build_broker_def split: if_splits option.splits)

text \<open>A candle whose signal was approved: what the risk engine had checked.\<close>

definition approved_candle :: "orch_cfg \<Rightarrow> outside \<Rightarrow> instrument_row \<Rightarrow> strategy_signal \<Rightarrow> store \<Rightarrow> bool" where
  "approved_candle cfg inp inst sig d \<longleftrightarrow> (\<exists>d1 equity pnl ao d2.
     gate_state d1 = gate_state d \<and>
     evaluate (oc_sizer cfg) (oc_risk cfg) (in_cid inp) sig inst (oc_mode cfg) equity pnl (oc_live_orders cfg) d1 = (Inr (Approved ao), d2))"

lemma approved_candle_open: "approved_candle cfg inp inst sig d \<Longrightarrow> \<not> halted d \<and> (oc_mode cfg = LIVE \<longrightarrow> oc_live_orders cfg)"
  unfolding approved_candle_def gate_state_def using evaluate_Approved(1,2) by fastforce

lemma process_signal_gate:
  assumes run: "process_signal cfg quotes inp rn inst sig d = (r, e)" and moved: "gate_state e \<noteq> gate_state d"
  shows "approved_candle cfg inp inst sig d \<and> rn \<noteq> None"
proof -
  obtain i where i: "rn = Some i" using run moved by (cases rn) (auto simp: process_signal_def raise_def)
  obtain row d0 where add: "add_signal (signal_row_of inst i sig) d = (Inr row, d0)"
    by (metis add_signal_def repo_add_def)
  have g0: "gate_state d0 = gate_state d" using framesD [OF frames_gate_signal(1)] add by (metis snd_conv)
  obtain ops where ops: "build_broker cfg quotes inp = Inr ops"
    using run moved add g0 by (cases "build_broker cfg quotes inp") (auto simp: process_signal_def i run_bindA raise_def)
  have dec: "decide_signal cfg inp ops inst sig (sg_id row) d0 = (r, e)"
    using run by (simp add: process_signal_def i run_bindA add ops)
  have dec_gate: "\<exists>f d1 pnl ao d2. br_get_funds ops d0 = (Inr f, d1) \<and>
      evaluate (oc_sizer cfg) (oc_risk cfg) (in_cid inp) sig inst (oc_mode cfg) (f_equity f) pnl (oc_live_orders cfg) d1 = (Inr (Approved ao), d2) \<and>
      gate_state d1 = gate_state d0 \<and> (r, e) = place_approved ops (sg_id row) ao d2"
    using build_broker_cases [OF ops]
  proof cases
    case (1 env)
    show ?thesis by (rule upstox_broker.decide_signal_gate [OF dec [unfolded 1], folded 1]) (use moved g0 in simp)
  next
    case (2 env cash bid)
    show ?thesis by (rule paper_broker.decide_signal_gate [OF dec [unfolded 2], folded 2]) (use moved g0 in simp)
  qed
  then show ?thesis using g0 i unfolding approved_candle_def by fastforce
qed

text \<open>The candle as a whole.\<close>

lemma on_candle_gate:
  assumes moved: "trading_tables (or_store (on_candle cfg inp e s)) \<noteq> trading_tables (or_store s)"
  shows "\<exists>r sig. or_runners s (ce_instrument_key e) = Some r \<and> or_run_id s \<noteq> None \<and>
    fst (runner_on_candle (oc_lib cfg) e (position_of (get_for (ins_id (ru_instrument r)) (oc_mode cfg) (or_store s))) r) = Inr (Some sig) \<and>
    approved_candle cfg inp (ru_instrument r) sig (or_store s)"
proof -
  obtain r where r: "or_runners s (ce_instrument_key e) = Some r" using moved by (cases "or_runners s (ce_instrument_key e)") (auto simp: on_candle_store)
  let ?q = "live_quotes_update (ce_instrument_key e) (ce_close e) (or_quotes s)"
  obtain res d where m: "fst (process_candle cfg ?q inp (or_run_id s) e r (or_store s)) = (res, d)" by fastforce
  obtain u where res: "res = Inr u"
  proof (cases res)
    case (Inl x)
    then show thesis using moved m r framesD [OF frames_tables_error] by (simp add: on_candle_store)
  qed (rule that)
  have d: "or_store (on_candle cfg inp e s) = d" using m r res by (simp add: on_candle_store)
  obtain out r' where run: "runner_on_candle (oc_lib cfg) e (position_of (get_for (ins_id (ru_instrument r)) (oc_mode cfg) (or_store s))) r = (out, r')"
    by fastforce
  have "out \<noteq> Inl x" "out \<noteq> Inr None" for x using m run moved d res by (auto simp: process_candle_def)
  then obtain sig where sig: "out = Inr (Some sig)" by (metis not_None_eq obj_sumE)
  have ps: "process_signal cfg ?q inp (or_run_id s) (ru_instrument r) sig (or_store s) = (res, d)" using m run sig by (simp add: process_candle_def)
  have "gate_state d \<noteq> gate_state (or_store s)" using moved d by (auto simp: gate_state_def)
  from process_signal_gate [OF ps this] show ?thesis using r run sig by auto
qed

section \<open>Failing candles\<close>

definition candle_fails :: "orch_cfg \<Rightarrow> outside \<Rightarrow> candle_received \<Rightarrow> 'st orch \<Rightarrow> bool" where
  "candle_fails cfg inp e s \<longleftrightarrow> (\<exists>r x d. or_runners s (ce_instrument_key e) = Some r \<and>
     fst (process_candle cfg (live_quotes_update (ce_instrument_key e) (ce_close e) (or_quotes s)) inp (or_run_id s) e r (or_store s)) = (Inl x, d))"

abbreviation max_errors :: "orch_cfg \<Rightarrow> int" where
  "max_errors cfg \<equiv> max_consecutive_errors (rc_kill_switch (oc_risk cfg))"

lemma failed_candle_store:
  "candle_fails cfg inp e s \<Longrightarrow> or_store (on_candle cfg inp e s) = snd (ks_record_error (in_now inp) (max_errors cfg) (or_store s))"
  by (auto simp: candle_fails_def on_candle_store)

primrec feed_candles :: "orch_cfg \<Rightarrow> (outside \<times> candle_received) list \<Rightarrow> 'st orch \<Rightarrow> 'st orch" where
  "feed_candles cfg [] s = s"
| "feed_candles cfg (ie # ies) s = feed_candles cfg ies (on_candle cfg (fst ie) (snd ie) s)"

primrec all_fail :: "orch_cfg \<Rightarrow> (outside \<times> candle_received) list \<Rightarrow> 'st orch \<Rightarrow> bool" where
  "all_fail cfg [] s = True"
| "all_fail cfg (ie # ies) s = (candle_fails cfg (fst ie) (snd ie) s \<and> all_fail cfg ies (on_candle cfg (fst ie) (snd ie) s))"

lemma failing_candles:
  "all_fail cfg ies s \<Longrightarrow>
   ks_consecutive_errors (ks_of (or_store (feed_candles cfg ies s))) = ks_consecutive_errors (ks_of (or_store s)) + int (length ies) \<and>
   trading_tables (or_store (feed_candles cfg ies s)) = trading_tables (or_store s) \<and>
   (halted (or_store s) \<longrightarrow> halted (or_store (feed_candles cfg ies s))) \<and>
   (ies \<noteq> [] \<and> max_errors cfg \<le> ks_consecutive_errors (ks_of (or_store s)) + int (length ies) \<longrightarrow>
     halted (or_store (feed_candles cfg ies s)))"
proof (induction ies arbitrary: s)
  case (Cons ie ies)
  let ?t = "on_candle cfg (fst ie) (snd ie) s"
  have t: "or_store ?t = snd (ks_record_error (in_now (fst ie)) (max_errors cfg) (or_store s))"
    using Cons.prems by (intro failed_candle_store) simp
  have c: "ks_consecutive_errors (ks_of (or_store ?t)) = ks_consecutive_errors (ks_of (or_store s)) + 1"
    "halted (or_store ?t) \<longleftrightarrow> halted (or_store s) \<or> max_errors cfg \<le> ks_consecutive_errors (ks_of (or_store s)) + 1"
    "trading_tables (or_store ?t) = trading_tables (or_store s)"
    unfolding t by (simp_all add: ks_record_error_run framesD [OF frames_tables_error])
  have ih: "ks_consecutive_errors (ks_of (or_store (feed_candles cfg ies ?t))) = ks_consecutive_errors (ks_of (or_store ?t)) + int (length ies) \<and>
     trading_tables (or_store (feed_candles cfg ies ?t)) = trading_tables (or_store ?t) \<and>
     (halted (or_store ?t) \<longrightarrow> halted (or_store (feed_candles cfg ies ?t))) \<and>
     (ies \<noteq> [] \<and> max_errors cfg \<le> ks_consecutive_errors (ks_of (or_store ?t)) + int (length ies) \<longrightarrow>
       halted (or_store (feed_candles cfg ies ?t)))"
    using Cons by simp
  show ?case
  proof (cases "ies = []")
    case True
    then show ?thesis using c by simp
  next
    case False
    then show ?thesis using ih c by (simp add: add.commute add.left_commute)
  qed
qed simp

end
