(* ===== verification/PT_Demo.thy ===== *)
theory PT_Demo
  imports PT_Backtest_Safety PT_Gate
begin

text \<open>
  The concrete inputs of the witnesses: a store with one listed share and a funded paper account,
  environments with the default configuration, and the facts about them that several witnesses
  share.
\<close>

definition demo_instrument :: instrument_row where
  "demo_instrument = \<lparr>ins_id = 1, ins_symbol = ''TCS'', ins_exchange = ''NSE'', ins_isin = None,
     ins_key = ''NSE_EQ|1'', ins_name = None, ins_tick_size = 5 / 100, ins_lot_size = 1, ins_active = True\<rparr>"

definition demo_store :: store where
  "demo_store = empty_store\<lparr>instruments := [demo_instrument], paper_account := Some 100000\<rparr>"

definition demo_env :: paper_env where
  "demo_env = \<lparr>pe_rates = cost_config_default, pe_cfg = paper_config_default, pe_quotes = (\<lambda>_. Some 100),
     pe_clock = (\<lambda>n. int n)\<rparr>"

definition demo_session :: paper_session where
  "demo_session = \<lparr>pb_store = demo_store, pb_updates = [], pb_ticks = 0\<rparr>"

definition demo_request :: order_request where
  "demo_request = \<lparr>rq_cid = ''a'', rq_instrument = 1, rq_side = BUY, rq_type = MARKET, rq_qty = 10, rq_limit = None\<rparr>"

lemma demo_store_safe: "paper_safe 100000 demo_store"
  by (simp add: paper_safe_def paper_ok_def store_ok_def orders_wf_def trails_wf_def fills_wf_def positions_wf_def
      ledger_def held_def realized_def get_for_def ledger_qty_def ledger_realized_def ledger_cash_def
      paper_orders_consistent_def solvent_def demo_store_def empty_store_def)

lemma demo_env_rates: "pe_rates demo_env = cost_config_default" "pe_cfg demo_env = paper_config_default"
  by (simp_all add: demo_env_def)

lemma demo_session_store: "pb_store demo_session = demo_store"
  by (simp add: demo_session_def)

section \<open>Orders\<close>

definition demo_open_order :: order_row where
  "demo_open_order = \<lparr>o_id = 1, o_cid = ''a'', o_broker_id = Some ''b'', o_instrument = 1, o_signal = None,
     o_side = BUY, o_type = LIMIT, o_qty = 10, o_filled = 0, o_limit = Some 90, o_state = OPEN, o_mode = PAPER\<rparr>"

definition demo_trail :: "nat \<Rightarrow> order_event_row list" where
  "demo_trail i = [\<lparr>ev_id = 1, ev_order = i, ev_from = None, ev_to = PENDING_RISK, ev_payload = NoPayload\<rparr>,
     \<lparr>ev_id = 2, ev_order = i, ev_from = Some PENDING_RISK, ev_to = SUBMITTING, ev_payload = NoPayload\<rparr>,
     \<lparr>ev_id = 3, ev_order = i, ev_from = Some SUBMITTING, ev_to = SUBMITTED, ev_payload = NoPayload\<rparr>,
     \<lparr>ev_id = 4, ev_order = i, ev_from = Some SUBMITTED, ev_to = OPEN, ev_payload = NoPayload\<rparr>]"

definition demo_open_store :: store where
  "demo_open_store = demo_store\<lparr>orders := [demo_open_order], order_events := demo_trail 1\<rparr>"

lemma demo_open_safe: "paper_safe 100000 demo_open_store"
  by (simp add: paper_safe_def paper_ok_def store_ok_def orders_wf_def trails_wf_def fills_wf_def positions_wf_def
      ledger_def held_def realized_def get_for_def ledger_qty_def ledger_realized_def ledger_cash_def
      paper_orders_consistent_def order_consistent_def solvent_def demo_open_store_def demo_store_def empty_store_def
      demo_open_order_def demo_trail_def order_row_ok_def trail_of_def trades_of_def trail_ok_def demo_instrument_def)

lemma demo_open_store_ok: "store_ok demo_open_store"
  using demo_open_safe by (simp add: paper_safe_def paper_ok_def)

lemma demo_open_get: "get_order 1 demo_open_store = Some demo_open_order"
  by (simp add: get_order_def repo_get_def tbl_get_def demo_open_store_def demo_open_order_def)

definition demo_open_session :: paper_session where
  "demo_open_session = \<lparr>pb_store = demo_open_store, pb_updates = [], pb_ticks = 0\<rparr>"

lemma demo_open_by_cid: "get_by_client_order_id ''a'' demo_open_store = Some demo_open_order"
  by (simp add: get_by_client_order_id_def tbl_get_def demo_open_store_def demo_open_order_def)

section \<open>A held position\<close>

definition demo_long_store :: store where
  "demo_long_store = demo_store\<lparr>positions := [\<lparr>p_id = 1, p_instrument = 1, p_qty = 10, p_avg_price = 100,
     p_realized_pnl = 0, p_mode = PAPER\<rparr>]\<rparr>"

definition demo_exit :: strategy_signal where
  "demo_exit = \<lparr>s_direction = EXIT, s_ref_price = 100, s_context = JNull\<rparr>"

lemma demo_long_position: "get_for (ins_id demo_instrument) PAPER demo_long_store =
    Some \<lparr>p_id = 1, p_instrument = 1, p_qty = 10, p_avg_price = 100, p_realized_pnl = 0, p_mode = PAPER\<rparr>"
  by (simp add: get_for_def demo_long_store_def demo_instrument_def)

lemma demo_exit_approved:
  "\<exists>ao. fst (evaluate (sizer_size 1) risk_config_default ''c'' demo_exit demo_instrument PAPER 500000 0 False demo_long_store) = Inr (Approved ao)"
proof -
  have "\<not> halted demo_long_store" by (simp add: halted_def ks_of_def demo_long_store_def demo_store_def empty_store_def ks_new_def)
  then show ?thesis unfolding fst_evaluate
    by (simp add: evaluate_result_def demo_long_position no_daily_loss demo_exit_def risk_approve_def)
qed

section \<open>Live orders\<close>

definition demo_upstox :: upstox_env where
  "demo_upstox = \<lparr>ue_cfg = upstox_config_default, ue_rates = cost_config_default,
     ue_net = (\<lambda>n _. if n = 0 then HttpStatus 503 else HttpOk (JObj [])), ue_clock = (\<lambda>n. int n)\<rparr>"

definition demo_live_order :: order_row where
  "demo_live_order = demo_open_order\<lparr>o_mode := LIVE, o_broker_id := Some ''u1''\<rparr>"

definition demo_live_store :: store where
  "demo_live_store = demo_open_store\<lparr>orders := [demo_live_order]\<rparr>"

definition demo_rejecting :: upstox_env where
  "demo_rejecting = demo_upstox\<lparr>ue_net := (\<lambda>_ _. HttpOk (JObj [(''data'', JObj [(''status'', JStr ''rejected'')])]))\<rparr>"

lemma demo_live_facts:
  "list_open_orders LIVE (us_store (upstox_init demo_live_store)) = [demo_live_order]"
  "orders_wf (us_store (upstox_init demo_live_store))" "o_state demo_live_order = OPEN" "0 \<le> o_filled demo_live_order"
  "o_broker_id demo_live_order = Some ''u1''"
  by (simp_all add: list_open_orders_def demo_live_store_def upstox_init_def demo_live_order_def demo_open_order_def
      open_states_def orders_wf_def order_row_ok_def demo_open_store_def demo_store_def demo_instrument_def)

section \<open>Reconciliation\<close>

text \<open>A broker whose account holds no position.\<close>

definition demo_flat :: upstox_env where
  "demo_flat = demo_upstox\<lparr>ue_net := (\<lambda>_ _. HttpOk (JObj [(''data'', JList [])]))\<rparr>"

lemma demo_reconciles: "\<exists>fs. fst (reconcile_on_startup remdups 0 LIVE (Some demo_flat) 0 (upstox_init demo_store)) = Inr fs"
  by (rule exI [of _ "[]"]) code_simp

section \<open>Indicators\<close>

definition demo_candle :: "int \<Rightarrow> rat \<Rightarrow> candle" where
  "demo_candle t p = \<lparr>cd_ts = t, cd_open = p, cd_high = p + 1, cd_low = p - 1, cd_close = p, cd_volume = 100, cd_oi = 0\<rparr>"

definition demo_candles :: "candle list" where
  "demo_candles = [demo_candle 0 10, demo_candle 1 12, demo_candle 2 11]"

definition demo_specs :: "(string \<times> indicator_spec) list" where
  "demo_specs = [(''fast'', \<lparr>spec_kind = ''sma'', spec_params = [(''period'', 2)]\<rparr>)]"

lemma demo_view_init: "\<exists>v. live_view_init demo_specs = Inr v"
  by (simp add: demo_specs_def live_view_init_def new_state_def period_arg_def kwargs_def int_arg_def with_period_def
      require_period_def Let_def)

lemma demo_series: "compute_indicator_set exact_lib demo_candles demo_specs = Inr [(''fast'', [None, Some 11, Some (23 / 2)])]"
  by (simp add: demo_specs_def demo_candles_def demo_candle_def compute_indicator_set_def dispatch_def sma_def period_arg_def
      kwargs_def int_arg_def require_period_def exact_lib_def windows_def exact_mean_def store_output_def upt_rec)

section \<open>Backtests\<close>

definition demo_sma :: "unit strategy" where
  "demo_sma = \<lparr>st_init = (), st_warmup_bars = 3,
     st_required = [(''fast'', period_spec ''sma'' 1), (''slow'', period_spec ''sma'' 2)], st_on_candle = sma_on_candle\<rparr>"

lemma demo_sma_init: "sma_crossover \<lparr>sp_fast_period = 1, sp_slow_period = 2\<rparr> = Inr demo_sma"
  by (simp add: sma_crossover_def demo_sma_def)

lemma demo_sma_names: "distinct (live_names (st_required demo_sma))"
  by (simp add: demo_sma_def live_names_def expand_names_def period_spec_def)

lemma demo_sma_view: "\<exists>v. live_view_init (st_required demo_sma) = Inr v"
  by (simp add: demo_sma_def period_spec_def live_view_init_def new_state_def period_arg_def kwargs_def int_arg_def
      with_period_def require_period_def Let_def)

lemma demo_sma_series: "compute_indicator_set exact_lib cs (st_required demo_sma) =
    Inr [(''fast'', windows exact_mean 1 (map cd_close cs)), (''slow'', windows exact_mean 2 (map cd_close cs))]"
  by (simp add: demo_sma_def period_spec_def compute_indicator_set_def dispatch_def sma_def period_arg_def
      kwargs_def int_arg_def require_period_def exact_lib_def store_output_def Let_def)

text \<open>A buyer of single shares.\<close>

definition demo_bt :: bt_env where
  "demo_bt = \<lparr>be_lib = exact_lib, be_sizer = (\<lambda>_ _. Inr 1), be_rates = cost_config_default, be_segment = DELIVERY, be_slippage = 5\<rparr>"

definition demo_prices :: "candle list" where
  "demo_prices = [demo_candle 0 10, demo_candle 1 9, demo_candle 2 8, demo_candle 3 12, demo_candle 4 13]"

lemma demo_prices_pos: "demo_prices \<noteq> []" "\<forall>c \<in> set demo_prices. 0 < cd_open c"
  by (simp_all add: demo_prices_def demo_candle_def)

lemma demo_sma_answers: "answers demo_sma demo_prices
    [(''fast'', windows exact_mean 1 (map cd_close demo_prices)), (''slow'', windows exact_mean 2 (map cd_close demo_prices))]"
  by (rule sma_answers [where f = "windows exact_mean 1 (map cd_close demo_prices)" and g = "windows exact_mean 2 (map cd_close demo_prices)"])
     (simp_all add: windows_def demo_sma_def)

lemma demo_backtest: "\<exists>res. run_backtest demo_bt demo_sma demo_prices 1000 = Inr res"
  by (rule run_backtest_total [OF demo_prices_pos(1) _ _ demo_sma_answers demo_prices_pos(2)])
     (simp_all add: demo_bt_def demo_sma_series)

definition demo_short :: portfolio where
  "demo_short = \<lparr>pf_cash = 150, pf_qty = - 2, pf_avg = 60\<rparr>"

text \<open>A market without costs.\<close>

definition demo_free :: cost_config where
  "demo_free = \<lparr>brokerage_pct = 0, brokerage_max = 0, stt_delivery_pct = 0, stt_intraday_sell_pct = 0, exchange_txn_pct = 0,
     sebi_pct = 0, stamp_duty_buy_delivery_pct = 0, stamp_duty_buy_intraday_pct = 0, gst_pct = 0\<rparr>"

lemma dec_ints: "dec_rnd 100 = 100" "dec_rnd 200 = 200" "dec_rnd 1 = 1"
  using dec.rnd_int [of 100] dec.rnd_int [of 200] dec.rnd_int [of 1] by simp_all

lemma demo_free_net: "c_net_amount (leg_costs BUY 100 1 DELIVERY demo_free) = 100"
    "c_net_amount (leg_costs BUY 100 2 DELIVERY demo_free) = 200" "apply_slippage 100 BUY 0 = 100"
  by (simp_all add: leg_costs_def demo_free_def dec_mul_def dec_add_def Let_def dec.rnd_0 dec_ints apply_slippage_def)

lemma demo_short_clamp: "bt_clamp 2 100 DELIVERY demo_free 150 = Inr 1"
proof -
  obtain k where k: "bt_clamp 2 100 DELIVERY demo_free 150 = Inr k"
    using bt_clamping.clamp_total [of 100 2 DELIVERY demo_free 150] by auto
  have ok: "cost_config_ok demo_free" by (simp add: cost_config_ok_def demo_free_def)
  note iff = bt_clamping.clamp_affordable_iff [OF ok _ _ k]
  have "1 \<le> k" "\<not> 2 \<le> k" using iff [of 1] iff [of 2] demo_free_net by simp_all
  then show ?thesis using k by simp
qed

text \<open>Received candles.\<close>

definition demo_event :: "instant \<Rightarrow> rat \<Rightarrow> candle_received" where
  "demo_event t p = \<lparr>ce_instrument_key = ''NSE_EQ|1'', ce_interval = M1, ce_ts = t, ce_open = p, ce_high = p, ce_low = p,
     ce_close = p, ce_volume = 10\<rparr>"

definition demo_events :: "candle_received list" where
  "demo_events = [demo_event 0 10, demo_event 60 9, demo_event 120 12]"

lemma demo_events_ascending: "ascending (map candle_row demo_events)"
  by (simp add: ascending_def demo_events_def demo_event_def candle_row_def)

lemma demo_runner: "\<exists>r v. live_view_init (st_required demo_sma) = Inr v \<and>
    runner_after exact_lib demo_instrument demo_sma v (take 2 demo_events) r"
proof -
  obtain v0 where "live_view_init (st_required demo_sma) = Inr v0" using demo_sma_view by blast
  then obtain r where "runner_init demo_instrument demo_sma = Inr r" by (simp add: runner_init_def)
  then obtain v where v: "live_view_init (st_required demo_sma) = Inr v" "runner_after exact_lib demo_instrument demo_sma v [] r"
    using runner_after_init by blast
  from runner_after_step [OF runner_after_step [OF v(2), of "demo_event 0 10" FLAT_POSITION], of "demo_event 60 9" FLAT_POSITION]
  show ?thesis using v(1) by (auto simp: demo_events_def numeral_2_eq_2)
qed

definition demo_event_series :: "(string \<times> series) list" where
  "demo_event_series = [(''fast'', windows exact_mean 1 (map cd_close (map candle_row demo_events))),
     (''slow'', windows exact_mean 2 (map cd_close (map candle_row demo_events)))]"

lemma demo_events_compute: "compute_indicator_set exact_lib (map candle_row demo_events) (st_required demo_sma) = Inr demo_event_series"
  unfolding demo_event_series_def by (rule demo_sma_series)

section \<open>Sessions\<close>

definition demo_cfg :: orch_cfg where
  "demo_cfg = \<lparr>oc_mode = PAPER, oc_risk = risk_config_default\<lparr>rc_kill_switch := \<lparr>max_consecutive_errors = 2\<rparr>\<rparr>,
     oc_sizer = (\<lambda>_ _. Inr 1), oc_rates = cost_config_default, oc_paper = paper_config_default, oc_initial_cash = 100000,
     oc_strategy_name = ''demo'', oc_strategy_params = JObj [], oc_live_orders = False, oc_upstox = None, oc_lib = exact_lib\<rparr>"

definition demo_outside :: outside where
  "demo_outside = \<lparr>in_cid = ''c'', in_bid = ''b'', in_now = 0, in_clock = (\<lambda>n. int n), in_net = (\<lambda>_ _. HttpFailure)\<rparr>"

text \<open>A strategy that looks up an indicator it never declared.\<close>

definition demo_broken :: "unit strategy" where
  "demo_broken = \<lparr>st_init = (), st_warmup_bars = 0, st_required = [],
     st_on_candle = (\<lambda>st ctx. bindE (iv_value (ctx_indicators ctx) ''fast'') (\<lambda>_. Inr (None, st)))\<rparr>"

definition demo_runner_of :: "unit strategy \<Rightarrow> unit runner" where
  "demo_runner_of strat = \<lparr>ru_instrument = demo_instrument, ru_strategy = strat, ru_state = (), ru_rows = [],
     ru_indicators = \<lparr>lv_states = [], lv_latest = [], lv_history = []\<rparr>, ru_bar_count = 0\<rparr>"

definition demo_orch :: "unit orch" where
  "demo_orch = \<lparr>or_store = demo_store, or_quotes = (\<lambda>_. None), or_runners = [''NSE_EQ|1'' \<mapsto> demo_runner_of demo_broken],
     or_run_id = Some 1\<rparr>"

lemma broken_raises:
  assumes "ru_strategy r = demo_broken" "ru_indicators r = \<lparr>lv_states = [], lv_latest = [], lv_history = []\<rparr>" "0 \<le> ru_bar_count r"
  shows "fst (runner_on_candle lib e pos r) = Inl PyKeyError \<and> ru_strategy (snd (runner_on_candle lib e pos r)) = demo_broken \<and>
    ru_indicators (snd (runner_on_candle lib e pos r)) = \<lparr>lv_states = [], lv_latest = [], lv_history = []\<rparr> \<and>
    0 \<le> ru_bar_count (snd (runner_on_candle lib e pos r))"
  using assms by (simp add: runner_on_candle_run runner_receive_def live_update_def all_warm_def demo_broken_def Let_def
      runner_context_def live_indicator_view_def)

definition broken_orch :: "unit orch \<Rightarrow> bool" where
  "broken_orch s \<longleftrightarrow> (\<exists>r. or_runners s ''NSE_EQ|1'' = Some r \<and> ru_strategy r = demo_broken \<and>
     ru_indicators r = \<lparr>lv_states = [], lv_latest = [], lv_history = []\<rparr> \<and> 0 \<le> ru_bar_count r)"

lemma broken_fails:
  assumes "broken_orch s" "ce_instrument_key e = ''NSE_EQ|1''"
  shows "candle_fails demo_cfg inp e s \<and> broken_orch (on_candle demo_cfg inp e s)"
proof -
  obtain r where r: "or_runners s ''NSE_EQ|1'' = Some r" "ru_strategy r = demo_broken"
    "ru_indicators r = \<lparr>lv_states = [], lv_latest = [], lv_history = []\<rparr>" "0 \<le> ru_bar_count r"
    using assms(1) by (auto simp: broken_orch_def)
  let ?pos = "position_of (get_for (ins_id (ru_instrument r)) (oc_mode demo_cfg) (or_store s))"
  obtain r' where run: "runner_on_candle (oc_lib demo_cfg) e ?pos r = (Inl PyKeyError, r')"
    and r': "ru_strategy r' = demo_broken" "ru_indicators r' = \<lparr>lv_states = [], lv_latest = [], lv_history = []\<rparr>" "0 \<le> ru_bar_count r'"
    using broken_raises [OF r(2-4), of "oc_lib demo_cfg" e ?pos] by (metis prod.collapse)
  then have pc: "process_candle demo_cfg q inp rn e r (or_store s) = ((Inl PyKeyError, or_store s), r')" for q rn
    by (simp add: process_candle_def)
  show ?thesis using r(1) r' assms(2) by (simp add: candle_fails_def broken_orch_def on_candle_def pc session_scope_def Let_def)
qed

lemma demo_all_fail: "all_fail demo_cfg [(demo_outside, demo_event 0 10), (demo_outside, demo_event 60 11)] demo_orch"
proof -
  have b: "broken_orch demo_orch" by (simp add: broken_orch_def demo_orch_def demo_runner_of_def)
  have k: "ce_instrument_key (demo_event t p) = ''NSE_EQ|1''" for t p by (simp add: demo_event_def)
  note one = broken_fails [OF b k] and two = broken_fails [OF conjunct2 [OF broken_fails [OF b k]] k]
  show ?thesis using one two by simp
qed

end
