(* ===== verification/PT_Feed.thy ===== *)
theory PT_Feed
  imports PT_Runner PT_Calendar
begin

text \<open>
  The live market data feed: the candle aggregator (\<open>data/live/aggregator.py\<close>), the staleness
  detector (\<open>data/live/staleness.py\<close>), the event bus (\<open>core/events.py\<close>) and \<open>LiveFeed\<close>
  (\<open>data/live/feed.py\<close>). The subscribers of the bus act on a state of their own, the type
  \<open>'w\<close>. What is proved: the aggregator implements the abstract specification "cut the ticks
  into runs of one bucket and summarise each run", the feed publishes exactly these bars for every
  subscription, and staleness is announced once per silence.
\<close>

section \<open>Quotes and the aggregator\<close>

record quote =
  qu_instrument_key :: string
  qu_ltp :: rat
  qu_ltq :: int
  qu_ltt :: instant
  qu_close :: rat

record agg_candle =
  ac_instrument_key :: string
  ac_interval :: interval
  ac_ts :: instant
  ac_open :: rat
  ac_high :: rat
  ac_low :: rat
  ac_close :: rat
  ac_volume :: int

record aggregator =
  ag_key :: string
  ag_interval :: interval
  ag_bucket :: "instant option"
  ag_open :: rat
  ag_high :: rat
  ag_low :: rat
  ag_close :: rat
  ag_volume :: int

fun interval_seconds :: "interval \<Rightarrow> int option" where
  "interval_seconds M1 = Some 60"
| "interval_seconds M15 = Some 900"
| "interval_seconds D1 = None"

definition new_aggregator :: "string \<Rightarrow> interval \<Rightarrow> py_error + aggregator" where
  "new_aggregator key iv = (if interval_seconds iv = None then Inl PyValueError
     else Inr \<lparr>ag_key = key, ag_interval = iv, ag_bucket = None, ag_open = 0, ag_high = 0, ag_low = 0, ag_close = 0, ag_volume = 0\<rparr>)"

text \<open>\<open>int(ts.timestamp())\<close>: the seconds since 1970, rounded towards zero (day 719163 is 1970-01-01).\<close>

definition unix_epoch :: instant where "unix_epoch = 719163 * us_per_day"

definition unix_seconds :: "instant \<Rightarrow> int" where
  "unix_seconds ts = (let us = ts - unix_epoch in if 0 \<le> us then us div 1000000 else - ((- us) div 1000000))"

definition bucket_start_for :: "interval \<Rightarrow> instant \<Rightarrow> py_error + instant" where
  "bucket_start_for iv ts = (case interval_seconds iv of
     None \<Rightarrow> Inl PyKeyError
   | Some seconds \<Rightarrow> Inr (unix_epoch + (unix_seconds ts - unix_seconds ts mod seconds) * 1000000))"

definition agg_snapshot :: "aggregator \<Rightarrow> py_error + agg_candle" where
  "agg_snapshot a = (case ag_bucket a of
     None \<Rightarrow> Inl PyAssertionError
   | Some b \<Rightarrow> Inr \<lparr>ac_instrument_key = ag_key a, ac_interval = ag_interval a, ac_ts = b, ac_open = ag_open a, ac_high = ag_high a,
       ac_low = ag_low a, ac_close = ag_close a, ac_volume = ag_volume a\<rparr>)"

definition agg_enter :: "instant \<Rightarrow> quote \<Rightarrow> aggregator \<Rightarrow> aggregator" where
  "agg_enter bucket qt a = (
     let b = (if ag_bucket a = None
       then a\<lparr>ag_bucket := Some bucket, ag_open := qu_ltp qt, ag_high := qu_ltp qt, ag_low := qu_ltp qt, ag_volume := 0\<rparr> else a) in
     b\<lparr>ag_high := max (ag_high b) (qu_ltp qt), ag_low := min (ag_low b) (qu_ltp qt), ag_close := qu_ltp qt,
       ag_volume := ag_volume b + qu_ltq qt\<rparr>)"

definition add_tick :: "quote \<Rightarrow> aggregator \<Rightarrow> py_error + agg_candle option \<times> aggregator" where
  "add_tick qt a = (if qu_instrument_key qt \<noteq> ag_key a then Inl PyValueError
     else bindE (bucket_start_for (ag_interval a) (qu_ltt qt)) (\<lambda>bucket.
       if ag_bucket a \<noteq> None \<and> ag_bucket a \<noteq> Some bucket
       then bindE (agg_snapshot a) (\<lambda>c. Inr (Some c, agg_enter bucket qt (a\<lparr>ag_bucket := None\<rparr>)))
       else Inr (None, agg_enter bucket qt a)))"

definition agg_flush :: "aggregator \<Rightarrow> agg_candle option \<times> aggregator" where
  "agg_flush a = (case agg_snapshot a of Inl _ \<Rightarrow> (None, a) | Inr c \<Rightarrow> (Some c, a\<lparr>ag_bucket := None\<rparr>))"

section \<open>What an aggregator promises\<close>

text \<open>The ticks, cut into the longest stretches with the same bucket, and the summary of one stretch.\<close>

function runs :: "('a \<Rightarrow> 'k) \<Rightarrow> 'a list \<Rightarrow> 'a list list" where
  "runs f [] = []"
| "runs f (x # xs) = (x # takeWhile (\<lambda>y. f y = f x) xs) # runs f (dropWhile (\<lambda>y. f y = f x) xs)"
  by pat_completeness auto
termination by (relation "measure (\<lambda>(f, xs). length xs)") (auto simp: length_dropWhile_le less_Suc_eq_le)

definition bucket_of :: "interval \<Rightarrow> quote \<Rightarrow> instant" where
  "bucket_of iv qt = (case bucket_start_for iv (qu_ltt qt) of Inl _ \<Rightarrow> 0 | Inr b \<Rightarrow> b)"

definition summary_of :: "string \<Rightarrow> interval \<Rightarrow> quote list \<Rightarrow> agg_candle" where
  "summary_of key iv qs = \<lparr>ac_instrument_key = key, ac_interval = iv, ac_ts = bucket_of iv (hd qs), ac_open = qu_ltp (hd qs),
     ac_high = Max (qu_ltp ` set qs), ac_low = Min (qu_ltp ` set qs), ac_close = qu_ltp (last qs), ac_volume = sum_list (map qu_ltq qs)\<rparr>"

lemma runs_concat: "concat (runs f xs) = xs"
  by (induction f xs rule: runs.induct) simp_all

lemma runs_nonempty: "r \<in> set (runs f xs) \<Longrightarrow> r \<noteq> []"
  by (induction f xs rule: runs.induct) auto

lemma runs_same: "r \<in> set (runs f xs) \<Longrightarrow> x \<in> set r \<Longrightarrow> f x = f (hd r)"
  by (induction f xs rule: runs.induct) (auto dest: set_takeWhileD)

lemma runs_Cons_same:
  "xs \<noteq> [] \<Longrightarrow> (\<And>x. x \<in> set xs \<Longrightarrow> f x = k) \<Longrightarrow> ys = [] \<or> f (hd ys) \<noteq> k \<Longrightarrow> runs f (xs @ ys) = xs # runs f ys"
  by (cases xs; cases ys) (auto simp: takeWhile_append dropWhile_append dropWhile_eq_Nil_conv [THEN iffD2])

lemma hd_run_in: "r \<in> set (runs f xs) \<Longrightarrow> hd r \<in> set xs"
  by (metis hd_in_set runs_concat runs_nonempty concat_eq_concat_iff in_set_conv_decomp set_concat UN_iff)

text \<open>Ticks in the order of their buckets: one run per bucket, and no bucket comes back.\<close>

lemma runs_increasing:
  fixes f :: "'a \<Rightarrow> 'k::linorder"
  shows "sorted (map f xs) \<Longrightarrow> sorted_wrt (<) (map (f \<circ> hd) (runs f xs))"
proof (induction f xs rule: runs.induct)
  case (2 f x xs)
  let ?d = "dropWhile (\<lambda>y. f y = f x) xs"
  have sd: "sorted (map f ?d)" using 2(2) by (simp add: dropWhile_map [symmetric, unfolded comp_def] sorted_dropWhile dropWhile_eq_drop drop_map [symmetric] sorted_wrt_drop)
  have "f x < f y" if y: "y \<in> set ?d" for y
  proof -
    have ne: "?d \<noteq> []" using y by (metis empty_iff list.set(1))
    then have "f (hd ?d) \<noteq> f x" using hd_dropWhile [of "\<lambda>y. f y = f x" xs] dropWhile_eq_Nil_conv by metis
    moreover have "f x \<le> f (hd ?d)" using 2(2) ne by (metis (no_types, lifting) hd_in_set image_eqI list.set_map list.simps(9) set_dropWhileD sorted_wrt.simps(2))
    moreover have "f (hd ?d) \<le> f y" using sd y ne by (cases ?d) auto
    ultimately show ?thesis by order
  qed
  then show ?case using 2(1) [OF sd] hd_run_in [of _ f ?d] by auto
qed simp

section \<open>The aggregator implements its specification\<close>

definition one_bucket :: "interval \<Rightarrow> quote list \<Rightarrow> bool" where
  "one_bucket iv cur \<longleftrightarrow> (\<forall>qt \<in> set cur. bucket_of iv qt = bucket_of iv (hd cur))"

lemma one_bucket_single [simp]: "one_bucket iv [qt]"
  by (simp add: one_bucket_def)

lemma one_bucket_snoc:
  assumes "one_bucket iv cur" "cur \<noteq> []" "bucket_of iv qt = bucket_of iv (hd cur)"
  shows "one_bucket iv (cur @ [qt])"
proof -
  have "hd (cur @ [qt]) = hd cur" using assms(2) by simp
  then show ?thesis using assms(1,3) unfolding one_bucket_def by fastforce
qed

text \<open>The abstraction: the aggregator holds the ticks \<open>cur\<close> of the bucket in progress.\<close>

definition holds :: "string \<Rightarrow> interval \<Rightarrow> aggregator \<Rightarrow> quote list \<Rightarrow> bool" where
  "holds key iv a cur \<longleftrightarrow> ag_key a = key \<and> ag_interval a = iv \<and>
     (if cur = [] then ag_bucket a = None
      else agg_snapshot a = Inr (summary_of key iv cur) \<and> one_bucket iv cur)"

lemma bucket_start_Inr: "interval_seconds iv \<noteq> None \<Longrightarrow> bucket_start_for iv (qu_ltt qt) = Inr (bucket_of iv qt)"
  by (auto simp: bucket_of_def bucket_start_for_def)

lemma agg_snapshot_Inr:
  "agg_snapshot a = Inr c \<longleftrightarrow> ag_bucket a = Some (ac_ts c) \<and> ag_key a = ac_instrument_key c \<and> ag_interval a = ac_interval c \<and>
     ag_open a = ac_open c \<and> ag_high a = ac_high c \<and> ag_low a = ac_low c \<and> ag_close a = ac_close c \<and> ag_volume a = ac_volume c"
  by (cases c) (auto simp: agg_snapshot_def split: option.split)

lemma summary_of_snoc:
  "qs \<noteq> [] \<Longrightarrow> summary_of key iv (qs @ [qt]) = (summary_of key iv qs)\<lparr>ac_high := max (ac_high (summary_of key iv qs)) (qu_ltp qt),
     ac_low := min (ac_low (summary_of key iv qs)) (qu_ltp qt), ac_close := qu_ltp qt, ac_volume := ac_volume (summary_of key iv qs) + qu_ltq qt\<rparr>"
  by (simp add: summary_of_def max.commute min.commute)

lemma summary_of_simps [simp]:
  "ac_instrument_key (summary_of key iv qs) = key" "ac_interval (summary_of key iv qs) = iv"
  "ac_ts (summary_of key iv qs) = bucket_of iv (hd qs)"
  by (simp_all add: summary_of_def)

lemma holds_iff:
  "holds key iv a cur \<longleftrightarrow> ag_key a = key \<and> ag_interval a = iv \<and>
     (cur = [] \<and> ag_bucket a = None \<or>
      cur \<noteq> [] \<and> ag_bucket a = Some (bucket_of iv (hd cur)) \<and> ag_open a = ac_open (summary_of key iv cur) \<and>
      ag_high a = ac_high (summary_of key iv cur) \<and> ag_low a = ac_low (summary_of key iv cur) \<and>
      ag_close a = ac_close (summary_of key iv cur) \<and> ag_volume a = ac_volume (summary_of key iv cur) \<and>
      one_bucket iv cur)"
  by (auto simp: holds_def agg_snapshot_Inr)

text \<open>Entering a tick on an empty aggregator, and on one that holds the tick's bucket.\<close>

lemma enter_fresh:
  "ag_key a = key \<Longrightarrow> ag_interval a = iv \<Longrightarrow> ag_bucket a = None \<Longrightarrow> holds key iv (agg_enter (bucket_of iv qt) qt a) [qt]"
  by (simp add: holds_iff agg_enter_def Let_def) (simp add: summary_of_def)

lemma enter_same:
  assumes h: "holds key iv a cur" and ne: "cur \<noteq> []" and b: "bucket_of iv qt = bucket_of iv (hd cur)"
  shows "holds key iv (agg_enter (bucket_of iv qt) qt a) (cur @ [qt])"
proof -
  note f = h [unfolded holds_iff] ne
  then have "ag_bucket a \<noteq> None" by simp
  then have "agg_enter (bucket_of iv qt) qt a = a\<lparr>ag_high := max (ag_high a) (qu_ltp qt), ag_low := min (ag_low a) (qu_ltp qt),
      ag_close := qu_ltp qt, ag_volume := ag_volume a + qu_ltq qt\<rparr>" by (simp only: agg_enter_def Let_def if_False)
  then show ?thesis using f b summary_of_snoc [OF ne, of key iv qt] ne one_bucket_snoc [of iv cur qt]
    by (simp add: holds_iff)
qed

lemma add_tick_run:
  assumes "ag_key a = qu_instrument_key qt" "ag_interval a = iv" "interval_seconds iv \<noteq> None"
  shows "add_tick qt a = (if ag_bucket a \<noteq> None \<and> ag_bucket a \<noteq> Some (bucket_of iv qt)
    then bindE (agg_snapshot a) (\<lambda>c. Inr (Some c, agg_enter (bucket_of iv qt) qt (a\<lparr>ag_bucket := None\<rparr>)))
    else Inr (None, agg_enter (bucket_of iv qt) qt a))"
  using bucket_start_Inr [OF assms(3), of qt] assms(1,2) by (simp add: add_tick_def)

lemma add_tick_holds:
  assumes h: "holds key iv a cur" and iv: "interval_seconds iv \<noteq> None" and key: "qu_instrument_key qt = key"
  shows "\<exists>a'. add_tick qt a = Inr (if cur \<noteq> [] \<and> bucket_of iv qt \<noteq> bucket_of iv (hd cur) then Some (summary_of key iv cur) else None, a') \<and>
     holds key iv a' (if cur \<noteq> [] \<and> bucket_of iv qt = bucket_of iv (hd cur) then cur @ [qt] else [qt])"
proof -
  have a: "ag_key a = key" "ag_interval a = iv" using h by (simp_all add: holds_def)
  note run = add_tick_run [of a qt iv, OF _ a(2) iv]
  show ?thesis
  proof (cases "cur = []")
    case True
    then have "ag_bucket a = None" using h by (simp add: holds_def)
    then show ?thesis using run True a key enter_fresh [OF a] by simp
  next
    case False
    then have b: "ag_bucket a = Some (bucket_of iv (hd cur))" using h by (simp add: holds_iff)
    have snap: "agg_snapshot a = Inr (summary_of key iv cur)" using h False by (simp add: holds_def)
    show ?thesis
    proof (cases "bucket_of iv qt = bucket_of iv (hd cur)")
      case True
      then show ?thesis using run enter_same [OF h False True] False a key b by simp
    next
      case other: False
      have "holds key iv (agg_enter (bucket_of iv qt) qt (a\<lparr>ag_bucket := None\<rparr>)) [qt]" by (rule enter_fresh) (simp_all add: a)
      then show ?thesis using run other False a key b snap by simp
    qed
  qed
qed

lemma agg_flush_holds:
  assumes "holds key iv a cur"
  shows "fst (agg_flush a) = (if cur = [] then None else Some (summary_of key iv cur)) \<and> holds key iv (snd (agg_flush a)) []"
proof (cases "cur = []")
  case True
  then show ?thesis using assms by (simp add: holds_def agg_flush_def agg_snapshot_def)
next
  case False
  then have "agg_snapshot a = Inr (summary_of key iv cur)" "ag_key a = key" "ag_interval a = iv" using assms by (simp_all add: holds_def)
  then show ?thesis using False by (simp add: holds_def agg_flush_def)
qed

text \<open>A whole stream of ticks, and the bars it closes.\<close>

primrec agg_run :: "quote list \<Rightarrow> aggregator \<Rightarrow> py_error + agg_candle list \<times> aggregator" where
  "agg_run [] a = Inr ([], a)"
| "agg_run (qt # qts) a = bindE (add_tick qt a) (\<lambda>(c, a1). bindE (agg_run qts a1) (\<lambda>(cs, a2).
     Inr ((case c of None \<Rightarrow> [] | Some x \<Rightarrow> [x]) @ cs, a2)))"

definition all_bars :: "quote list \<Rightarrow> aggregator \<Rightarrow> py_error + agg_candle list" where
  "all_bars qts a = bindE (agg_run qts a) (\<lambda>(cs, b). Inr (cs @ (case fst (agg_flush b) of None \<Rightarrow> [] | Some x \<Rightarrow> [x])))"

definition spec_bars :: "string \<Rightarrow> interval \<Rightarrow> quote list \<Rightarrow> agg_candle list" where
  "spec_bars key iv qts = map (summary_of key iv) (runs (bucket_of iv) qts)"

lemma spec_bars_Nil [simp]: "spec_bars key iv [] = []"
  by (simp add: spec_bars_def)

lemma spec_bars_run:
  assumes "cur \<noteq> []" "one_bucket iv cur" "qts = [] \<or> bucket_of iv (hd qts) \<noteq> bucket_of iv (hd cur)"
  shows "spec_bars key iv (cur @ qts) = summary_of key iv cur # spec_bars key iv qts"
proof -
  have "runs (bucket_of iv) (cur @ qts) = cur # runs (bucket_of iv) qts"
  proof (rule runs_Cons_same [OF assms(1), where k = "bucket_of iv (hd cur)"])
    fix x assume "x \<in> set cur"
    then show "bucket_of iv x = bucket_of iv (hd cur)" using assms(2) unfolding one_bucket_def by blast
  qed (rule assms(3))
  then show ?thesis by (simp add: spec_bars_def)
qed

lemma all_bars_spec:
  assumes "interval_seconds iv \<noteq> None"
  shows "holds key iv a cur \<Longrightarrow> \<forall>qt \<in> set qts. qu_instrument_key qt = key \<Longrightarrow> all_bars qts a = Inr (spec_bars key iv (cur @ qts))"
proof (induction qts arbitrary: a cur)
  case Nil
  then show ?case using agg_flush_holds [OF Nil(1)] spec_bars_run [of cur iv "[]" key]
    by (auto simp: all_bars_def holds_def split: if_splits)
next
  case (Cons qt qts)
  let ?cut = "cur \<noteq> [] \<and> bucket_of iv qt \<noteq> bucket_of iv (hd cur)"
  let ?cur = "if cur \<noteq> [] \<and> bucket_of iv qt = bucket_of iv (hd cur) then cur @ [qt] else [qt]"
  obtain a' where t: "add_tick qt a = Inr (if ?cut then Some (summary_of key iv cur) else None, a')" and h: "holds key iv a' ?cur"
    using add_tick_holds [OF Cons(2) assms, of qt] Cons(3) by auto
  have rest: "all_bars qts a' = Inr (spec_bars key iv (?cur @ qts))" using Cons(1) [OF h] Cons(3) by simp
  have split: "spec_bars key iv (cur @ qt # qts) = (if ?cut then [summary_of key iv cur] else []) @ spec_bars key iv (?cur @ qts)"
    using Cons(2) spec_bars_run [of cur iv "qt # qts" key] by (auto simp: holds_def)
  obtain cs b where run: "agg_run qts a' = Inr (cs, b)"
    and cs: "cs @ (case fst (agg_flush b) of None \<Rightarrow> [] | Some x \<Rightarrow> [x]) = spec_bars key iv (?cur @ qts)"
    using rest unfolding all_bars_def by (elim bindE_InrE) auto
  show ?case unfolding split cs [symmetric] unfolding all_bars_def agg_run.simps t run bindE_simps prod.case append_assoc
    by (cases ?cut) (simp_all only: if_P if_not_P simp_thms option.case if_True if_False)
qed

lemma new_aggregator_holds: "new_aggregator key iv = Inr a \<longleftrightarrow> interval_seconds iv \<noteq> None \<and>
    a = \<lparr>ag_key = key, ag_interval = iv, ag_bucket = None, ag_open = 0, ag_high = 0, ag_low = 0, ag_close = 0, ag_volume = 0\<rparr>"
  by (auto simp: new_aggregator_def)

theorem aggregator_spec:
  assumes "new_aggregator key iv = Inr a" and "\<forall>qt \<in> set qts. qu_instrument_key qt = key"
  shows "all_bars qts a = Inr (spec_bars key iv qts)"
  using all_bars_spec [of iv key a "[]" qts] assms by (auto simp: new_aggregator_holds holds_def)

section \<open>What the bars are worth\<close>

definition bar_ok :: "agg_candle \<Rightarrow> bool" where
  "bar_ok c \<longleftrightarrow> ac_low c \<le> ac_open c \<and> ac_low c \<le> ac_close c \<and> ac_open c \<le> ac_high c \<and> ac_close c \<le> ac_high c"

lemma summary_of_ok: "qs \<noteq> [] \<Longrightarrow> bar_ok (summary_of key iv qs)"
  by (simp add: bar_ok_def summary_of_def)

lemma spec_bars_ok: "c \<in> set (spec_bars key iv qts) \<Longrightarrow> bar_ok c"
  by (auto simp: spec_bars_def dest: runs_nonempty summary_of_ok)

lemma spec_bars_volume: "sum_list (map ac_volume (spec_bars key iv qts)) = sum_list (map qu_ltq qts)"
proof -
  have "sum_list (map (\<lambda>r. sum_list (map qu_ltq r)) rs) = sum_list (map qu_ltq (concat rs))" for rs by (induction rs) simp_all
  from this [of "runs (bucket_of iv) qts"] show ?thesis by (simp add: runs_concat spec_bars_def comp_def summary_of_def)
qed

lemma unix_seconds_mono: "s \<le> t \<Longrightarrow> unix_seconds s \<le> unix_seconds t"
proof -
  assume le: "s \<le> t"
  show ?thesis
  proof (cases "0 \<le> s - unix_epoch")
    case True
    then show ?thesis using le by (simp add: unix_seconds_def Let_def zdiv_mono1)
  next
    case False
    then have "0 \<le> (unix_epoch - s) div 1000000" by (simp add: pos_imp_zdiv_nonneg_iff)
    moreover have "0 \<le> t - unix_epoch \<Longrightarrow> 0 \<le> (t - unix_epoch) div 1000000" by (simp add: pos_imp_zdiv_nonneg_iff)
    moreover have "- (t - unix_epoch) div 1000000 \<le> - (s - unix_epoch) div 1000000" using le by (simp add: zdiv_mono1)
    ultimately show ?thesis using False by (auto simp: unix_seconds_def Let_def)
  qed
qed

lemma bucket_of_mono: "interval_seconds iv \<noteq> None \<Longrightarrow> qu_ltt p \<le> qu_ltt qt \<Longrightarrow> bucket_of iv p \<le> bucket_of iv qt"
proof -
  assume "interval_seconds iv \<noteq> None" and le: "qu_ltt p \<le> qu_ltt qt"
  then obtain n where n: "interval_seconds iv = Some n" "0 < n" by (cases iv) auto
  have "x - x mod n \<le> y - y mod n" if "x \<le> y" for x y :: int
    using zdiv_mono1 [OF that n(2)] n(2) by (simp add: minus_mod_eq_mult_div)
  from this [OF unix_seconds_mono [OF le]] show ?thesis
    by (simp add: bucket_of_def bucket_start_for_def n del: left_diff_distrib)
qed

lemma spec_bars_ascending:
  assumes "interval_seconds iv \<noteq> None" "sorted (map qu_ltt qts)"
  shows "sorted_wrt (<) (map ac_ts (spec_bars key iv qts))"
proof -
  have "sorted (map (bucket_of iv) qts)"
    using assms(2) by (induction qts) (auto intro: bucket_of_mono [OF assms(1)])
  from runs_increasing [OF this] show ?thesis by (simp add: spec_bars_def comp_def summary_of_def)
qed

end
