(* ===== verification/PT_Live_Feed.thy ===== *)
theory PT_Live_Feed
  imports PT_Feed
begin

text \<open>
  The event bus of \<open>core/events.py\<close> and the live feed of \<open>data/live/feed.py\<close> with its staleness
  detector (\<open>data/live/staleness.py\<close>). The handlers of the bus act on a state \<open>'w\<close> of their
  own and may raise, which ends the publication (the bus isolates nobody). The provider's
  stream is the list of the quotes it yields.
\<close>

section \<open>The event bus\<close>

record feed_stale =
  fs_instrument_key :: "string option"
  fs_last_tick_at :: "instant option"
  fs_detected_at :: instant

datatype bus_event = CandleEvent candle_received | StaleEvent feed_stale

record 'w event_bus =
  eb_candle :: "(candle_received \<Rightarrow> ('w, unit) act) list"
  eb_stale :: "(feed_stale \<Rightarrow> ('w, unit) act) list"

definition new_bus :: "'w event_bus" where
  "new_bus = \<lparr>eb_candle = [], eb_stale = []\<rparr>"

definition subscribe_candle :: "(candle_received \<Rightarrow> ('w, unit) act) \<Rightarrow> 'w event_bus \<Rightarrow> 'w event_bus" where
  "subscribe_candle handler bus = bus\<lparr>eb_candle := eb_candle bus @ [handler]\<rparr>"

definition subscribe_stale :: "(feed_stale \<Rightarrow> ('w, unit) act) \<Rightarrow> 'w event_bus \<Rightarrow> 'w event_bus" where
  "subscribe_stale handler bus = bus\<lparr>eb_stale := eb_stale bus @ [handler]\<rparr>"

text \<open>\<open>publish\<close> looks the handlers up by the type of the event.\<close>

definition publish :: "'w event_bus \<Rightarrow> bus_event \<Rightarrow> ('w, unit) act" where
  "publish bus ev = (case ev of
     CandleEvent e \<Rightarrow> seqA (forA (eb_candle bus) (\<lambda>h. h e)) (ret ())
   | StaleEvent e \<Rightarrow> seqA (forA (eb_stale bus) (\<lambda>h. h e)) (ret ()))"

section \<open>The feed\<close>

record feed =
  fd_aggregators :: "(string \<times> aggregator list) list"
  fd_threshold :: int
  fd_last_tick_at :: "instant option"
  fd_stale_notified :: bool

type_synonym 'w live = "feed \<times> 'w"

definition new_feed :: "(string \<times> interval list) list \<Rightarrow> int \<Rightarrow> py_error + feed" where
  "new_feed subs threshold = (if subs = [] then Inl PyValueError
     else bindE (forE subs (\<lambda>(key, ivs). bindE (forE ivs (new_aggregator key)) (\<lambda>as. Inr (key, as)))) (\<lambda>aggs.
       Inr \<lparr>fd_aggregators = aggs, fd_threshold = threshold, fd_last_tick_at = None, fd_stale_notified = False\<rparr>))"

definition instrument_keys :: "feed \<Rightarrow> string list" where
  "instrument_keys f = map fst (fd_aggregators f)"

definition candle_event :: "agg_candle \<Rightarrow> candle_received" where
  "candle_event c = \<lparr>ce_instrument_key = ac_instrument_key c, ce_interval = ac_interval c, ce_ts = ac_ts c, ce_open = ac_open c,
     ce_high = ac_high c, ce_low = ac_low c, ce_close = ac_close c, ce_volume = ac_volume c\<rparr>"

definition publish_completed :: "'w event_bus \<Rightarrow> agg_candle option \<Rightarrow> ('w, unit) act" where
  "publish_completed bus c = (case c of None \<Rightarrow> ret () | Some x \<Rightarrow> publish bus (CandleEvent (candle_event x)))"

text \<open>The loop of \<open>on_tick\<close> over the aggregators of one instrument. A handler that raises leaves the
  aggregators before it, and its own, advanced, and the later ones untouched.\<close>

primrec tick_aggregators :: "'w event_bus \<Rightarrow> quote \<Rightarrow> aggregator list \<Rightarrow> 'w \<Rightarrow> (py_error + unit) \<times> aggregator list \<times> 'w" where
  "tick_aggregators bus qt [] w = (Inr (), [], w)"
| "tick_aggregators bus qt (a # as) w = (case add_tick qt a of
     Inl x \<Rightarrow> (Inl x, a # as, w)
   | Inr (c, a') \<Rightarrow> (case publish_completed bus c w of
       (Inl x, w') \<Rightarrow> (Inl x, a' # as, w')
     | (Inr _, w') \<Rightarrow> (case tick_aggregators bus qt as w' of (r, as', w'') \<Rightarrow> (r, a' # as', w''))))"

definition record_tick :: "instant \<Rightarrow> feed \<Rightarrow> feed" where
  "record_tick ts f = f\<lparr>fd_last_tick_at := Some ts\<rparr>"

definition is_stale :: "feed \<Rightarrow> instant \<Rightarrow> bool" where
  "is_stale f now = (case fd_last_tick_at f of None \<Rightarrow> True | Some t \<Rightarrow> fd_threshold f \<le> now - t)"

definition on_tick :: "'w event_bus \<Rightarrow> quote \<Rightarrow> ('w live, unit) act" where
  "on_tick bus qt = (\<lambda>(f, w). let g = (record_tick (qu_ltt qt) f)\<lparr>fd_stale_notified := False\<rparr>; key = qu_instrument_key qt in
     case map_of (fd_aggregators g) key of
       None \<Rightarrow> (Inr (), g, w)
     | Some as \<Rightarrow> (case tick_aggregators bus qt as w of (r, as', w') \<Rightarrow>
         (r, g\<lparr>fd_aggregators := AList.update key as' (fd_aggregators g)\<rparr>, w')))"

definition check_staleness :: "'w event_bus \<Rightarrow> instant \<Rightarrow> ('w live, bool) act" where
  "check_staleness bus now = (\<lambda>(f, w). let stale = is_stale f now in
     if stale \<and> \<not> fd_stale_notified f
     then (case publish bus (StaleEvent \<lparr>fs_instrument_key = None, fs_last_tick_at = fd_last_tick_at f, fs_detected_at = now\<rparr>) w of
         (Inl x, w') \<Rightarrow> (Inl x, f, w')
       | (Inr _, w') \<Rightarrow> (Inr stale, f\<lparr>fd_stale_notified := True\<rparr>, w'))
     else (Inr stale, f, w))"

primrec flush_aggregators :: "'w event_bus \<Rightarrow> aggregator list \<Rightarrow> 'w \<Rightarrow> (py_error + unit) \<times> aggregator list \<times> 'w" where
  "flush_aggregators bus [] w = (Inr (), [], w)"
| "flush_aggregators bus (a # as) w = (case publish_completed bus (fst (agg_flush a)) w of
       (Inl x, w') \<Rightarrow> (Inl x, snd (agg_flush a) # as, w')
     | (Inr _, w') \<Rightarrow> (case flush_aggregators bus as w' of (r, as', w'') \<Rightarrow> (r, snd (agg_flush a) # as', w'')))"

primrec flush_all :: "'w event_bus \<Rightarrow> (string \<times> aggregator list) list \<Rightarrow> 'w \<Rightarrow> (py_error + unit) \<times> (string \<times> aggregator list) list \<times> 'w" where
  "flush_all bus [] w = (Inr (), [], w)"
| "flush_all bus (p # ps) w = (case flush_aggregators bus (snd p) w of
       (Inl x, as, w') \<Rightarrow> (Inl x, (fst p, as) # ps, w')
     | (Inr _, as, w') \<Rightarrow> (case flush_all bus ps w' of (r, ps', w'') \<Rightarrow> (r, (fst p, as) # ps', w'')))"

definition feed_flush :: "'w event_bus \<Rightarrow> ('w live, unit) act" where
  "feed_flush bus = (\<lambda>(f, w). case flush_all bus (fd_aggregators f) w of (r, aggs, w') \<Rightarrow> (r, f\<lparr>fd_aggregators := aggs\<rparr>, w'))"

text \<open>\<open>run\<close> does nothing outside market hours; otherwise it consumes the quotes of the provider.\<close>

definition feed_run :: "'w event_bus \<Rightarrow> nse_calendar \<Rightarrow> instant \<Rightarrow> quote list \<Rightarrow> ('w live, unit) act" where
  "feed_run bus cal now quotes = (if is_open_at cal now then seqA (forA quotes (on_tick bus)) (ret ()) else ret ())"

section \<open>What the feed publishes, as a function of the ticks\<close>

definition opt_list :: "'a option \<Rightarrow> 'a list" where
  "opt_list x = (case x of None \<Rightarrow> [] | Some y \<Rightarrow> [y])"

lemma opt_list_simps [simp]: "opt_list None = []" "opt_list (Some x) = [x]"
  by (simp_all add: opt_list_def)

definition agg_closed :: "quote \<Rightarrow> aggregator \<Rightarrow> agg_candle list" where
  "agg_closed qt a = (case add_tick qt a of Inl _ \<Rightarrow> [] | Inr (c, _) \<Rightarrow> opt_list c)"

definition agg_after :: "quote \<Rightarrow> aggregator \<Rightarrow> aggregator" where
  "agg_after qt a = (case add_tick qt a of Inl _ \<Rightarrow> a | Inr (_, b) \<Rightarrow> b)"

definition feed_after :: "quote \<Rightarrow> feed \<Rightarrow> feed" where
  "feed_after qt f = (let g = (record_tick (qu_ltt qt) f)\<lparr>fd_stale_notified := False\<rparr> in
     case map_of (fd_aggregators f) (qu_instrument_key qt) of
       None \<Rightarrow> g
     | Some as \<Rightarrow> g\<lparr>fd_aggregators := AList.update (qu_instrument_key qt) (map (agg_after qt) as) (fd_aggregators f)\<rparr>)"

definition feed_closed :: "quote \<Rightarrow> feed \<Rightarrow> candle_received list" where
  "feed_closed qt f = (case map_of (fd_aggregators f) (qu_instrument_key qt) of
       None \<Rightarrow> [] | Some as \<Rightarrow> map candle_event (concat (map (agg_closed qt) as)))"

definition feed_flushed :: "feed \<Rightarrow> candle_received list" where
  "feed_flushed f = map candle_event (concat (map (\<lambda>(_, as). concat (map (opt_list \<circ> fst \<circ> agg_flush) as)) (fd_aggregators f)))"

primrec feed_events :: "quote list \<Rightarrow> feed \<Rightarrow> candle_received list" where
  "feed_events [] f = []"
| "feed_events (qt # qts) f = feed_closed qt f @ feed_events qts (feed_after qt f)"

definition aggs_wf :: "string \<Rightarrow> aggregator list \<Rightarrow> bool" where
  "aggs_wf key as \<longleftrightarrow> (\<forall>a \<in> set as. ag_key a = key \<and> interval_seconds (ag_interval a) \<noteq> None)"

definition feed_wf :: "feed \<Rightarrow> bool" where
  "feed_wf f \<longleftrightarrow> (\<forall>(key, as) \<in> set (fd_aggregators f). aggs_wf key as)"

lemma add_tick_total:
  assumes "ag_key a = qu_instrument_key qt" "interval_seconds (ag_interval a) \<noteq> None"
  shows "\<exists>c b. add_tick qt a = Inr (c, b) \<and> ag_key b = ag_key a \<and> ag_interval b = ag_interval a"
proof -
  have "bucket_start_for (ag_interval a) (qu_ltt qt) = Inr (bucket_of (ag_interval a) qt)" by (rule bucket_start_Inr [OF assms(2)])
  then show ?thesis using assms(1) by (cases "ag_bucket a") (auto simp: add_tick_def agg_snapshot_def agg_enter_def Let_def)
qed

lemma agg_after_parts:
  assumes "ag_key a = qu_instrument_key qt" "interval_seconds (ag_interval a) \<noteq> None"
  shows "ag_key (agg_after qt a) = ag_key a \<and> ag_interval (agg_after qt a) = ag_interval a"
  using add_tick_total [OF assms] by (auto simp: agg_after_def)

lemma feed_wf_lookup: "feed_wf f \<Longrightarrow> map_of (fd_aggregators f) key = Some as \<Longrightarrow> aggs_wf key as"
  by (auto simp: feed_wf_def dest!: map_of_SomeD)

lemma aggs_wf_after: "aggs_wf (qu_instrument_key qt) as \<Longrightarrow> aggs_wf (qu_instrument_key qt) (map (agg_after qt) as)"
  by (auto simp: aggs_wf_def agg_after_parts)

lemma set_update_subset: "set (AList.update k v xs) \<subseteq> insert (k, v) (set xs)"
  by (induction xs) auto

lemma feed_wf_after: "feed_wf f \<Longrightarrow> feed_wf (feed_after qt f)"
  using set_update_subset [of "qu_instrument_key qt" _ "fd_aggregators f"]
  by (fastforce simp: feed_wf_def feed_after_def record_tick_def Let_def map_of_eq_None_iff
      intro: aggs_wf_after split: option.split dest!: map_of_SomeD)


section \<open>Handlers that never raise\<close>

text \<open>The interface a subscriber has to offer for the feed to get through: no handler raises. Under it
  the feed behaves as a fold of the handlers over the events it publishes.\<close>

locale quiet_bus =
  fixes bus :: "'w event_bus"
    and cstep :: "candle_received \<Rightarrow> 'w \<Rightarrow> 'w"
    and sstep :: "feed_stale \<Rightarrow> 'w \<Rightarrow> 'w"
  assumes candles: "publish bus (CandleEvent e) w = (Inr (), cstep e w)"
    and stales: "publish bus (StaleEvent g) w = (Inr (), sstep g w)"
begin

lemma publish_completed_quiet: "publish_completed bus c w = (Inr (), fold cstep (map candle_event (opt_list c)) w)"
  by (cases c) (simp_all add: publish_completed_def ret_def candles)

lemma tick_aggregators_quiet:
  "aggs_wf (qu_instrument_key qt) as \<Longrightarrow> tick_aggregators bus qt as w =
     (Inr (), map (agg_after qt) as, fold cstep (map candle_event (concat (map (agg_closed qt) as))) w)"
proof (induction as arbitrary: w)
  case (Cons a as)
  then obtain c b where "add_tick qt a = Inr (c, b)" using add_tick_total [of a qt] by (auto simp: aggs_wf_def)
  moreover have "aggs_wf (qu_instrument_key qt) as" using Cons(2) by (simp add: aggs_wf_def)
  ultimately show ?case using Cons(1) by (simp add: publish_completed_quiet agg_after_def agg_closed_def)
qed simp

lemma on_tick_quiet:
  assumes "feed_wf f"
  shows "on_tick bus qt (f, w) = (Inr (), feed_after qt f, fold cstep (feed_closed qt f) w)"
proof (cases "map_of (fd_aggregators f) (qu_instrument_key qt)")
  case None
  then show ?thesis by (simp add: on_tick_def feed_after_def feed_closed_def record_tick_def)
next
  case (Some as)
  from tick_aggregators_quiet [OF feed_wf_lookup [OF assms Some], of w] Some show ?thesis
    by (simp add: on_tick_def feed_after_def feed_closed_def record_tick_def)
qed

lemma ticks_quiet_list:
  "feed_wf f \<Longrightarrow> forA qts (on_tick bus) (f, w) = (Inr (map (\<lambda>_. ()) qts), fold feed_after qts f, fold cstep (feed_events qts f) w)"
proof (induction qts arbitrary: f w)
  case (Cons qt qts)
  show ?case using Cons(1) [OF feed_wf_after [OF Cons(2)]] by (simp add: bindA_def ret_def on_tick_quiet [OF Cons(2)])
qed (simp add: ret_def)

lemma ticks_quiet:
  "feed_wf f \<Longrightarrow> seqA (forA qts (on_tick bus)) (ret ()) (f, w) =
     (Inr (), fold feed_after qts f, fold cstep (feed_events qts f) w)"
  by (simp add: seqA_def bindA_def ret_def ticks_quiet_list)

lemma flush_aggregators_quiet:
  "flush_aggregators bus as w = (Inr (), map (snd \<circ> agg_flush) as, fold cstep (map candle_event (concat (map (opt_list \<circ> fst \<circ> agg_flush) as))) w)"
  by (induction as arbitrary: w) (simp_all add: publish_completed_quiet)

lemma flush_all_quiet:
  "flush_all bus ps w = (Inr (), map (\<lambda>(k, as). (k, map (snd \<circ> agg_flush) as)) ps,
     fold cstep (map candle_event (concat (map (\<lambda>(_, as). concat (map (opt_list \<circ> fst \<circ> agg_flush) as)) ps))) w)"
  by (induction ps arbitrary: w) (auto simp: flush_aggregators_quiet)

lemma feed_flush_quiet:
  "\<exists>g. feed_flush bus (f, w) = (Inr (), g, fold cstep (feed_flushed f) w)"
  by (simp add: feed_flush_def flush_all_quiet feed_flushed_def)

lemma check_staleness_quiet:
  "check_staleness bus now (f, w) = (Inr (is_stale f now),
     if is_stale f now then f\<lparr>fd_stale_notified := True\<rparr> else f,
     if is_stale f now \<and> \<not> fd_stale_notified f
     then sstep \<lparr>fs_instrument_key = None, fs_last_tick_at = fd_last_tick_at f, fs_detected_at = now\<rparr> w else w)"
  by (cases f) (auto simp: check_staleness_def Let_def stales)

text \<open>Polling while no tick arrives: one announcement, at the first stale poll.\<close>

lemma polls_notified:
  "fd_stale_notified f \<Longrightarrow> forA nows (check_staleness bus) (f, w) = (Inr (map (is_stale f) nows), f, w)"
proof (induction nows)
  case (Cons now nows)
  then have "check_staleness bus now (f, w) = (Inr (is_stale f now), f, w)" by (cases f) (simp add: check_staleness_quiet)
  with Cons show ?case by (simp add: bindA_def ret_def)
qed (simp add: ret_def)

lemma is_stale_notified [simp]: "is_stale (f\<lparr>fd_stale_notified := b\<rparr>) now = is_stale f now"
  by (simp add: is_stale_def split: option.split)

lemma polls_quiet:
  "\<not> fd_stale_notified f \<Longrightarrow> \<exists>g. forA nows (check_staleness bus) (f, w) = (Inr (map (is_stale f) nows), g,
     fold sstep (map (\<lambda>now. \<lparr>fs_instrument_key = None, fs_last_tick_at = fd_last_tick_at f, fs_detected_at = now\<rparr>)
       (opt_list (find (is_stale f) nows))) w)"
proof (induction nows)
  case (Cons now nows)
  show ?case
  proof (cases "is_stale f now")
    case True
    then show ?thesis using Cons(2) polls_notified [of "f\<lparr>fd_stale_notified := True\<rparr>"]
      by (simp add: bindA_def ret_def check_staleness_quiet fun_eq_iff)
  next
    case False
    then show ?thesis using Cons by (auto simp: bindA_def ret_def check_staleness_quiet)
  qed
qed (simp add: ret_def)

end


section \<open>Every subscription gets the bars of its ticks\<close>

definition agg_for :: "string \<Rightarrow> interval \<Rightarrow> feed \<Rightarrow> aggregator option" where
  "agg_for key iv f = (case map_of (fd_aggregators f) key of None \<Rightarrow> None | Some as \<Rightarrow> find (\<lambda>a. ag_interval a = iv) as)"

text \<open>The events of one subscription among all.\<close>

definition events_for :: "string \<Rightarrow> interval \<Rightarrow> candle_received list \<Rightarrow> candle_received list" where
  "events_for key iv es = filter (\<lambda>e. ce_instrument_key e = key \<and> ce_interval e = iv) es"

definition intervals_distinct :: "feed \<Rightarrow> bool" where
  "intervals_distinct f \<longleftrightarrow> distinct (map fst (fd_aggregators f)) \<and>
     (\<forall>(key, as) \<in> set (fd_aggregators f). distinct (map ag_interval as))"

lemma events_for_simps [simp]:
  "events_for key iv [] = []" "events_for key iv (xs @ ys) = events_for key iv xs @ events_for key iv ys"
  by (simp_all add: events_for_def)

lemma snapshot_parts: "agg_snapshot a = Inr c \<Longrightarrow> ac_instrument_key c = ag_key a \<and> ac_interval c = ag_interval a"
  by (simp add: agg_snapshot_Inr)

lemma agg_closed_cases: "c \<in> set (agg_closed qt a) \<Longrightarrow> agg_snapshot a = Inr c"
proof -
  assume c: "c \<in> set (agg_closed qt a)"
  then obtain b where "add_tick qt a = Inr (Some c, b)"
    by (cases "add_tick qt a") (auto simp: agg_closed_def opt_list_def split: option.splits)
  then show ?thesis unfolding add_tick_def by (auto elim!: bindE_InrE split: if_splits)
qed

lemma agg_flush_cases: "c \<in> set (opt_list (fst (agg_flush a))) \<Longrightarrow> agg_snapshot a = Inr c"
  by (auto simp: agg_flush_def opt_list_def split: sum.splits)

text \<open>Among aggregators of distinct intervals, each with bars \<open>g a\<close> of its own, exactly one contributes.\<close>

lemma events_for_aggs:
  assumes "\<And>a c. c \<in> set (g a) \<Longrightarrow> agg_snapshot a = Inr c"
  shows "distinct (map ag_interval as) \<Longrightarrow> (\<forall>a \<in> set as. ag_key a = k) \<Longrightarrow> events_for key iv (map candle_event (concat (map g as))) =
    (if key = k then (case find (\<lambda>a. ag_interval a = iv) as of None \<Rightarrow> [] | Some a \<Rightarrow> map candle_event (g a)) else [])"
proof (induction as)
  case (Cons a as)
  have "events_for key iv (map candle_event (g a)) = (if key = k \<and> ag_interval a = iv then map candle_event (g a) else [])"
    using snapshot_parts [OF assms] Cons(3) by (auto simp: events_for_def candle_event_def filter_empty_conv filter_id_conv)
  moreover have "ag_interval a = iv \<Longrightarrow> find (\<lambda>b. ag_interval b = iv) as = None"
    using Cons(2) by (auto simp: find_None_iff image_iff)
  ultimately show ?case using Cons by auto
qed simp

lemma feed_closed_for:
  assumes wf: "feed_wf f" "intervals_distinct f" and a: "agg_for key iv f = Some a"
  shows "events_for key iv (feed_closed qt f) = (if qu_instrument_key qt = key then map candle_event (agg_closed qt a) else [])"
proof (cases "map_of (fd_aggregators f) (qu_instrument_key qt)")
  case None
  then show ?thesis using a by (auto simp: feed_closed_def agg_for_def)
next
  case (Some as)
  have "distinct (map ag_interval as)" using wf(2) map_of_SomeD [OF Some] by (auto simp: intervals_distinct_def)
  moreover have "\<forall>a \<in> set as. ag_key a = qu_instrument_key qt" using feed_wf_lookup [OF wf(1) Some] by (simp add: aggs_wf_def)
  ultimately show ?thesis using events_for_aggs [of "agg_closed qt" as "qu_instrument_key qt" key iv, OF agg_closed_cases] Some a
    by (auto simp: feed_closed_def agg_for_def)
qed

lemma find_map_keep: "(\<And>a. a \<in> set as \<Longrightarrow> P (h a) = P a) \<Longrightarrow> find P (map h as) = map_option h (find P as)"
  by (induction as) auto

lemma agg_for_after:
  assumes "feed_wf f" "agg_for key iv f = Some a"
  shows "agg_for key iv (feed_after qt f) = Some (if qu_instrument_key qt = key then agg_after qt a else a)"
proof (cases "map_of (fd_aggregators f) (qu_instrument_key qt)")
  case None
  then show ?thesis using assms(2) by (auto simp: feed_after_def agg_for_def record_tick_def)
next
  case (Some as)
  have "find (\<lambda>a. ag_interval a = iv) (map (agg_after qt) as) = map_option (agg_after qt) (find (\<lambda>a. ag_interval a = iv) as)"
    by (rule find_map_keep) (use feed_wf_lookup [OF assms(1) Some] in \<open>auto simp: aggs_wf_def agg_after_parts\<close>)
  then show ?thesis using assms(2) Some by (auto simp: feed_after_def agg_for_def record_tick_def Let_def update_conv')
qed

lemma intervals_after: "feed_wf f \<Longrightarrow> intervals_distinct f \<Longrightarrow> intervals_distinct (feed_after qt f)"
proof (cases "map_of (fd_aggregators f) (qu_instrument_key qt)")
  case (Some as)
  assume wf: "feed_wf f" "intervals_distinct f"
  have "map ag_interval (map (agg_after qt) as) = map ag_interval as"
    using feed_wf_lookup [OF wf(1) Some] by (auto simp: aggs_wf_def agg_after_parts)
  moreover have "distinct (map ag_interval as)" using wf(2) map_of_SomeD [OF Some] by (auto simp: intervals_distinct_def)
  ultimately have d: "distinct (map ag_interval (map (agg_after qt) as))" by argo
  show ?thesis using wf(2) d set_update_subset [of "qu_instrument_key qt" "map (agg_after qt) as" "fd_aggregators f"] Some
    by (auto simp: intervals_distinct_def feed_after_def record_tick_def Let_def distinct_update dest!: subsetD)
qed (simp_all add: feed_after_def record_tick_def intervals_distinct_def)

lemma agg_run_total:
  assumes "ag_key a = key" "interval_seconds (ag_interval a) \<noteq> None" "qu_instrument_key qt = key"
  shows "agg_run (qt # qts) a = bindE (agg_run qts (agg_after qt a)) (\<lambda>(cs, b). Inr (agg_closed qt a @ cs, b))"
proof -
  obtain c b where "add_tick qt a = Inr (c, b)" using add_tick_total [of a qt] assms by auto
  then show ?thesis by (cases c) (simp_all add: agg_after_def agg_closed_def)
qed

lemma feed_events_for:
  assumes "feed_wf f" "intervals_distinct f" "agg_for key iv f = Some a"
  shows "\<exists>cs b. agg_run (filter (\<lambda>qt. qu_instrument_key qt = key) qts) a = Inr (cs, b) \<and>
    events_for key iv (feed_events qts f) = map candle_event cs \<and> agg_for key iv (fold feed_after qts f) = Some b \<and>
    feed_wf (fold feed_after qts f) \<and> intervals_distinct (fold feed_after qts f)"
  using assms
proof (induction qts arbitrary: f a)
  case (Cons qt qts)
  note next_feed = feed_wf_after [OF Cons(2), of qt] intervals_after [OF Cons(2,3), of qt]
  note closed = feed_closed_for [OF Cons(2-4), of qt] and after = agg_for_after [OF Cons(2,4), of qt]
  show ?case
  proof (cases "qu_instrument_key qt = key")
    case True
    have "agg_for key iv (feed_after qt f) = Some (agg_after qt a)" using after True by simp
    from Cons(1) [OF next_feed this] obtain cs b
      where ih: "agg_run (filter (\<lambda>qt. qu_instrument_key qt = key) qts) (agg_after qt a) = Inr (cs, b)"
        "events_for key iv (feed_events qts (feed_after qt f)) = map candle_event cs" "agg_for key iv (fold feed_after qts (feed_after qt f)) = Some b"
        "feed_wf (fold feed_after qts (feed_after qt f))" "intervals_distinct (fold feed_after qts (feed_after qt f))" by blast
    have a: "ag_key a = key" "interval_seconds (ag_interval a) \<noteq> None"
      using Cons(4) feed_wf_lookup [OF Cons(2)] by (auto simp: agg_for_def aggs_wf_def dest!: find_SomeD split: option.splits)
    have "agg_run (filter (\<lambda>qt. qu_instrument_key qt = key) (qt # qts)) a = Inr (agg_closed qt a @ cs, b)"
      using agg_run_total [OF a True] ih(1) True by (simp del: agg_run.simps)
    then show ?thesis using ih closed True by (simp del: agg_run.simps)
  next
    case False
    then have "agg_for key iv (feed_after qt f) = Some a" using after by simp
    from Cons(1) [OF next_feed this] show ?thesis using closed False by simp
  qed
qed simp

lemma feed_flushed_for:
  assumes wf: "feed_wf f" "intervals_distinct f" and a: "agg_for key iv f = Some a"
  shows "events_for key iv (feed_flushed f) = map candle_event (opt_list (fst (agg_flush a)))"
proof -
  let ?g = "\<lambda>a. opt_list (fst (agg_flush a))"
  obtain as where as: "map_of (fd_aggregators f) key = Some as" "find (\<lambda>a. ag_interval a = iv) as = Some a"
    using a by (auto simp: agg_for_def split: option.splits)
  have part: "events_for key iv (map candle_event (concat (map ?g bs))) =
      (if key = k then (case find (\<lambda>a. ag_interval a = iv) bs of None \<Rightarrow> [] | Some a \<Rightarrow> map candle_event (?g a)) else [])"
    if "(k, bs) \<in> set (fd_aggregators f)" for k bs
    by (rule events_for_aggs [OF agg_flush_cases]) (use wf that in \<open>auto simp: feed_wf_def aggs_wf_def intervals_distinct_def\<close>)
  have "distinct (map fst ps) \<Longrightarrow> set ps \<subseteq> set (fd_aggregators f) \<Longrightarrow>
      events_for key iv (map candle_event (concat (map (\<lambda>(_, as). concat (map ?g as)) ps))) =
      (case map_of ps key of None \<Rightarrow> [] | Some bs \<Rightarrow> (case find (\<lambda>a. ag_interval a = iv) bs of None \<Rightarrow> [] | Some a \<Rightarrow> map candle_event (?g a)))" for ps
  proof (induction ps)
    case (Cons p ps)
    obtain k bs where p: "p = (k, bs)" by fastforce
    have "key = k \<Longrightarrow> map_of ps key = None" using Cons(2) p by (auto simp: map_of_eq_None_iff)
    then show ?case using Cons part [of k bs] p by (auto split: option.splits)
  qed simp
  from this [of "fd_aggregators f"] as wf(2) show ?thesis by (simp add: feed_flushed_def intervals_distinct_def comp_def)
qed


section \<open>A session of the feed\<close>

lemma forE_Inr: "forE xs g = Inr ys \<longleftrightarrow> list_all2 (\<lambda>x y. g x = Inr y) xs ys"
  by (induction xs arbitrary: ys) (auto simp: bindE_Inr_conv list_all2_Cons1)

lemma new_aggregators: "forE ivs (new_aggregator key) = Inr as \<Longrightarrow> aggs_wf key as \<and> map ag_interval as = ivs \<and>
    (\<forall>iv \<in> set ivs. \<exists>a. find (\<lambda>a. ag_interval a = iv) as = Some a \<and> new_aggregator key iv = Inr a)"
  unfolding forE_Inr
  by (induction ivs as rule: list_all2_induct) (auto simp: aggs_wf_def new_aggregator_holds)

lemma new_feed_parts:
  assumes "new_feed subs threshold = Inr f"
  shows "list_all2 (\<lambda>(key, ivs) (key', as). key' = key \<and> forE ivs (new_aggregator key) = Inr as) subs (fd_aggregators f)"
  using assms by (auto simp: new_feed_def forE_Inr case_prod_beta' bindE_Inr_conv split: if_splits elim!: list_all2_mono)

lemma new_feed_fresh:
  assumes new: "new_feed subs threshold = Inr f" and dist: "distinct (map fst subs)" "\<forall>(key, ivs) \<in> set subs. distinct ivs"
    and sub: "(key, ivs) \<in> set subs" "iv \<in> set ivs"
  shows "feed_wf f \<and> intervals_distinct f \<and> (\<exists>a. agg_for key iv f = Some a \<and> new_aggregator key iv = Inr a)"
proof -
  note parts = new_feed_parts [OF new]
  have keys: "map fst (fd_aggregators f) = map fst subs" using parts by (induction rule: list_all2_induct) auto
  have each: "(k, as) \<in> set (fd_aggregators f) \<Longrightarrow> \<exists>js. (k, js) \<in> set subs \<and> forE js (new_aggregator k) = Inr as" for k as
    using parts by (induction rule: list_all2_induct) auto
  have wf: "feed_wf f" unfolding feed_wf_def using each new_aggregators by blast
  have "distinct (map ag_interval as)" if "(k, as) \<in> set (fd_aggregators f)" for k as
    using each [OF that] new_aggregators dist(2) by fastforce
  then have ints: "intervals_distinct f" using keys dist(1) by (auto simp: intervals_distinct_def)
  obtain as where as: "(key, as) \<in> set (fd_aggregators f)" "forE ivs (new_aggregator key) = Inr as"
    using parts sub(1) by (induction rule: list_all2_induct) auto
  have "map_of (fd_aggregators f) key = Some as" using as(1) dist(1) keys by simp
  then show ?thesis using wf ints new_aggregators [OF as(2)] sub(2) by (auto simp: agg_for_def)
qed

text \<open>The recording subscriber, and the whole session: ticks, then the flush at its end.\<close>

definition recorder :: "bus_event list event_bus" where
  "recorder = subscribe_stale (\<lambda>g. modA (\<lambda>w. w @ [StaleEvent g])) (subscribe_candle (\<lambda>e. modA (\<lambda>w. w @ [CandleEvent e])) new_bus)"

interpretation recording: quiet_bus recorder "\<lambda>e w. w @ [CandleEvent e]" "\<lambda>g w. w @ [StaleEvent g]"
  by unfold_locales (simp_all add: recorder_def publish_def subscribe_candle_def subscribe_stale_def new_bus_def
      seqA_def bindA_def modA_def ret_def)

definition feed_session :: "'w event_bus \<Rightarrow> quote list \<Rightarrow> ('w live, unit) act" where
  "feed_session bus qts = seqA (seqA (forA qts (on_tick bus)) (ret ())) (feed_flush bus)"

definition candles_of :: "bus_event list \<Rightarrow> candle_received list" where
  "candles_of w = concat (map (\<lambda>ev. case ev of CandleEvent e \<Rightarrow> [e] | StaleEvent _ \<Rightarrow> []) w)"

lemma candles_of_fold: "candles_of (fold (\<lambda>e w. w @ [CandleEvent e]) es w) = candles_of w @ es"
  by (induction es arbitrary: w) (simp_all add: candles_of_def)

lemma feed_session_bars:
  assumes new: "new_feed subs threshold = Inr f" and dist: "distinct (map fst subs)" "\<forall>(key, ivs) \<in> set subs. distinct ivs"
    and sub: "(key, ivs) \<in> set subs" "iv \<in> set ivs"
  shows "\<exists>g w. feed_session recorder qts (f, []) = (Inr (), g, w) \<and>
    events_for key iv (candles_of w) = map candle_event (spec_bars key iv (filter (\<lambda>qt. qu_instrument_key qt = key) qts))"
proof -
  obtain a where fresh: "feed_wf f" "intervals_distinct f" "agg_for key iv f = Some a" "new_aggregator key iv = Inr a"
    using new_feed_fresh [OF assms] by blast
  let ?qs = "filter (\<lambda>qt. qu_instrument_key qt = key) qts" and ?f = "fold feed_after qts f"
  obtain cs b where run: "agg_run ?qs a = Inr (cs, b)" "events_for key iv (feed_events qts f) = map candle_event cs"
    "agg_for key iv ?f = Some b" "feed_wf ?f" "intervals_distinct ?f"
    using feed_events_for [OF fresh(1-3), of qts] by blast
  have bars: "spec_bars key iv ?qs = cs @ opt_list (fst (agg_flush b))"
    using aggregator_spec [OF fresh(4), of ?qs] run(1) by (simp add: all_bars_def opt_list_def)
  let ?w = "fold (\<lambda>e w. w @ [CandleEvent e]) (feed_flushed ?f) (fold (\<lambda>e w. w @ [CandleEvent e]) (feed_events qts f) [])"
  have "\<exists>g. feed_session recorder qts (f, []) = (Inr (), g, ?w)"
    using recording.feed_flush_quiet [of ?f] recording.ticks_quiet [OF fresh(1), of qts "[]"]
    by (auto simp: feed_session_def run_seqA)
  moreover have "candles_of ?w = feed_events qts f @ feed_flushed ?f" by (simp add: candles_of_fold) (simp add: candles_of_def)
  moreover have "events_for key iv (feed_flushed ?f) = map candle_event (opt_list (fst (agg_flush b)))" by (rule feed_flushed_for [OF run(4,5,3)])
  ultimately show ?thesis using run(2) bars by auto
qed

end
