(* ===== verification/PT_Live.thy ===== *)
theory PT_Live
  imports PT_Live_Feed PT_Session
begin

text \<open>
  The live system: feed, event bus and orchestrator wired together as in the constructor of
  \<open>Orchestrator\<close>, the feed task (\<open>start_feed\<close>, \<open>stop_feed\<close>), the periodic housekeeping with
  its staleness check, and the decisions of \<open>orchestrator/scheduler.py\<close>. What is proved: the
  whole system, driven by ticks, refines the step relation of the orchestrator, so every
  invariant of a trading session is an invariant of the live system.
\<close>

section \<open>Wiring\<close>

text \<open>What the world answers while the \<open>n\<close>-th event is handled is \<open>inp n\<close>.\<close>

type_synonym 'st handled = "'st orch \<times> nat"

definition handle_candle :: "orch_cfg \<Rightarrow> (nat \<Rightarrow> outside) \<Rightarrow> candle_received \<Rightarrow> 'st handled \<Rightarrow> 'st handled" where
  "handle_candle cfg inp e w = (on_candle cfg (inp (snd w)) e (fst w), Suc (snd w))"

text \<open>\<open>_on_feed_stale\<close> only logs.\<close>

definition orchestrator_bus :: "orch_cfg \<Rightarrow> (nat \<Rightarrow> outside) \<Rightarrow> 'st handled event_bus" where
  "orchestrator_bus cfg inp = subscribe_stale (\<lambda>g. ret ()) (subscribe_candle (\<lambda>e. modA (handle_candle cfg inp e)) new_bus)"

interpretation wired: quiet_bus "orchestrator_bus cfg inp" "handle_candle cfg inp" "\<lambda>g w. w"
  for cfg :: orch_cfg and inp :: "nat \<Rightarrow> outside"
  by unfold_locales (simp_all add: orchestrator_bus_def publish_def subscribe_candle_def subscribe_stale_def new_bus_def
      seqA_def bindA_def modA_def ret_def)

section \<open>The feed task, housekeeping and the scheduler\<close>

datatype feed_task = NoTask | Streaming | Finished

record 'st live_system =
  ls_feed :: feed
  ls_orch :: "'st orch"
  ls_handled :: nat
  ls_task :: feed_task

definition with_live :: "'st live_system \<Rightarrow> 'st handled live \<Rightarrow> 'st live_system" where
  "with_live s x = s\<lparr>ls_feed := fst x, ls_orch := fst (snd x), ls_handled := snd (snd x)\<rparr>"

definition live_of :: "'st live_system \<Rightarrow> 'st handled live" where
  "live_of s = (ls_feed s, ls_orch s, ls_handled s)"

text \<open>A new task runs \<open>LiveFeed.run\<close>, which returns at once when the market is closed.\<close>

definition start_feed :: "nse_calendar \<Rightarrow> instant \<Rightarrow> 'st live_system \<Rightarrow> 'st live_system" where
  "start_feed cal now s = (if ls_task s = Streaming then s
     else s\<lparr>ls_task := if is_open_at cal now then Streaming else Finished\<rparr>)"

definition stop_feed :: "orch_cfg \<Rightarrow> (nat \<Rightarrow> outside) \<Rightarrow> 'st live_system \<Rightarrow> 'st live_system" where
  "stop_feed cfg inp s = (if ls_task s = NoTask then s
     else with_live (s\<lparr>ls_task := NoTask\<rparr>) (snd (feed_flush (orchestrator_bus cfg inp) (live_of s))))"

text \<open>A quote that arrives while the task is streaming.\<close>

definition live_tick :: "orch_cfg \<Rightarrow> (nat \<Rightarrow> outside) \<Rightarrow> quote \<Rightarrow> 'st live_system \<Rightarrow> 'st live_system" where
  "live_tick cfg inp qt s = with_live s (snd (on_tick (orchestrator_bus cfg inp) qt (live_of s)))"

text \<open>\<open>run_housekeeping\<close> as a whole: the staleness check comes after the unit of work, inside the same \<open>try\<close>.\<close>

definition live_housekeeping :: "orch_cfg \<Rightarrow> (nat \<Rightarrow> outside) \<Rightarrow> instant \<Rightarrow> 'st live_system \<Rightarrow> 'st live_system" where
  "live_housekeeping cfg inp now s = (
     let orc = ls_orch s; n = ls_handled s in
     case session_scope (housekeeping_body cfg (or_quotes orc) (inp n)) (or_store orc) of (r, d) \<Rightarrow>
       let t = s\<lparr>ls_orch := orc\<lparr>or_store := d\<rparr>, ls_handled := Suc n\<rparr> in
       case r of
         Inl _ \<Rightarrow> t
       | Inr _ \<Rightarrow> with_live t (snd (check_staleness (orchestrator_bus cfg inp) now (live_of t))))"

definition scheduler_start :: "nse_calendar \<Rightarrow> instant \<Rightarrow> 'st live_system \<Rightarrow> 'st live_system" where
  "scheduler_start cal now s = (if is_open_at cal now then start_feed cal now s else s)"

definition session_start :: "nse_calendar \<Rightarrow> instant \<Rightarrow> 'st live_system \<Rightarrow> 'st live_system" where
  "session_start cal now s = (if is_trading_day cal (date_part (to_ist now)) then start_feed cal now s else s)"

section \<open>Steps of the live system\<close>

inductive live_step :: "orch_cfg \<Rightarrow> nse_calendar \<Rightarrow> (nat \<Rightarrow> outside) \<Rightarrow> 'st live_system \<Rightarrow> 'st live_system \<Rightarrow> bool"
  for cfg cal inp where
  tick: "ls_task s = Streaming \<Longrightarrow> live_step cfg cal inp s (live_tick cfg inp qt s)"
| stream_ends: "ls_task s = Streaming \<Longrightarrow> live_step cfg cal inp s (s\<lparr>ls_task := Finished\<rparr>)"
| housekeeping: "live_step cfg cal inp s (live_housekeeping cfg inp now s)"
| scheduler_starts: "live_step cfg cal inp s (scheduler_start cal now s)"
| session_opens: "live_step cfg cal inp s (session_start cal now s)"
| session_closes: "live_step cfg cal inp s (stop_feed cfg inp s)"
| strategy_run: "live_step cfg cal inp s (s\<lparr>ls_orch := snd (start_strategy_run cfg (ls_orch s))\<rparr>)"
| reconciled: "(\<And>xs. set (iter xs) = set xs \<and> distinct (iter xs)) \<Longrightarrow>
    live_step cfg cal inp s (s\<lparr>ls_orch := snd (reconcile cfg iter (inp n) (ls_orch s))\<rparr>)"

inductive_cases live_stepE: "live_step cfg cal inp s t"

lemma handle_candles_steps: "(orch_step cfg)\<^sup>*\<^sup>* (fst w) (fst (fold (handle_candle cfg inp) es w))"
proof (induction es arbitrary: w)
  case (Cons e es)
  have "orch_step cfg (fst w) (fst (handle_candle cfg inp e w))" by (simp add: handle_candle_def orch_step.candle)
  then show ?case using Cons [of "handle_candle cfg inp e w"] by simp
qed simp

lemma flush_aggs_wf: "aggs_wf key as \<Longrightarrow> aggs_wf key (map (snd \<circ> agg_flush) as)"
  by (auto simp: aggs_wf_def agg_flush_def split: sum.split)

lemma feed_flush_wf:
  assumes "feed_wf (fst x)"
  shows "feed_wf (fst (snd (feed_flush (orchestrator_bus cfg inp) x)))"
proof -
  have "feed_wf (f\<lparr>fd_aggregators := map (\<lambda>(k, as). (k, map (snd \<circ> agg_flush) as)) (fd_aggregators f)\<rparr>)" if "feed_wf f" for f
    using that by (auto simp: feed_wf_def intro: flush_aggs_wf)
  then show ?thesis using assms by (cases x) (simp add: feed_flush_def wired.flush_all_quiet)
qed

lemma with_live_simps [simp]:
  "ls_feed (with_live s x) = fst x" "ls_orch (with_live s x) = fst (snd x)" "ls_task (with_live s x) = ls_task s"
  by (simp_all add: with_live_def)

lemma start_feed_simps [simp]:
  "ls_feed (start_feed cal now s) = ls_feed s" "ls_orch (start_feed cal now s) = ls_orch s"
  by (simp_all add: start_feed_def)

lemma live_tick_sim:
  assumes "feed_wf (ls_feed s)"
  shows "(orch_step cfg)\<^sup>*\<^sup>* (ls_orch s) (ls_orch (live_tick cfg inp qt s)) \<and> feed_wf (ls_feed (live_tick cfg inp qt s))"
  using wired.on_tick_quiet [OF assms, of cfg inp qt "(ls_orch s, ls_handled s)"] feed_wf_after [OF assms, of qt] handle_candles_steps [of cfg "(ls_orch s, ls_handled s)" inp]
  by (simp add: live_tick_def live_of_def)

lemma stop_feed_sim:
  assumes "feed_wf (ls_feed s)"
  shows "(orch_step cfg)\<^sup>*\<^sup>* (ls_orch s) (ls_orch (stop_feed cfg inp s)) \<and> feed_wf (ls_feed (stop_feed cfg inp s))"
proof (cases "ls_task s = NoTask")
  case False
  obtain g where g: "feed_flush (orchestrator_bus cfg inp) (ls_feed s, ls_orch s, ls_handled s) =
      (Inr (), g, fold (handle_candle cfg inp) (feed_flushed (ls_feed s)) (ls_orch s, ls_handled s))"
    using wired.feed_flush_quiet by blast
  then show ?thesis using False feed_flush_wf [of "(ls_feed s, ls_orch s, ls_handled s)" cfg inp] assms
      handle_candles_steps [of cfg "(ls_orch s, ls_handled s)" inp]
    by (simp add: stop_feed_def live_of_def)
qed (simp add: stop_feed_def assms)

lemma live_housekeeping_parts:
  "ls_orch (live_housekeeping cfg inp now s) = run_housekeeping cfg (inp (ls_handled s)) (ls_orch s) \<and>
   fd_aggregators (ls_feed (live_housekeeping cfg inp now s)) = fd_aggregators (ls_feed s)"
  by (auto simp: live_housekeeping_def run_housekeeping_def live_of_def wired.check_staleness_quiet Let_def split: prod.split sum.split)

lemma live_step_sim:
  assumes "live_step cfg cal inp s t" "feed_wf (ls_feed s)"
  shows "(orch_step cfg)\<^sup>*\<^sup>* (ls_orch s) (ls_orch t) \<and> feed_wf (ls_feed t)"
  using assms(1)
proof (cases rule: live_step.cases)
  case (tick qt)
  then show ?thesis using live_tick_sim [OF assms(2)] by simp
next
  case (housekeeping now)
  have "feed_wf (ls_feed t)" using assms(2) live_housekeeping_parts [of cfg inp now s] housekeeping by (simp add: feed_wf_def)
  moreover have "orch_step cfg (ls_orch s) (ls_orch t)"
    using live_housekeeping_parts [of cfg inp now s] housekeeping by (simp add: orch_step.housekeeping)
  ultimately show ?thesis by blast
next
  case (session_closes)
  then show ?thesis using stop_feed_sim [OF assms(2)] by simp
next
  case (strategy_run)
  then show ?thesis using assms(2) orch_step.start [of cfg "ls_orch s"] by (simp add: r_into_rtranclp)
next
  case (reconciled iter n)
  then show ?thesis using assms(2) orch_step.reconciled [OF reconciled(2), of cfg "ls_orch s" "inp n"] by (simp add: r_into_rtranclp)
qed (use assms(2) in \<open>simp_all add: scheduler_start_def session_start_def\<close>)

lemma live_sim:
  "(live_step cfg cal inp)\<^sup>*\<^sup>* s t \<Longrightarrow> feed_wf (ls_feed s) \<Longrightarrow> (orch_step cfg)\<^sup>*\<^sup>* (ls_orch s) (ls_orch t) \<and> feed_wf (ls_feed t)"
proof (induction rule: rtranclp_induct)
  case (step t u)
  then show ?case using live_step_sim [of cfg cal inp t u] by (meson rtranclp_trans)
qed simp

end
