(* ===== verification/PT_Demo_Live.thy ===== *)
theory PT_Demo_Live
  imports PT_Demo PT_Live
begin

text \<open>Concrete inputs of the live feed and the live system, for the witnesses of the root theory.\<close>

definition demo_tick :: "int \<Rightarrow> rat \<Rightarrow> quote" where
  "demo_tick secs price = \<lparr>qu_instrument_key = ''NSE_EQ|1'', qu_ltp = price, qu_ltq = 5, qu_ltt = unix_epoch + secs * 1000000, qu_close = 0\<rparr>"

definition demo_ticks :: "quote list" where
  "demo_ticks = [demo_tick 61 10, demo_tick 90 12, demo_tick 130 11]"

definition demo_subs :: "(string \<times> interval list) list" where
  "demo_subs = [(''NSE_EQ|1'', [M1, M15])]"

definition demo_aggregator :: "interval \<Rightarrow> aggregator" where
  "demo_aggregator iv = \<lparr>ag_key = ''NSE_EQ|1'', ag_interval = iv, ag_bucket = None, ag_open = 0, ag_high = 0, ag_low = 0, ag_close = 0, ag_volume = 0\<rparr>"

definition demo_feed :: feed where
  "demo_feed = \<lparr>fd_aggregators = [(''NSE_EQ|1'', [demo_aggregator M1, demo_aggregator M15])], fd_threshold = 30000000,
     fd_last_tick_at = None, fd_stale_notified = False\<rparr>"

lemma demo_new_feed: "new_feed demo_subs 30000000 = Inr demo_feed"
  by (simp add: new_feed_def demo_subs_def demo_feed_def demo_aggregator_def new_aggregator_def)

lemma demo_new_aggregator: "new_aggregator ''NSE_EQ|1'' M1 = Inr (demo_aggregator M1)"
  by (simp add: new_aggregator_def demo_aggregator_def)

lemma demo_ticks_key: "\<forall>qt \<in> set demo_ticks. qu_instrument_key qt = ''NSE_EQ|1''"
  by (simp add: demo_ticks_def demo_tick_def)

lemma demo_bars: "map ac_volume (spec_bars ''NSE_EQ|1'' M1 demo_ticks) = [10, 5]"
  by (simp add: spec_bars_def demo_ticks_def demo_tick_def bucket_of_def bucket_start_for_def unix_seconds_def summary_of_def Let_def)

lemma demo_feed_wf: "feed_wf demo_feed"
  by (simp add: feed_wf_def demo_feed_def aggs_wf_def demo_aggregator_def)

definition demo_live :: "unit live_system" where
  "demo_live = \<lparr>ls_feed = demo_feed, ls_orch = demo_orch, ls_handled = 0, ls_task = Streaming\<rparr>"

end
