(* ===== verification/PT_Metrics.thy ===== *)
theory PT_Metrics
  imports PT_Backtest
begin

text \<open>
  The performance metrics of \<open>backtest/metrics.py\<close>: statistics of an equity series and of a list of
  executed trades, in floats. \<open>x ** y\<close> is the power function of the C library, a parameter
  \<open>fpow\<close>; \<open>sum\<close> of floats is the compensated sum of CPython 3.12. What is proved: the maximum
  drawdown is the worst decline from a running peak, and the bounds of the statistics.
\<close>

section \<open>Sums of floats\<close>

text \<open>CPython 3.12 adds floats with Neumaier's compensation: a running sum and a correction.\<close>

definition fsum_step :: "rat \<Rightarrow> rat \<times> rat \<Rightarrow> rat \<times> rat" where
  "fsum_step x acc = (let s = fst acc; c = snd acc; t = fl_add s x in
     (t, fl_add c (if \<bar>x\<bar> \<le> \<bar>s\<bar> then fl_add (fl_sub s t) x else fl_add (fl_sub x t) s)))"

definition py_fsum :: "rat list \<Rightarrow> rat" where
  "py_fsum xs = (case xs of [] \<Rightarrow> 0 | x # ys \<Rightarrow> (case fold fsum_step ys (x, 0) of (s, c) \<Rightarrow> fl_add s c))"

text \<open>The quotient of two ints.\<close>

definition int_ratio :: "nat \<Rightarrow> nat \<Rightarrow> rat" where
  "int_ratio a b = fl_rnd (of_nat a / of_nat b)"

section \<open>Statistics of an equity series\<close>

type_synonym equity_series = "(instant \<times> rat) list"

datatype xfloat = Finite rat | PosInf | NegInf | NotANumber

definition TRADING_DAYS_PER_YEAR :: int where "TRADING_DAYS_PER_YEAR = 252"

definition equity_series_from_curve :: "equity_point list \<Rightarrow> equity_series" where
  "equity_series_from_curve curve = map (\<lambda>p. (eq_ts p, fl_rnd (eq_equity p))) curve"

definition cagr :: "(rat \<Rightarrow> rat \<Rightarrow> rat) \<Rightarrow> equity_series \<Rightarrow> rat" where
  "cagr fpow series = (if length series < 2 then 0 else
     let start = snd (hd series); days = (fst (last series) - fst (hd series)) div us_per_day in
     if start \<le> 0 then 0 else if days \<le> 0 then 0 else
     let years = fl_div (of_int days) (1461/4); ratio = fl_div (snd (last series)) start in
     if ratio \<le> 0 then -1 else fl_sub (fpow ratio (fl_div 1 years)) 1)"

fun returns_of :: "rat list \<Rightarrow> rat list" where
  "returns_of (u # v # vs) = (if u \<noteq> 0 then fl_sub (fl_div v u) 1 else 0) # returns_of (v # vs)"
| "returns_of _ = []"

definition period_returns :: "equity_series \<Rightarrow> rat list" where
  "period_returns series = returns_of (map snd series)"

definition sharpe_ratio :: "(rat \<Rightarrow> rat \<Rightarrow> rat) \<Rightarrow> equity_series \<Rightarrow> int \<Rightarrow> rat" where
  "sharpe_ratio fpow series periods_per_year = (let returns = period_returns series; n = length returns in
     if n < 2 then 0 else
     let mean = fl_div (py_fsum returns) (of_nat n);
       variance = fl_div (py_fsum (map (\<lambda>r. fpow (fl_sub r mean) 2) returns)) (of_nat (n - 1));
       std = fpow variance (1/2) in
     if std = 0 then 0 else fl_mul (fl_div mean std) (fpow (of_int periods_per_year) (1/2)))"

definition drawdown_step :: "rat \<Rightarrow> rat \<times> rat \<Rightarrow> rat \<times> rat" where
  "drawdown_step v acc = (let peak = max (fst acc) v in
     (peak, if 0 < peak then max (snd acc) (fl_div (fl_sub peak v) peak) else snd acc))"

definition max_drawdown :: "equity_series \<Rightarrow> rat" where
  "max_drawdown series = (if series = [] then 0
     else snd (fold drawdown_step (map snd series) (snd (hd series), 0)))"

section \<open>Statistics of trades\<close>

definition closed_trade_pnls :: "executed_trade list \<Rightarrow> rat list" where
  "closed_trade_pnls ets = concat (map (\<lambda>t. case et_pnl t of None \<Rightarrow> [] | Some p \<Rightarrow> [fl_rnd p]) ets)"

definition win_rate :: "executed_trade list \<Rightarrow> rat" where
  "win_rate ets = (let pnls = closed_trade_pnls ets in
     if pnls = [] then 0 else int_ratio (length (filter (\<lambda>p. 0 < p) pnls)) (length pnls))"

definition expectancy :: "executed_trade list \<Rightarrow> rat" where
  "expectancy ets = (let pnls = closed_trade_pnls ets in
     if pnls = [] then 0 else fl_div (py_fsum pnls) (of_nat (length pnls)))"

definition profit_factor :: "executed_trade list \<Rightarrow> xfloat" where
  "profit_factor ets = (let pnls = closed_trade_pnls ets; gross_win = py_fsum (filter (\<lambda>p. 0 < p) pnls);
       gross_loss = - py_fsum (filter (\<lambda>p. p < 0) pnls) in
     if gross_loss = 0 then (if 0 < gross_win then PosInf else Finite 0) else Finite (fl_div gross_win gross_loss))"

record bt_metrics =
  bm_cagr :: rat
  bm_sharpe :: rat
  bm_max_drawdown :: rat
  bm_win_rate :: rat
  bm_expectancy :: rat
  bm_profit_factor :: xfloat
  bm_total_trades :: nat
  bm_closed_trades :: nat

definition compute_metrics_from_series :: "(rat \<Rightarrow> rat \<Rightarrow> rat) \<Rightarrow> equity_series \<Rightarrow> executed_trade list \<Rightarrow> bt_metrics" where
  "compute_metrics_from_series fpow series ets = \<lparr>bm_cagr = cagr fpow series,
     bm_sharpe = sharpe_ratio fpow series TRADING_DAYS_PER_YEAR, bm_max_drawdown = max_drawdown series, bm_win_rate = win_rate ets,
     bm_expectancy = expectancy ets, bm_profit_factor = profit_factor ets, bm_total_trades = length ets,
     bm_closed_trades = length (closed_trade_pnls ets)\<rparr>"

definition compute_metrics :: "(rat \<Rightarrow> rat \<Rightarrow> rat) \<Rightarrow> equity_point list \<Rightarrow> executed_trade list \<Rightarrow> bt_metrics" where
  "compute_metrics fpow curve ets = compute_metrics_from_series fpow (equity_series_from_curve curve) ets"

section \<open>The drawdown is the worst decline\<close>

text \<open>The decline at bar \<open>i\<close> from the highest value so far.\<close>

definition decline :: "rat list \<Rightarrow> nat \<Rightarrow> rat" where
  "decline vs i = (let peak = Max (set (take (Suc i) vs)) in if 0 < peak then fl_div (fl_sub peak (vs ! i)) peak else 0)"

definition worst_decline :: "rat list \<Rightarrow> rat" where
  "worst_decline vs = Max (insert 0 (decline vs ` {..<length vs}))"

lemma fold_drawdown:
  "vs \<noteq> [] \<Longrightarrow> fold drawdown_step vs (hd vs, 0) = (Max (set vs), worst_decline vs)"
proof (induction vs rule: rev_induct)
  case (snoc v vs)
  show ?case
  proof (cases "vs = []")
    case True
    then show ?thesis
      by (auto simp: drawdown_step_def worst_decline_def decline_def fl_sub_def fl_div_def fl.rnd_0 lessThan_Suc)
  next
    case False
    have same: "decline (vs @ [v]) i = decline vs i" if "i < length vs" for i
      using that nth_append_left [OF that] by (simp add: decline_def Let_def)
    have last: "decline (vs @ [v]) (length vs) = (let p = max (Max (set vs)) v in if 0 < p then fl_div (fl_sub p v) p else 0)"
      using False by (simp add: decline_def Let_def max.commute)
    have "decline (vs @ [v]) ` {..<length (vs @ [v])} = insert (decline (vs @ [v]) (length vs)) (decline vs ` {..<length vs})"
      using same by (auto simp: lessThan_Suc)
    then have "worst_decline (vs @ [v]) = max (worst_decline vs) (decline (vs @ [v]) (length vs))"
      using Max_insert [of "insert 0 (decline vs ` {..<length vs})" "decline (vs @ [v]) (length vs)"]
      by (simp only: worst_decline_def insert_commute [of 0] finite_insert finite_imageI finite_lessThan insert_not_empty
          simp_thms max.commute)
    moreover have "0 \<le> worst_decline vs" by (simp add: worst_decline_def)
    ultimately show ?thesis using snoc False last by (auto simp: drawdown_step_def Let_def max.commute)
  qed
qed simp

lemma max_drawdown_worst: "max_drawdown series = worst_decline (map snd series)"
  using fold_drawdown [of "map snd series"] by (cases series) (auto simp: max_drawdown_def worst_decline_def)

lemma decline_bounds:
  assumes "i < length vs" "\<forall>v \<in> set vs. 0 \<le> v \<and> fl_rnd v = v"
  shows "0 \<le> decline vs i \<and> decline vs i \<le> 1"
proof -
  let ?S = "set (take (Suc i) vs)" and ?p = "Max (set (take (Suc i) vs))"
  have mem: "vs ! i \<in> ?S" using assms(1) by (auto simp: in_set_conv_nth intro: exI [of _ i])
  then have p: "vs ! i \<le> ?p" "?p \<in> ?S" by (auto intro: Max_in)
  then have f: "fl_rnd ?p = ?p" and v: "0 \<le> vs ! i" using assms set_take_subset [of "Suc i" vs] by auto
  have "0 \<le> fl_sub ?p (vs ! i)" "fl_sub ?p (vs ! i) \<le> ?p"
    using p(1) v f fl.rnd_nonneg [of "?p - vs ! i"] fl.rnd_mono [of "?p - vs ! i" ?p] by (simp_all add: fl_sub_def)
  then show ?thesis using fl.rnd_nonneg fl.rnd_mono [of _ 1] fl.rnd_int [of 1]
    by (auto simp: decline_def Let_def fl_div_def)
qed

lemma worst_decline_bounds:
  assumes "\<forall>v \<in> set vs. 0 \<le> v \<and> fl_rnd v = v"
  shows "0 \<le> worst_decline vs \<and> worst_decline vs \<le> 1"
  using decline_bounds [OF _ assms] by (auto simp: worst_decline_def)

lemma int_ratio_bounds: "a \<le> b \<Longrightarrow> 0 < b \<Longrightarrow> 0 \<le> int_ratio a b \<and> int_ratio a b \<le> 1"
  using fl.rnd_nonneg [of "of_nat a / of_nat b"] fl.rnd_mono [of "of_nat a / of_nat b" 1] fl.rnd_int [of 1]
  by (simp add: int_ratio_def)

lemma win_rate_bounds: "0 \<le> win_rate ets \<and> win_rate ets \<le> 1"
  using int_ratio_bounds [OF length_filter_le, of "closed_trade_pnls ets"] by (auto simp: win_rate_def Let_def)

end
