(* ===== verification/PT_Candle_Store.thy ===== *)
theory PT_Candle_Store
  imports PT_Runner "HOL-Library.AList" "HOL-Library.List_Lexorder" "HOL-Library.Char_ord" "HOL-Library.Product_Lexorder"
begin

text \<open>
  The candle store of \<open>data/store/candles.py\<close>: one dataset per exchange, symbol and interval, its
  candles partitioned by (UTC) year, with a manifest. A Parquet file is the frame it holds and a
  DuckDB scan of the files is the concatenation of the frames (both libraries are taken to
  preserve rows). What is proved: writing merges, reading gives back what was merged, in order.
\<close>

section \<open>Years\<close>

text \<open>The year of a proleptic ordinal, as \<open>datetime\<close> computes it from cycles of 400, 100, 4 and 1 years.\<close>

definition year_of_date :: "py_date \<Rightarrow> int" where
  "year_of_date d = (let n = d - 1; n400 = n div 146097; r400 = n mod 146097; n100 = r400 div 36524; r100 = r400 mod 36524;
     n4 = r100 div 1461; r4 = r100 mod 1461; n1 = r4 div 365; y = n400 * 400 + n100 * 100 + n4 * 4 + n1 + 1 in
     if n1 = 4 \<or> n100 = 4 then y - 1 else y)"

definition year_of :: "instant \<Rightarrow> int" where
  "year_of ts = year_of_date (date_part ts)"

section \<open>Datasets\<close>

record manifest =
  mf_source :: string
  mf_rows :: int
  mf_first_ts :: "instant option"
  mf_last_ts :: "instant option"
  mf_synced_at :: instant
  mf_validation :: "string option"

record dataset =
  ds_parts :: "(int \<times> candle list) list"
  ds_manifest :: "manifest option"

type_synonym dataset_key = "string \<times> string \<times> interval"
type_synonym candle_store = "(dataset_key \<times> dataset) list"

definition empty_dataset :: dataset where
  "empty_dataset = \<lparr>ds_parts = [], ds_manifest = None\<rparr>"

definition dataset_of :: "candle_store \<Rightarrow> dataset_key \<Rightarrow> dataset" where
  "dataset_of st key = (case map_of st key of None \<Rightarrow> empty_dataset | Some d \<Rightarrow> d)"

text \<open>All rows of a dataset, file by file in the order of the paths.\<close>

definition scan :: "dataset \<Rightarrow> candle list" where
  "scan d = concat (map snd (sort_key fst (ds_parts d)))"

definition count_rows :: "dataset \<Rightarrow> int" where
  "count_rows d = int (length (scan d))"

definition ts_bounds :: "dataset \<Rightarrow> instant option \<times> instant option" where
  "ts_bounds d = (if scan d = [] then (None, None) else (Some (Min (cd_ts ` set (scan d))), Some (Max (cd_ts ` set (scan d)))))"

definition year_groups :: "candle list \<Rightarrow> (int \<times> candle list) list" where
  "year_groups frame = map (\<lambda>y. (y, filter (\<lambda>c. year_of (cd_ts c) = y) frame)) (sort (remdups (map (\<lambda>c. year_of (cd_ts c)) frame)))"

definition write_partition :: "int \<times> candle list \<Rightarrow> dataset \<Rightarrow> dataset" where
  "write_partition g d = (let merged = normalize_candle_frame (case map_of (ds_parts d) (fst g) of
       None \<Rightarrow> snd g | Some existing \<Rightarrow> existing @ snd g) in
     d\<lparr>ds_parts := AList.update (fst g) merged (ds_parts d)\<rparr>)"

definition write_rows :: "candle list \<Rightarrow> dataset \<Rightarrow> dataset" where
  "write_rows frame d = fold write_partition (year_groups (normalize_candle_frame frame)) d"

definition write_manifest :: "string \<Rightarrow> string option \<Rightarrow> instant \<Rightarrow> dataset \<Rightarrow> dataset" where
  "write_manifest source validation now d = (let b = ts_bounds d in d\<lparr>ds_manifest := Some \<lparr>mf_source = source, mf_rows = count_rows d,
     mf_first_ts = fst b, mf_last_ts = snd b, mf_synced_at = now, mf_validation = validation\<rparr>\<rparr>)"

definition store_write :: "instant \<Rightarrow> dataset_key \<Rightarrow> candle list \<Rightarrow> string \<Rightarrow> string option \<Rightarrow> candle_store \<Rightarrow> int \<times> candle_store" where
  "store_write now key frame source validation st = (let d = write_rows frame (dataset_of st key) in
     (count_rows d, AList.update key (write_manifest source validation now d) st))"

definition in_range :: "instant option \<Rightarrow> instant option \<Rightarrow> candle \<Rightarrow> bool" where
  "in_range from_ts to_ts c \<longleftrightarrow> (case from_ts of None \<Rightarrow> True | Some t \<Rightarrow> t \<le> cd_ts c) \<and> (case to_ts of None \<Rightarrow> True | Some t \<Rightarrow> cd_ts c \<le> t)"

definition store_read :: "dataset_key \<Rightarrow> instant option \<Rightarrow> instant option \<Rightarrow> candle_store \<Rightarrow> candle list" where
  "store_read key from_ts to_ts st = (let d = dataset_of st key in
     if ds_parts d = [] then []
     else normalize_candle_frame (sort_key cd_ts (filter (in_range from_ts to_ts) (scan d))))"

fun interval_path :: "interval \<Rightarrow> string" where
  "interval_path M1 = ''1m''"
| "interval_path M15 = ''15m''"
| "interval_path D1 = ''1d''"

record dataset_info =
  di_exchange :: string
  di_symbol :: string
  di_interval :: interval
  di_rows :: int
  di_first_ts :: "instant option"
  di_last_ts :: "instant option"
  di_synced_at :: instant
  di_validation :: "string option"

definition store_datasets :: "candle_store \<Rightarrow> dataset_info list" where
  "store_datasets st = concat (map (\<lambda>((e, s, iv), d). case ds_manifest d of None \<Rightarrow> [] | Some m \<Rightarrow>
       [\<lparr>di_exchange = e, di_symbol = s, di_interval = iv, di_rows = mf_rows m, di_first_ts = mf_first_ts m,
         di_last_ts = mf_last_ts m, di_synced_at = mf_synced_at m, di_validation = mf_validation m\<rparr>])
     (sort_key (\<lambda>((e, s, iv), d). (e, s, interval_path iv)) st))"

section \<open>Well-formed datasets\<close>

definition part :: "dataset \<Rightarrow> int \<Rightarrow> candle list" where
  "part d y = (case map_of (ds_parts d) y of None \<Rightarrow> [] | Some cs \<Rightarrow> cs)"

definition dataset_ok :: "dataset \<Rightarrow> bool" where
  "dataset_ok d \<longleftrightarrow> distinct (map fst (ds_parts d)) \<and>
     (\<forall>y. ascending (part d y) \<and> (\<forall>c \<in> set (part d y). year_of (cd_ts c) = y))"

lemma empty_dataset_ok: "dataset_ok empty_dataset"
  by (simp add: dataset_ok_def empty_dataset_def part_def ascending_def)

lemma ascending_distinct: "ascending cs \<longleftrightarrow> sorted (map cd_ts cs) \<and> distinct (map cd_ts cs)"
  by (simp add: ascending_def strict_sorted_iff)

lemma ascending_unique:
  assumes "ascending xs" "ascending ys" "set xs = set ys"
  shows "xs = ys"
proof -
  have "map cd_ts xs = map cd_ts ys"
    by (rule sorted_distinct_set_unique) (use assms in \<open>simp_all add: ascending_distinct\<close>)
  moreover have "inj_on cd_ts (set xs \<union> set ys)" using assms by (simp add: ascending_distinct distinct_map)
  ultimately show ?thesis by (rule map_inj_on)
qed

text \<open>What a merge keeps of the old rows: those whose time stamp the new ones do not carry.\<close>

definition merged :: "candle set \<Rightarrow> candle set \<Rightarrow> candle set" where
  "merged old new = {c \<in> old. cd_ts c \<notin> cd_ts ` new} \<union> new"

lemma normalize_merge:
  assumes "ascending xs" "ascending ys"
  shows "set (normalize_candle_frame (xs @ ys)) = merged (set xs) (set ys)"
proof -
  have "keep_last xs = xs" "keep_last ys = ys" using assms by (simp_all add: keep_last_id ascending_distinct)
  then show ?thesis by (auto simp: normalize_set keep_last_append merged_def)
qed

lemma normalize_append_frame:
  assumes "ascending xs"
  shows "normalize_candle_frame (xs @ normalize_candle_frame f) = normalize_candle_frame (xs @ f)"
proof (rule ascending_unique)
  have "keep_last xs = xs" using assms by (simp add: keep_last_id ascending_distinct)
  then have "set (normalize_candle_frame (xs @ f)) = {c \<in> set xs. cd_ts c \<notin> cd_ts ` set f} \<union> set (normalize_candle_frame f)"
    by (auto simp: normalize_set keep_last_append)
  moreover have "cd_ts ` set (normalize_candle_frame f) = cd_ts ` set f" by (simp add: normalize_set keep_last_ts)
  ultimately show "set (normalize_candle_frame (xs @ normalize_candle_frame f)) = set (normalize_candle_frame (xs @ f))"
    using normalize_merge [OF assms normalize_ascending] by (simp add: merged_def)
qed (rule normalize_ascending)+

lemma scan_set:
  assumes "dataset_ok d"
  shows "set (scan d) = (\<Union>y. set (part d y))"
proof -
  have d: "distinct (map fst (ds_parts d))" using assms by (simp add: dataset_ok_def)
  have "c \<in> set (scan d) \<longleftrightarrow> (\<exists>y cs. (y, cs) \<in> set (ds_parts d) \<and> c \<in> set cs)" for c by (force simp: scan_def)
  also have "\<dots> c \<longleftrightarrow> (\<exists>y. c \<in> set (part d y))" for c
    using d by (auto simp: part_def map_of_eq_Some_iff split: option.split)
  finally show ?thesis by auto
qed


lemma part_write:
  "part (write_partition (k, g) d) y = (if y = k then normalize_candle_frame (part d k @ g) else part d y)"
  by (auto simp: part_def write_partition_def Let_def update_conv' split: option.split)

lemma write_partition_ok:
  assumes ok: "dataset_ok d" and g: "\<forall>c \<in> set g. year_of (cd_ts c) = k"
  shows "dataset_ok (write_partition (k, g) d)"
proof -
  have "distinct (map fst (ds_parts (write_partition (k, g) d)))"
    using ok by (simp add: dataset_ok_def write_partition_def Let_def distinct_update)
  moreover have "year_of (cd_ts c) = k" if "c \<in> set (normalize_candle_frame (part d k @ g))" for c
  proof -
    have "set (keep_last cs) \<subseteq> set cs" for cs by (induction cs) auto
    then have "c \<in> set (part d k @ g)" using that normalize_set by blast
    then show ?thesis using ok g by (auto simp: dataset_ok_def)
  qed
  ultimately show ?thesis using ok normalize_ascending by (simp add: dataset_ok_def part_write)
qed

lemma write_groups:
  assumes "dataset_ok d" "distinct (map fst gs)" "\<forall>(k, g) \<in> set gs. \<forall>c \<in> set g. year_of (cd_ts c) = k"
  shows "dataset_ok (fold write_partition gs d) \<and> part (fold write_partition gs d) y =
    (case map_of gs y of None \<Rightarrow> part d y | Some g \<Rightarrow> normalize_candle_frame (part d y @ g))"
  using assms
proof (induction gs arbitrary: d)
  case (Cons kg gs)
  obtain k g where kg: "kg = (k, g)" by fastforce
  have "dataset_ok (write_partition (k, g) d)" using write_partition_ok [OF Cons(2), of g k] Cons(4) kg by simp
  note ih = Cons(1) [OF this]
  have gs: "distinct (map fst gs)" "\<forall>(k, g) \<in> set gs. \<forall>c \<in> set g. year_of (cd_ts c) = k" "map_of gs k = None"
    using Cons(3,4) kg by (auto simp: map_of_eq_None_iff)
  show ?case using ih [OF gs(1,2)] gs(3) kg by (cases "y = k") (simp_all add: part_write split: option.split)
qed simp

lemma year_groups_parts:
  "distinct (map fst (year_groups f))" "\<forall>(k, g) \<in> set (year_groups f). \<forall>c \<in> set g. year_of (cd_ts c) = k"
  "map_of (year_groups f) y = (if y \<in> (\<lambda>c. year_of (cd_ts c)) ` set f then Some (filter (\<lambda>c. year_of (cd_ts c) = y) f) else None)"
proof -
  let ?ys = "sort (remdups (map (\<lambda>c. year_of (cd_ts c)) f))"
  have "map_of (map (\<lambda>y. (y, h y)) ys) y = (if y \<in> set ys then Some (h y) else None)" for h :: "int \<Rightarrow> candle list" and ys
    by (induction ys) auto
  then show "map_of (year_groups f) y = (if y \<in> (\<lambda>c. year_of (cd_ts c)) ` set f then Some (filter (\<lambda>c. year_of (cd_ts c) = y) f) else None)"
    by (simp add: year_groups_def)
qed (auto simp: year_groups_def comp_def)

lemma ascending_filter: "ascending cs \<Longrightarrow> ascending (filter P cs)"
  by (induction cs) (auto simp: ascending_def)

lemma write_rows_part:
  assumes "dataset_ok d"
  shows "dataset_ok (write_rows f d) \<and>
    set (part (write_rows f d) y) = merged (set (part d y)) {c \<in> set (normalize_candle_frame f). year_of (cd_ts c) = y}"
proof -
  let ?F = "normalize_candle_frame f" and ?g = "filter (\<lambda>c. year_of (cd_ts c) = y) (normalize_candle_frame f)"
  note w = write_groups [OF assms year_groups_parts(1,2), of ?F y]
  have a: "ascending (part d y)" using assms by (simp add: dataset_ok_def)
  have "set (part (write_rows f d) y) = merged (set (part d y)) (set ?g)"
  proof (cases "y \<in> (\<lambda>c. year_of (cd_ts c)) ` set ?F")
    case True
    then show ?thesis using w normalize_merge [OF a ascending_filter [OF normalize_ascending]]
      by (simp add: write_rows_def year_groups_parts(3))
  next
    case False
    then have "?g = []" by (auto simp: filter_empty_conv)
    then show ?thesis using w False by (simp add: write_rows_def year_groups_parts(3) merged_def)
  qed
  then show ?thesis using w by (simp add: write_rows_def)
qed

text \<open>All candles of a dataset, in order.\<close>

definition contents :: "dataset \<Rightarrow> candle list" where
  "contents d = sort_key cd_ts (scan d)"

lemma distinct_concat_disjoint:
  "(\<And>xs. xs \<in> set xss \<Longrightarrow> distinct (map f xs)) \<Longrightarrow> (\<And>i j x y. i < length xss \<Longrightarrow> j < length xss \<Longrightarrow> i \<noteq> j \<Longrightarrow> x \<in> set (xss ! i) \<Longrightarrow>
     y \<in> set (xss ! j) \<Longrightarrow> f x \<noteq> f y) \<Longrightarrow> distinct (map f (concat xss))"
proof (induction xss)
  case (Cons xs xss)
  have "distinct (map f (concat xss))"
  proof (rule Cons(1))
    fix i j x y assume "i < length xss" "j < length xss" "i \<noteq> j" "x \<in> set (xss ! i)" "y \<in> set (xss ! j)"
    then show "f x \<noteq> f y" using Cons(3) [of "Suc i" "Suc j" x y] by simp
  qed (use Cons(2) in simp)
  moreover have "f x \<noteq> f y" if "x \<in> set xs" "zs \<in> set xss" "y \<in> set zs" for x y zs
  proof -
    obtain j where "j < length xss" "xss ! j = zs" using \<open>zs \<in> set xss\<close> by (auto simp: in_set_conv_nth)
    then show ?thesis using Cons(3) [of 0 "Suc j" x y] that by simp
  qed
  ultimately show ?case using Cons(2) by auto
qed simp

lemma contents_ascending:
  assumes "dataset_ok d"
  shows "ascending (contents d)"
proof -
  let ?ps = "sort_key fst (ds_parts d)"
  have dist: "distinct (map fst ?ps)" using assms by (simp add: dataset_ok_def distinct_map)
  have part: "part d (fst (?ps ! i)) = snd (?ps ! i)" if "i < length ?ps" for i
  proof -
    have "?ps ! i \<in> set (ds_parts d)" using that nth_mem [of i ?ps] by (simp del: nth_mem)
    then have "map_of (ds_parts d) (fst (?ps ! i)) = Some (snd (?ps ! i))" using assms by (simp add: dataset_ok_def)
    then show ?thesis by (simp add: part_def)
  qed
  have each: "ascending (snd (?ps ! i)) \<and> (\<forall>c \<in> set (snd (?ps ! i)). year_of (cd_ts c) = fst (?ps ! i))" if "i < length ?ps" for i
    using assms part [OF that] unfolding dataset_ok_def by metis
  have "distinct (map cd_ts (scan d))" unfolding scan_def
  proof (rule distinct_concat_disjoint)
    fix xs assume "xs \<in> set (map snd ?ps)"
    then obtain i where "i < length ?ps" "xs = snd (?ps ! i)" by (auto simp: in_set_conv_nth simp del: set_sort)
    then show "distinct (map cd_ts xs)" using each by (simp add: ascending_distinct)
  next
    fix i j x y assume ij: "i < length (map snd ?ps)" "j < length (map snd ?ps)" "i \<noteq> j" "x \<in> set (map snd ?ps ! i)" "y \<in> set (map snd ?ps ! j)"
    then have "fst (?ps ! i) \<noteq> fst (?ps ! j)" using nth_eq_iff_index_eq [OF dist, of i j] by simp
    then show "cd_ts x \<noteq> cd_ts y" using each [of i] each [of j] ij by auto
  qed
  then show ?thesis by (simp add: contents_def ascending_distinct distinct_map)
qed

lemma merged_partition:
  assumes "\<And>c y. c \<in> P y \<Longrightarrow> year_of (cd_ts c) = y"
  shows "(\<Union>y. merged (P y) {c \<in> N. year_of (cd_ts c) = y}) = merged (\<Union>y. P y) N"
proof -
  have "cd_ts c \<notin> cd_ts ` {c \<in> N. year_of (cd_ts c) = y} \<longleftrightarrow> cd_ts c \<notin> cd_ts ` N" if "c \<in> P y" for c y
    unfolding assms [OF that, symmetric] by (auto simp: image_iff)
  then have "merged (P y) {c \<in> N. year_of (cd_ts c) = y} = {c \<in> P y. cd_ts c \<notin> cd_ts ` N} \<union> {c \<in> N. year_of (cd_ts c) = y}" for y
    unfolding merged_def by blast
  then show ?thesis unfolding merged_def by auto
qed

lemma contents_write:
  assumes "dataset_ok d"
  shows "dataset_ok (write_rows f d) \<and> contents (write_rows f d) = normalize_candle_frame (contents d @ f)"
proof -
  let ?F = "normalize_candle_frame f"
  have ok: "dataset_ok (write_rows f d)" using write_rows_part [OF assms] by blast
  have "set (contents (write_rows f d)) = (\<Union>y. merged (set (part d y)) {c \<in> set ?F. year_of (cd_ts c) = y})"
    using scan_set [OF ok] write_rows_part [OF assms, of f] by (simp add: contents_def)
  also have "\<dots> = merged (\<Union>y. set (part d y)) (set ?F)"
  proof -
    have "c \<in> set (part d y) \<Longrightarrow> year_of (cd_ts c) = y" for c y using assms by (simp add: dataset_ok_def)
    then show ?thesis by (rule merged_partition)
  qed
  also have "\<dots> = set (normalize_candle_frame (contents d @ f))"
    using normalize_merge [OF contents_ascending [OF assms] normalize_ascending, of f] scan_set [OF assms]
      normalize_append_frame [OF contents_ascending [OF assms], of f] by (simp add: contents_def)
  finally have "contents (write_rows f d) = normalize_candle_frame (contents d @ f)"
    by (rule ascending_unique [OF contents_ascending [OF ok] normalize_ascending])
  with ok show ?thesis by blast
qed

section \<open>Round trips through the store\<close>

definition store_wf :: "candle_store \<Rightarrow> bool" where
  "store_wf st \<longleftrightarrow> (\<forall>key. dataset_ok (dataset_of st key))"

lemma store_wfD: "store_wf st \<Longrightarrow> dataset_ok (dataset_of st key)"
  by (simp only: store_wf_def)

lemma store_read_contents:
  assumes "store_wf st"
  shows "store_read key from_ts to_ts st = filter (in_range from_ts to_ts) (contents (dataset_of st key))"
proof -
  let ?d = "dataset_of st key"
  have asc: "ascending (contents ?d)" by (rule contents_ascending [OF store_wfD [OF assms]])
  have "sort_key cd_ts (filter P (scan ?d)) = filter P (contents ?d)" for P
    by (simp add: contents_def filter_sort)
  moreover have "ds_parts ?d = [] \<Longrightarrow> contents ?d = []" by (simp add: contents_def scan_def)
  ultimately show ?thesis using normalize_id [OF ascending_filter [OF asc]] by (simp add: store_read_def Let_def)
qed

lemma dataset_of_write:
  "dataset_of (snd (store_write now key f source v st)) k =
    (if k = key then write_manifest source v now (write_rows f (dataset_of st key)) else dataset_of st k)"
  by (simp add: dataset_of_def store_write_def Let_def update_conv')

lemma manifest_frame [simp]:
  "contents (write_manifest source v now d) = contents d" "dataset_ok (write_manifest source v now d) = dataset_ok d"
  "scan (write_manifest source v now d) = scan d"
  by (simp_all add: write_manifest_def Let_def contents_def scan_def dataset_ok_def part_def)

lemma store_write_wf: "store_wf st \<Longrightarrow> store_wf (snd (store_write now key f source v st))"
proof -
  assume wf: "store_wf st"
  have "dataset_ok (if k = key then write_manifest source v now (write_rows f (dataset_of st key)) else dataset_of st k)" for k
    using contents_write [OF store_wfD [OF wf, of key], of f] store_wfD [OF wf, of k] by (simp del: split_paired_All)
  then show "store_wf (snd (store_write now key f source v st))" unfolding store_wf_def dataset_of_write by blast
qed

lemma store_write_read:
  assumes "store_wf st"
  shows "store_read k from_ts to_ts (snd (store_write now key f source v st)) =
    (if k = key then filter (in_range from_ts to_ts) (normalize_candle_frame (store_read key None None st @ f)) else store_read k from_ts to_ts st)"
proof -
  have "in_range None None = (\<lambda>c. True)" by (simp add: in_range_def fun_eq_iff)
  then have all: "store_read key None None st = contents (dataset_of st key)" using store_read_contents [OF assms] by simp
  show ?thesis unfolding all using contents_write [OF store_wfD [OF assms, of key], of f]
    by (simp add: store_read_contents [OF store_write_wf [OF assms]] store_read_contents [OF assms] dataset_of_write)
qed

lemma store_write_count:
  assumes "store_wf st"
  shows "fst (store_write now key f source v st) = int (length (store_read key None None (snd (store_write now key f source v st))))"
proof -
  have "in_range None None = (\<lambda>c. True)" by (simp add: in_range_def fun_eq_iff)
  then show ?thesis
    by (simp add: store_read_contents [OF store_write_wf [OF assms]] dataset_of_write) (simp add: store_write_def Let_def count_rows_def contents_def)
qed


lemma store_read_ascending: "store_wf st \<Longrightarrow> ascending (store_read key from_ts to_ts st)"
  using ascending_filter [OF contents_ascending [OF store_wfD]] by (simp add: store_read_contents)

text \<open>Writing the same frame again changes nothing.\<close>

lemma normalize_again:
  assumes "ascending xs"
  shows "normalize_candle_frame (normalize_candle_frame (xs @ f) @ f) = normalize_candle_frame (xs @ f)"
proof (rule ascending_unique [OF normalize_ascending normalize_ascending])
  let ?F = "set (normalize_candle_frame f)"
  have one: "set (normalize_candle_frame (ys @ f)) = merged (set ys) ?F" if "ascending ys" for ys
    using normalize_merge [OF that normalize_ascending, of f] normalize_append_frame [OF that, of f] by simp
  show "set (normalize_candle_frame (normalize_candle_frame (xs @ f) @ f)) = set (normalize_candle_frame (xs @ f))"
    unfolding one [OF normalize_ascending] one [OF assms] by (auto simp: merged_def)
qed

end
