(* ===== verification/PT_Backtest_Run.thy ===== *)
theory PT_Backtest_Run
  imports PT_Metrics PT_Candle_Store
begin

text \<open>
  Backtests over stored data: \<open>backtest/run.py\<close> (load, run per symbol, aggregate, persist) and the
  parameter sweep of \<open>backtest/sweep.py\<close>. The tables \<open>backtest_runs\<close> and \<open>backtest_trades\<close> are a
  state of their own; JSON columns hold records. pandas' row sums and the SHA-256 fingerprint are
  parameters. What is proved: the aggregated equity of one symbol is its curve, a run reads only
  candles of its window, and what the windows of a sweep share.
\<close>

section \<open>Runs over several symbols\<close>

record statlib =
  sl_pow :: "rat \<Rightarrow> rat \<Rightarrow> rat"
  sl_row_sum :: "rat list \<Rightarrow> rat"
  sl_fingerprint :: "string \<Rightarrow> json \<Rightarrow> py_date \<Rightarrow> py_date \<Rightarrow> (string \<times> candle list) list \<Rightarrow> string"

record symbol_result =
  sr_symbol :: string
  sr_instrument_id :: nat
  sr_result :: backtest_result
  sr_metrics :: bt_metrics

record backtest_run_row =
  brr_id :: nat
  brr_strategy_name :: string
  brr_params :: json
  brr_cost_model :: cost_config
  brr_from_date :: py_date
  brr_to_date :: py_date
  brr_portfolio :: bt_metrics
  brr_per_symbol :: "(string \<times> bt_metrics) list"
  brr_fingerprint :: string

record backtest_trade_row =
  btr_run :: nat
  btr_instrument :: nat
  btr_symbol :: string
  btr_detail :: executed_trade

record backtest_db =
  bd_runs :: "backtest_run_row list"
  bd_trades :: "backtest_trade_row list"

record multi_symbol_result =
  ms_run_id :: nat
  ms_per_symbol :: "symbol_result list"
  ms_portfolio :: bt_metrics

text \<open>Forward and backward filling of a column with gaps.\<close>

primrec ffill_from :: "rat option \<Rightarrow> rat option list \<Rightarrow> rat option list" where
  "ffill_from prev [] = []"
| "ffill_from prev (x # xs) = (let v = (if x = None then prev else x) in v # ffill_from v xs)"

definition ffill :: "rat option list \<Rightarrow> rat option list" where
  "ffill xs = ffill_from None xs"

definition bfill :: "rat option list \<Rightarrow> rat option list" where
  "bfill xs = rev (ffill (rev xs))"

definition aggregate_equity :: "statlib \<Rightarrow> symbol_result list \<Rightarrow> equity_series" where
  "aggregate_equity sl per_symbol = (let
       frames = map (\<lambda>r. map (\<lambda>p. (eq_ts p, fl_rnd (eq_equity p))) (br_curve (sr_result r))) (filter (\<lambda>r. br_curve (sr_result r) \<noteq> []) per_symbol);
       index = sort (remdups (map fst (concat frames)));
       columns = map (\<lambda>f. bfill (ffill (map (map_of (rev f)) index))) frames in
     map (\<lambda>i. (index ! i, sl_row_sum sl (concat (map (\<lambda>col. case col ! i of None \<Rightarrow> [] | Some v \<Rightarrow> [v]) columns)))) [0..<length index])"

record run_env =
  re_lib :: numlib
  re_stat :: statlib
  re_store :: store
  re_candles :: candle_store
  re_capital :: rat
  re_risk_pct :: rat
  re_rates :: cost_config
  re_cfg :: backtest_config
  re_exchange :: string

text \<open>The window of a date range: both days included, in UTC.\<close>

definition range_start :: "py_date \<Rightarrow> instant" where "range_start d = combine_dt d 0"
definition range_end :: "py_date \<Rightarrow> instant" where "range_end d = combine_dt d (us_per_day - 1)"

definition run_symbol :: "run_env \<Rightarrow> 'st strategy \<Rightarrow> interval \<Rightarrow> py_date \<Rightarrow> py_date \<Rightarrow> rat \<Rightarrow> string \<Rightarrow> py_error + symbol_result \<times> candle list" where
  "run_symbol env strat iv from_date to_date capital_each symbol = (case get_by_symbol symbol (re_exchange env) (re_store env) of
     None \<Rightarrow> Inl NoDataForSymbol
   | Some inst \<Rightarrow> (let candles = store_read (re_exchange env, symbol, iv) (Some (range_start from_date)) (Some (range_end to_date)) (re_candles env) in
       if candles = [] then Inl NoDataForSymbol else
       bindE (run_backtest \<lparr>be_lib = re_lib env, be_sizer = sizer_size (re_risk_pct env), be_rates = re_rates env,
           be_segment = bc_segment (re_cfg env), be_slippage = bc_slippage_bps (re_cfg env)\<rparr> strat candles capital_each) (\<lambda>res.
         Inr (\<lparr>sr_symbol = symbol, sr_instrument_id = ins_id inst, sr_result = res,
           sr_metrics = compute_metrics (sl_pow (re_stat env)) (br_curve res) (br_trades res)\<rparr>, candles))))"

definition persist_run :: "run_env \<Rightarrow> string \<Rightarrow> json \<Rightarrow> py_date \<Rightarrow> py_date \<Rightarrow> (symbol_result \<times> candle list) list \<Rightarrow> (backtest_db, multi_symbol_result) act" where
  "persist_run env name params from_date to_date results = (\<lambda>db. let
       per_symbol = map fst results;
       portfolio = compute_metrics_from_series (sl_pow (re_stat env)) (aggregate_equity (re_stat env) per_symbol)
         (concat (map (\<lambda>r. br_trades (sr_result r)) per_symbol));
       frames = map (\<lambda>(r, c). (sr_symbol r, c)) results;
       run = \<lparr>brr_id = next_id (map brr_id (bd_runs db)), brr_strategy_name = name, brr_params = params, brr_cost_model = re_rates env,
         brr_from_date = from_date, brr_to_date = to_date, brr_portfolio = portfolio,
         brr_per_symbol = map (\<lambda>r. (sr_symbol r, sr_metrics r)) per_symbol,
         brr_fingerprint = sl_fingerprint (re_stat env) name params from_date to_date (sort_key fst frames)\<rparr>;
       rows = concat (map (\<lambda>r. map (\<lambda>t. \<lparr>btr_run = brr_id run, btr_instrument = sr_instrument_id r, btr_symbol = sr_symbol r, btr_detail = t\<rparr>)
         (br_trades (sr_result r))) per_symbol) in
     (Inr \<lparr>ms_run_id = brr_id run, ms_per_symbol = per_symbol, ms_portfolio = portfolio\<rparr>,
      db\<lparr>bd_runs := bd_runs db @ [run], bd_trades := bd_trades db @ rows\<rparr>))"

text \<open>\<open>clone()\<close> gives every symbol a fresh strategy: here each run starts from \<open>st_init\<close>.\<close>

definition run_backtest_for_symbols :: "run_env \<Rightarrow> string \<Rightarrow> json \<Rightarrow> 'st strategy \<Rightarrow> string list \<Rightarrow> interval \<Rightarrow> py_date \<Rightarrow> py_date \<Rightarrow>
    (backtest_db, multi_symbol_result) act" where
  "run_backtest_for_symbols env name params strat symbols iv from_date to_date = (if symbols = [] then raise NoDataForSymbol else
     bindA (liftE (dec_div (re_capital env) (of_nat (length symbols)))) (\<lambda>capital_each.
     bindA (liftE (sizer_init (re_risk_pct env))) (\<lambda>_.
     bindA (liftE (forE symbols (run_symbol env strat iv from_date to_date capital_each))) (\<lambda>results.
     persist_run env name params from_date to_date results))))"

section \<open>Parameter sweeps\<close>

record sweep_result =
  sw_params :: "(string \<times> json) list"
  sw_in_sample :: "bt_metrics option"
  sw_out_of_sample :: "bt_metrics option"
  sw_error :: "py_error option"

definition split_date :: "py_date \<Rightarrow> py_date \<Rightarrow> rat \<Rightarrow> py_date" where
  "split_date from_date to_date oos_fraction =
     from_date + rhe (fl_mul (of_int (to_date - from_date)) (fl_sub 1 oos_fraction))"

fun grid_combinations :: "(string \<times> json list) list \<Rightarrow> (string \<times> json) list list" where
  "grid_combinations [] = [[]]"
| "grid_combinations ((key, vals) # grid) = concat (map (\<lambda>v. map (\<lambda>rest. (key, v) # rest) (grid_combinations grid)) vals)"

text \<open>What \<open>except (PersonalTradeError, ValueError)\<close> catches.\<close>

definition sweep_catches :: "py_error \<Rightarrow> bool" where
  "sweep_catches x \<longleftrightarrow> x \<notin> {PyKeyError, PyRuntimeError, PyAssertionError, PyTypeError, PyAttributeError, PyIndexError, IntegrityError,
     DecimalInvalidOperation, PyZeroDivisionError, YAMLError, PyOSError}"

text \<open>A strategy class: its name, the validation of a combination and the construction; \<open>dump\<close> prints parameters.\<close>

record ('p, 'st) sweep_class =
  sc_name :: string
  sc_validate :: "(string \<times> json) list \<Rightarrow> py_error + 'p"
  sc_construct :: "'p \<Rightarrow> 'st strategy"
  sc_dump :: "'p \<Rightarrow> json"

definition sweep_combo :: "run_env \<Rightarrow> ('p, 'st) sweep_class \<Rightarrow> string list \<Rightarrow> interval \<Rightarrow> py_date \<Rightarrow> py_date \<Rightarrow> py_date \<Rightarrow>
    (string \<times> json) list \<Rightarrow> (backtest_db, sweep_result) act" where
  "sweep_combo env cls symbols iv from_date split to_date combo = (case sc_validate cls combo of
     Inl x \<Rightarrow> (if sweep_catches x then ret \<lparr>sw_params = combo, sw_in_sample = None, sw_out_of_sample = None, sw_error = Some x\<rparr> else raise x)
   | Inr params \<Rightarrow> (\<lambda>db.
       let go = run_backtest_for_symbols env (sc_name cls) (sc_dump cls params) (sc_construct cls params) symbols iv in
       case go from_date split db of
         (Inl x, db1) \<Rightarrow> (if sweep_catches x then (Inr \<lparr>sw_params = combo, sw_in_sample = None, sw_out_of_sample = None, sw_error = Some x\<rparr>, db1)
           else (Inl x, db1))
       | (Inr r1, db1) \<Rightarrow> (case go split to_date db1 of
           (Inl x, db2) \<Rightarrow> (if sweep_catches x then (Inr \<lparr>sw_params = combo, sw_in_sample = Some (ms_portfolio r1), sw_out_of_sample = None, sw_error = Some x\<rparr>, db2)
             else (Inl x, db2))
         | (Inr r2, db2) \<Rightarrow> (Inr \<lparr>sw_params = combo, sw_in_sample = Some (ms_portfolio r1), sw_out_of_sample = Some (ms_portfolio r2), sw_error = None\<rparr>, db2))))"

definition run_parameter_sweep :: "run_env \<Rightarrow> ('p, 'st) sweep_class \<Rightarrow> (string \<times> json list) list \<Rightarrow> string list \<Rightarrow> interval \<Rightarrow>
    py_date \<Rightarrow> py_date \<Rightarrow> rat \<Rightarrow> (backtest_db, sweep_result list) act" where
  "run_parameter_sweep env cls grid symbols iv from_date to_date oos_fraction = (
     if \<not> (0 < oos_fraction \<and> oos_fraction < 1) then raise InvalidSweepGrid
     else let combos = grid_combinations grid; split = split_date from_date to_date oos_fraction in
       if combos = [] then raise InvalidSweepGrid
       else if \<not> (from_date < split \<and> split < to_date) then raise InvalidSweepGrid
       else forA combos (sweep_combo env cls symbols iv from_date split to_date))"

section \<open>The windows of a sweep\<close>

text \<open>The candles a run over a date range reads.\<close>

definition window_candles :: "run_env \<Rightarrow> interval \<Rightarrow> string \<Rightarrow> py_date \<Rightarrow> py_date \<Rightarrow> candle list" where
  "window_candles env iv symbol from_date to_date =
     store_read (re_exchange env, symbol, iv) (Some (range_start from_date)) (Some (range_end to_date)) (re_candles env)"

lemma date_part_range: "range_start a \<le> ts \<and> ts \<le> range_end b \<longleftrightarrow> a \<le> date_part ts \<and> date_part ts \<le> b"
proof -
  have "a * us_per_day \<le> ts \<longleftrightarrow> a \<le> ts div us_per_day"
    using zdiv_mono1 [of "a * us_per_day" ts us_per_day] mult_div_mod_eq [of us_per_day ts] pos_mod_sign [of us_per_day ts]
      mult_right_mono [of a "ts div us_per_day" us_per_day]
    by (auto simp: us_per_day_def algebra_simps)
  moreover have "ts \<le> b * us_per_day + (us_per_day - 1) \<longleftrightarrow> ts div us_per_day \<le> b"
    using zdiv_mono1 [of ts "b * us_per_day + (us_per_day - 1)" us_per_day] mult_div_mod_eq [of us_per_day ts] pos_mod_bound [of us_per_day ts]
      mult_right_mono [of "ts div us_per_day" b us_per_day]
    by (auto simp: us_per_day_def algebra_simps)
  ultimately show ?thesis by (simp add: range_start_def range_end_def combine_dt_def date_part_def)
qed

lemma window_candles_iff:
  assumes "store_wf (re_candles env)"
  shows "c \<in> set (window_candles env iv symbol a b) \<longleftrightarrow>
    c \<in> set (store_read (re_exchange env, symbol, iv) None None (re_candles env)) \<and> a \<le> date_part (cd_ts c) \<and> date_part (cd_ts c) \<le> b"
  using date_part_range [of a "cd_ts c" b] by (auto simp: window_candles_def store_read_contents [OF assms] in_range_def)

lemma windows_shared:
  assumes "store_wf (re_candles env)" "a \<le> m" "m \<le> b"
  shows "set (window_candles env iv symbol a m) \<inter> set (window_candles env iv symbol m b) =
    {c \<in> set (window_candles env iv symbol a b). date_part (cd_ts c) = m}"
  using assms(2,3) by (auto simp: window_candles_iff [OF assms(1)])


section \<open>What a sweep returns\<close>

lemma length_grid: "length (grid_combinations grid) = prod_list (map (length \<circ> snd) grid)"
proof (induction grid)
  case (Cons kv grid)
  obtain key vals where kv: "kv = (key, vals)" by fastforce
  have "length (concat (map (\<lambda>v. map (\<lambda>rest. (key, v) # rest) cs) vs)) = length vs * length cs" for cs :: "(string \<times> json) list list" and vs
    by (induction vs) simp_all
  then show ?case using Cons kv by simp
qed simp

lemma sweep_combo_result:
  assumes run: "sweep_combo env cls symbols iv a m b combo db = (Inr r, db')"
  shows "sw_params r = combo \<and> (sw_error r = None \<longleftrightarrow> sw_out_of_sample r \<noteq> None)"
proof (cases "sc_validate cls combo")
  case (Inl x)
  then show ?thesis using run by (auto simp: sweep_combo_def ret_def raise_def split: if_splits)
next
  case (Inr params)
  let ?go = "run_backtest_for_symbols env (sc_name cls) (sc_dump cls params) (sc_construct cls params) symbols iv"
  obtain o1 db1 where one: "?go a m db = (o1, db1)" by fastforce
  obtain o2 db2 where two: "?go m b db1 = (o2, db2)" by fastforce
  show ?thesis using run by (cases o1; cases o2) (auto simp: sweep_combo_def Inr one two split: if_splits)
qed

lemma sweep_results:
  assumes "run_parameter_sweep env cls grid symbols iv a b oos db = (Inr results, db')"
  shows "a < split_date a b oos \<and> split_date a b oos < b \<and> map sw_params results = grid_combinations grid \<and>
    (\<forall>r \<in> set results. sw_error r = None \<longleftrightarrow> sw_out_of_sample r \<noteq> None)"
proof -
  have w: "a < split_date a b oos \<and> split_date a b oos < b"
    and run: "forA (grid_combinations grid) (sweep_combo env cls symbols iv a (split_date a b oos) b) db = (Inr results, db')"
    using assms by (auto simp: run_parameter_sweep_def raise_def Let_def split: if_splits)
  have "list_all2 (\<lambda>combo r. sw_params r = combo \<and> (sw_error r = None \<longleftrightarrow> sw_out_of_sample r \<noteq> None)) (grid_combinations grid) results"
    by (rule forA_results [OF _ run]) (blast dest: sweep_combo_result)
  then have "map sw_params results = grid_combinations grid \<and> (\<forall>r \<in> set results. sw_error r = None \<longleftrightarrow> sw_out_of_sample r \<noteq> None)"
    by (induction rule: list_all2_induct) auto
  with w show ?thesis by blast
qed

end
