(* ===== verification/PT_History.thy ===== *)
theory PT_History
  imports PT_Candle_Store PT_Repos
begin

text \<open>
  Historical data: the quality checks (\<open>data/historical/quality.py\<close>), corporate-action
  adjustment (\<open>adjust.py\<close>) and the synchronisation with a provider (\<open>sync.py\<close>). The provider's
  answers are parameters. The texts of findings are reduced to what they interpolate. What is
  proved: a report is free of errors exactly for valid frames and names exactly the missing
  trading days, an adjustment multiplies each candle by the factors of its later ex-dates, and
  synchronised instruments can be looked up under their keys without losing a row.
\<close>

section \<open>Quality checks\<close>

datatype severity = SevError | SevWarning
datatype finding_kind = FkEmpty | FkDuplicates | FkUnsorted | FkBadOhlc | FkNegativeVolume | FkPriceSpike | FkMissingDays

record quality_finding =
  qf_severity :: severity
  qf_kind :: finding_kind
  qf_count :: nat
  qf_examples :: "int list"

type_synonym quality_report = "quality_finding list"

definition has_errors :: "quality_report \<Rightarrow> bool" where
  "has_errors r \<longleftrightarrow> list_ex (\<lambda>g. qf_severity g = SevError) r"

definition report_status :: "quality_report \<Rightarrow> string" where
  "report_status r = (if has_errors r then ''errors'' else if r \<noteq> [] then ''warnings'' else ''ok'')"

fun spike_threshold :: "interval \<Rightarrow> rat" where
  "spike_threshold D1 = 1/4"
| "spike_threshold M15 = fl_rnd (1/10)"
| "spike_threshold M1 = fl_rnd (1/20)"

definition max_listed :: nat where "max_listed = 10"

fun count_duplicates :: "'a list \<Rightarrow> nat" where
  "count_duplicates [] = 0"
| "count_duplicates (x # xs) = (if x \<in> set xs then 1 else 0) + count_duplicates xs"

definition ohlc_bad :: "candle \<Rightarrow> bool" where
  "ohlc_bad c \<longleftrightarrow> cd_high c < max (cd_open c) (max (cd_close c) (cd_low c)) \<or>
     min (cd_open c) (min (cd_close c) (cd_high c)) < cd_low c \<or>
     cd_open c \<le> 0 \<or> cd_high c \<le> 0 \<or> cd_low c \<le> 0 \<or> cd_close c \<le> 0"

text \<open>\<open>pct_change\<close> of two closes compared with the threshold: a previous close of zero gives an infinite
  change, or NaN, which exceeds nothing.\<close>

definition is_spike :: "rat \<Rightarrow> rat \<Rightarrow> rat \<Rightarrow> bool" where
  "is_spike threshold p c \<longleftrightarrow> (if p = 0 then c \<noteq> 0 else threshold < \<bar>fl_sub (fl_div c p) 1\<bar>)"

fun spikes :: "rat \<Rightarrow> candle list \<Rightarrow> candle list" where
  "spikes threshold (p # c # cs) = (if is_spike threshold (cd_close p) (cd_close c) then [c] else []) @ spikes threshold (c # cs)"
| "spikes threshold _ = []"

definition missing_days :: "nse_calendar \<Rightarrow> candle list \<Rightarrow> py_date list" where
  "missing_days cal frame = (let have = map (\<lambda>c. ist_trading_date (cd_ts c)) frame in
     filter (\<lambda>d. d \<notin> set have) (trading_days_between cal (Min (set have)) (Max (set have))))"

definition check_candles :: "candle list \<Rightarrow> interval \<Rightarrow> nse_calendar option \<Rightarrow> quality_report" where
  "check_candles frame iv cal = (if frame = [] then [\<lparr>qf_severity = SevError, qf_kind = FkEmpty, qf_count = 0, qf_examples = []\<rparr>] else
     let dup = count_duplicates (map cd_ts frame); bad = filter ohlc_bad frame; neg = length (filter (\<lambda>c. cd_volume c < 0) frame);
       sp = spikes (spike_threshold iv) frame in
     (if dup \<noteq> 0 then [\<lparr>qf_severity = SevError, qf_kind = FkDuplicates, qf_count = dup, qf_examples = []\<rparr>] else []) @
     (if \<not> sorted (map cd_ts frame) then [\<lparr>qf_severity = SevError, qf_kind = FkUnsorted, qf_count = 0, qf_examples = []\<rparr>] else []) @
     (if bad \<noteq> [] then [\<lparr>qf_severity = SevError, qf_kind = FkBadOhlc, qf_count = length bad, qf_examples = map cd_ts (take max_listed bad)\<rparr>] else []) @
     (if neg \<noteq> 0 then [\<lparr>qf_severity = SevError, qf_kind = FkNegativeVolume, qf_count = neg, qf_examples = []\<rparr>] else []) @
     (if sp \<noteq> [] then [\<lparr>qf_severity = SevWarning, qf_kind = FkPriceSpike, qf_count = length sp, qf_examples = map cd_ts (take max_listed sp)\<rparr>] else []) @
     (case cal of
        None \<Rightarrow> []
      | Some k \<Rightarrow> if iv = D1 \<and> 1 < length frame then
          (let missing = missing_days k frame in
           if missing \<noteq> [] then [\<lparr>qf_severity = SevWarning, qf_kind = FkMissingDays, qf_count = length missing, qf_examples = take max_listed missing\<rparr>] else [])
          else []))"

text \<open>What a valid candle is.\<close>

definition candle_valid :: "candle \<Rightarrow> bool" where
  "candle_valid c \<longleftrightarrow> 0 < cd_low c \<and> cd_low c \<le> cd_open c \<and> cd_low c \<le> cd_close c \<and> cd_open c \<le> cd_high c \<and> cd_close c \<le> cd_high c \<and>
     0 \<le> cd_volume c"

lemma count_duplicates_0: "count_duplicates xs = 0 \<longleftrightarrow> distinct xs"
  by (induction xs) auto

lemma candle_valid_iff: "candle_valid c \<longleftrightarrow> \<not> ohlc_bad c \<and> \<not> cd_volume c < 0"
  by (auto simp: candle_valid_def ohlc_bad_def)

lemma check_candles_errors:
  "has_errors (check_candles frame iv cal) \<longleftrightarrow> \<not> (frame \<noteq> [] \<and> ascending frame \<and> (\<forall>c \<in> set frame. candle_valid c))"
proof (cases "frame = []")
  case False
  have neg: "length (filter (\<lambda>c. cd_volume c < 0) frame) \<noteq> 0 \<longleftrightarrow> (\<exists>c \<in> set frame. cd_volume c < 0)" by (auto simp: filter_empty_conv)
  have bad: "filter ohlc_bad frame \<noteq> [] \<longleftrightarrow> (\<exists>c \<in> set frame. ohlc_bad c)" by (auto simp: filter_empty_conv)
  have "has_errors (check_candles frame iv cal) \<longleftrightarrow> count_duplicates (map cd_ts frame) \<noteq> 0 \<or> \<not> sorted (map cd_ts frame) \<or>
      filter ohlc_bad frame \<noteq> [] \<or> length (filter (\<lambda>c. cd_volume c < 0) frame) \<noteq> 0"
    using False by (simp add: check_candles_def has_errors_def Let_def split: option.split)
  then show ?thesis using False unfolding neg bad count_duplicates_0 ascending_distinct candle_valid_iff by blast
qed (simp add: check_candles_def has_errors_def)

text \<open>The days a daily frame should cover.\<close>

lemma missing_days_iff:
  assumes "frame \<noteq> []"
  shows "d \<in> set (missing_days cal frame) \<longleftrightarrow> is_trading_day cal d \<and> d \<notin> (\<lambda>c. ist_trading_date (cd_ts c)) ` set frame \<and>
    (\<exists>c \<in> set frame. ist_trading_date (cd_ts c) \<le> d) \<and> (\<exists>c \<in> set frame. d \<le> ist_trading_date (cd_ts c))"
proof -
  let ?H = "(\<lambda>c. ist_trading_date (cd_ts c)) ` set frame"
  have "Min ?H \<le> d \<longleftrightarrow> (\<exists>x \<in> ?H. x \<le> d)" "d \<le> Max ?H \<longleftrightarrow> (\<exists>x \<in> ?H. d \<le> x)"
    using assms by (simp_all add: Min_le_iff Max_ge_iff)
  then show ?thesis by (auto simp: missing_days_def Let_def trading_days_between_filter)
qed

section \<open>Corporate actions\<close>

record corporate_action =
  ca_ex_date :: py_date
  ca_factor :: rat
  ca_kind :: string

definition scale_candle :: "rat \<Rightarrow> candle \<Rightarrow> candle" where
  "scale_candle factor c = c\<lparr>cd_open := fl_mul (cd_open c) factor, cd_high := fl_mul (cd_high c) factor, cd_low := fl_mul (cd_low c) factor,
     cd_close := fl_mul (cd_close c) factor, cd_volume := rhe (fl_div (fl_rnd (of_int (cd_volume c))) factor)\<rparr>"

definition apply_action :: "corporate_action \<Rightarrow> candle list \<Rightarrow> py_error + candle list" where
  "apply_action a frame = (let factor = fl_rnd (ca_factor a) in
     if factor \<le> 0 then Inl PyValueError
     else Inr (map (\<lambda>c. if ist_trading_date (cd_ts c) < ca_ex_date a then scale_candle factor c else c) frame))"

primrec apply_actions :: "corporate_action list \<Rightarrow> candle list \<Rightarrow> py_error + candle list" where
  "apply_actions [] frame = Inr frame"
| "apply_actions (a # as) frame = bindE (apply_action a frame) (apply_actions as)"

definition apply_adjustments :: "candle list \<Rightarrow> corporate_action list \<Rightarrow> py_error + candle list" where
  "apply_adjustments frame actions = (if frame = [] \<or> actions = [] then Inr frame else apply_actions (sort_key ca_ex_date actions) frame)"

text \<open>The reference: one candle, scaled by the actions whose ex-date lies after its day.\<close>

definition adjusted :: "corporate_action list \<Rightarrow> candle \<Rightarrow> candle" where
  "adjusted actions c = fold (\<lambda>a. scale_candle (fl_rnd (ca_factor a)))
     (filter (\<lambda>a. ist_trading_date (cd_ts c) < ca_ex_date a) (sort_key ca_ex_date actions)) c"

lemma scale_ts [simp]: "cd_ts (scale_candle f c) = cd_ts c"
  by (simp add: scale_candle_def)

lemma apply_actions_spec:
  "apply_actions as frame = (if \<exists>a \<in> set as. fl_rnd (ca_factor a) \<le> 0 then Inl PyValueError
     else Inr (map (\<lambda>c. fold (\<lambda>a. scale_candle (fl_rnd (ca_factor a))) (filter (\<lambda>a. ist_trading_date (cd_ts c) < ca_ex_date a) as) c) frame))"
  by (induction as arbitrary: frame) (auto simp: apply_action_def Let_def)

lemma apply_adjustments_spec:
  "apply_adjustments frame actions = (if frame \<noteq> [] \<and> (\<exists>a \<in> set actions. fl_rnd (ca_factor a) \<le> 0) then Inl PyValueError
     else Inr (map (adjusted actions) frame))"
  by (auto simp: apply_adjustments_def apply_actions_spec adjusted_def map_idI)

lemma adjusted_ts: "cd_ts (adjusted actions c) = cd_ts c"
proof -
  have "cd_ts (fold (\<lambda>a. scale_candle (fl_rnd (ca_factor a))) as c) = cd_ts c" for as by (induction as arbitrary: c) simp_all
  then show ?thesis by (simp add: adjusted_def)
qed

lemma adjusted_after: "\<forall>a \<in> set actions. ca_ex_date a \<le> ist_trading_date (cd_ts c) \<Longrightarrow> adjusted actions c = c"
proof -
  assume "\<forall>a \<in> set actions. ca_ex_date a \<le> ist_trading_date (cd_ts c)"
  then have "filter (\<lambda>a. ist_trading_date (cd_ts c) < ca_ex_date a) (sort_key ca_ex_date actions) = []" by (auto simp: filter_empty_conv)
  then show ?thesis by (simp add: adjusted_def)
qed


section \<open>Synchronising instruments\<close>

record instrument_info =
  if_symbol :: string
  if_exchange :: string
  if_isin :: string
  if_key :: string
  if_name :: string
  if_tick_size :: rat
  if_lot_size :: int

text \<open>The unique constraints of the table, checked for the row \<open>r\<close> against all others.\<close>

definition instrument_unique :: "instrument_row \<Rightarrow> instrument_row list \<Rightarrow> bool" where
  "instrument_unique r rows \<longleftrightarrow> (\<forall>q \<in> set rows. ins_id q \<noteq> ins_id r \<longrightarrow>
     ins_key q \<noteq> ins_key r \<and> (ins_symbol q, ins_exchange q) \<noteq> (ins_symbol r, ins_exchange r))"

definition name_or_none :: "string \<Rightarrow> string option" where
  "name_or_none n = (if n = [] then None else Some n)"

definition new_instrument :: "instrument_info \<Rightarrow> instrument_row" where
  "new_instrument i = \<lparr>ins_id = 0, ins_symbol = if_symbol i, ins_exchange = if_exchange i, ins_isin = Some (if_isin i), ins_key = if_key i,
     ins_name = name_or_none (if_name i), ins_tick_size = if_tick_size i, ins_lot_size = if_lot_size i, ins_active = True\<rparr>"

definition refresh_instrument :: "instrument_info \<Rightarrow> instrument_row \<Rightarrow> instrument_row" where
  "refresh_instrument i r = r\<lparr>ins_symbol := if_symbol i, ins_isin := Some (if_isin i), ins_key := if_key i,
     ins_name := name_or_none (if_name i), ins_tick_size := if_tick_size i, ins_lot_size := if_lot_size i, ins_active := True\<rparr>"

definition find_instrument :: "instrument_info \<Rightarrow> store \<Rightarrow> instrument_row option" where
  "find_instrument i d = (case get_by_instrument_key (if_key i) d of
     Some r \<Rightarrow> Some r | None \<Rightarrow> get_by_symbol (if_symbol i) (if_exchange i) d)"

definition sync_instrument :: "instrument_info \<Rightarrow> (store, unit) act" where
  "sync_instrument i = bindA (getA (find_instrument i)) (\<lambda>found. case found of
     None \<Rightarrow> seqA (guardA (\<lambda>d. instrument_unique (new_instrument i\<lparr>ins_id := next_id (map ins_id (instruments d))\<rparr>) (instruments d)) IntegrityError)
       (bindA (add_instrument (new_instrument i)) (\<lambda>_. ret ()))
   | Some r \<Rightarrow> seqA (guardA (\<lambda>d. instrument_unique (refresh_instrument i r) (instruments d)) IntegrityError)
       (modA (\<lambda>d. d\<lparr>instruments := tbl_upd ins_id (ins_id r) (refresh_instrument i) (instruments d)\<rparr>)))"

definition sync_instruments :: "instrument_info list \<Rightarrow> (store, int) act" where
  "sync_instruments infos = bindA (forA infos sync_instrument) (\<lambda>us. ret (int (length us)))"

section \<open>Synchronising candles\<close>

record sync_result =
  sy_symbol :: string
  sy_interval :: interval
  sy_fetched_rows :: int
  sy_total_rows :: int
  sy_report :: quality_report

text \<open>\<open>fetch\<close> is the provider's \<open>get_historical_candles\<close>, which may raise.\<close>

definition sync_candles :: "(string \<Rightarrow> interval \<Rightarrow> py_date \<Rightarrow> py_date \<Rightarrow> py_error + candle list) \<Rightarrow> instant \<Rightarrow> store \<Rightarrow>
    string \<Rightarrow> interval \<Rightarrow> py_date \<Rightarrow> py_date \<Rightarrow> nse_calendar option \<Rightarrow> string \<Rightarrow> (candle_store, sync_result) act" where
  "sync_candles fetch now d symbol iv from_date to_date cal exchange st = (case get_by_symbol symbol exchange d of
     None \<Rightarrow> (Inl UnknownSymbol, st)
   | Some inst \<Rightarrow> (case fetch (ins_key inst) iv from_date to_date of
       Inl x \<Rightarrow> (Inl x, st)
     | Inr frame \<Rightarrow> (let report = check_candles frame iv cal in
         case store_write now (exchange, symbol, iv) frame ''upstox'' (Some (report_status report)) st of (n, st') \<Rightarrow>
           (Inr \<lparr>sy_symbol = symbol, sy_interval = iv, sy_fetched_rows = int (length frame), sy_total_rows = n, sy_report = report\<rparr>, st'))))"

section \<open>What synchronising instruments keeps\<close>

definition instruments_ok :: "store \<Rightarrow> bool" where
  "instruments_ok d \<longleftrightarrow> distinct (map ins_id (instruments d)) \<and> distinct (map ins_key (instruments d)) \<and>
     distinct (map (\<lambda>r. (ins_symbol r, ins_exchange r)) (instruments d))"

lemma distinct_map_iff: "distinct (map f xs) \<longleftrightarrow> distinct xs \<and> (\<forall>x \<in> set xs. \<forall>y \<in> set xs. f x = f y \<longrightarrow> x = y)"
  by (auto simp: distinct_map inj_on_def)

lemma distinct_map_upd:
  assumes "distinct (map ins_id rows)" "distinct (map f rows)" "\<forall>q \<in> set rows. ins_id q \<noteq> k \<longrightarrow> f q \<noteq> f (h r)" "r \<in> set rows" "ins_id r = k"
    "ins_id (h r) = k"
  shows "distinct (map f (tbl_upd ins_id k h rows))"
  using assms
proof (induction rows)
  case (Cons q rows)
  have upd: "k \<notin> ins_id ` set qs \<Longrightarrow> tbl_upd ins_id k h qs = qs" for qs by (rule tbl_upd_absent)
  have mem: "set (tbl_upd ins_id k h rows) \<subseteq> insert (h r) (set rows)" if "r \<in> set rows" "distinct (map ins_id rows)"
    using that Cons(6) by (auto simp: tbl_upd_def distinct_map inj_on_def)
  show ?case
  proof (cases "q = r")
    case True
    then have "k \<notin> ins_id ` set rows" using Cons(2,6) by auto
    then have "f q' \<noteq> f (h r)" if "q' \<in> set rows" for q' using Cons(4) that by (metis image_eqI list.set_intros(2))
    then have "f (h r) \<notin> f ` set rows" by (auto simp: image_iff) (metis)
    moreover have "tbl_upd ins_id k h (q # rows) = h r # rows" using upd [OF \<open>k \<notin> ins_id ` set rows\<close>] True Cons(6) by (simp add: tbl_upd_def)
    ultimately show ?thesis using Cons(3) by simp
  next
    case False
    then have r: "r \<in> set rows" "ins_id q \<noteq> k" using Cons(2,5,6) by auto
    have "distinct (map f (tbl_upd ins_id k h rows))" by (rule Cons(1)) (use Cons r in auto)
    moreover have "f q \<notin> f ` set (tbl_upd ins_id k h rows)" using mem [OF r(1)] Cons(2-4) r(2) by fastforce
    moreover have "tbl_upd ins_id k h (q # rows) = q # tbl_upd ins_id k h rows" using r(2) by (simp add: tbl_upd_def)
    ultimately show ?thesis by (simp only: list.map distinct.simps set_map simp_thms)
  qed
qed simp

lemma refresh_id [simp]: "ins_id (refresh_instrument i r) = ins_id r" "ins_exchange (refresh_instrument i r) = ins_exchange r"
  by (simp_all add: refresh_instrument_def)

lemma find_instrument_Some: "find_instrument i d = Some r \<Longrightarrow> r \<in> set (instruments d)"
  by (auto simp: find_instrument_def get_by_instrument_key_def get_by_symbol_def dest: find_SomeD split: option.splits)

lemma refresh_ok:
  assumes ok: "instruments_ok d" and r: "r \<in> set (instruments d)" and u: "instrument_unique (refresh_instrument i r) (instruments d)"
  shows "instruments_ok (d\<lparr>instruments := tbl_upd ins_id (ins_id r) (refresh_instrument i) (instruments d)\<rparr>)"
proof -
  have ids: "distinct (map ins_id (instruments d))" using ok by (simp add: instruments_ok_def)
  note D = distinct_map_upd [OF ids _ _ r refl, of _ "refresh_instrument i"]
  show ?thesis using ok u D [of ins_key] D [of "\<lambda>r. (ins_symbol r, ins_exchange r)"] map_key_tbl_upd [of ins_id "refresh_instrument i" "ins_id r" "instruments d"]
    by (auto simp: instruments_ok_def instrument_unique_def)
qed

lemma sync_instrument_run:
  "sync_instrument i d = (case find_instrument i d of
     None \<Rightarrow> let r = new_instrument i\<lparr>ins_id := next_id (map ins_id (instruments d))\<rparr> in
       if instrument_unique r (instruments d) then (Inr (), d\<lparr>instruments := instruments d @ [r]\<rparr>) else (Inl IntegrityError, d)
   | Some r \<Rightarrow> if instrument_unique (refresh_instrument i r) (instruments d)
       then (Inr (), d\<lparr>instruments := tbl_upd ins_id (ins_id r) (refresh_instrument i) (instruments d)\<rparr>) else (Inl IntegrityError, d))"
  by (auto simp: sync_instrument_def add_instrument_def repo_add_def run_simps Let_def split: option.split)

lemma sync_instrument_ok:
  assumes "instruments_ok d"
  shows "instruments_ok (snd (sync_instrument i d)) \<and> ins_id ` set (instruments d) \<subseteq> ins_id ` set (instruments (snd (sync_instrument i d)))"
proof (cases "find_instrument i d")
  case None
  let ?r = "new_instrument i\<lparr>ins_id := next_id (map ins_id (instruments d))\<rparr>"
  have fresh: "ins_id ?r \<notin> ins_id ` set (instruments d)" using next_id_fresh [of "map ins_id (instruments d)"] by simp
  have "instrument_unique ?r (instruments d) \<Longrightarrow> instruments_ok (d\<lparr>instruments := instruments d @ [?r]\<rparr>)"
  proof -
    assume u: "instrument_unique ?r (instruments d)"
    have "ins_key q \<noteq> ins_key ?r \<and> (ins_symbol q, ins_exchange q) \<noteq> (ins_symbol ?r, ins_exchange ?r)" if "q \<in> set (instruments d)" for q
      using u fresh that unfolding instrument_unique_def by (metis image_eqI)
    then have "ins_key ?r \<notin> ins_key ` set (instruments d)" "(ins_symbol ?r, ins_exchange ?r) \<notin> (\<lambda>r. (ins_symbol r, ins_exchange r)) ` set (instruments d)"
      unfolding image_iff by metis+
    then show ?thesis using assms fresh by (simp add: instruments_ok_def)
  qed
  then show ?thesis using None assms by (auto simp: sync_instrument_run Let_def)
next
  case (Some r)
  then show ?thesis using assms refresh_ok [OF assms find_instrument_Some [OF Some], of i]
      map_key_tbl_upd [of ins_id "refresh_instrument i" "ins_id r" "instruments d"]
    by (auto simp: sync_instrument_run image_set simp del: set_map)
qed


text \<open>What a row shows after it was synchronised, and that it is still there at the end.\<close>

definition in_sync :: "instrument_info \<Rightarrow> store \<Rightarrow> bool" where
  "in_sync i d \<longleftrightarrow> (\<exists>r \<in> set (instruments d). ins_symbol r = if_symbol i \<and> ins_exchange r = if_exchange i \<and> ins_isin r = Some (if_isin i) \<and>
     ins_key r = if_key i \<and> ins_name r = name_or_none (if_name i) \<and> ins_tick_size r = if_tick_size i \<and> ins_lot_size r = if_lot_size i \<and> ins_active r)"

definition one_exchange :: "string \<Rightarrow> store \<Rightarrow> bool" where
  "one_exchange e d \<longleftrightarrow> (\<forall>r \<in> set (instruments d). ins_exchange r = e)"

lemma find_instrument_key:
  "find_instrument i d = Some r \<Longrightarrow> ins_key r = if_key i \<or> ins_symbol r = if_symbol i"
  by (auto simp: find_instrument_def get_by_instrument_key_def get_by_symbol_def dest: find_SomeD split: option.splits)

lemma sync_instrument_keeps:
  assumes ok: "instruments_ok d" and run: "sync_instrument i d = (Inr u, e)" and j: "in_sync j d" "if_key j \<noteq> if_key i" "if_symbol j \<noteq> if_symbol i"
  shows "in_sync j e"
proof (cases "find_instrument i d")
  case None
  then show ?thesis using run j(1) by (auto simp: sync_instrument_run Let_def in_sync_def split: if_splits)
next
  case (Some r)
  obtain q where q: "q \<in> set (instruments d)" "ins_symbol q = if_symbol j" "ins_exchange q = if_exchange j" "ins_isin q = Some (if_isin j)"
    "ins_key q = if_key j" "ins_name q = name_or_none (if_name j)" "ins_tick_size q = if_tick_size j" "ins_lot_size q = if_lot_size j" "ins_active q"
    using j(1) by (auto simp: in_sync_def)
  have "q \<noteq> r" using find_instrument_key [OF Some] q(2,5) j(2,3) by auto
  then have "ins_id q \<noteq> ins_id r" using ok q(1) find_instrument_Some [OF Some] by (auto simp: instruments_ok_def distinct_map inj_on_def)
  then have "q \<in> set (tbl_upd ins_id (ins_id r) (refresh_instrument i) (instruments d))" using q(1) by (auto simp: tbl_upd_member)
  then show ?thesis using run Some q by (auto simp: sync_instrument_run in_sync_def split: if_splits)
qed

lemma sync_instrument_syncs:
  assumes run: "sync_instrument i d = (Inr u, e)" and one: "one_exchange (if_exchange i) d"
  shows "in_sync i e \<and> one_exchange (if_exchange i) e"
proof (cases "find_instrument i d")
  case None
  then show ?thesis using run one by (auto simp: sync_instrument_run Let_def in_sync_def one_exchange_def new_instrument_def split: if_splits)
next
  case (Some r)
  have r: "r \<in> set (instruments d)" by (rule find_instrument_Some [OF Some])
  then have "refresh_instrument i r \<in> set (tbl_upd ins_id (ins_id r) (refresh_instrument i) (instruments d))" by (auto simp: tbl_upd_member)
  moreover have "ins_exchange r = if_exchange i" using one r by (simp add: one_exchange_def)
  ultimately have "in_sync i (d\<lparr>instruments := tbl_upd ins_id (ins_id r) (refresh_instrument i) (instruments d)\<rparr>)"
    unfolding in_sync_def by (intro bexI [of _ "refresh_instrument i r"]) (simp_all add: refresh_instrument_def)
  moreover have "ins_exchange q = if_exchange i" if "q \<in> set (tbl_upd ins_id (ins_id r) (refresh_instrument i) (instruments d))" for q
    using that one by (auto simp: tbl_upd_member one_exchange_def)
  ultimately show ?thesis using run Some by (auto simp: sync_instrument_run one_exchange_def split: if_splits)
qed

lemma sync_loop:
  assumes "instruments_ok d" "one_exchange x d" "\<forall>i \<in> set infos. if_exchange i = x"
    "distinct (map if_key infos)" "distinct (map if_symbol infos)" "forA infos sync_instrument d = (Inr us, e)"
  shows "(\<forall>i \<in> set infos. in_sync i e) \<and> length us = length infos \<and> instruments_ok e \<and>
    (\<forall>j. in_sync j d \<and> if_key j \<notin> if_key ` set infos \<and> if_symbol j \<notin> if_symbol ` set infos \<longrightarrow> in_sync j e) \<and>
    ins_id ` set (instruments d) \<subseteq> ins_id ` set (instruments e)"
  using assms
proof (induction infos arbitrary: d us)
  case (Cons i infos)
  obtain d1 u1 us1 where one: "sync_instrument i d = (Inr u1, d1)" and rest: "forA infos sync_instrument d1 = (Inr us1, e)" and us: "us = u1 # us1"
    using Cons(7) by (auto simp: ret_def elim!: bindA_InrE)
  have ok: "instruments_ok d1" and ids: "ins_id ` set (instruments d) \<subseteq> ins_id ` set (instruments d1)"
    using sync_instrument_ok [OF Cons(2), of i] one by auto
  have s: "in_sync i d1" "one_exchange x d1" using sync_instrument_syncs [OF one] Cons(3,4) by auto
  have ih: "(\<forall>i \<in> set infos. in_sync i e) \<and> length us1 = length infos \<and> instruments_ok e \<and>
    (\<forall>j. in_sync j d1 \<and> if_key j \<notin> if_key ` set infos \<and> if_symbol j \<notin> if_symbol ` set infos \<longrightarrow> in_sync j e) \<and>
    ins_id ` set (instruments d1) \<subseteq> ins_id ` set (instruments e)"
    by (rule Cons(1) [OF ok s(2) _ _ _ rest]) (use Cons(4-6) in auto)
  have all: "ins_id ` set (instruments d) \<subseteq> ins_id ` set (instruments e)" using ids ih by (meson order_trans)
  show ?case using ih s(1) us Cons(5,6) sync_instrument_keeps [OF Cons(2) one] by (intro conjI all) auto
qed (simp add: ret_def)

lemma sync_loop_keeps: "keeps (\<lambda>d. instruments_ok d \<and> ids \<subseteq> ins_id ` set (instruments d)) (forA infos sync_instrument)"
proof (rule keeps_forA, rule keepsI)
  fix i d assume "instruments_ok d \<and> ids \<subseteq> ins_id ` set (instruments d)"
  then show "instruments_ok (snd (sync_instrument i d)) \<and> ids \<subseteq> ins_id ` set (instruments (snd (sync_instrument i d)))"
    using sync_instrument_ok [of d i] by blast
qed

lemma sync_instruments_spec:
  assumes ok: "instruments_ok d" "one_exchange x d" and infos: "\<forall>i \<in> set infos. if_exchange i = x"
    "distinct (map if_key infos)" "distinct (map if_symbol infos)" and run: "sync_instruments infos d = (r, e)"
  shows "instruments_ok e \<and> ins_id ` set (instruments d) \<subseteq> ins_id ` set (instruments e) \<and>
    (case r of Inl x \<Rightarrow> True | Inr n \<Rightarrow> n = int (length infos) \<and> (\<forall>i \<in> set infos. in_sync i e))"
proof -
  obtain q where loop: "forA infos sync_instrument d = (q, e)" and q: "r = map_sum id (\<lambda>us. int (length us)) q"
    using run by (cases "fst (forA infos sync_instrument d)") (auto simp: sync_instruments_def run_simps split: prod.splits sum.splits)
  have "instruments_ok e \<and> ins_id ` set (instruments d) \<subseteq> ins_id ` set (instruments e)"
    using keepsE [OF sync_loop_keeps [of "ins_id ` set (instruments d)" infos] _ loop] ok(1) by simp
  moreover have "n = int (length infos) \<and> (\<forall>i \<in> set infos. in_sync i e)" if "r = Inr n" for n
    using sync_loop [OF ok infos] loop q that by (cases q) auto
  ultimately show ?thesis by (cases r) auto
qed


lemma sync_loop_error: "forA infos sync_instrument d = (Inl x, e) \<Longrightarrow> x = IntegrityError"
proof (induction infos arbitrary: d)
  case (Cons i infos)
  obtain r d1 where r: "sync_instrument i d = (r, d1)" by fastforce
  then have "r = Inl y \<Longrightarrow> y = IntegrityError" for y by (auto simp: sync_instrument_run Let_def split: option.splits if_splits)
  then show ?case using Cons r by (auto simp: bindA_def ret_def split: prod.splits sum.splits)
qed (simp add: ret_def)

lemma sync_instruments_error: "sync_instruments infos d = (Inl x, e) \<Longrightarrow> x = IntegrityError"
  by (auto simp: sync_instruments_def bindA_def ret_def split: prod.splits sum.splits dest: sync_loop_error)

end
