(* ===== verification/PT_Types.thy ===== *)
theory PT_Types
  imports PT_Store
begin

text \<open>
  The column types of \<open>data/store/types.py\<close>: \<open>MoneyText\<close> stores a Decimal as its plain text
  (\<open>format(value, "f")\<close>), \<open>UTCDateTime\<close> a time stamp as a naive UTC one. A Decimal is its sign,
  coefficient and exponent, as \<open>decimal\<close> keeps it; NaN and infinities, white space, underscores
  and non-ASCII digits in the text of a Decimal are not modelled. What is proved: what is stored
  is read back with the same value, and what must not be stored is refused.
\<close>

section \<open>Decimals and their text\<close>

record decimal =
  dn_negative :: bool
  dn_coeff :: nat
  dn_exp :: int

definition dec_value :: "decimal \<Rightarrow> rat" where
  "dec_value d = (if dn_negative d then -1 else 1) * of_nat (dn_coeff d) * 10 powi dn_exp d"

definition digit_char :: "nat \<Rightarrow> char" where
  "digit_char k = ''0123456789'' ! k"

fun digits_of :: "nat \<Rightarrow> string" where
  "digits_of n = (if n < 10 then [digit_char n] else digits_of (n div 10) @ [digit_char (n mod 10)])"

declare digits_of.simps [simp del]

definition is_digit :: "char \<Rightarrow> bool" where
  "is_digit c \<longleftrightarrow> c \<in> set ''0123456789''"

definition digit_value :: "char \<Rightarrow> nat" where
  "digit_value c = length (takeWhile (\<lambda>x. x \<noteq> c) ''0123456789'')"

definition nat_of_digits :: "string \<Rightarrow> nat" where
  "nat_of_digits s = fold (\<lambda>c n. n * 10 + digit_value c) s 0"

text \<open>\<open>format(value, "f")\<close>: no exponent; a zero with a positive exponent is rescaled to \<open>0\<close>.\<close>

definition format_plain :: "decimal \<Rightarrow> string" where
  "format_plain d = (let
       int_digits = digits_of (dn_coeff d); e = (if dn_coeff d = 0 \<and> 0 < dn_exp d then 0 else dn_exp d);
       sign = (if dn_negative d then ''-'' else '''') in
     if 0 \<le> e then sign @ int_digits @ replicate (nat e) (CHR ''0'')
     else let places = nat (- e); padded = replicate (Suc places - length int_digits) (CHR ''0'') @ int_digits;
         k = length padded - places in
       sign @ take k padded @ ''.'' @ drop k padded)"

definition parse_exponent :: "string \<Rightarrow> int option" where
  "parse_exponent s = (case s of [] \<Rightarrow> Some 0 | c # r \<Rightarrow>
     if c \<noteq> CHR ''e'' \<and> c \<noteq> CHR ''E'' then None
     else let neg = (r \<noteq> [] \<and> hd r = CHR ''-''); ds = (if r \<noteq> [] \<and> (hd r = CHR ''-'' \<or> hd r = CHR ''+'') then tl r else r) in
       if ds = [] \<or> \<not> list_all is_digit ds then None
       else Some (if neg then - int (nat_of_digits ds) else int (nat_of_digits ds)))"

definition parse_decimal :: "string \<Rightarrow> py_error + decimal" where
  "parse_decimal s = (let
       neg = (s \<noteq> [] \<and> hd s = CHR ''-''); u = (if s \<noteq> [] \<and> (hd s = CHR ''-'' \<or> hd s = CHR ''+'') then tl s else s);
       ip = takeWhile is_digit u; rest = dropWhile is_digit u; point = (rest \<noteq> [] \<and> hd rest = CHR ''.'');
       fp = (if point then takeWhile is_digit (tl rest) else []); tail = (if point then dropWhile is_digit (tl rest) else rest) in
     if ip @ fp = [] then Inl DecimalInvalidOperation
     else case parse_exponent tail of
         None \<Rightarrow> Inl DecimalInvalidOperation
       | Some e \<Rightarrow> Inr \<lparr>dn_negative = neg, dn_coeff = nat_of_digits (ip @ fp), dn_exp = e - int (length fp)\<rparr>)"

section \<open>Money columns\<close>

datatype money_param = MoneyNone | MoneyFloat rat | MoneyInt int | MoneyStr string | MoneyDecimal decimal | MoneyOther

definition decimal_of_int :: "int \<Rightarrow> decimal" where
  "decimal_of_int i = \<lparr>dn_negative = i < 0, dn_coeff = nat \<bar>i\<bar>, dn_exp = 0\<rparr>"

definition money_bind :: "money_param \<Rightarrow> py_error + string option" where
  "money_bind v = (case v of
     MoneyNone \<Rightarrow> Inr None
   | MoneyFloat _ \<Rightarrow> Inl PyTypeError
   | MoneyInt i \<Rightarrow> Inr (Some (format_plain (decimal_of_int i)))
   | MoneyStr s \<Rightarrow> bindE (parse_decimal s) (\<lambda>d. Inr (Some (format_plain d)))
   | MoneyDecimal d \<Rightarrow> Inr (Some (format_plain d))
   | MoneyOther \<Rightarrow> Inl PyTypeError)"

definition money_result :: "string option \<Rightarrow> py_error + decimal option" where
  "money_result v = (case v of None \<Rightarrow> Inr None | Some s \<Rightarrow> bindE (parse_decimal s) (\<lambda>d. Inr (Some d)))"

section \<open>Time stamp columns\<close>

text \<open>A \<open>datetime\<close> is its wall clock with, when aware, the offset of its zone.\<close>

datatype time_param = TimeNone | TimeNaive int | TimeAware int int | TimeOther

definition time_bind :: "time_param \<Rightarrow> py_error + int option" where
  "time_bind v = (case v of
     TimeNone \<Rightarrow> Inr None
   | TimeOther \<Rightarrow> Inl PyTypeError
   | TimeNaive _ \<Rightarrow> Inl PyValueError
   | TimeAware wall offset \<Rightarrow> Inr (Some (wall - offset)))"

definition time_result :: "int option \<Rightarrow> time_param" where
  "time_result v = (case v of None \<Rightarrow> TimeNone | Some wall \<Rightarrow> TimeAware wall 0)"

section \<open>Printing and reading digits\<close>

lemma digit_char_value: "k < 10 \<Longrightarrow> digit_value (digit_char k) = k \<and> is_digit (digit_char k)"
proof -
  have "\<forall>k \<in> set [0..<10]. digit_value (digit_char k) = k \<and> is_digit (digit_char k)" by code_simp
  then show "k < 10 \<Longrightarrow> digit_value (digit_char k) = k \<and> is_digit (digit_char k)" by simp
qed

lemma nat_of_digits_append: "nat_of_digits (xs @ ys) = nat_of_digits xs * 10 ^ length ys + nat_of_digits ys"
proof -
  have "fold (\<lambda>c n. n * 10 + digit_value c) s k = k * 10 ^ length s + fold (\<lambda>c n. n * 10 + digit_value c) s 0" for s k
  proof (induction s arbitrary: k)
    case (Cons c s)
    show ?case using Cons [of "k * 10 + digit_value c"] Cons [of "digit_value c"] by (simp add: algebra_simps)
  qed simp
  from this [of ys "fold (\<lambda>c n. n * 10 + digit_value c) xs 0"] show ?thesis by (simp add: nat_of_digits_def)
qed

lemma digits_of_spec: "nat_of_digits (digits_of n) = n \<and> list_all is_digit (digits_of n) \<and> digits_of n \<noteq> []"
proof (induction n rule: digits_of.induct)
  case (1 n)
  show ?case
  proof (cases "n < 10")
    case True
    then show ?thesis using digit_char_value [of n] by (simp add: digits_of.simps [of n] nat_of_digits_def)
  next
    case False
    then show ?thesis using 1 digit_char_value [of "n mod 10"]
      by (simp add: digits_of.simps [of n] nat_of_digits_append) (simp add: nat_of_digits_def)
  qed
qed

lemma zeros_spec: "nat_of_digits (replicate k (CHR ''0'')) = 0" "list_all is_digit (replicate k (CHR ''0''))"
proof -
  have "digit_value (CHR ''0'') = 0" by code_simp
  then show "nat_of_digits (replicate k (CHR ''0'')) = 0" by (induction k) (simp_all add: nat_of_digits_def)
  show "list_all is_digit (replicate k (CHR ''0''))" by (simp add: list_all_iff is_digit_def)
qed

section \<open>The text is read back\<close>

lemma special_chars [simp]: "\<not> is_digit (CHR ''-'')" "\<not> is_digit (CHR ''+'')" "\<not> is_digit (CHR ''.'')"
  by (simp_all add: is_digit_def)

lemma takeWhile_digits: "list_all is_digit xs \<Longrightarrow> ys = [] \<or> \<not> is_digit (hd ys) \<Longrightarrow>
    takeWhile is_digit (xs @ ys) = xs \<and> dropWhile is_digit (xs @ ys) = ys"
  by (induction xs; cases ys) auto

lemma parse_unsigned:
  assumes "list_all is_digit ip" "list_all is_digit fp" "ip \<noteq> []" and tail: "tail = (if fp = [] then [] else CHR ''.'' # fp)"
  shows "parse_decimal ((if neg then ''-'' else '''') @ ip @ tail) =
    Inr \<lparr>dn_negative = neg, dn_coeff = nat_of_digits (ip @ fp), dn_exp = - int (length fp)\<rparr>"
proof -
  let ?s = "(if neg then ''-'' else '''') @ ip @ tail"
  have hd: "is_digit (hd ip)" using assms(1,3) by (cases ip) auto
  then have "hd ip \<noteq> CHR ''-''" "hd ip \<noteq> CHR ''+''" by (auto simp: is_digit_def)
  then have u: "(if ?s \<noteq> [] \<and> (hd ?s = CHR ''-'' \<or> hd ?s = CHR ''+'') then tl ?s else ?s) = ip @ tail"
    and n: "(?s \<noteq> [] \<and> hd ?s = CHR ''-'') = neg" using assms(3) by auto
  have w: "takeWhile is_digit (ip @ tail) = ip" "dropWhile is_digit (ip @ tail) = tail"
    using takeWhile_digits [OF assms(1), of tail] tail by auto
  have f: "takeWhile is_digit fp = fp" "dropWhile is_digit fp = []" using takeWhile_digits [OF assms(2), of "[]"] by simp_all
  show ?thesis unfolding parse_decimal_def u n w Let_def
    by (cases "fp = []") (simp_all add: tail f parse_exponent_def assms(3))
qed

lemma format_parse:
  "\<exists>e. parse_decimal (format_plain d) = Inr e \<and> dec_value e = dec_value d \<and> dn_negative e = dn_negative d"
proof -
  let ?ds = "digits_of (dn_coeff d)" and ?e = "if dn_coeff d = 0 \<and> 0 < dn_exp d then 0 else dn_exp d"
  note ds = digits_of_spec [of "dn_coeff d"]
  show ?thesis
  proof (cases "0 \<le> ?e")
    case True
    let ?ip = "?ds @ replicate (nat ?e) (CHR ''0'')"
    have fmt: "format_plain d = (if dn_negative d then ''-'' else '''') @ ?ip @ []"
      using True by (simp add: format_plain_def Let_def)
    have coeff: "nat_of_digits (?ip @ []) = dn_coeff d * 10 ^ nat ?e" using ds zeros_spec(1) by (simp add: nat_of_digits_append)
    have "parse_decimal (format_plain d) = Inr \<lparr>dn_negative = dn_negative d, dn_coeff = nat_of_digits (?ip @ []), dn_exp = - int (length ([]::string))\<rparr>"
      unfolding fmt by (rule parse_unsigned) (use ds zeros_spec(2) in auto)
    moreover have "rat_of_nat (dn_coeff d * 10 ^ nat ?e) = of_nat (dn_coeff d) * 10 powi dn_exp d"
      using True by (auto simp: power_int_def)
    ultimately show ?thesis unfolding coeff by (simp add: dec_value_def)
  next
    case False
    let ?places = "nat (- dn_exp d)"
    let ?padded = "replicate (Suc ?places - length ?ds) (CHR ''0'') @ ?ds"
    let ?k = "length ?padded - ?places"
    have e: "?e = dn_exp d" "dn_exp d < 0" using False by (auto split: if_splits)
    have len: "Suc ?places \<le> length ?padded" by simp
    have "list_all is_digit ?padded" using ds zeros_spec(2) by simp
    then have digs: "list_all is_digit (take ?k ?padded)" "list_all is_digit (drop ?k ?padded)"
      by (metis append_take_drop_id list_all_append)+
    have parts: "take ?k ?padded \<noteq> []" "length (drop ?k ?padded) = ?places" "drop ?k ?padded \<noteq> []"
    proof -
      have split: "take (length p - n) p \<noteq> [] \<and> length (drop (length p - n) p) = n \<and> (0 < n \<longrightarrow> drop (length p - n) p \<noteq> [])"
        if "Suc n \<le> length p" for p :: string and n
        using that by auto
      show "take ?k ?padded \<noteq> []" "length (drop ?k ?padded) = ?places" "drop ?k ?padded \<noteq> []"
        using split [OF len] e(2) zero_less_nat_eq [of "- dn_exp d"] by (metis neg_0_less_iff_less)+
    qed
    have fmt: "format_plain d = (if dn_negative d then ''-'' else '''') @ take ?k ?padded @ (CHR ''.'' # drop ?k ?padded)"
      using False e by (simp add: format_plain_def Let_def)
    have coeff: "nat_of_digits (take ?k ?padded @ drop ?k ?padded) = dn_coeff d"
      unfolding append_take_drop_id using ds zeros_spec(1) by (simp add: nat_of_digits_append)
    have "parse_decimal (format_plain d) = Inr \<lparr>dn_negative = dn_negative d, dn_coeff = nat_of_digits (take ?k ?padded @ drop ?k ?padded),
        dn_exp = - int (length (drop ?k ?padded))\<rparr>"
      unfolding fmt by (rule parse_unsigned [OF digs parts(1)]) (use parts(3) in simp)
    then show ?thesis unfolding coeff parts(2) using e(2) by (simp add: dec_value_def)
  qed
qed

lemma decimal_of_int_value: "dec_value (decimal_of_int i) = of_int i"
  by (simp add: dec_value_def decimal_of_int_def)

end
