(* ===== verification/PT_Demo_Data.thy ===== *)
theory PT_Demo_Data
  imports PT_History PT_Types
begin

text \<open>Concrete candles, actions, instruments and columns for the witnesses of the root theory.\<close>

definition sample_candle :: "int \<Rightarrow> int \<Rightarrow> candle" where
  "sample_candle day price = \<lparr>cd_ts = (738000 + day) * us_per_day, cd_open = of_int price, cd_high = of_int price + 1, cd_low = of_int price - 1,
     cd_close = of_int price, cd_volume = 100, cd_oi = 0\<rparr>"

definition sample_frame :: "candle list" where
  "sample_frame = [sample_candle 0 50, sample_candle 1 52]"

lemma sample_ascending: "ascending sample_frame"
  by (simp add: ascending_def sample_frame_def sample_candle_def us_per_day_def)

lemma empty_store_wf: "store_wf []"
  by (simp add: store_wf_def dataset_of_def empty_dataset_ok)

definition sample_info :: "string \<Rightarrow> string \<Rightarrow> instrument_info" where
  "sample_info key name = \<lparr>if_symbol = name, if_exchange = ''NSE'', if_isin = ''INE'', if_key = key, if_name = name, if_tick_size = 1/20, if_lot_size = 1\<rparr>"

definition sample_row :: instrument_row where
  "sample_row = \<lparr>ins_id = 1, ins_symbol = ''ABC'', ins_exchange = ''NSE'', ins_isin = None, ins_key = ''K1'', ins_name = None, ins_tick_size = 1/20,
     ins_lot_size = 1, ins_active = False\<rparr>"

definition sample_store :: store where
  "sample_store = empty_store\<lparr>instruments := [sample_row]\<rparr>"

lemma sample_store_ok: "instruments_ok sample_store" "one_exchange ''NSE'' sample_store"
  by (simp_all add: instruments_ok_def one_exchange_def sample_store_def sample_row_def empty_store_def)

text \<open>The key of the stored instrument has changed; a second one is new.\<close>

definition sample_infos :: "instrument_info list" where
  "sample_infos = [sample_info ''K9'' ''ABC'', sample_info ''K2'' ''XYZ'']"

lemma sample_sync: "fst (sync_instruments sample_infos sample_store) = Inr 2"
  by (simp add: sync_instruments_def sample_infos_def run_simps sync_instrument_run find_instrument_def get_by_instrument_key_def
      get_by_symbol_def sample_info_def sample_store_def sample_row_def empty_store_def instrument_unique_def refresh_instrument_def
      new_instrument_def name_or_none_def tbl_upd_def Let_def next_id_def)

definition sample_price :: decimal where
  "sample_price = \<lparr>dn_negative = False, dn_coeff = 12345, dn_exp = -2\<rparr>"

end
