(* ===== verification/PT_Demo_Run.thy ===== *)
theory PT_Demo_Run
  imports PT_Backtest_Run PT_Demo_Data PT_Demo
begin

text \<open>Concrete equity points and a sweep over the sample candles, for the witnesses of the root theory.\<close>

definition sample_point :: "rat \<Rightarrow> equity_point" where
  "sample_point e = \<lparr>eq_index = 0, eq_ts = 0, eq_cash = e, eq_qty = 0, eq_value = 0, eq_equity = e\<rparr>"

lemma fl_rnd_half: "fl_rnd (1/2) = 1/2" and fl_rnd_quarter: "fl_rnd (1/4) = 1/4"
proof -
  have "representable 2 53 (1/2)" unfolding representable_def by (rule exI [of _ 1], rule exI [of _ "-1"]) (simp add: power_int_def)
  moreover have "representable 2 53 (1/4)" unfolding representable_def
    by (rule exI [of _ 1], rule exI [of _ "-2"]) (simp add: power_int_def power2_eq_square)
  ultimately show "fl_rnd (1/2) = 1/2" "fl_rnd (1/4) = 1/4" unfolding fl_rnd_def by (simp_all add: round_sig_exact)
qed

definition sample_candles :: candle_store where
  "sample_candles = snd (store_write 0 (''NSE'', ''ABC'', D1) sample_frame ''upstox'' None [])"

lemma sample_candles_wf: "store_wf sample_candles"
  unfolding sample_candles_def by (rule store_write_wf [OF empty_store_wf])

lemma sample_candles_read: "store_read (''NSE'', ''ABC'', D1) from_ts to_ts sample_candles = filter (in_range from_ts to_ts) sample_frame"
proof -
  have e: "store_read (''NSE'', ''ABC'', D1) None None [] = []" by (simp add: store_read_def dataset_of_def empty_dataset_def Let_def)
  show ?thesis unfolding sample_candles_def using store_write_read [OF empty_store_wf, of "(''NSE'', ''ABC'', D1)"] normalize_id [OF sample_ascending]
    by (simp add: e)
qed

definition sample_env :: run_env where
  "sample_env = \<lparr>re_lib = exact_lib, re_stat = \<lparr>sl_pow = (\<lambda>_ _. 1), sl_row_sum = sum_list, sl_fingerprint = (\<lambda>_ _ _ _ _. [])\<rparr>,
     re_store = sample_store, re_candles = sample_candles, re_capital = 100000, re_risk_pct = 10, re_rates = cost_config_default,
     re_cfg = backtest_config_default, re_exchange = ''NSE''\<rparr>"

text \<open>A strategy class whose validation refuses everything.\<close>

definition picky_class :: "(unit, unit) sweep_class" where
  "picky_class = \<lparr>sc_name = ''picky'', sc_validate = (\<lambda>_. Inl PyValueError), sc_construct = (\<lambda>_. demo_broken), sc_dump = (\<lambda>_. JNull)\<rparr>"

definition sample_grid :: "(string \<times> json list) list" where
  "sample_grid = [(''fast'', [JNum 5, JNum 10]), (''slow'', [JNum 20])]"

lemma sample_split: "split_date 737999 738003 (1/2) = 738001"
proof -
  have h: "fl_sub 1 (1/2) = 1/2" "fl_mul 4 (1/2) = 2" using fl_rnd_half fl.rnd_int [of 2] by (simp_all add: fl_sub_def fl_mul_def)
  have "rhe 2 = 2" using rhe_of_int [of 2] by simp
  then show ?thesis by (simp add: split_date_def h)
qed

lemma sample_sweep:
  "\<exists>results. run_parameter_sweep sample_env picky_class sample_grid [''ABC''] D1 737999 738003 (1/2) \<lparr>bd_runs = [], bd_trades = []\<rparr> =
     (Inr results, \<lparr>bd_runs = [], bd_trades = []\<rparr>)"
  by (simp add: run_parameter_sweep_def sample_split sample_grid_def sweep_combo_def picky_class_def sweep_catches_def run_simps Let_def)

end
