(* ===== verification/PT_Journal.thy ===== *)
theory PT_Journal
  imports "HOL-Library.Multiset" PT_Paper_Safety PT_Candle_Store PT_Metrics
begin

text \<open>
  The trade journal of \<open>analytics/journal.py\<close>: recorded trades are replayed per instrument
  and grouped into round trips. A leg is a trade with its order, as the SQL join delivers it.
  What is proved: the episodes partition the trades, every closed one is a balanced round trip,
  and once the position is flat nothing is left open.
\<close>

section \<open>The journal\<close>

text \<open>The keys of a dict filled in a loop: in the order of their first occurrence.\<close>

definition first_seen :: "'k list \<Rightarrow> 'k list" where
  "first_seen ks = rev (remdups (rev ks))"

lemma set_first_seen [simp]: "set (first_seen ks) = set ks"
  by (simp add: first_seen_def)

lemma distinct_first_seen [simp]: "distinct (first_seen ks)"
  by (simp add: first_seen_def)

type_synonym leg = "trade_row \<times> order_row"

definition legs_of :: "store \<Rightarrow> trade_row list \<Rightarrow> leg list" where
  "legs_of d ts = concat (map (\<lambda>t. case get_order (t_order t) d of None \<Rightarrow> [] | Some r \<Rightarrow> [(t, r)]) ts)"

record journal_entry =
  je_instrument :: nat
  je_symbol :: string
  je_side :: order_side
  je_qty :: int
  je_entry_price :: rat
  je_entry_at :: instant
  je_entry_context :: json
  je_exit_price :: rat
  je_exit_at :: instant
  je_exit_context :: json
  je_realized_pnl :: rat
  je_total_costs :: rat

definition trade_costs_of :: "trade_row \<Rightarrow> rat" where
  "trade_costs_of t = dec_add (dec_add (dec_add (dec_add (dec_add (t_brokerage t) (t_stt t)) (t_stamp_duty t)) (t_gst t))
     (t_exchange_charges t)) (t_sebi_charges t)"

definition signal_context :: "store \<Rightarrow> leg \<Rightarrow> json" where
  "signal_context d l = (case o_signal (snd l) of None \<Rightarrow> JObj [] | Some i \<Rightarrow>
     (case find (\<lambda>g. sg_id g = i) (signals d) of None \<Rightarrow> JObj [] | Some g \<Rightarrow> sg_context g))"

definition pnl_values :: "leg list \<Rightarrow> rat list" where
  "pnl_values ls = concat (map (\<lambda>l. case t_realized_pnl (fst l) of None \<Rightarrow> [] | Some p \<Rightarrow> [p]) ls)"

definition build_entry :: "store \<Rightarrow> instrument_row \<Rightarrow> leg list \<times> leg list \<Rightarrow> py_error + journal_entry" where
  "build_entry d inst ep = (let entries = fst ep; exits = snd ep;
       entry_qty = sum_list (map (t_qty \<circ> fst) entries); exit_qty = sum_list (map (t_qty \<circ> fst) exits);
       entry_value = dec_sum (map (\<lambda>l. dec_mul (t_price (fst l)) (of_int (t_qty (fst l)))) entries);
       exit_value = dec_sum (map (\<lambda>l. dec_mul (t_price (fst l)) (of_int (t_qty (fst l)))) exits) in
     if entries = [] \<or> exits = [] then Inl PyIndexError else
     bindE (dec_div entry_value (of_int entry_qty)) (\<lambda>entry_price. bindE (dec_div exit_value (of_int exit_qty)) (\<lambda>exit_price.
       Inr \<lparr>je_instrument = ins_id inst, je_symbol = ins_symbol inst, je_side = o_side (snd (hd entries)), je_qty = entry_qty,
         je_entry_price = entry_price, je_entry_at = t_executed_at (fst (hd entries)), je_entry_context = signal_context d (hd entries),
         je_exit_price = exit_price, je_exit_at = t_executed_at (fst (last exits)), je_exit_context = signal_context d (last exits),
         je_realized_pnl = dec_sum (pnl_values exits), je_total_costs = dec_sum (map (trade_costs_of \<circ> fst) (entries @ exits))\<rparr>)))"

text \<open>The loop over the ordered trades: running quantity, legs of the open episode, closed episodes.\<close>

record episode_state =
  es_qty :: int
  es_entries :: "leg list"
  es_exits :: "leg list"
  es_closed :: "(leg list \<times> leg list) list"

definition leg_signed :: "leg \<Rightarrow> int" where
  "leg_signed l = (if o_side (snd l) = BUY then t_qty (fst l) else - t_qty (fst l))"

definition episode_step :: "leg \<Rightarrow> episode_state \<Rightarrow> episode_state" where
  "episode_step l s = (
     if es_entries s = [] then s\<lparr>es_entries := [l], es_qty := leg_signed l\<rparr>
     else if (0 < es_qty s) = (o_side (snd l) = BUY) then s\<lparr>es_entries := es_entries s @ [l], es_qty := es_qty s + leg_signed l\<rparr>
     else if es_qty s + leg_signed l = 0 then s\<lparr>es_qty := 0, es_entries := [], es_exits := [], es_closed := es_closed s @ [(es_entries s, es_exits s @ [l])]\<rparr>
     else s\<lparr>es_exits := es_exits s @ [l], es_qty := es_qty s + leg_signed l\<rparr>)"

definition episodes :: "leg list \<Rightarrow> episode_state" where
  "episodes ls = fold episode_step ls \<lparr>es_qty = 0, es_entries = [], es_exits = [], es_closed = []\<rparr>"

definition episodes_for_instrument :: "store \<Rightarrow> instrument_row \<Rightarrow> leg list \<Rightarrow> py_error + journal_entry list" where
  "episodes_for_instrument d inst ls = forE (es_closed (episodes (sort_key (\<lambda>l. t_executed_at (fst l)) ls))) (build_entry d inst)"

definition build_journal :: "store \<Rightarrow> trading_mode \<Rightarrow> instant option \<Rightarrow> py_error + journal_entry list" where
  "build_journal d mode since = (let ls = legs_of d (list_for_mode mode d); insts = first_seen (map (\<lambda>l. o_instrument (snd l)) ls) in
     bindE (forE insts (\<lambda>i. case get_instrument i d of None \<Rightarrow> Inr []
       | Some inst \<Rightarrow> episodes_for_instrument d inst (filter (\<lambda>l. o_instrument (snd l) = i) ls))) (\<lambda>es.
     Inr (sort_key je_exit_at (case since of None \<Rightarrow> concat es | Some t \<Rightarrow> filter (\<lambda>e. t \<le> je_exit_at e) (concat es)))))"

section \<open>Episodes are balanced round trips\<close>

text \<open>The quantity never crosses zero within one trade: a leg against the position is at most the position.\<close>

fun never_crosses :: "int \<Rightarrow> leg list \<Rightarrow> bool" where
  "never_crosses q [] = True"
| "never_crosses q (l # ls) = ((q = 0 \<or> (0 < q) = (0 < leg_signed l) \<or> \<bar>leg_signed l\<bar> \<le> \<bar>q\<bar>) \<and> never_crosses (q + leg_signed l) ls)"

definition total_qty :: "leg list \<Rightarrow> int" where
  "total_qty ls = sum_list (map (t_qty \<circ> fst) ls)"

definition on_side :: "order_side \<Rightarrow> leg list \<Rightarrow> bool" where
  "on_side sd ls \<longleftrightarrow> (\<forall>l \<in> set ls. o_side (snd l) = sd)"

definition opposite :: "order_side \<Rightarrow> order_side" where
  "opposite sd = (if sd = BUY then SELL else BUY)"

definition round_trip :: "leg list \<times> leg list \<Rightarrow> bool" where
  "round_trip ep \<longleftrightarrow> fst ep \<noteq> [] \<and> snd ep \<noteq> [] \<and> total_qty (fst ep) = total_qty (snd ep) \<and>
     on_side (o_side (snd (hd (fst ep)))) (fst ep) \<and> on_side (opposite (o_side (snd (hd (fst ep))))) (snd ep)"

text \<open>The state between two trades: closed episodes are round trips, the open one is one-sided and its
  quantity is what was entered less what was left.\<close>

text \<open>The invariant with the open episode's entry side and quantities named.\<close>

definition open_episode :: "leg list \<Rightarrow> leg list \<Rightarrow> int \<Rightarrow> order_side \<Rightarrow> bool" where
  "open_episode ens exs q sd \<longleftrightarrow> on_side sd ens \<and> on_side (opposite sd) exs \<and> total_qty exs < total_qty ens \<and>
     q = (if sd = BUY then 1 else -1) * (total_qty ens - total_qty exs)"

definition episode_inv :: "leg list \<Rightarrow> episode_state \<Rightarrow> bool" where
  "episode_inv past s \<longleftrightarrow> mset past = sum_list (map (\<lambda>ep. mset (fst ep) + mset (snd ep)) (es_closed s)) + mset (es_entries s) + mset (es_exits s) \<and>
     (\<forall>ep \<in> set (es_closed s). round_trip ep) \<and>
     es_qty s = sum_list (map leg_signed past) \<and>
     (if es_entries s = [] then es_exits s = [] \<and> es_qty s = 0
      else open_episode (es_entries s) (es_exits s) (es_qty s) (o_side (snd (hd (es_entries s)))))"

lemma total_qty_snoc [simp]: "total_qty (ls @ [l]) = total_qty ls + t_qty (fst l)" "total_qty [l] = t_qty (fst l)" "total_qty [] = 0"
  by (simp_all add: total_qty_def)

lemma on_side_snoc [simp]: "on_side sd (ls @ [l]) \<longleftrightarrow> on_side sd ls \<and> o_side (snd l) = sd" "on_side sd [l] \<longleftrightarrow> o_side (snd l) = sd" "on_side sd []"
  by (auto simp: on_side_def)

lemma open_positive: "open_episode ens exs q sd \<Longrightarrow> (0 < q) = (sd = BUY)"
  by (auto simp: open_episode_def)

lemma open_enter: "0 < t_qty (fst l) \<Longrightarrow> open_episode [l] [] (leg_signed l) (o_side (snd l))"
  by (simp add: open_episode_def leg_signed_def)

lemma open_add: "open_episode ens exs q sd \<Longrightarrow> o_side (snd l) = sd \<Longrightarrow> 0 < t_qty (fst l) \<Longrightarrow> open_episode (ens @ [l]) exs (q + leg_signed l) sd"
  by (cases sd) (auto simp: open_episode_def leg_signed_def)

lemma open_reduce:
  assumes "open_episode ens exs q sd" "o_side (snd l) \<noteq> sd" "0 < t_qty (fst l)" "\<bar>leg_signed l\<bar> \<le> \<bar>q\<bar>" "q + leg_signed l \<noteq> 0"
  shows "open_episode ens (exs @ [l]) (q + leg_signed l) sd"
  using assms by (cases sd; cases "o_side (snd l)") (auto simp: open_episode_def leg_signed_def opposite_def)

lemma open_close:
  assumes "open_episode ens exs q sd" "o_side (snd l) \<noteq> sd" "q + leg_signed l = 0"
  shows "total_qty ens = total_qty (exs @ [l]) \<and> on_side (opposite sd) (exs @ [l])"
  using assms by (cases sd; cases "o_side (snd l)") (auto simp: open_episode_def leg_signed_def opposite_def)

lemma inv_open: "episode_inv past s \<Longrightarrow> es_entries s \<noteq> [] \<Longrightarrow>
   open_episode (es_entries s) (es_exits s) (es_qty s) (o_side (snd (hd (es_entries s))))"
  unfolding episode_inv_def by (auto split: if_splits simp del: split_paired_Ex)

lemma inv_qty: "episode_inv past s \<Longrightarrow> es_qty s = sum_list (map leg_signed past)"
  by (simp add: episode_inv_def)

lemma episode_inv_step:
  assumes inv: "episode_inv past s" and pos: "0 < t_qty (fst l)"
    and nc: "es_qty s = 0 \<or> (0 < es_qty s) = (0 < leg_signed l) \<or> \<bar>leg_signed l\<bar> \<le> \<bar>es_qty s\<bar>"
  shows "episode_inv (past @ [l]) (episode_step l s)"
proof (cases "es_entries s = []")
  case True
  then show ?thesis using inv open_enter [OF pos] by (simp add: episode_inv_def episode_step_def)
next
  case False
  define sd where "sd = o_side (snd (hd (es_entries s)))"
  have op: "open_episode (es_entries s) (es_exits s) (es_qty s) sd" using inv_open [OF inv False] by (simp add: sd_def)
  have dir: "((0 < es_qty s) = (o_side (snd l) = BUY)) = (o_side (snd l) = sd)"
    using open_positive [OF op] by (cases sd; cases "o_side (snd l)") simp_all
  show ?thesis
  proof (cases "o_side (snd l) = sd")
    case True
    have st: "episode_step l s = s\<lparr>es_entries := es_entries s @ [l], es_qty := es_qty s + leg_signed l\<rparr>"
      using False dir True by (simp add: episode_step_def)
    show ?thesis using inv False open_add [OF op True pos] unfolding st by (simp add: episode_inv_def sd_def [symmetric])
  next
    case other: False
    show ?thesis
    proof (cases "es_qty s + leg_signed l = 0")
      case True
      have st: "episode_step l s = s\<lparr>es_qty := 0, es_entries := [], es_exits := [],
          es_closed := es_closed s @ [(es_entries s, es_exits s @ [l])]\<rparr>"
        using False dir other True by (simp add: episode_step_def)
      have "round_trip (es_entries s, es_exits s @ [l])"
        using False op open_close [OF op other True] by (simp add: round_trip_def sd_def [symmetric] open_episode_def)
      then show ?thesis using inv False True unfolding st by (simp add: episode_inv_def)
    next
      case left: False
      have st: "episode_step l s = s\<lparr>es_exits := es_exits s @ [l], es_qty := es_qty s + leg_signed l\<rparr>"
        using False dir other left by (simp add: episode_step_def)
      have ne: "es_qty s \<noteq> 0" using op by (cases sd) (auto simp: open_episode_def)
      have "(0 < leg_signed l) = (o_side (snd l) = BUY)" using pos by (simp add: leg_signed_def)
      then have "\<bar>leg_signed l\<bar> \<le> \<bar>es_qty s\<bar>" using nc ne dir other by simp
      then have "open_episode (es_entries s) (es_exits s @ [l]) (es_qty s + leg_signed l) sd"
        by (rule open_reduce [OF op other pos _ left])
      then show ?thesis using inv False unfolding st by (simp add: episode_inv_def sd_def [symmetric])
    qed
  qed
qed

lemma fold_episode_inv:
  assumes "episode_inv past s" "\<forall>l \<in> set ls. 0 < t_qty (fst l)" "never_crosses (es_qty s) ls"
  shows "episode_inv (past @ ls) (fold episode_step ls s)"
  using assms
proof (induction ls arbitrary: past s)
  case (Cons l ls)
  have inv: "episode_inv (past @ [l]) (episode_step l s)" by (rule episode_inv_step [OF Cons(2)]) (use Cons(3,4) in auto)
  then have "es_qty (episode_step l s) = es_qty s + leg_signed l"
    using inv_qty [OF inv] inv_qty [OF Cons(2)] by simp
  then show ?case using Cons(1) [OF inv] Cons(3,4) by simp
qed simp

lemma episodes_inv:
  assumes "\<forall>l \<in> set ls. 0 < t_qty (fst l)" "never_crosses 0 ls"
  shows "episode_inv ls (episodes ls)"
  using fold_episode_inv [of "[]" "\<lparr>es_qty = 0, es_entries = [], es_exits = [], es_closed = []\<rparr>"] assms
  unfolding episodes_def by (simp add: episode_inv_def [of "[]"])

text \<open>When the instrument is flat, every trade is in a closed episode.\<close>

lemma episodes_flat:
  assumes "\<forall>l \<in> set ls. 0 < t_qty (fst l)" "never_crosses 0 ls" "sum_list (map leg_signed ls) = 0"
  shows "es_entries (episodes ls) = [] \<and> es_exits (episodes ls) = []"
proof -
  have inv: "episode_inv ls (episodes ls)" by (rule episodes_inv [OF assms(1,2)])
  have "es_entries (episodes ls) = []"
  proof (rule ccontr)
    assume "es_entries (episodes ls) \<noteq> []"
    from inv_open [OF inv this] show False using inv_qty [OF inv] assms(3) by (auto simp: open_episode_def split: if_splits)
  qed
  then show ?thesis using inv by (simp add: episode_inv_def)
qed

text \<open>Every closed episode gives an entry: no division by zero, and the quantity entered is the quantity left.\<close>

definition positive_legs :: "leg list \<Rightarrow> bool" where
  "positive_legs ls \<longleftrightarrow> (\<forall>l \<in> set ls. 0 < t_qty (fst l))"

lemma positive_total: "positive_legs ls \<Longrightarrow> ls \<noteq> [] \<Longrightarrow> 0 < total_qty ls"
proof (induction ls)
  case (Cons l ls)
  then show ?case by (cases ls) (simp_all add: positive_legs_def total_qty_def)
qed simp

lemma build_entry_ok:
  assumes "round_trip ep" "positive_legs (fst ep)" "positive_legs (snd ep)"
  shows "\<exists>e. build_entry d inst ep = Inr e \<and> je_qty e = total_qty (snd ep) \<and> je_side e = o_side (snd (hd (fst ep))) \<and>
     je_realized_pnl e = dec_sum (pnl_values (snd ep))"
proof -
  have ne: "fst ep \<noteq> []" "snd ep \<noteq> []" "total_qty (fst ep) = total_qty (snd ep)" using assms(1) by (simp_all add: round_trip_def)
  have "0 < total_qty (fst ep)" "0 < total_qty (snd ep)" using positive_total assms(2,3) ne by blast+
  then show ?thesis using ne by (simp add: build_entry_def Let_def dec_div_def total_qty_def)
qed

lemma closed_positive:
  assumes "episode_inv ls s" "positive_legs ls" "ep \<in> set (es_closed s)"
  shows "positive_legs (fst ep) \<and> positive_legs (snd ep)"
proof -
  have "mset (fst ep) + mset (snd ep) \<subseteq># sum_list (map (\<lambda>ep. mset (fst ep) + mset (snd ep)) (es_closed s))"
    using assms(3) by (simp add: sum_list_map_remove1)
  also have "\<dots> \<subseteq># mset ls" using assms(1) unfolding episode_inv_def by simp
  finally have "set (fst ep) \<union> set (snd ep) \<subseteq> set ls" by (metis set_mset_mono set_mset_mset set_mset_union)
  then show ?thesis using assms(2) by (auto simp: positive_legs_def)
qed

definition entry_of :: "leg list \<times> leg list \<Rightarrow> journal_entry \<Rightarrow> bool" where
  "entry_of ep e \<longleftrightarrow> je_qty e = total_qty (snd ep) \<and> je_side e = o_side (snd (hd (fst ep))) \<and>
     je_realized_pnl e = dec_sum (pnl_values (snd ep))"

lemma entries_of_episodes:
  assumes "positive_legs ls" "never_crosses 0 (sort_key (\<lambda>l. t_executed_at (fst l)) ls)"
  shows "\<exists>es. episodes_for_instrument d inst ls = Inr es \<and>
     list_all2 entry_of (es_closed (episodes (sort_key (\<lambda>l. t_executed_at (fst l)) ls))) es"
proof -
  let ?ls = "sort_key (\<lambda>l. t_executed_at (fst l)) ls"
  have pos: "positive_legs ?ls" using assms(1) by (simp add: positive_legs_def)
  have inv: "episode_inv ?ls (episodes ?ls)" using episodes_inv assms(2) pos unfolding positive_legs_def by blast
  have "\<exists>e. build_entry d inst ep = Inr e \<and> entry_of ep e" if "ep \<in> set (es_closed (episodes ?ls))" for ep
    using build_entry_ok [of ep d inst] closed_positive [OF inv pos that] inv that
    unfolding entry_of_def episode_inv_def by auto
  then show ?thesis unfolding episodes_for_instrument_def by (rule forE_ok)
qed

text \<open>A sum does not depend on the order.\<close>

lemma sum_list_sort_key: "sum_list (map f (sort_key g xs)) = (sum_list (map f xs) :: 'n :: comm_monoid_add)"
proof -
  have "sum_mset (image_mset f (mset (sort_key g xs))) = sum_mset (image_mset f (mset xs))" by simp
  then show ?thesis unfolding mset_map [symmetric] sum_mset_sum_list .
qed

lemma episodes_summary:
  assumes "positive_legs ls" "never_crosses 0 (sort_key (\<lambda>l. t_executed_at (fst l)) ls)"
  shows "\<exists>es. episodes_for_instrument d inst ls = Inr es \<and>
     list_all2 entry_of (es_closed (episodes (sort_key (\<lambda>l. t_executed_at (fst l)) ls))) es \<and>
     list_all round_trip (es_closed (episodes (sort_key (\<lambda>l. t_executed_at (fst l)) ls))) \<and>
     mset ls = sum_list (map (\<lambda>ep. mset (fst ep) + mset (snd ep)) (es_closed (episodes (sort_key (\<lambda>l. t_executed_at (fst l)) ls)))) +
       mset (es_entries (episodes (sort_key (\<lambda>l. t_executed_at (fst l)) ls))) +
       mset (es_exits (episodes (sort_key (\<lambda>l. t_executed_at (fst l)) ls))) \<and>
     (sum_list (map leg_signed ls) \<noteq> 0 \<or>
       es_entries (episodes (sort_key (\<lambda>l. t_executed_at (fst l)) ls)) = [] \<and>
       es_exits (episodes (sort_key (\<lambda>l. t_executed_at (fst l)) ls)) = [])"
proof -
  let ?ls = "sort_key (\<lambda>l. t_executed_at (fst l)) ls"
  have pos: "\<forall>l \<in> set ?ls. 0 < t_qty (fst l)" using assms(1) by (simp add: positive_legs_def)
  have inv: "episode_inv ?ls (episodes ?ls)" by (rule episodes_inv [OF pos assms(2)])
  have "sum_list (map leg_signed ?ls) = sum_list (map leg_signed ls)"
    by (rule sum_list_sort_key)
  then have "sum_list (map leg_signed ls) = 0 \<longrightarrow> es_entries (episodes ?ls) = [] \<and> es_exits (episodes ?ls) = []"
    using episodes_flat [OF pos assms(2)] by simp
  then show ?thesis using entries_of_episodes [OF assms, of d inst] inv unfolding episode_inv_def list_all_iff by auto
qed

end
