(* ===== verification/PT_Analytics.thy ===== *)
theory PT_Analytics
  imports PT_Journal
begin

text \<open>
  Analytics of recorded trades: profit and loss (\<open>analytics/pnl.py\<close>), reports with their breakdowns
  (\<open>analytics/reports.py\<close>) and the review of a paper-trading soak (\<open>analytics/soak.py\<close>). What is proved:
  the equity curve of a paper account ends at its cash, a breakdown covers every realised trade once and is
  sorted, and a soak is never a GO before its target days.
\<close>

section \<open>Profit and loss\<close>

definition pnl_win_rate :: "rat list \<Rightarrow> rat" where
  "pnl_win_rate pnls = (if pnls = [] then 0 else int_ratio (length (filter (\<lambda>p. 0 < p) pnls)) (length pnls))"

definition pnl_expectancy :: "rat list \<Rightarrow> rat" where
  "pnl_expectancy pnls = (if pnls = [] then 0 else fl_div (py_fsum pnls) (of_nat (length pnls)))"

definition pnl_profit_factor :: "rat list \<Rightarrow> xfloat" where
  "pnl_profit_factor pnls = (let gross_win = py_fsum (filter (\<lambda>p. 0 < p) pnls); gross_loss = - py_fsum (filter (\<lambda>p. p < 0) pnls) in
     if gross_loss = 0 then (if 0 < gross_win then PosInf else Finite 0) else Finite (fl_div gross_win gross_loss))"

definition leg_cash :: "leg \<Rightarrow> rat \<Rightarrow> rat" where
  "leg_cash l c = dec_add c (if o_side (snd l) = SELL then t_net_amount (fst l) else dec_neg (t_net_amount (fst l)))"

definition curve_step :: "leg \<Rightarrow> rat \<times> equity_series \<Rightarrow> rat \<times> equity_series" where
  "curve_step l acc = (let c = leg_cash l (fst acc) in (c, snd acc @ [(t_executed_at (fst l), fl_rnd c)]))"

definition equity_curve_from_trades :: "rat \<Rightarrow> leg list \<Rightarrow> equity_series" where
  "equity_curve_from_trades initial_cash ls = (let ordered = sort_key (\<lambda>l. t_executed_at (fst l)) ls in
     if ordered = [] then [] else
     snd (fold curve_step ordered (initial_cash, [(t_executed_at (fst (hd ordered)), fl_rnd initial_cash)])))"

definition mark_position :: "candle_store \<Rightarrow> interval \<Rightarrow> store \<Rightarrow> position_row \<Rightarrow> rat option" where
  "mark_position cs iv d p = (case get_instrument (p_instrument p) d of None \<Rightarrow> None | Some inst \<Rightarrow>
     let frame = store_read (ins_exchange inst, ins_symbol inst, iv) None None cs in
     if frame = [] then None else
     Some (dec_mul (dec_sub (dec_of_float (cd_close (last frame))) (p_avg_price p)) (of_int (p_qty p))))"

definition unrealized_pnl :: "store \<Rightarrow> candle_store \<Rightarrow> trading_mode \<Rightarrow> interval \<Rightarrow> rat" where
  "unrealized_pnl d cs mode iv = dec_sum (List.map_filter (mark_position cs iv d) (list_open_positions mode d))"

record pnl_summary =
  ps_realized :: rat
  ps_unrealized :: rat
  ps_total :: rat
  ps_win_rate :: rat
  ps_expectancy :: rat
  ps_profit_factor :: xfloat
  ps_closed_trades :: nat
  ps_cagr :: rat
  ps_sharpe :: rat
  ps_max_drawdown :: rat

definition compute_pnl_summary :: "(rat \<Rightarrow> rat \<Rightarrow> rat) \<Rightarrow> rat \<Rightarrow> leg list \<Rightarrow> leg list \<Rightarrow> rat \<Rightarrow> pnl_summary" where
  "compute_pnl_summary fpow initial_cash realized_legs all_legs unrealized = (
     let pnls = map fl_rnd (pnl_values realized_legs); booked = dec_sum (pnl_values realized_legs);
       series = equity_curve_from_trades initial_cash all_legs in
     \<lparr>ps_realized = booked, ps_unrealized = unrealized, ps_total = dec_add booked unrealized, ps_win_rate = pnl_win_rate pnls,
       ps_expectancy = pnl_expectancy pnls, ps_profit_factor = pnl_profit_factor pnls, ps_closed_trades = length pnls,
       ps_cagr = cagr fpow series, ps_sharpe = sharpe_ratio fpow series TRADING_DAYS_PER_YEAR, ps_max_drawdown = max_drawdown series\<rparr>)"

section \<open>Reports\<close>

record breakdown =
  bk_label :: string
  bk_realized :: rat
  bk_closed_trades :: nat
  bk_win_rate :: rat

definition breakdown_of :: "string \<Rightarrow> leg list \<Rightarrow> breakdown" where
  "breakdown_of label ls = (let pnls = map fl_rnd (pnl_values ls) in
     \<lparr>bk_label = label, bk_realized = dec_sum (pnl_values ls), bk_closed_trades = length pnls,
       bk_win_rate = (if pnls = [] then 0 else int_ratio (length (filter (\<lambda>p. 0 < p) pnls)) (length pnls))\<rparr>)"

definition group_legs :: "(string \<times> leg) list \<Rightarrow> (string \<times> leg list) list" where
  "group_legs labelled = map (\<lambda>k. (k, map snd (filter (\<lambda>p. fst p = k) labelled))) (first_seen (map fst labelled))"

definition breakdown_by :: "(string \<times> leg list) list \<Rightarrow> breakdown list" where
  "breakdown_by groups = sort_key (\<lambda>b. - bk_realized b) (map (\<lambda>(k, ls). breakdown_of k ls) groups)"

definition UNATTRIBUTED :: string where "UNATTRIBUTED = ''(unattributed)''"

text \<open>The symbol of a leg's instrument and the strategy of its signal's run; a row that is missing is a
  \<open>None\<close> whose attribute is asked for.\<close>

definition leg_symbol :: "store \<Rightarrow> leg \<Rightarrow> py_error + string" where
  "leg_symbol d l = (case get_instrument (o_instrument (snd l)) d of None \<Rightarrow> Inl PyAttributeError | Some i \<Rightarrow> Inr (ins_symbol i))"

definition leg_strategy :: "store \<Rightarrow> leg \<Rightarrow> py_error + string" where
  "leg_strategy d l = (case o_signal (snd l) of None \<Rightarrow> Inr UNATTRIBUTED | Some i \<Rightarrow>
     (case find (\<lambda>g. sg_id g = i) (signals d) of None \<Rightarrow> Inr UNATTRIBUTED | Some g \<Rightarrow>
       (case find (\<lambda>r. sr_id r = sg_strategy_run g) (strategy_runs d) of None \<Rightarrow> Inl PyAttributeError | Some r \<Rightarrow> Inr (sr_strategy_name r))))"

definition label_leg :: "store \<Rightarrow> leg \<Rightarrow> py_error + (string \<times> leg) \<times> (string \<times> leg)" where
  "label_leg d l = bindE (leg_symbol d l) (\<lambda>sy. bindE (leg_strategy d l) (\<lambda>st. Inr ((sy, l), (st, l))))"

record performance_report =
  pr_since :: instant
  pr_summary :: pnl_summary
  pr_by_instrument :: "breakdown list"
  pr_by_strategy :: "breakdown list"
  pr_journal :: "journal_entry list"

definition generate_report :: "(rat \<Rightarrow> rat \<Rightarrow> rat) \<Rightarrow> store \<Rightarrow> candle_store \<Rightarrow> trading_mode \<Rightarrow> rat \<Rightarrow> interval \<Rightarrow> instant \<Rightarrow>
    py_error + performance_report" where
  "generate_report fpow d cs mode initial_cash iv since = (let booked = legs_of d (list_realized_since mode since d);
       summary = compute_pnl_summary fpow initial_cash booked (legs_of d (list_for_mode mode d)) (unrealized_pnl d cs mode iv) in
     bindE (forE booked (label_leg d)) (\<lambda>labelled. bindE (build_journal d mode (Some since)) (\<lambda>journal.
     Inr \<lparr>pr_since = since, pr_summary = summary, pr_by_instrument = breakdown_by (group_legs (map fst labelled)),
       pr_by_strategy = breakdown_by (group_legs (map snd labelled)), pr_journal = journal\<rparr>)))"

section \<open>The soak review\<close>

record soak_status =
  st_soak :: nat
  st_started_at :: instant
  st_target_days :: int
  st_days_elapsed :: int
  st_days_remaining :: int
  st_baseline :: "nat option"
  st_ended_at :: "instant option"

definition compute_status :: "soak_period_row \<Rightarrow> instant \<Rightarrow> soak_status" where
  "compute_status soak now = (let reference = (case so_ended_at soak of None \<Rightarrow> now | Some e \<Rightarrow> e);
       elapsed = max 0 ((reference - so_started_at soak) div us_per_day) in
     \<lparr>st_soak = so_id soak, st_started_at = so_started_at soak, st_target_days = so_target_days soak, st_days_elapsed = elapsed,
       st_days_remaining = max 0 (so_target_days soak - elapsed), st_baseline = so_baseline soak, st_ended_at = so_ended_at soak\<rparr>)"

text \<open>Subtraction of floats that may be infinite.\<close>

fun xf_sub :: "xfloat \<Rightarrow> xfloat \<Rightarrow> xfloat" where
  "xf_sub (Finite a) (Finite b) = Finite (fl_sub a b)"
| "xf_sub NotANumber _ = NotANumber"
| "xf_sub _ NotANumber = NotANumber"
| "xf_sub (Finite _) PosInf = NegInf"
| "xf_sub (Finite _) NegInf = PosInf"
| "xf_sub PosInf PosInf = NotANumber"
| "xf_sub NegInf NegInf = NotANumber"
| "xf_sub PosInf _ = PosInf"
| "xf_sub NegInf _ = NegInf"

record metric_delta =
  md_name :: string
  md_paper :: xfloat
  md_backtest :: xfloat
  md_delta :: xfloat

definition COMPARED_METRICS :: "(string \<times> (pnl_summary \<Rightarrow> xfloat) \<times> (bt_metrics \<Rightarrow> xfloat)) list" where
  "COMPARED_METRICS = [
     (''cagr'', Finite \<circ> ps_cagr, Finite \<circ> bm_cagr),
     (''sharpe'', Finite \<circ> ps_sharpe, Finite \<circ> bm_sharpe),
     (''max_drawdown'', Finite \<circ> ps_max_drawdown, Finite \<circ> bm_max_drawdown),
     (''win_rate'', Finite \<circ> ps_win_rate, Finite \<circ> bm_win_rate),
     (''expectancy'', Finite \<circ> ps_expectancy, Finite \<circ> bm_expectancy),
     (''profit_factor'', ps_profit_factor, bm_profit_factor)]"

definition compare_to_backtest :: "pnl_summary \<Rightarrow> bt_metrics \<Rightarrow> metric_delta list" where
  "compare_to_backtest paper bt = map (\<lambda>(n, f, g). \<lparr>md_name = n, md_paper = f paper, md_backtest = g bt, md_delta = xf_sub (f paper) (g bt)\<rparr>)
     COMPARED_METRICS"

definition go_criteria :: "soak_status \<Rightarrow> pnl_summary \<Rightarrow> soak_config \<Rightarrow> (string \<times> bool) list" where
  "go_criteria status paper cfg = [
     (''min_soak_days'', st_target_days status \<le> st_days_elapsed status),
     (''min_closed_trades'', sc_min_closed_trades cfg \<le> int (ps_closed_trades paper)),
     (''positive_net_pnl'', \<not> sc_require_positive_net_pnl cfg \<or> 0 < ps_total paper),
     (''min_sharpe'', sc_min_sharpe cfg \<le> ps_sharpe paper),
     (''max_drawdown'', ps_max_drawdown paper \<le> fl_div (sc_max_drawdown_pct cfg) 100)]"

definition evaluate_go_no_go :: "soak_status \<Rightarrow> pnl_summary \<Rightarrow> soak_config \<Rightarrow> bool \<times> (string \<times> bool) list" where
  "evaluate_go_no_go status paper cfg = (let criteria = go_criteria status paper cfg in (list_all snd criteria, criteria))"

section \<open>The equity curve ends at the cash of the account\<close>

lemma fold_curve: "fst (fold curve_step ls acc) = fold leg_cash ls (fst acc) \<and>
   map fst (snd (fold curve_step ls acc)) = map fst (snd acc) @ map (\<lambda>l. t_executed_at (fst l)) ls \<and>
   (snd acc \<noteq> [] \<and> snd (last (snd acc)) = fl_rnd (fst acc) \<longrightarrow>
     snd (fold curve_step ls acc) \<noteq> [] \<and> snd (last (snd (fold curve_step ls acc))) = fl_rnd (fold leg_cash ls (fst acc)))"
  by (induction ls arbitrary: acc) (simp_all add: curve_step_def Let_def)

lemma equity_curve_last:
  assumes "ls \<noteq> []"
  shows "snd (last (equity_curve_from_trades c ls)) = fl_rnd (fold leg_cash (sort_key (\<lambda>l. t_executed_at (fst l)) ls) c)"
proof -
  have "sort_key (\<lambda>l. t_executed_at (fst l)) ls \<noteq> []" using assms by (metis length_0_conv length_sort)
  then show ?thesis
    using fold_curve [of "sort_key (\<lambda>l. t_executed_at (fst l)) ls"
      "(c, [(t_executed_at (fst (hd (sort_key (\<lambda>l. t_executed_at (fst l)) ls))), fl_rnd c)])"]
    by (simp add: equity_curve_from_trades_def Let_def)
qed

lemma legs_of_trades: "map fst (legs_of d ts) = filter (\<lambda>t. get_order (t_order t) d \<noteq> None) ts"
  by (induction ts) (auto simp: legs_of_def split: option.split)

text \<open>Net amounts are results of decimal arithmetic: their negation needs no rounding.\<close>

definition exact_amounts :: "store \<Rightarrow> bool" where
  "exact_amounts d \<longleftrightarrow> (\<forall>t \<in> set (trades d). dec_neg (t_net_amount t) = - t_net_amount t)"

lemma cash_step_leg:
  assumes "get_order (t_order t) d = Some r" "dec_neg (t_net_amount t) = - t_net_amount t"
  shows "cash_step d c t = (if o_mode r = PAPER then leg_cash (t, r) c else c)"
  using assms by (cases "o_side r") (simp_all add: cash_step_def paper_leg_def static_of_def order_static_def leg_cash_def dec_add_def dec_sub_def)

lemma cash_of_legs:
  "\<forall>t \<in> set ts. dec_neg (t_net_amount t) = - t_net_amount t \<Longrightarrow>
   fold leg_cash (legs_of d (filter (trade_in_mode PAPER d) ts)) c = foldl (cash_step d) c ts"
proof (induction ts arbitrary: c)
  case (Cons t ts)
  show ?case
  proof (cases "get_order (t_order t) d")
    case None
    then show ?thesis using Cons by (simp add: trade_in_mode_def trade_order_def cash_step_def paper_leg_def static_of_def)
  next
    case (Some r)
    then show ?thesis using Cons cash_step_leg [OF Some, of c]
      by (auto simp: trade_in_mode_def trade_order_def legs_of_def)
  qed
qed (simp add: legs_of_def)

lemma legs_of_sorted: "sorted (map t_executed_at ts) \<Longrightarrow> sorted (map (\<lambda>l. t_executed_at (fst l)) (legs_of d ts))"
  by (induction ts) (auto simp: legs_of_def split: option.split)

lemma legs_of_nonempty: "t \<in> set ts \<Longrightarrow> trade_in_mode m d t \<Longrightarrow> legs_of d (filter (trade_in_mode m d) ts) \<noteq> []"
  by (induction ts) (auto simp: legs_of_def trade_in_mode_def trade_order_def split: option.splits)

lemma equity_curve_ends_at_ledger:
  assumes ordered: "sorted (map t_executed_at (trades d))" and exact: "exact_amounts d"
    and some: "t \<in> set (trades d)" "trade_in_mode PAPER d t"
  shows "snd (last (equity_curve_from_trades c0 (legs_of d (list_for_mode PAPER d)))) = fl_rnd (ledger_cash c0 d)"
proof -
  let ?ts = "filter (trade_in_mode PAPER d) (trades d)"
  have "sorted (map t_executed_at ?ts)" using ordered by (rule sorted_filter)
  then have list: "list_for_mode PAPER d = ?ts" "sort_key (\<lambda>l. t_executed_at (fst l)) (legs_of d ?ts) = legs_of d ?ts"
    using legs_of_sorted [of ?ts d] by (simp_all add: list_for_mode_def sort_key_id_if_sorted)
  show ?thesis
    using equity_curve_last [of "legs_of d ?ts" c0] legs_of_nonempty [OF some] cash_of_legs [of "trades d" d c0] exact
    by (simp add: list ledger_cash_def exact_amounts_def)
qed

section \<open>Breakdowns\<close>

lemma breakdown_by_sorted: "sorted_wrt (\<lambda>a b. bk_realized b \<le> bk_realized a) (breakdown_by groups)"
proof -
  have "sorted (map (\<lambda>b. - bk_realized b) (breakdown_by groups))" unfolding breakdown_by_def by simp
  then show ?thesis by (simp add: sorted_map)
qed

text \<open>Every group's trades are counted once.\<close>

lemma pnl_values_append: "pnl_values (xs @ ys) = pnl_values xs @ pnl_values ys"
  by (simp add: pnl_values_def)

lemma pnl_count_filter:
  "finite K \<Longrightarrow> fst ` set ps \<subseteq> K \<Longrightarrow>
   (\<Sum>k\<in>K. length (pnl_values (map snd (filter (\<lambda>p. fst p = k) ps)))) = length (pnl_values (map snd ps))"
proof (induction ps)
  case (Cons p ps)
  have step: "length (pnl_values (map snd (filter (\<lambda>x. fst x = k) (p # ps)))) =
      (if k = fst p then length (pnl_values [snd p]) else 0) + length (pnl_values (map snd (filter (\<lambda>x. fst x = k) ps)))" for k
    by (simp add: pnl_values_def)
  have "(\<Sum>k\<in>K. length (pnl_values (map snd (filter (\<lambda>x. fst x = k) (p # ps))))) =
      length (pnl_values [snd p]) + (\<Sum>k\<in>K. length (pnl_values (map snd (filter (\<lambda>x. fst x = k) ps))))"
    using Cons(2,3) unfolding step by (simp add: sum.distrib)
  then show ?case using Cons by (simp add: pnl_values_def)
qed (simp add: pnl_values_def)

lemma breakdowns_cover:
  "sum_list (map bk_closed_trades (breakdown_by (group_legs ps))) = length (pnl_values (map snd ps))"
proof -
  have "sum_list (map bk_closed_trades (breakdown_by (group_legs ps))) =
      sum_list (map bk_closed_trades (map (\<lambda>(k, ls). breakdown_of k ls) (group_legs ps)))"
    unfolding breakdown_by_def by (rule sum_list_sort_key)
  also have "\<dots> = sum_list (map (\<lambda>k. length (pnl_values (map snd (filter (\<lambda>p. fst p = k) ps)))) (first_seen (map fst ps)))"
    by (simp add: group_legs_def breakdown_of_def Let_def comp_def)
  also have "\<dots> = length (pnl_values (map snd ps))"
    by (simp add: sum_list_distinct_conv_sum_set pnl_count_filter)
  finally show ?thesis .
qed

lemma labelled_legs: "forE ls (label_leg d) = Inr labelled \<Longrightarrow> map (snd \<circ> fst) labelled = ls \<and> map (snd \<circ> snd) labelled = ls"
proof (induction ls arbitrary: labelled)
  case (Cons l ls)
  obtain p where p: "label_leg d l = Inr p" using Cons.prems by (cases "label_leg d l") simp_all
  then obtain ps where ps: "forE ls (label_leg d) = Inr ps" "labelled = p # ps" using Cons.prems by (cases "forE ls (label_leg d)") simp_all
  have "snd (fst p) = l \<and> snd (snd p) = l" using p by (auto simp: label_leg_def bindE_def split: sum.splits)
  then show ?case using Cons.IH [OF ps(1)] ps(2) by simp
qed simp

text \<open>A report agrees with itself: both breakdowns are sorted and count every closing trade of the summary once.\<close>

lemma report_adds_up:
  assumes "generate_report fpow d cs mode c iv since = Inr r" "f = pr_by_instrument \<or> f = pr_by_strategy"
  shows "sum_list (map bk_closed_trades (f r)) = ps_closed_trades (pr_summary r) \<and>
    sorted_wrt (\<lambda>a b. bk_realized b \<le> bk_realized a) (f r)"
proof -
  let ?booked = "legs_of d (list_realized_since mode since d)"
  obtain labelled where l: "forE ?booked (label_leg d) = Inr labelled"
    using assms(1) unfolding generate_report_def Let_def by (cases "forE ?booked (label_leg d)") simp_all
  obtain jr where j: "build_journal d mode (Some since) = Inr jr"
    using assms(1) l unfolding generate_report_def Let_def by (cases "build_journal d mode (Some since)") simp_all
  have r: "pr_by_instrument r = breakdown_by (group_legs (map fst labelled))" "pr_by_strategy r = breakdown_by (group_legs (map snd labelled))"
    "ps_closed_trades (pr_summary r) = length (pnl_values ?booked)"
    using assms(1) unfolding generate_report_def Let_def compute_pnl_summary_def l j by auto
  have "map snd (map fst labelled) = ?booked" "map snd (map snd labelled) = ?booked"
    using labelled_legs [OF l] by simp_all
  then show ?thesis using assms(2) r breakdowns_cover breakdown_by_sorted by auto
qed

section \<open>Soak\<close>

lemma go_needs_everything:
  "fst (evaluate_go_no_go (compute_status soak now) paper cfg) \<longleftrightarrow>
     so_target_days soak \<le> max 0 (((case so_ended_at soak of None \<Rightarrow> now | Some e \<Rightarrow> e) - so_started_at soak) div us_per_day) \<and>
     sc_min_closed_trades cfg \<le> int (ps_closed_trades paper) \<and> (sc_require_positive_net_pnl cfg \<longrightarrow> 0 < ps_total paper) \<and>
     sc_min_sharpe cfg \<le> ps_sharpe paper \<and> ps_max_drawdown paper \<le> fl_div (sc_max_drawdown_pct cfg) 100"
  by (auto simp: evaluate_go_no_go_def go_criteria_def compute_status_def Let_def)

end
