(* ===== verification/PT_Demo_Analytics.thy ===== *)
theory PT_Demo_Analytics
  imports PT_Analytics PT_Demo
begin

text \<open>Concrete trades for the theorems on the journal and on reports.\<close>

definition demo_leg :: "nat \<Rightarrow> order_side \<Rightarrow> int \<Rightarrow> rat \<Rightarrow> rat option \<Rightarrow> leg" where
  "demo_leg n side q price pnl =
     (\<lparr>t_id = n, t_order = n, t_price = price, t_qty = q, t_brokerage = 0, t_stt = 0, t_stamp_duty = 0, t_gst = 0,
        t_exchange_charges = 0, t_sebi_charges = 0, t_net_amount = price * of_int q, t_realized_pnl = pnl, t_executed_at = int n\<rparr>,
      \<lparr>o_id = n, o_cid = ''c'', o_broker_id = None, o_instrument = 1, o_signal = None, o_side = side, o_type = MARKET,
        o_qty = q, o_filled = q, o_limit = None, o_state = FILLED, o_mode = PAPER\<rparr>)"

text \<open>A long bought in two fills and sold, then a short that is still open.\<close>

definition demo_legs :: "leg list" where
  "demo_legs = [demo_leg 1 BUY 2 100 None, demo_leg 2 BUY 3 101 None, demo_leg 3 SELL 5 110 (Some 47), demo_leg 4 SELL 1 110 None]"

end
