(* ===== verification/PT_Prompt.thy ===== *)
theory PT_Prompt
  imports PT_Bridge PT_Types PT_Config PT_Repos
begin

text \<open>
  The market snapshot (\<open>intelligence/analysis/snapshot.py\<close>), the structured output of the model
  (\<open>analysis/schema.py\<close>) and the prompt built from a snapshot (\<open>analysis/prompt.py\<close>). News texts are
  untrusted; what is proved is that they cannot forge the fences around them. The texts of a Decimal, a float
  and a datetime (\<open>str\<close>, \<open>isoformat\<close>) are parameters, a \<open>renderer\<close>.
\<close>

section \<open>The snapshot\<close>

record position_snapshot =
  sp_qty :: int
  sp_avg_price :: rat
  sp_unrealized :: rat

record news_snapshot =
  sn_id :: nat
  sn_source :: string
  sn_published_at :: "instant option"
  sn_title :: string
  sn_body :: string

record market_snapshot =
  ms_symbol :: string
  ms_as_of :: instant
  ms_last_close :: rat
  ms_last_volume :: int
  ms_indicators :: "(string \<times> rat) list"
  ms_position :: "position_snapshot option"
  ms_news :: "news_snapshot list"

text \<open>\<open>series.iloc[-1]\<close> of a series that may be short of bars.\<close>

definition iloc_last :: "'x list \<Rightarrow> py_error + 'x" where
  "iloc_last xs = (if xs = [] then Inl PyIndexError else Inr (last xs))"

definition snapshot_indicators :: "numlib \<Rightarrow> candle list \<Rightarrow> py_error + (string \<times> rat) list" where
  "snapshot_indicators lib candles = (let close = map cd_close candles; bars = map bar_of candles in
     bindE (bindE (sma lib 20 close) iloc_last) (\<lambda>s. bindE (bindE (ema lib 20 close) iloc_last) (\<lambda>e.
     bindE (bindE (rsi lib 14 close) iloc_last) (\<lambda>r. bindE (bindE (atr lib 14 bars) iloc_last) (\<lambda>a.
     bindE (bindE (macd lib 12 26 9 close) iloc_last) (\<lambda>m.
     Inr (List.map_filter (\<lambda>(k, v). map_option (Pair k) v)
       [(''sma_20'', s), (''ema_20'', e), (''rsi_14'', r), (''atr_14'', a),
        (''macd'', mr_macd m), (''macd_signal'', mr_signal m), (''macd_hist'', mr_hist m)])))))))"

definition build_market_snapshot :: "numlib \<Rightarrow> string \<Rightarrow> candle list \<Rightarrow> position_snapshot option \<Rightarrow> news_snapshot list \<Rightarrow>
    py_error + market_snapshot" where
  "build_market_snapshot lib symbol candles pos news = bindE (iloc_last candles) (\<lambda>c.
     bindE (snapshot_indicators lib candles) (\<lambda>inds.
     Inr \<lparr>ms_symbol = symbol, ms_as_of = cd_ts c, ms_last_close = dec_of_float (cd_close c), ms_last_volume = cd_volume c,
       ms_indicators = inds, ms_position = pos, ms_news = news\<rparr>))"

section \<open>The structured output\<close>

datatype stance = Bullish | Bearish | Neutral
datatype news_impact = NewsPositive | NewsNegative | NewsMixed | NewsNone

record ai_answer =
  ao_stance :: stance
  ao_conviction :: conviction
  ao_key_factors :: "string list"
  ao_risks :: "string list"
  ao_news_impact :: news_impact
  ao_summary :: string

definition ai_answer_ok :: "ai_answer \<Rightarrow> bool" where
  "ai_answer_ok o' \<longleftrightarrow> length (ao_key_factors o') \<le> 5 \<and> length (ao_risks o') \<le> 5 \<and> length (ao_summary o') \<le> 600"

fun stance_text :: "stance \<Rightarrow> string" where
  "stance_text Bullish = ''bullish''"
| "stance_text Bearish = ''bearish''"
| "stance_text Neutral = ''neutral''"

fun conviction_text :: "conviction \<Rightarrow> string" where
  "conviction_text ConvLow = ''low''"
| "conviction_text ConvMedium = ''medium''"
| "conviction_text ConvHigh = ''high''"

fun impact_text :: "news_impact \<Rightarrow> string" where
  "impact_text NewsPositive = ''positive''"
| "impact_text NewsNegative = ''negative''"
| "impact_text NewsMixed = ''mixed''"
| "impact_text NewsNone = ''none''"

definition answer_json :: "ai_answer \<Rightarrow> json" where
  "answer_json o' = JObj [(''stance'', JStr (stance_text (ao_stance o'))), (''conviction'', JStr (conviction_text (ao_conviction o'))),
     (''key_factors'', JList (map JStr (ao_key_factors o'))), (''risks'', JList (map JStr (ao_risks o'))),
     (''news_impact'', JStr (impact_text (ao_news_impact o'))), (''summary'', JStr (ao_summary o'))]"

section \<open>The prompt\<close>

definition FENCE_BEGIN :: string where "FENCE_BEGIN = ''-----BEGIN UNTRUSTED NEWS ITEM-----''"
definition FENCE_END :: string where "FENCE_END = ''-----END UNTRUSTED NEWS ITEM-----''"

text \<open>\<open>re.sub("-{5,}", \<dots>)\<close>: every maximal run of at least five hyphens loses one and gets a blank and a hyphen.\<close>

abbreviation hyphen :: char where "hyphen \<equiv> CHR ''-''"

definition break_run :: "nat \<Rightarrow> string" where
  "break_run n = (if 5 \<le> n then replicate (n - 1) hyphen @ '' -'' else replicate n hyphen)"

function defuse :: "string \<Rightarrow> string" where
  "defuse [] = []"
| "defuse (c # cs) = (if c = hyphen
     then break_run (Suc (length (takeWhile (\<lambda>x. x = hyphen) cs))) @ defuse (dropWhile (\<lambda>x. x = hyphen) cs)
     else c # defuse cs)"
  by pat_completeness auto
termination by (relation "measure length") (auto simp: less_Suc_eq_le length_dropWhile_le)

record renderer =
  rd_decimal :: "rat \<Rightarrow> string"
  rd_float :: "rat \<Rightarrow> string"
  rd_instant :: "instant \<Rightarrow> string"

definition int_text :: "int \<Rightarrow> string" where
  "int_text i = (if i < 0 then hyphen # digits_of (nat (- i)) else digits_of (nat i))"

definition indicator_line :: "renderer \<Rightarrow> string \<times> rat \<Rightarrow> string" where
  "indicator_line rd kv = ''  '' @ fst kv @ '': '' @ rd_float rd (snd kv)"

definition position_line :: "renderer \<Rightarrow> position_snapshot option \<Rightarrow> string" where
  "position_line rd pos = (case pos of
     Some p \<Rightarrow> ''Current position: qty='' @ int_text (sp_qty p) @ '' avg_price='' @ rd_decimal rd (sp_avg_price p) @
       '' unrealized_pnl='' @ rd_decimal rd (sp_unrealized p)
   | None \<Rightarrow> ''Current position: flat'')"

definition news_lines :: "renderer \<Rightarrow> news_snapshot \<Rightarrow> string list" where
  "news_lines rd n = [FENCE_BEGIN, ''source: '' @ sn_source n,
     ''published_at: '' @ (case sn_published_at n of Some t \<Rightarrow> rd_instant rd t | None \<Rightarrow> ''unknown''),
     ''title: '' @ defuse (sn_title n), ''body: '' @ defuse (sn_body n), FENCE_END]"

definition prompt_head :: "renderer \<Rightarrow> market_snapshot \<Rightarrow> string list" where
  "prompt_head rd ms = [''Instrument: '' @ ms_symbol ms, ''As of: '' @ rd_instant rd (ms_as_of ms),
     ''Last close: '' @ rd_decimal rd (ms_last_close ms), ''Last volume: '' @ int_text (ms_last_volume ms), [], ''Indicators:''] @
     (if ms_indicators ms = [] then [''  (none available)''] else map (indicator_line rd) (ms_indicators ms)) @
     [[], position_line rd (ms_position ms), [],
      ''Recent news ('' @ int_text (int (length (ms_news ms))) @ '' item(s)):''] @
     (if ms_news ms = [] then [''  (none)''] else [])"

definition join_lines :: "string list \<Rightarrow> string" where
  "join_lines ls = (case ls of [] \<Rightarrow> [] | l # ls' \<Rightarrow> l @ concat (map (\<lambda>x. CHR 10 # x) ls'))"

definition build_user_content :: "renderer \<Rightarrow> market_snapshot \<Rightarrow> string" where
  "build_user_content rd ms = join_lines (prompt_head rd ms @ concat (map (news_lines rd) (ms_news ms)))"

section \<open>Fences cannot be forged\<close>

text \<open>The number of places at which a text occurs in another.\<close>

fun occurrences :: "string \<Rightarrow> string \<Rightarrow> nat" where
  "occurrences pat [] = 0"
| "occurrences pat (c # cs) = (if take (length pat) (c # cs) = pat then 1 else 0) + occurrences pat cs"

text \<open>Reading a text after \<open>k\<close> hyphens: a run of five or more is only ever followed by a blank.\<close>

fun guarded :: "nat \<Rightarrow> string \<Rightarrow> bool" where
  "guarded k [] = True"
| "guarded k (c # cs) = (if c = hyphen then guarded (Suc k) cs else (k < 5 \<or> c = CHR '' '') \<and> guarded 0 cs)"

text \<open>Every run of hyphens is shorter than five.\<close>

fun short_runs :: "nat \<Rightarrow> string \<Rightarrow> bool" where
  "short_runs k [] = True"
| "short_runs k (c # cs) = (if c = hyphen then k < 4 \<and> short_runs (Suc k) cs else short_runs 0 cs)"

lemma guarded_replicate: "guarded k (replicate m hyphen @ s) = guarded (k + m) s"
  by (induction m arbitrary: k) simp_all

lemma guarded_start: "guarded 0 s \<Longrightarrow> s = [] \<or> hd s \<noteq> hyphen \<Longrightarrow> k < 5 \<Longrightarrow> guarded k s"
  by (cases s) auto

lemma hd_dropWhile_hyphen: "dropWhile (\<lambda>x. x = hyphen) cs = [] \<or> hd (dropWhile (\<lambda>x. x = hyphen) cs) \<noteq> hyphen"
  using hd_dropWhile [of "\<lambda>x. x = hyphen" cs] by blast

lemma hd_defuse: "s = [] \<or> hd s \<noteq> hyphen \<Longrightarrow> defuse s = [] \<or> hd (defuse s) \<noteq> hyphen"
  by (cases s) auto

lemma guarded_defuse: "guarded 0 (defuse s)"
proof (induction s rule: defuse.induct)
  case (2 c cs)
  show ?case
  proof (cases "c = hyphen")
    case True
    let ?rest = "defuse (dropWhile (\<lambda>x. x = hyphen) cs)"
    have rest: "guarded k ?rest" if "k < 5" for k
      by (rule guarded_start [OF 2(1) [OF True] hd_defuse [OF hd_dropWhile_hyphen] that])
    then show ?thesis using True by (simp add: break_run_def guarded_replicate)
  qed (use 2(2) in simp)
qed simp

lemma short_runs_guarded: "short_runs k s \<Longrightarrow> k < 5 \<Longrightarrow> guarded k s"
  by (induction k s rule: short_runs.induct) (auto split: if_splits)

lemma guarded_append: "short_runs k xs \<Longrightarrow> k < 5 \<Longrightarrow> c \<noteq> hyphen \<Longrightarrow> guarded k (xs @ c # ys) = guarded 0 ys"
  by (induction k xs rule: short_runs.induct) (auto split: if_splits)

lemma short_runs_append: "c \<noteq> hyphen \<Longrightarrow> short_runs k (xs @ c # ys) \<longleftrightarrow> short_runs k xs \<and> short_runs 0 ys"
  by (induction k xs rule: short_runs.induct) auto

text \<open>A text of five hyphens and a letter does not occur in a guarded text.\<close>

definition fence_like :: "string \<Rightarrow> bool" where
  "fence_like pat \<longleftrightarrow> (\<exists>b rest. pat = replicate 5 hyphen @ b # rest \<and> b \<noteq> hyphen \<and> b \<noteq> CHR '' '') \<and> CHR 10 \<notin> set pat"

lemma no_occurrence: "guarded k s \<Longrightarrow> fence_like pat \<Longrightarrow> occurrences pat s = 0"
proof (induction s arbitrary: k)
  case (Cons c cs)
  obtain b rest where pat: "pat = replicate 5 hyphen @ b # rest" "b \<noteq> hyphen" "b \<noteq> CHR '' ''"
    using Cons.prems(2) by (auto simp: fence_like_def)
  have "take (length pat) (c # cs) \<noteq> pat"
  proof
    assume "take (length pat) (c # cs) = pat"
    then have "c # cs = replicate 5 hyphen @ b # (rest @ drop (length pat) (c # cs))"
      using append_take_drop_id [of "length pat" "c # cs"] unfolding pat(1) by simp
    then have "guarded (k + 5) (b # (rest @ drop (length pat) (c # cs)))"
      using Cons.prems(1) guarded_replicate [of k 5] by metis
    then show False using pat by simp
  qed
  moreover have "\<exists>k'. guarded k' cs" using Cons.prems(1) by (auto split: if_splits)
  ultimately show ?case using Cons.IH Cons.prems(2) by auto
qed simp

text \<open>A pattern without line breaks occurs in a text of lines as often as in its lines.\<close>

lemma occurrences_break:
  assumes "CHR 10 \<notin> set pat" "pat \<noteq> []"
  shows "occurrences pat (xs @ CHR 10 # ys) = occurrences pat xs + occurrences pat ys"
proof (induction xs)
  case Nil
  have "take (length pat) (CHR 10 # ys) \<noteq> pat" using assms by (cases pat) auto
  then show ?case by simp
next
  case (Cons x xs)
  have "take (length pat) (x # xs @ CHR 10 # ys) = pat \<longleftrightarrow> take (length pat) (x # xs) = pat"
  proof (cases "length pat \<le> length (x # xs)")
    case True
    then have "take (length pat) ((x # xs) @ CHR 10 # ys) = take (length pat) (x # xs)"
      by (subst take_append) (use True in simp)
    then show ?thesis by simp
  next
    case False
    then have "CHR 10 \<in> set (take (length pat) ((x # xs) @ CHR 10 # ys))" using assms(2) by (simp add: take_Cons')
    moreover have "length (take (length pat) (x # xs)) \<noteq> length pat" using False by simp
    ultimately show ?thesis using assms(1) by (metis append_Cons)
  qed
  then show ?case using Cons by simp
qed

lemma occurrences_lines:
  assumes "CHR 10 \<notin> set pat" "pat \<noteq> []"
  shows "occurrences pat (join_lines ls) = sum_list (map (occurrences pat) ls)"
proof (cases ls)
  case (Cons l ls')
  have "occurrences pat (l @ concat (map (\<lambda>x. CHR 10 # x) xs)) = occurrences pat l + sum_list (map (occurrences pat) xs)" for l xs
    by (induction xs arbitrary: l) (simp_all add: occurrences_break [OF assms])
  then show ?thesis by (simp add: Cons join_lines_def)
qed (simp add: join_lines_def)

section \<open>The lines of the prompt\<close>

text \<open>What is trusted: rendered values, indicator names, the symbol and the sources.\<close>

definition plain_renderer :: "renderer \<Rightarrow> bool" where
  "plain_renderer rd \<longleftrightarrow> (\<forall>x. short_runs 0 (rd_decimal rd x) \<and> short_runs 0 (rd_float rd x)) \<and> (\<forall>t. short_runs 0 (rd_instant rd t))"

definition plain_snapshot :: "market_snapshot \<Rightarrow> bool" where
  "plain_snapshot ms \<longleftrightarrow> short_runs 0 (ms_symbol ms) \<and> list_all (\<lambda>kv. short_runs 0 (fst kv)) (ms_indicators ms) \<and>
     list_all (\<lambda>n. short_runs 0 (sn_source n)) (ms_news ms)"

lemma fences: "fence_like FENCE_BEGIN" "fence_like FENCE_END"
  by (auto simp: fence_like_def FENCE_BEGIN_def FENCE_END_def numeral_eq_Suc)

lemma digits_short: "list_all is_digit s \<Longrightarrow> short_runs k s"
  by (induction s arbitrary: k) (auto simp: is_digit_def)

lemma int_text_short: "short_runs 0 (int_text i)"
  by (simp add: int_text_def digits_short digits_of_spec)

lemma guarded_literal: "short_runs 0 xs \<Longrightarrow> c \<noteq> hyphen \<Longrightarrow> guarded 0 ys \<Longrightarrow> guarded 0 (xs @ c # ys)"
  by (simp add: guarded_append)

lemma guarded_head:
  assumes "plain_renderer rd" "plain_snapshot ms"
  shows "list_all (guarded 0) (prompt_head rd ms)"
proof -
  have r: "short_runs 0 (rd_decimal rd x)" "short_runs 0 (rd_float rd x)" "short_runs 0 (rd_instant rd t)" for x t
    using assms(1) by (simp_all add: plain_renderer_def)
  have pos: "short_runs 0 (position_line rd p)" for p
    by (cases p) (simp_all add: position_line_def short_runs_append r int_text_short)
  have inds: "list_all (guarded 0) (map (indicator_line rd) kvs)" if "list_all (\<lambda>kv. short_runs 0 (fst kv)) kvs" for kvs
    using that by (induction kvs) (simp_all add: indicator_line_def guarded_append short_runs_guarded r)
  show ?thesis using assms(2) inds [of "ms_indicators ms"] pos [of "ms_position ms"]
    by (simp add: prompt_head_def plain_snapshot_def short_runs_guarded short_runs_append guarded_append r int_text_short)
qed

lemma fence_counts:
  "occurrences FENCE_BEGIN FENCE_BEGIN = 1" "occurrences FENCE_END FENCE_END = 1"
  "occurrences FENCE_BEGIN FENCE_END = 0" "occurrences FENCE_END FENCE_BEGIN = 0"
  by (simp_all add: FENCE_BEGIN_def FENCE_END_def)

lemma news_line_counts:
  assumes "plain_renderer rd" "short_runs 0 (sn_source n)" "pat = FENCE_BEGIN \<or> pat = FENCE_END"
  shows "sum_list (map (occurrences pat) (news_lines rd n)) = 1"
proof -
  have fence: "fence_like pat" using assms(3) fences by auto
  have short: "short_runs 0 (case sn_published_at n of Some t \<Rightarrow> rd_instant rd t | None \<Rightarrow> ''unknown'')"
    using assms(1) by (simp add: plain_renderer_def split: option.split)
  have g: "guarded 0 (''source: '' @ sn_source n)" "guarded 0 (''title: '' @ defuse (sn_title n))" "guarded 0 (''body: '' @ defuse (sn_body n))"
    "guarded 0 (''published_at: '' @ (case sn_published_at n of Some t \<Rightarrow> rd_instant rd t | None \<Rightarrow> ''unknown''))"
    by (simp_all add: short_runs_guarded guarded_defuse assms(2) short)
  have "occurrences pat FENCE_BEGIN + occurrences pat FENCE_END = 1" using assms(3) fence_counts by auto
  then show ?thesis by (simp only: news_lines_def list.map sum_list.Cons sum_list.Nil no_occurrence [OF g(1) fence]
    no_occurrence [OF g(2) fence] no_occurrence [OF g(3) fence] no_occurrence [OF g(4) fence] add_0 add_0_right)
qed

lemma prompt_fences:
  assumes "plain_renderer rd" "plain_snapshot ms" "pat = FENCE_BEGIN \<or> pat = FENCE_END"
  shows "occurrences pat (build_user_content rd ms) = length (ms_news ms)"
proof -
  have fence: "fence_like pat" using assms(3) fences by auto
  then have lines: "occurrences pat (build_user_content rd ms) =
      sum_list (map (occurrences pat) (prompt_head rd ms)) + sum_list (map (occurrences pat) (concat (map (news_lines rd) (ms_news ms))))"
    unfolding build_user_content_def by (subst occurrences_lines) (auto simp: fence_like_def)
  have "\<forall>l \<in> set (prompt_head rd ms). occurrences pat l = 0"
    using guarded_head [OF assms(1,2)] no_occurrence fence by (auto simp: list_all_iff)
  then have "sum_list (map (occurrences pat) (prompt_head rd ms)) = 0" by simp
  moreover have "sum_list (map (occurrences pat) (concat (map (news_lines rd) ns))) = length ns"
    if "list_all (\<lambda>n. short_runs 0 (sn_source n)) ns" for ns
    using that by (induction ns) (simp_all add: news_line_counts [OF assms(1) _ assms(3)])
  ultimately show ?thesis using lines assms(2) by (simp add: plain_snapshot_def)
qed

end
