(* ===== verification/PT_Analysis.thy ===== *)
theory PT_Analysis
  imports PT_Prompt PT_Candle_Store
begin

text \<open>
  The model provider (\<open>intelligence/llm/provider.py\<close>, \<open>llm/anthropic_provider.py\<close>) and the
  analysis service (\<open>intelligence/analysis/service.py\<close>), which checks the budgets, asks the provider and
  records the answer. The SDK client is a parameter: the k-th call answers or fails. What is proved: the budgets
  bound the recorded calls, and an analysis touches nothing but its own table. The system prompt (a constant
  text), SHA-256 and the clock are parameters too.
\<close>

section \<open>The provider\<close>

record llm_result =
  lr_parsed :: ai_answer
  lr_raw_text :: string
  lr_model :: string
  lr_input_tokens :: int
  lr_output_tokens :: int
  lr_cost_usd :: rat

text \<open>A provider: the number of the call, the system prompt, the content and the token limit.\<close>

type_synonym llm_provider = "nat \<Rightarrow> string \<Rightarrow> string \<Rightarrow> int \<Rightarrow> py_error + llm_result"

datatype llm_backend = Bedrock | Direct

definition BEDROCK_MODEL_IDS :: "(string \<times> string) list" where
  "BEDROCK_MODEL_IDS = [(''claude-opus-4-8'', ''global.anthropic.claude-opus-4-8''),
     (''claude-haiku-4-5'', ''global.anthropic.claude-haiku-4-5-20251001-v1:0'')]"

text \<open>\<open>UnknownBedrockModel\<close> is an \<open>LLMProviderError\<close>.\<close>

definition resolve_model_id :: "string \<Rightarrow> llm_backend \<Rightarrow> py_error + string" where
  "resolve_model_id canonical backend = (if backend = Direct then Inr canonical else
     case map_of BEDROCK_MODEL_IDS canonical of None \<Rightarrow> Inl LLMProviderError | Some m \<Rightarrow> Inr m)"

definition llm_cost :: "string \<Rightarrow> int \<Rightarrow> int \<Rightarrow> (string \<times> model_pricing) list \<Rightarrow> rat" where
  "llm_cost model input_tokens output_tokens pricing = (case map_of pricing model of
     None \<Rightarrow> 0
   | Some rates \<Rightarrow> dec_add (dec_quot (dec_mul (of_int input_tokens) (input_per_mtok rates)) 1000000)
       (dec_quot (dec_mul (of_int output_tokens) (output_per_mtok rates)) 1000000))"

text \<open>What the SDK returns: the parsed output if the text fits the schema, the text blocks, the usage.\<close>

record llm_response =
  rs_parsed :: "ai_answer option"
  rs_texts :: "string list"
  rs_input_tokens :: int
  rs_output_tokens :: int

type_synonym llm_client = "nat \<Rightarrow> string \<Rightarrow> int \<Rightarrow> string \<Rightarrow> string \<Rightarrow> llm_response option"

record anthropic_provider =
  ap_backend :: llm_backend
  ap_region :: string
  ap_model :: string
  ap_pricing :: "(string \<times> model_pricing) list"

definition anthropic_analyze :: "llm_client \<Rightarrow> anthropic_provider \<Rightarrow> llm_provider" where
  "anthropic_analyze client p k sys content max_tokens = bindE (resolve_model_id (ap_model p) (ap_backend p)) (\<lambda>model_id.
     case client k model_id max_tokens sys content of
       None \<Rightarrow> Inl LLMProviderError
     | Some r \<Rightarrow> (case rs_parsed r of
         None \<Rightarrow> Inl LLMOutputInvalid
       | Some answer \<Rightarrow> Inr \<lparr>lr_parsed = answer, lr_raw_text = concat (rs_texts r), lr_model = ap_model p,
           lr_input_tokens = rs_input_tokens r, lr_output_tokens = rs_output_tokens r,
           lr_cost_usd = llm_cost (ap_model p) (rs_input_tokens r) (rs_output_tokens r) (ap_pricing p)\<rparr>))"

record ai_secrets =
  se_anthropic_api_key :: "string option"
  se_bedrock_token :: "string option"
  se_aws_region :: "string option"

definition build_anthropic_provider :: "ai_secrets \<Rightarrow> ai_config \<Rightarrow> py_error + anthropic_provider" where
  "build_anthropic_provider secrets cfg = (if se_bedrock_token secrets \<noteq> None
     then Inr \<lparr>ap_backend = Bedrock, ap_region = (case se_aws_region secrets of Some (c # cs) \<Rightarrow> c # cs | _ \<Rightarrow> ''us-east-1''),
       ap_model = ai_model_id cfg, ap_pricing = ai_pricing cfg\<rparr>
     else if se_anthropic_api_key secrets \<noteq> None
     then Inr \<lparr>ap_backend = Direct, ap_region = [], ap_model = ai_model_id cfg, ap_pricing = ai_pricing cfg\<rparr>
     else Inl ConfigError)"

section \<open>The start of the day and of the month\<close>

definition leap_year :: "int \<Rightarrow> bool" where
  "leap_year y \<longleftrightarrow> y mod 4 = 0 \<and> (y mod 100 \<noteq> 0 \<or> y mod 400 = 0)"

definition month_lengths :: "int \<Rightarrow> int list" where
  "month_lengths y = [31, if leap_year y then 29 else 28, 31, 30, 31, 30, 31, 31, 30, 31, 30, 31]"

text \<open>The ordinals at which the months of a year begin.\<close>

definition year_start :: "int \<Rightarrow> py_date" where
  "year_start y = 365 * (y - 1) + (y - 1) div 4 - (y - 1) div 100 + (y - 1) div 400 + 1"

fun starts_from :: "py_date \<Rightarrow> int list \<Rightarrow> py_date list" where
  "starts_from d [] = []"
| "starts_from d (n # ns) = d # starts_from (d + n) ns"

definition month_starts :: "int \<Rightarrow> py_date list" where
  "month_starts y = starts_from (year_start y) (month_lengths y)"

definition month_start :: "instant \<Rightarrow> instant" where
  "month_start now = combine_dt (last (filter (\<lambda>d. d \<le> date_part now) (month_starts (year_of now)))) 0"

definition day_start :: "instant \<Rightarrow> instant" where
  "day_start now = combine_dt (date_part now) 0"

section \<open>The service\<close>

definition snapshot_json :: "renderer \<Rightarrow> market_snapshot \<Rightarrow> json" where
  "snapshot_json rd ms = JObj [(''symbol'', JStr (ms_symbol ms)), (''as_of'', JStr (rd_instant rd (ms_as_of ms))),
     (''last_close'', JStr (rd_decimal rd (ms_last_close ms))), (''last_volume'', JNum (of_int (ms_last_volume ms))),
     (''indicators'', JObj (map (\<lambda>(k, v). (k, JNum v)) (ms_indicators ms))),
     (''position'', (case ms_position ms of None \<Rightarrow> JNull | Some p \<Rightarrow> JObj [(''qty'', JNum (of_int (sp_qty p))),
        (''avg_price'', JStr (rd_decimal rd (sp_avg_price p))), (''unrealized_pnl'', JStr (rd_decimal rd (sp_unrealized p)))])),
     (''news_item_ids'', JList (map (\<lambda>n. JNum (of_nat (sn_id n))) (ms_news ms)))]"

text \<open>The state: the store and the number of provider calls made.\<close>

record ai_state =
  as_store :: store
  as_calls :: nat

record ai_env =
  ae_provider :: llm_provider
  ae_system :: string
  ae_sha256 :: "string \<Rightarrow> string"
  ae_renderer :: renderer
  ae_lib :: numlib
  ae_clock :: "nat \<Rightarrow> instant"

definition in_ai_store :: "(store, 'a) act \<Rightarrow> (ai_state, 'a) act" where
  "in_ai_store = on_part as_store (\<lambda>d s. s\<lparr>as_store := d\<rparr>)"

definition call_provider :: "ai_env \<Rightarrow> string \<Rightarrow> int \<Rightarrow> (ai_state, llm_result) act" where
  "call_provider env content max_tokens = (\<lambda>s. (ae_provider env (as_calls s) (ae_system env) content max_tokens, s\<lparr>as_calls := Suc (as_calls s)\<rparr>))"

text \<open>The row of the audit trail; \<open>created_at\<close> is set when it is written, after the k-th call.\<close>

definition analysis_row :: "ai_env \<Rightarrow> instrument_row \<Rightarrow> market_snapshot \<Rightarrow> string \<Rightarrow> nat \<Rightarrow> llm_result \<Rightarrow> ai_analysis_row" where
  "analysis_row env inst ms hash k r = \<lparr>ai_id = 0, ai_instrument = ins_id inst, ai_model = lr_model r, ai_prompt_hash = hash,
     ai_snapshot = snapshot_json (ae_renderer env) ms, ai_output = answer_json (lr_parsed r), ai_input_tokens = lr_input_tokens r,
     ai_output_tokens = lr_output_tokens r, ai_cost_usd = lr_cost_usd r, ai_created_at = ae_clock env k\<rparr>"

definition analyze_instrument :: "ai_env \<Rightarrow> ai_config \<Rightarrow> instrument_row \<Rightarrow> market_snapshot \<Rightarrow> instant \<Rightarrow>
    (ai_state, ai_analysis_row \<times> ai_answer) act" where
  "analyze_instrument env cfg inst ms now =
     (if \<not> ai_enabled cfg then raise AIAnalysisDisabled else
      seqA (guardA (\<lambda>s. int (count_since (day_start now) (as_store s)) < ai_daily_call_cap cfg) AIBudgetExhausted)
     (seqA (guardA (\<lambda>s. sum_cost_since (month_start now) (as_store s) < ai_monthly_usd_cap cfg) AIBudgetExhausted)
     (let content = build_user_content (ae_renderer env) ms; hash = ae_sha256 env (ae_system env @ CHR 10 # content) in
      bindA (call_provider env content (ai_max_tokens_per_call cfg)) (\<lambda>r. bindA (getA as_calls) (\<lambda>k.
      bindA (in_ai_store (add_ai_analysis (analysis_row env inst ms hash k r))) (\<lambda>row. ret (row, lr_parsed r)))))))"

section \<open>What an analysis does\<close>

text \<open>The three outcomes: stopped by a gate, a failed call, a recorded answer.\<close>

lemma analyze_cases:
  obtains (stopped) e where "e \<in> {AIAnalysisDisabled, AIBudgetExhausted}" "analyze_instrument env cfg inst ms now s = (Inl e, s)"
      "\<not> ai_enabled cfg \<or> ai_daily_call_cap cfg \<le> int (count_since (day_start now) (as_store s)) \<or>
       ai_monthly_usd_cap cfg \<le> sum_cost_since (month_start now) (as_store s)"
    | (failed) e where "ai_enabled cfg" "int (count_since (day_start now) (as_store s)) < ai_daily_call_cap cfg"
      "sum_cost_since (month_start now) (as_store s) < ai_monthly_usd_cap cfg"
      "ae_provider env (as_calls s) (ae_system env) (build_user_content (ae_renderer env) ms) (ai_max_tokens_per_call cfg) = Inl e"
      "analyze_instrument env cfg inst ms now s = (Inl e, s\<lparr>as_calls := Suc (as_calls s)\<rparr>)"
    | (answered) r row where "ai_enabled cfg" "int (count_since (day_start now) (as_store s)) < ai_daily_call_cap cfg"
      "sum_cost_since (month_start now) (as_store s) < ai_monthly_usd_cap cfg"
      "ae_provider env (as_calls s) (ae_system env) (build_user_content (ae_renderer env) ms) (ai_max_tokens_per_call cfg) = Inr r"
      "ai_created_at row = ae_clock env (Suc (as_calls s))" "ai_cost_usd row = lr_cost_usd r"
      "analyze_instrument env cfg inst ms now s = (Inr (row, lr_parsed r),
         s\<lparr>as_calls := Suc (as_calls s), as_store := (as_store s)\<lparr>ai_analyses := ai_analyses (as_store s) @ [row]\<rparr>\<rparr>)"
proof (cases "\<not> ai_enabled cfg \<or> \<not> int (count_since (day_start now) (as_store s)) < ai_daily_call_cap cfg \<or>
    \<not> sum_cost_since (month_start now) (as_store s) < ai_monthly_usd_cap cfg")
  case True
  then show thesis
    by (intro stopped [of "if ai_enabled cfg then AIBudgetExhausted else AIAnalysisDisabled"])
       (auto simp: analyze_instrument_def seqA_def bindA_def guardA_def raise_def)
next
  case False
  let ?p = "ae_provider env (as_calls s) (ae_system env) (build_user_content (ae_renderer env) ms) (ai_max_tokens_per_call cfg)"
  show thesis
  proof (cases ?p)
    case (Inl e)
    then show thesis using False
      by (intro failed [of e]) (auto simp: analyze_instrument_def seqA_def bindA_def guardA_def call_provider_def Let_def)
  next
    case (Inr r)
    then show thesis using False
      by (intro answered [of r "(analysis_row env inst ms (ae_sha256 env (ae_system env @ CHR 10 # build_user_content (ae_renderer env) ms))
            (Suc (as_calls s)) r)\<lparr>ai_id := next_id (map ai_id (ai_analyses (as_store s)))\<rparr>"])
         (auto simp: analyze_instrument_def seqA_def bindA_def guardA_def call_provider_def Let_def getA_def ret_def
           in_ai_store_def on_part_def add_ai_analysis_def repo_add_def analysis_row_def)
  qed
qed

end
