(* ===== verification/PT_Recommend.thy ===== *)
theory PT_Recommend
  imports PT_Analysis PT_Strategies PT_Backtest
begin

text \<open>
  The recommendation engine: the gate that merges a strategy's signal with the model's answer
  (\<open>intelligence/recommendation/merge.py\<close>), the screener that asks a strategy about the last bar
  (\<open>recommendation/screener.py\<close>) and the cycle over all symbols (\<open>recommendation/engine.py\<close>). What is
  proved: a cycle is advisory (it adds rows to two tables and nothing else), keeps the daily cap, ranks what it
  writes, and only ever weakens a deterministic action to HOLD; the screener agrees with a backtest's last bar
  for a strategy without memory.
\<close>

section \<open>The gate\<close>

fun conviction_score :: "conviction \<Rightarrow> nat" where
  "conviction_score ConvLow = 1"
| "conviction_score ConvMedium = 2"
| "conviction_score ConvHigh = 3"

text \<open>The scale as an order.\<close>

instantiation conviction :: linorder
begin

definition less_eq_conviction :: "conviction \<Rightarrow> conviction \<Rightarrow> bool" where
  "less_eq_conviction a b \<longleftrightarrow> conviction_score a \<le> conviction_score b"

definition less_conviction :: "conviction \<Rightarrow> conviction \<Rightarrow> bool" where
  "less_conviction a b \<longleftrightarrow> conviction_score a < conviction_score b"

instance
proof
  fix x y z :: conviction
  show "x < y \<longleftrightarrow> x \<le> y \<and> \<not> y \<le> x" by (auto simp: less_eq_conviction_def less_conviction_def)
  show "x \<le> x" by (simp add: less_eq_conviction_def)
  show "x \<le> y \<Longrightarrow> y \<le> z \<Longrightarrow> x \<le> z" by (simp add: less_eq_conviction_def)
  show "x \<le> y \<Longrightarrow> y \<le> x \<Longrightarrow> x = y" by (cases x; cases y) (simp_all add: less_eq_conviction_def)
  show "x \<le> y \<or> y \<le> x" by (auto simp: less_eq_conviction_def)
qed

end

fun direction_text :: "signal_direction \<Rightarrow> string" where
  "direction_text LONG = ''LONG''"
| "direction_text SHORT = ''SHORT''"
| "direction_text EXIT = ''EXIT''"

fun action_text :: "recommendation_action \<Rightarrow> string" where
  "action_text RecBuy = ''BUY''"
| "action_text RecSell = ''SELL''"
| "action_text RecHold = ''HOLD''"
| "action_text RecAvoid = ''AVOID''"

definition deterministic_action :: "signal_direction \<Rightarrow> int \<Rightarrow> recommendation_action" where
  "deterministic_action dir qty = (case dir of
     LONG \<Rightarrow> if 0 < qty then RecHold else RecBuy
   | SHORT \<Rightarrow> if qty < 0 then RecHold else RecSell
   | EXIT \<Rightarrow> if 0 < qty then RecSell else if qty < 0 then RecBuy else RecAvoid)"

definition veto_text :: "ai_answer \<Rightarrow> string \<Rightarrow> string \<Rightarrow> string" where
  "veto_text a impact action = ''AI conviction='' @ conviction_text (ao_conviction a) @ '' '' @ impact @
     '' news_impact downgraded '' @ action @ '' to HOLD''"

definition vetoed :: "recommendation_action \<Rightarrow> ai_answer \<Rightarrow> recommendation_config \<Rightarrow> (recommendation_action \<times> string) option" where
  "vetoed base a cfg = (if veto_conviction_threshold cfg \<le> ao_conviction a
     then (if base = RecBuy \<and> ao_news_impact a = NewsNegative then Some (RecHold, veto_text a ''negative'' ''BUY'')
       else if base = RecSell \<and> ao_news_impact a = NewsPositive then Some (RecHold, veto_text a ''positive'' ''SELL'')
       else None)
     else None)"

definition merge_recommendation :: "signal_direction \<Rightarrow> int \<Rightarrow> ai_answer option \<Rightarrow> recommendation_config \<Rightarrow> recommendation_action \<times> json" where
  "merge_recommendation dir qty answer cfg = (let base = deterministic_action dir qty;
       head = [(''signal_direction'', JStr (direction_text dir)), (''position_qty'', JNum (of_int qty)),
         (''deterministic_action'', JStr (action_text base))] in
     case answer of
       None \<Rightarrow> (base, JObj (head @ [(''ai'', JNull), (''final_action'', JStr (action_text base))]))
     | Some a \<Rightarrow> (let ai = (''ai'', JObj [(''stance'', JStr (stance_text (ao_stance a))),
           (''conviction'', JStr (conviction_text (ao_conviction a))), (''news_impact'', JStr (impact_text (ao_news_impact a))),
           (''summary'', JStr (ao_summary a))]) in
         case vetoed base a cfg of
           None \<Rightarrow> (base, JObj (head @ [ai, (''final_action'', JStr (action_text base))]))
         | Some (final, why) \<Rightarrow> (final, JObj (head @ [ai, (''veto'', JStr why), (''final_action'', JStr (action_text final))]))))"

fun action_tier :: "recommendation_action \<Rightarrow> int" where
  "action_tier RecBuy = 0"
| "action_tier RecSell = 0"
| "action_tier RecHold = 1"
| "action_tier RecAvoid = 2"

definition rank_sort_key :: "recommendation_action \<Rightarrow> ai_answer option \<Rightarrow> int \<times> int" where
  "rank_sort_key action answer = (action_tier action,
     - (case answer of None \<Rightarrow> 0 | Some a \<Rightarrow> int (conviction_score (ao_conviction a))))"

section \<open>The screener\<close>

definition latest_signal :: "numlib \<Rightarrow> 'st strategy \<Rightarrow> 'st \<Rightarrow> candle list \<Rightarrow> position_view \<Rightarrow> py_error + strategy_signal option \<times> 'st" where
  "latest_signal lib strat st candles pos = (if candles = [] then Inr (None, st) else
     let i = length candles - 1 in
     bindE (compute_indicator_set lib candles (st_required strat)) (\<lambda>series.
     if int i < effective_start strat series then Inr (None, st) else
     st_on_candle strat st \<lparr>ctx_index = i, ctx_ts = cd_ts (candles ! i), ctx_candles = take (Suc i) candles,
       ctx_indicators = batch_view series i, ctx_position = pos\<rparr>))"

section \<open>The cycle\<close>

definition position_view_of :: "position_row option \<Rightarrow> position_view" where
  "position_view_of prow = (case prow of None \<Rightarrow> FLAT_POSITION | Some p \<Rightarrow>
     if p_qty p = 0 then FLAT_POSITION else \<lparr>pv_qty = p_qty p, pv_avg_price = fl_rnd (p_avg_price p)\<rparr>)"

definition position_snapshot_of :: "position_row option \<Rightarrow> rat \<Rightarrow> position_snapshot option" where
  "position_snapshot_of prow close = (case prow of None \<Rightarrow> None | Some p \<Rightarrow>
     if p_qty p = 0 then None else Some \<lparr>sp_qty = p_qty p, sp_avg_price = p_avg_price p,
       sp_unrealized = dec_mul (dec_sub (dec_of_float close) (p_avg_price p)) (of_int (p_qty p))\<rparr>)"

definition news_snapshot_of :: "news_item_row \<Rightarrow> news_snapshot" where
  "news_snapshot_of n = \<lparr>sn_id = n_id n, sn_source = n_source n, sn_published_at = n_published_at n, sn_title = n_title n, sn_body = n_body n\<rparr>"

definition ai_unavailable :: "py_error list" where
  "ai_unavailable = [AIAnalysisDisabled, AIBudgetExhausted, LLMProviderError, LLMOutputInvalid]"

definition try_ai_analysis :: "ai_env \<Rightarrow> bool \<Rightarrow> ai_config \<Rightarrow> instrument_row \<Rightarrow> candle list \<Rightarrow> position_row option \<Rightarrow> instant \<Rightarrow>
    (ai_state, (ai_answer \<times> ai_analysis_row) option) act" where
  "try_ai_analysis env has_provider cfg inst candles prow now = (if \<not> has_provider then ret None else
     bindA (getA (\<lambda>s. take (nat (ai_max_news_items cfg))
       (list_for_instrument (ins_id inst) (now - ai_news_lookback_days cfg * us_per_day) (as_store s)))) (\<lambda>rows.
     bindA (liftE (bindE (iloc_last candles) (\<lambda>c. build_market_snapshot (ae_lib env) (ins_symbol inst) candles
       (position_snapshot_of prow (cd_close c)) (map news_snapshot_of rows)))) (\<lambda>ms.
     catchA (bindA (analyze_instrument env cfg inst ms now) (\<lambda>(row, answer). ret (Some (answer, row))))
       (\<lambda>e. if e \<in> set ai_unavailable then ret None else raise e))))"

record rec_candidate =
  rc_inst :: instrument_row
  rc_action :: recommendation_action
  rc_rationale :: json
  rc_ai :: "(ai_answer \<times> ai_analysis_row) option"

text \<open>One strategy object serves every symbol of the cycle: its state is threaded through.\<close>

record 'st rec_state =
  rs_ai :: ai_state
  rs_strategy :: 'st

definition in_ai :: "(ai_state, 'a) act \<Rightarrow> ('st rec_state, 'a) act" where
  "in_ai = on_part rs_ai (\<lambda>a s. s\<lparr>rs_ai := a\<rparr>)"

definition ask_strategy :: "numlib \<Rightarrow> 'st strategy \<Rightarrow> candle list \<Rightarrow> position_view \<Rightarrow> ('st rec_state, strategy_signal option) act" where
  "ask_strategy lib strat candles pos = (\<lambda>s. case latest_signal lib strat (rs_strategy s) candles pos of
     Inl e \<Rightarrow> (Inl e, s)
   | Inr (sig, st) \<Rightarrow> (Inr sig, s\<lparr>rs_strategy := st\<rparr>))"

definition screen_symbol :: "ai_env \<Rightarrow> bool \<Rightarrow> ai_config \<Rightarrow> recommendation_config \<Rightarrow> 'st strategy \<Rightarrow> string \<Rightarrow> instant \<Rightarrow> string \<times> candle list \<Rightarrow>
    ('st rec_state, rec_candidate list) act" where
  "screen_symbol env has_provider ai_cfg rec_cfg strat exchange now = (\<lambda>(symbol, candles).
     bindA (getA (\<lambda>s. get_by_symbol symbol exchange (as_store (rs_ai s)))) (\<lambda>found. case found of
       None \<Rightarrow> ret []
     | Some inst \<Rightarrow>
       bindA (getA (\<lambda>s. get_for (ins_id inst) PAPER (as_store (rs_ai s)))) (\<lambda>prow.
       bindA (ask_strategy (ae_lib env) strat candles (position_view_of prow)) (\<lambda>sig. case sig of
         None \<Rightarrow> ret []
       | Some g \<Rightarrow>
         bindA (in_ai (try_ai_analysis env has_provider ai_cfg inst candles prow now)) (\<lambda>ai.
         case merge_recommendation (s_direction g) (pv_qty (position_view_of prow)) (map_option fst ai) rec_cfg of
           (action, rationale) \<Rightarrow> ret [\<lparr>rc_inst = inst, rc_action = action, rc_rationale = rationale, rc_ai = ai\<rparr>])))))"

definition candidate_key :: "rec_candidate \<Rightarrow> (int \<times> int) \<times> string" where
  "candidate_key c = (rank_sort_key (rc_action c) (map_option fst (rc_ai c)), ins_symbol (rc_inst c))"

record screened =
  sc_instrument :: instrument_row
  sc_record :: recommendation_row
  sc_answer :: "ai_answer option"

definition persist_candidate :: "instant \<Rightarrow> nat \<times> rec_candidate \<Rightarrow> (store, screened) act" where
  "persist_candidate now = (\<lambda>(rank, c). bindA (add_recommendation \<lparr>rec_id = 0, rec_instrument = ins_id (rc_inst c), rec_signal = None,
       rec_ai_analysis = map_option (ai_id \<circ> snd) (rc_ai c), rec_action = rc_action c, rec_rank = int rank, rec_rationale = rc_rationale c,
       rec_created_at = now\<rparr>) (\<lambda>row.
     ret \<lparr>sc_instrument = rc_inst c, sc_record = row, sc_answer = map_option fst (rc_ai c)\<rparr>))"

definition run_recommendation_cycle :: "ai_env \<Rightarrow> bool \<Rightarrow> ai_config \<Rightarrow> recommendation_config \<Rightarrow> 'st strategy \<Rightarrow> (string \<times> candle list) list \<Rightarrow>
    string \<Rightarrow> instant \<Rightarrow> ('st rec_state, screened list) act" where
  "run_recommendation_cycle env has_provider ai_cfg rec_cfg strat universe exchange now =
     bindA (forA universe (screen_symbol env has_provider ai_cfg rec_cfg strat exchange now)) (\<lambda>cands.
     in_ai (in_ai_store (forA (enumerate 1 (sort_key candidate_key (concat cands))) (persist_candidate now))))"

section \<open>The contract of a provider\<close>

text \<open>A provider raises nothing but the two errors of its interface; then asking the model never fails.\<close>

locale llm_contract =
  fixes provider :: llm_provider
  assumes raises: "provider k system content max_tokens = Inl e \<Longrightarrow> e = LLMProviderError \<or> e = LLMOutputInvalid"
begin

lemma analyze_errors:
  assumes "analyze_instrument (env\<lparr>ae_provider := provider\<rparr>) cfg inst ms now s = (Inl e, t)"
  shows "e \<in> set ai_unavailable"
proof (cases rule: analyze_cases [of "env\<lparr>ae_provider := provider\<rparr>" cfg inst ms now s])
  case (failed e')
  then show ?thesis using assms raises [of "as_calls s" _ _ _ e'] by (auto simp: ai_unavailable_def)
qed (use assms in \<open>auto simp: ai_unavailable_def\<close>)

text \<open>Whatever the model does, an instrument whose snapshot can be built gets an answer or none.\<close>

lemma outage_is_absorbed:
  assumes "build_market_snapshot (ae_lib env) (ins_symbol inst) candles
      (position_snapshot_of prow (cd_close (last candles)))
      (map news_snapshot_of (take (nat (ai_max_news_items cfg))
        (list_for_instrument (ins_id inst) (now - ai_news_lookback_days cfg * us_per_day) (as_store s)))) = Inr ms"
    and "candles \<noteq> []"
  shows "\<exists>r. fst (try_ai_analysis (env\<lparr>ae_provider := provider\<rparr>) hp cfg inst candles prow now s) = Inr r"
proof (cases "analyze_instrument (env\<lparr>ae_provider := provider\<rparr>) cfg inst ms now s")
  case (Pair r t)
  then show ?thesis using assms analyze_errors [of env cfg inst ms now s]
    by (cases r) (auto simp: try_ai_analysis_def bindA_def getA_def liftE_def iloc_last_def catchA_def ret_def)
qed

end

interpretation anthropic: llm_contract "anthropic_analyze client p"
  by unfold_locales
    (auto simp: anthropic_analyze_def resolve_model_id_def bindE_def split: if_splits option.splits sum.splits)

section \<open>A cycle is advisory and keeps the cap\<close>

text \<open>\<open>e\<close> is \<open>d\<close> up to the tables of analyses and recommendations.\<close>

definition advisory :: "store \<Rightarrow> store \<Rightarrow> bool" where
  "advisory d e \<longleftrightarrow> e\<lparr>ai_analyses := ai_analyses d, recommendations := recommendations d\<rparr> = d"

lemma advisory_refl [simp]: "advisory d d"
  by (simp add: advisory_def)

lemma advisory_step: "advisory d (e\<lparr>ai_analyses := xs\<rparr>) = advisory d e" "advisory d (e\<lparr>recommendations := ys\<rparr>) = advisory d e"
  by (cases e; simp add: advisory_def)+

definition within_cap :: "instant \<Rightarrow> int \<Rightarrow> store \<Rightarrow> bool" where
  "within_cap now cap d \<longleftrightarrow> int (count_since (day_start now) d) \<le> cap"

lemma within_cap_recommendations [simp]: "within_cap now cap (e\<lparr>recommendations := xs\<rparr>) = within_cap now cap e"
  by (simp add: within_cap_def count_since_def)

text \<open>The two facts that an analysis and a recommendation keep.\<close>

definition cycle_ok :: "store \<Rightarrow> instant \<Rightarrow> int \<Rightarrow> store \<Rightarrow> bool" where
  "cycle_ok d0 now cap d \<longleftrightarrow> advisory d0 d \<and> within_cap now cap d"

lemma keeps_analyze:
  assumes "ai_daily_call_cap cfg \<le> cap"
  shows "keeps (\<lambda>s. cycle_ok d0 now cap (as_store s)) (analyze_instrument env cfg inst ms now)"
proof (rule keepsI)
  fix s :: ai_state assume ok: "cycle_ok d0 now cap (as_store s)"
  show "cycle_ok d0 now cap (as_store (snd (analyze_instrument env cfg inst ms now s)))"
  proof (cases rule: analyze_cases [of env cfg inst ms now s])
    case (answered r row)
    have "int (count_since (day_start now) ((as_store s)\<lparr>ai_analyses := ai_analyses (as_store s) @ [row]\<rparr>)) \<le> cap"
      using answered(2) assms by (simp add: count_since_append [of _ "as_store s" row])
    then show ?thesis using answered ok by (simp add: cycle_ok_def advisory_step within_cap_def)
  qed (use ok in auto)
qed

lemma keeps_try_ai:
  assumes "ai_daily_call_cap cfg \<le> cap"
  shows "keeps (\<lambda>s. cycle_ok d0 now cap (as_store s)) (try_ai_analysis env hp cfg inst candles prow now)"
  unfolding try_ai_analysis_def by (intro keeps_intros keeps_analyze [OF assms])

lemma keeps_in_ai: "keeps (\<lambda>a. P a) m \<Longrightarrow> keeps (\<lambda>s. P (rs_ai s)) (in_ai m)"
  by (auto simp: in_ai_def on_part_def keeps_def split: prod.splits)

lemma keeps_ask: "keeps (\<lambda>s. P (rs_ai s)) (ask_strategy lib strat candles pos)"
  by (auto simp: ask_strategy_def keeps_def split: sum.splits prod.splits)

lemma keeps_screen:
  assumes "ai_daily_call_cap ai_cfg \<le> cap"
  shows "keeps (\<lambda>s. cycle_ok d0 now cap (as_store (rs_ai s))) (screen_symbol env hp ai_cfg rec_cfg strat exchange now x)"
  unfolding screen_symbol_def
  by (intro keeps_intros keeps_ask keeps_in_ai keeps_try_ai [OF assms])

lemma keeps_persist: "keeps (cycle_ok d0 now cap) (persist_candidate now' x)"
  by (cases x) (auto simp: persist_candidate_def keeps_def bindA_def ret_def add_recommendation_def repo_add_def Let_def
      cycle_ok_def advisory_step)

lemma keeps_cycle:
  assumes "ai_daily_call_cap ai_cfg \<le> cap"
  shows "keeps (\<lambda>s. cycle_ok d0 now cap (as_store (rs_ai s)))
     (run_recommendation_cycle env hp ai_cfg rec_cfg strat universe exchange now)"
proof -
  have "keeps (\<lambda>a. cycle_ok d0 now cap (as_store a)) (in_ai_store (forA xs (persist_candidate now)))" for xs
    unfolding in_ai_store_def using keeps_forA [of "cycle_ok d0 now cap" "persist_candidate now" xs, OF keeps_persist]
    by (auto simp: on_part_def keeps_def split: prod.splits)
  then show ?thesis unfolding run_recommendation_cycle_def
    by (intro keeps_intros keeps_screen [OF assms] keeps_in_ai)
qed

lemma cycle_keeps:
  "advisory (as_store (rs_ai s)) (as_store (rs_ai (snd (run_recommendation_cycle env hp ai_cfg rec_cfg strat universe exchange now s)))) \<and>
   within_cap now (max (ai_daily_call_cap ai_cfg) (int (count_since (day_start now) (as_store (rs_ai s)))))
     (as_store (rs_ai (snd (run_recommendation_cycle env hp ai_cfg rec_cfg strat universe exchange now s))))"
proof -
  let ?cap = "max (ai_daily_call_cap ai_cfg) (int (count_since (day_start now) (as_store (rs_ai s))))"
  have "cycle_ok (as_store (rs_ai s)) now ?cap (as_store (rs_ai s))" by (simp add: cycle_ok_def within_cap_def)
  from keepsD [OF keeps_cycle [of ai_cfg ?cap] this] show ?thesis unfolding cycle_ok_def by simp
qed

section \<open>What a cycle writes\<close>

text \<open>The deterministic basis of a candidate: a signal of the strategy on the last bar of its instrument.\<close>

definition has_basis :: "numlib \<Rightarrow> 'st strategy \<Rightarrow> (string \<times> candle list) list \<Rightarrow> recommendation_config \<Rightarrow>
    instrument_row \<Rightarrow> recommendation_action \<Rightarrow> json \<Rightarrow> ai_answer option \<Rightarrow> bool" where
  "has_basis lib strat universe cfg inst action rationale answer \<longleftrightarrow> (\<exists>candles st st' pos g. (ins_symbol inst, candles) \<in> set universe \<and>
     latest_signal lib strat st candles pos = Inr (Some g, st') \<and>
     (action, rationale) = merge_recommendation (s_direction g) (pv_qty pos) answer cfg)"

lemma screen_basis:
  assumes "screen_symbol env hp ai_cfg rec_cfg strat exchange now x s = (Inr cs, t)" "c \<in> set cs" "x \<in> set universe"
  shows "has_basis (ae_lib env) strat universe rec_cfg (rc_inst c) (rc_action c) (rc_rationale c) (map_option fst (rc_ai c))"
proof -
  obtain symbol candles where x: "x = (symbol, candles)" by (cases x)
  obtain inst where inst: "get_by_symbol symbol exchange (as_store (rs_ai s)) = Some inst"
    using assms(1,2) unfolding screen_symbol_def x
    by (cases "get_by_symbol symbol exchange (as_store (rs_ai s))") (auto simp: bindA_def getA_def ret_def)
  have sym: "ins_symbol inst = symbol" using inst by (auto simp: get_by_symbol_def dest: find_SomeD)
  let ?pos = "position_view_of (get_for (ins_id inst) PAPER (as_store (rs_ai s)))"
  obtain g st where sig: "latest_signal (ae_lib env) strat (rs_strategy s) candles ?pos = Inr (Some g, st)"
    using assms(1,2) unfolding screen_symbol_def x
    by (auto simp: bindA_def getA_def ret_def inst ask_strategy_def split: sum.splits prod.splits option.splits)
  have "\<exists>ai. c = \<lparr>rc_inst = inst, rc_action = fst (merge_recommendation (s_direction g) (pv_qty ?pos) (map_option fst ai) rec_cfg),
      rc_rationale = snd (merge_recommendation (s_direction g) (pv_qty ?pos) (map_option fst ai) rec_cfg), rc_ai = ai\<rparr>"
    using assms(1,2) sig unfolding screen_symbol_def x
    by (auto simp: bindA_def getA_def ret_def inst ask_strategy_def split: sum.splits prod.splits option.splits)
  then show ?thesis using sig sym assms(3) unfolding has_basis_def x by fastforce
qed

definition written :: "nat \<times> rec_candidate \<Rightarrow> screened \<Rightarrow> bool" where
  "written rc x \<longleftrightarrow> rec_rank (sc_record x) = int (fst rc) \<and> rec_action (sc_record x) = rc_action (snd rc) \<and>
     rec_rationale (sc_record x) = rc_rationale (snd rc) \<and> sc_instrument x = rc_inst (snd rc) \<and>
     rec_instrument (sc_record x) = ins_id (rc_inst (snd rc)) \<and> sc_answer x = map_option fst (rc_ai (snd rc))"

lemma persist_written: "persist_candidate now rc d = (Inr x, e) \<Longrightarrow> written rc x"
  by (cases rc) (auto simp: persist_candidate_def written_def bindA_def ret_def add_recommendation_def repo_add_def Let_def)

definition screened_key :: "screened \<Rightarrow> (int \<times> int) \<times> string" where
  "screened_key x = (rank_sort_key (rec_action (sc_record x)) (sc_answer x), ins_symbol (sc_instrument x))"

lemma written_ranks:
  assumes "list_all2 written (enumerate n cs) xs"
  shows "map (rec_rank \<circ> sc_record) xs = map int [n..<n + length xs]" "map screened_key xs = map candidate_key cs"
  using assms
proof (induction cs arbitrary: n xs)
  case (Cons c cs)
  {
    case 1
    obtain z zs where z: "xs = z # zs" "written (n, c) z" "list_all2 written (enumerate (Suc n) cs) zs"
      using 1 by (auto simp: list_all2_Cons1)
    have "map (rec_rank \<circ> sc_record) zs = map int [Suc n..<Suc n + length zs]" by (rule Cons.IH(1) [OF z(3)])
    moreover have "[n..<n + length (z # zs)] = n # [Suc n..<Suc n + length zs]"
      using upt_conv_Cons [of n "n + length (z # zs)"] by (simp del: upt_Suc)
    ultimately show ?case using z(2) by (simp only: z(1) list.map) (simp add: written_def)
  next
    case 2
    obtain z zs where z: "xs = z # zs" "written (n, c) z" "list_all2 written (enumerate (Suc n) cs) zs"
      using 2 by (auto simp: list_all2_Cons1)
    show ?case using Cons.IH(2) [OF z(3)] z(2) by (simp add: z(1) written_def screened_key_def candidate_key_def)
  }
qed simp_all

lemma cycle_result:
  assumes "run_recommendation_cycle env hp ai_cfg rec_cfg strat universe exchange now s = (Inr rs, t)"
  shows "map (rec_rank \<circ> sc_record) rs = map int [1..<Suc (length rs)] \<and> sorted (map screened_key rs) \<and>
    list_all (\<lambda>x. has_basis (ae_lib env) strat universe rec_cfg (sc_instrument x) (rec_action (sc_record x))
      (rec_rationale (sc_record x)) (sc_answer x)) rs"
proof -
  obtain css u where screen: "forA universe (screen_symbol env hp ai_cfg rec_cfg strat exchange now) s = (Inr css, u)"
    using assms unfolding run_recommendation_cycle_def
    by (cases "forA universe (screen_symbol env hp ai_cfg rec_cfg strat exchange now) s") (auto simp: bindA_def split: sum.splits)
  let ?cs = "sort_key candidate_key (concat css)"
  obtain e where persist: "forA (enumerate 1 ?cs) (persist_candidate now) (as_store (rs_ai u)) = (Inr rs, e)"
    using assms screen unfolding run_recommendation_cycle_def
    by (auto simp: bindA_def in_ai_def in_ai_store_def on_part_def split: prod.splits)
  have w: "list_all2 written (enumerate 1 ?cs) rs"
    by (rule forA_results [OF persist_written persist])
  have basis: "has_basis (ae_lib env) strat universe rec_cfg (rc_inst c) (rc_action c) (rc_rationale c) (map_option fst (rc_ai c))"
    if "c \<in> set ?cs" for c
  proof -
    have "c \<in> set (concat css)" using that by simp
    then obtain cs where cs: "cs \<in> set css" "c \<in> set cs" unfolding set_concat by blast
    have "list_all2 (\<lambda>x cs. \<exists>v w. screen_symbol env hp ai_cfg rec_cfg strat exchange now x v = (Inr cs, w)) universe css"
      by (rule forA_results [OF _ screen]) blast
    then obtain x v w where "x \<in> set universe" "screen_symbol env hp ai_cfg rec_cfg strat exchange now x v = (Inr cs, w)"
      using cs(1) unfolding list_all2_conv_all_nth by (metis in_set_conv_nth)
    then show ?thesis using screen_basis cs(2) by blast
  qed
  have "has_basis (ae_lib env) strat universe rec_cfg (sc_instrument x) (rec_action (sc_record x)) (rec_rationale (sc_record x)) (sc_answer x)"
    if x: "x \<in> set rs" for x
  proof -
    obtain rc where "rc \<in> set (enumerate 1 ?cs)" "written rc x"
      using w x unfolding list_all2_conv_all_nth by (metis in_set_conv_nth)
    moreover have "snd rc \<in> set ?cs"
      using \<open>rc \<in> set (enumerate 1 ?cs)\<close> unfolding enumerate_eq_zip by (metis prod.collapse set_zip_rightD)
    ultimately show ?thesis using basis [of "snd rc"] unfolding written_def by simp
  qed
  then show ?thesis using written_ranks [OF w] by (simp add: list_all_iff del: upt_Suc)
qed

text \<open>The gate only ever weakens: a BUY on negative news, a SELL on positive news, to HOLD.\<close>

lemma merge_weakens:
  "fst (merge_recommendation dir qty answer cfg) = deterministic_action dir qty \<or>
   (\<exists>a. answer = Some a \<and> fst (merge_recommendation dir qty answer cfg) = RecHold \<and> veto_conviction_threshold cfg \<le> ao_conviction a \<and>
      (deterministic_action dir qty = RecBuy \<and> ao_news_impact a = NewsNegative \<or>
       deterministic_action dir qty = RecSell \<and> ao_news_impact a = NewsPositive))"
  by (auto simp: merge_recommendation_def vetoed_def Let_def split: option.split if_splits)

section \<open>The screener agrees with a backtest's last bar\<close>

text \<open>A strategy whose answers do not depend on what it saw before.\<close>

definition memoryless :: "'st strategy \<Rightarrow> bool" where
  "memoryless strat \<longleftrightarrow> (\<forall>st st' ctx. map_sum id fst (st_on_candle strat st ctx) = map_sum id fst (st_on_candle strat st' ctx))"

lemma bt_fill_unfilled: "bt_fill env candles i s = Inr t \<Longrightarrow> bs_unfilled t = bs_unfilled s"
  by (auto simp: bt_fill_def bindE_Inr_conv split: option.splits prod.splits)

lemma bt_bar_unfilled:
  assumes "bt_bar env strat candles series start n i s = Inr t" "Suc i \<noteq> n"
  shows "bs_unfilled t = bs_unfilled s"
proof -
  obtain u where u: "bt_fill env candles i s = Inr u" "bt_decide strat candles series start n i (bt_mark candles i u) = Inr t"
    using assms(1) by (auto simp: bt_bar_def elim: bindE_InrE)
  from u(2) have "bs_unfilled t = bs_unfilled u" using assms(2) by (cases rule: bt_decide_cases) auto
  then show ?thesis using bt_fill_unfilled [OF u(1)] by simp
qed

lemma bt_loop_unfilled:
  "bt_loop env strat candles series start n is s = Inr t \<Longrightarrow> \<forall>i \<in> set is. Suc i \<noteq> n \<Longrightarrow> bs_unfilled t = bs_unfilled s"
proof (induction "is" arbitrary: s)
  case (Cons i "is")
  obtain u where u: "bt_bar env strat candles series start n i s = Inr u" "bt_loop env strat candles series start n is u = Inr t"
    using Cons.prems(1) by (auto elim: bindE_InrE)
  then show ?case using Cons.IH Cons.prems(2) bt_bar_unfilled by fastforce
qed simp

text \<open>The last bar of a replay that returns: its decision sees the final position.\<close>

lemma backtest_last_bar:
  assumes "run_backtest env strat candles cash = Inr r"
  obtains series st u sig where "candles \<noteq> []" "compute_indicator_set (be_lib env) candles (st_required strat) = Inr series"
    and "br_final r = as_view u"
    and "int (length candles - 1) < effective_start strat series \<and> sig = None \<or>
      effective_start strat series \<le> int (length candles - 1) \<and>
      map_sum id fst (st_on_candle strat st (bt_context candles series (length candles - 1) u)) = Inr sig"
    and "br_unfilled r = (case sig of None \<Rightarrow> [] | Some g \<Rightarrow>
      [\<lparr>uf_index = length candles - 1, uf_ts = cd_ts (last candles), uf_direction = s_direction g\<rparr>])"
proof -
  have ne: "candles \<noteq> []" using assms by (auto simp: run_backtest_def)
  obtain series t where series: "compute_indicator_set (be_lib env) candles (st_required strat) = Inr series"
    and loop: "bt_loop env strat candles series (effective_start strat series) (length candles) [0..<length candles] (bt_init strat cash) = Inr t"
    and r: "br_unfilled r = bs_unfilled t" "br_final r = as_view (bs_pf t)"
    using assms ne by (auto simp: run_backtest_def split: if_splits elim!: bindE_InrE)
  obtain k where k: "length candles = Suc k" using ne by (cases candles) auto
  have split: "[0..<length candles] = [0..<k] @ [k]" by (simp add: k)
  obtain u where u: "bt_loop env strat candles series (effective_start strat series) (length candles) [0..<k] (bt_init strat cash) = Inr u"
    and bar: "bt_bar env strat candles series (effective_start strat series) (length candles) k u = Inr t"
    using loop unfolding split by (auto simp: bt_loop_append bindE_def split: sum.splits)
  have "bs_unfilled u = []" using bt_loop_unfilled [OF u] by (auto simp: k bt_init_def)
  obtain v where v: "bt_fill env candles k u = Inr v"
    and dec: "bt_decide strat candles series (effective_start strat series) (length candles) k (bt_mark candles k v) = Inr t"
    using bar by (auto simp: bt_bar_def elim: bindE_InrE)
  have uv: "bs_unfilled (bt_mark candles k v) = []" using bt_fill_unfilled [OF v] \<open>bs_unfilled u = []\<close> by simp
  have last: "candles ! k = last candles" using ne k by (simp add: last_conv_nth)
  from dec show thesis
  proof (cases rule: bt_decide_cases)
    case 1
    show thesis by (rule that [OF ne series r(2), of None]) (use 1 uv in \<open>auto simp: k r(1)\<close>)
  next
    case (2 st)
    show thesis
      by (rule that [OF ne series r(2), of None "bs_strategy (bt_mark candles k v)"]) (use 2 uv in \<open>auto simp: k r(1)\<close>)
  next
    case (3 g st)
    show thesis
      by (rule that [OF ne series r(2), of "Some g" "bs_strategy (bt_mark candles k v)"]) (use 3 uv last in \<open>auto simp: k r(1)\<close>)
  qed
qed

lemma screener_last_bar:
  assumes run: "run_backtest env strat candles cash = Inr r" and mem: "memoryless strat"
  shows "\<exists>sig st'. latest_signal (be_lib env) strat st candles (br_final r) = Inr (sig, st') \<and>
    br_unfilled r = (case sig of None \<Rightarrow> [] | Some g \<Rightarrow>
      [\<lparr>uf_index = length candles - 1, uf_ts = cd_ts (last candles), uf_direction = s_direction g\<rparr>])"
proof -
  from run obtain series st0 u sig where b: "candles \<noteq> []" "compute_indicator_set (be_lib env) candles (st_required strat) = Inr series"
    "br_final r = as_view u"
    "int (length candles - 1) < effective_start strat series \<and> sig = None \<or>
      effective_start strat series \<le> int (length candles - 1) \<and>
      map_sum id fst (st_on_candle strat st0 (bt_context candles series (length candles - 1) u)) = Inr sig"
    "br_unfilled r = (case sig of None \<Rightarrow> [] | Some g \<Rightarrow>
      [\<lparr>uf_index = length candles - 1, uf_ts = cd_ts (last candles), uf_direction = s_direction g\<rparr>])"
    by (rule backtest_last_bar)
  have "map_sum id fst (latest_signal (be_lib env) strat st candles (br_final r)) = Inr sig"
  proof (cases "int (length candles - 1) < effective_start strat series")
    case True
    then show ?thesis using b(1,2,4) by (auto simp: latest_signal_def Let_def)
  next
    case False
    have "latest_signal (be_lib env) strat st candles (br_final r) = st_on_candle strat st (bt_context candles series (length candles - 1) u)"
      using False by (simp add: latest_signal_def Let_def b(1,2,3) bt_context_def)
    then show ?thesis using False b(4) mem unfolding memoryless_def by metis
  qed
  then show ?thesis using b(5)
    by (cases "latest_signal (be_lib env) strat st candles (br_final r)") (auto simp: prod_eq_iff)
qed

end
