(* ===== verification/PT_Settings.thy ===== *)
theory PT_Settings
  imports PT_Config PT_Store
begin

text \<open>
  Loading the configuration (\<open>core/config.py\<close>): the merged configuration \<open>AppConfig\<close>, the secrets, and
  \<open>load_config\<close> with its three layers (environment, \<open>local.yaml\<close>, \<open>default.yaml\<close>). A YAML file is its parsed
  value (or the fact that it does not parse); pydantic's validation of the merged value is the parameter
  \<open>validate\<close>, of which the program relies on the field constraints, \<open>app_config_ok\<close>. What is proved: exactly when
  loading succeeds, and that each setting comes from the highest layer that has it.
\<close>

section \<open>The merged configuration and the secrets\<close>

record data_config =
  dt_candle_root :: string
  dt_db_path :: string

definition data_config_default :: data_config where
  "data_config_default = \<lparr>dt_candle_root = ''data/candles'', dt_db_path = ''data/personaltrade.db''\<rparr>"

record app_config =
  app_trading :: trading_config
  app_risk :: risk_config
  app_ai :: ai_config
  app_data :: data_config
  app_costs :: cost_config
  app_backtest :: backtest_config
  app_paper :: paper_config
  app_news :: news_config
  app_recommendation :: recommendation_config
  app_dashboard :: dashboard_config
  app_upstox :: upstox_config
  app_soak :: soak_config

definition app_config_default :: app_config where
  "app_config_default = \<lparr>app_trading = trading_config_default, app_risk = risk_config_default, app_ai = ai_config_default,
     app_data = data_config_default, app_costs = cost_config_default, app_backtest = backtest_config_default,
     app_paper = paper_config_default, app_news = news_config_default, app_recommendation = recommendation_config_default,
     app_dashboard = dashboard_config_default, app_upstox = upstox_config_default, app_soak = soak_config_default\<rparr>"

definition app_config_ok :: "app_config \<Rightarrow> bool" where
  "app_config_ok c \<longleftrightarrow> trading_config_ok (app_trading c) \<and> risk_config_ok (app_risk c) \<and> ai_config_ok (app_ai c) \<and>
     cost_config_ok (app_costs c) \<and> backtest_config_ok (app_backtest c) \<and> paper_config_ok (app_paper c) \<and>
     news_config_ok (app_news c) \<and> dashboard_config_ok (app_dashboard c) \<and> upstox_config_ok (app_upstox c) \<and> soak_config_ok (app_soak c)"

lemma app_config_default_ok: "app_config_ok app_config_default"
  by (simp add: app_config_ok_def app_config_default_def config_defaults_ok)

record secrets =
  sec_upstox_api_key :: "string option"
  sec_upstox_api_secret :: "string option"
  sec_upstox_redirect_uri :: string
  sec_upstox_access_token :: "string option"
  sec_anthropic_api_key :: "string option"
  sec_aws_bearer_token :: "string option"
  sec_aws_region :: "string option"
  sec_token_encryption_key :: "string option"
  sec_dashboard_password_hash :: "string option"
  sec_dashboard_session_secret :: "string option"

definition secrets_default :: secrets where
  "secrets_default = \<lparr>sec_upstox_api_key = None, sec_upstox_api_secret = None,
     sec_upstox_redirect_uri = ''http://localhost:8700/auth/callback'', sec_upstox_access_token = None,
     sec_anthropic_api_key = None, sec_aws_bearer_token = None, sec_aws_region = None, sec_token_encryption_key = None,
     sec_dashboard_password_hash = None, sec_dashboard_session_secret = None\<rparr>"

section \<open>The layers\<close>

text \<open>A file of the configuration directory: absent, not YAML, or its value (\<open>JNull\<close> for an empty file).\<close>

datatype yaml_file = NoFile | BadYaml | YamlFile json

definition APP_SECTIONS :: "string list" where
  "APP_SECTIONS = [''trading'', ''risk'', ''ai'', ''data'', ''log'', ''costs'', ''backtest'', ''paper'', ''news'',
     ''recommendation'', ''dashboard'', ''upstox'', ''soak'']"

fun reject_unknown_top_level_keys :: "yaml_file \<Rightarrow> py_error + unit" where
  "reject_unknown_top_level_keys NoFile = Inl PyOSError"
| "reject_unknown_top_level_keys BadYaml = Inl YAMLError"
| "reject_unknown_top_level_keys (YamlFile JNull) = Inr ()"
| "reject_unknown_top_level_keys (YamlFile (JObj kvs)) = (if set (map fst kvs) \<subseteq> set APP_SECTIONS then Inr () else Inl ConfigError)"
| "reject_unknown_top_level_keys (YamlFile _) = Inl ConfigError"

text \<open>
  pydantic-settings merges the dictionaries of its sources, the first source first: a key that both have is
  merged again when both values are dictionaries, and otherwise the earlier source wins.
\<close>

fun deep_merge :: "json \<Rightarrow> json \<Rightarrow> json" and merge_keys :: "(string \<times> json) list \<Rightarrow> (string \<times> json) list \<Rightarrow> (string \<times> json) list" where
  "deep_merge (JObj hi) (JObj lo) = JObj (merge_keys hi lo @ filter (\<lambda>(k, v). k \<notin> set (map fst hi)) lo)"
| "deep_merge hi lo = hi"
| "merge_keys [] lo = []"
| "merge_keys ((k, v) # hi) lo = (k, case map_of lo k of None \<Rightarrow> v | Some w \<Rightarrow> deep_merge v w) # merge_keys hi lo"

definition layer :: "yaml_file \<Rightarrow> json" where
  "layer f = (case f of YamlFile (JObj kvs) \<Rightarrow> JObj kvs | _ \<Rightarrow> JObj [])"

definition merged_settings :: "json \<Rightarrow> yaml_file \<Rightarrow> yaml_file \<Rightarrow> json" where
  "merged_settings env local_file default_file = deep_merge env (deep_merge (layer local_file) (layer default_file))"

text \<open>\<open>env\<close> is the value of the environment source: the \<open>PT_\<close> variables, split at \<open>__\<close>.\<close>

definition load_config :: "(json \<Rightarrow> app_config option) \<Rightarrow> json \<Rightarrow> yaml_file \<Rightarrow> yaml_file \<Rightarrow> py_error + app_config" where
  "load_config validate env local_file default_file = (
     if default_file = NoFile then Inl ConfigError else
     bindE (reject_unknown_top_level_keys default_file) (\<lambda>_.
     bindE (if local_file = NoFile then Inr () else reject_unknown_top_level_keys local_file) (\<lambda>_.
     case validate (merged_settings env local_file default_file) of
       None \<Rightarrow> Inl ConfigError
     | Some cfg \<Rightarrow> Inr cfg)))"

section \<open>When loading succeeds\<close>

definition file_ok :: "yaml_file \<Rightarrow> bool" where
  "file_ok f \<longleftrightarrow> f = YamlFile JNull \<or> (\<exists>kvs. f = YamlFile (JObj kvs) \<and> set (map fst kvs) \<subseteq> set APP_SECTIONS)"

lemma reject_unknown_ok: "reject_unknown_top_level_keys f = Inr () \<longleftrightarrow> file_ok f"
  by (cases f rule: reject_unknown_top_level_keys.cases) (auto simp: file_ok_def)

lemma load_config_Inr:
  "load_config validate env l d = Inr cfg \<longleftrightarrow>
     file_ok d \<and> (l = NoFile \<or> file_ok l) \<and> validate (merged_settings env l d) = Some cfg"
  by (auto simp: load_config_def reject_unknown_ok [symmetric] bindE_Inr_conv split: option.splits)

lemma load_config_Inl:
  "load_config validate env l d = Inl e \<Longrightarrow> e \<in> {ConfigError, YAMLError}"
  by (cases d rule: reject_unknown_top_level_keys.cases; cases l rule: reject_unknown_top_level_keys.cases)
    (auto simp: load_config_def split: option.splits if_splits)

section \<open>Where a setting comes from\<close>

fun json_path :: "string list \<Rightarrow> json \<Rightarrow> json option" where
  "json_path [] j = Some j"
| "json_path (k # ks) j = (case json_get k j of None \<Rightarrow> None | Some v \<Rightarrow> json_path ks v)"

text \<open>A value that is not a dictionary on the way hides everything below it of the lower layers.\<close>

fun hides :: "string list \<Rightarrow> json \<Rightarrow> bool" where
  "hides ks (JObj kvs) = (case ks of [] \<Rightarrow> False | k # ks' \<Rightarrow> (case map_of kvs k of None \<Rightarrow> False | Some v \<Rightarrow> hides ks' v))"
| "hides ks _ = True"

definition is_leaf :: "json option \<Rightarrow> bool" where
  "is_leaf j \<longleftrightarrow> (case j of Some (JObj _) \<Rightarrow> False | _ \<Rightarrow> True)"

lemma map_of_merge_keys:
  "map_of (merge_keys hi lo) k = (case map_of hi k of None \<Rightarrow> None
     | Some v \<Rightarrow> Some (case map_of lo k of None \<Rightarrow> v | Some w \<Rightarrow> deep_merge v w))"
  by (induction hi) (auto split: option.split)

lemma map_of_filter_keys: "map_of (filter (\<lambda>(k, v). k \<notin> A) xs) k = (if k \<in> A then None else map_of xs k)"
  by (induction xs) auto

lemma json_get_merge:
  "json_get k (deep_merge (JObj hi) (JObj lo)) = (case map_of hi k of None \<Rightarrow> map_of lo k
     | Some v \<Rightarrow> Some (case map_of lo k of None \<Rightarrow> v | Some w \<Rightarrow> deep_merge v w))"
proof (cases "map_of hi k")
  case None
  then have "k \<notin> fst ` set hi" by (simp add: map_of_eq_None_iff)
  with None show ?thesis by (simp add: map_of_merge_keys map_add_def map_of_filter_keys)
next
  case (Some v)
  then have "k \<in> fst ` set hi" by (force dest: map_of_SomeD)
  with Some show ?thesis by (simp add: map_of_merge_keys map_add_def map_of_filter_keys)
qed

lemma merge_hides: "hides ks hi \<Longrightarrow> json_path ks (deep_merge hi lo) = json_path ks hi"
proof (induction ks arbitrary: hi lo)
  case Nil
  then show ?case by (cases hi) auto
next
  case (Cons k ks)
  show ?case
  proof (cases hi)
    case (JObj kvs)
    with Cons.prems obtain v where v: "map_of kvs k = Some v" "hides ks v" by (auto split: option.splits)
    show ?thesis
    proof (cases lo)
      case lo: (JObj lows)
      show ?thesis using v Cons.IH [of v] by (simp add: JObj lo json_get_merge del: deep_merge.simps split: option.split)
    qed (simp_all add: JObj)
  qed simp_all
qed

lemma merge_falls_through:
  "\<not> hides ks hi \<Longrightarrow> json_path ks hi = None \<Longrightarrow> json_path ks (deep_merge hi lo) = json_path ks lo"
proof (induction ks arbitrary: hi lo)
  case (Cons k ks)
  from Cons.prems(1) obtain kvs where hi: "hi = JObj kvs" by (cases hi) auto
  show ?case
  proof (cases lo)
    case lo: (JObj lows)
    show ?thesis using Cons.prems Cons.IH
      by (auto simp: hi lo json_get_merge simp del: deep_merge.simps split: option.splits)
  qed (use Cons.prems hi in \<open>auto split: option.splits\<close>)
qed simp

lemma dict_stays_dict:
  "\<not> hides ks hi \<Longrightarrow> json_path ks hi = Some v \<Longrightarrow> \<not> is_leaf (json_path ks (deep_merge hi lo))"
proof (induction ks arbitrary: hi lo)
  case Nil
  then show ?case by (cases hi; cases lo) (auto simp: is_leaf_def)
next
  case (Cons k ks)
  from Cons.prems(1) obtain kvs where hi: "hi = JObj kvs" by (cases hi) auto
  from Cons.prems obtain w where w: "map_of kvs k = Some w" "\<not> hides ks w" "json_path ks w = Some v"
    by (auto simp: hi split: option.splits)
  have same: "\<not> is_leaf (json_path ks w)" using Cons.IH [OF w(2,3), of "JNull"] by (cases w) auto
  show ?case
  proof (cases lo)
    case lo: (JObj lows)
    show ?thesis using w same Cons.IH [OF w(2,3)]
      by (auto simp: hi lo json_get_merge simp del: deep_merge.simps split: option.split)
  qed (use w same in \<open>auto simp: hi\<close>)
qed

text \<open>The first layer that decides the setting \<open>ks\<close>.\<close>

fun setting_of :: "string list \<Rightarrow> json list \<Rightarrow> json option" where
  "setting_of ks [] = None"
| "setting_of ks [j] = json_path ks j"
| "setting_of ks (j # js) = (if hides ks j then json_path ks j else setting_of ks js)"

lemma merge_setting:
  assumes "is_leaf (json_path ks (deep_merge hi lo))"
  shows "json_path ks (deep_merge hi lo) = (if hides ks hi then json_path ks hi else json_path ks lo)"
    and "\<not> hides ks hi \<Longrightarrow> is_leaf (json_path ks lo)"
  using assms merge_hides [of ks hi lo] merge_falls_through [of ks hi lo] dict_stays_dict [of ks hi _ lo]
  by (cases "json_path ks hi"; auto)+

lemma merged_setting:
  assumes "is_leaf (json_path ks (merged_settings env l d))"
  shows "json_path ks (merged_settings env l d) = setting_of ks [env, layer l, layer d]"
proof (cases "hides ks env")
  case True
  then show ?thesis using merge_hides by (simp add: merged_settings_def)
next
  case False
  let ?rest = "deep_merge (layer l) (layer d)"
  have "json_path ks (merged_settings env l d) = json_path ks ?rest" "is_leaf (json_path ks ?rest)"
    using merge_setting [OF assms [unfolded merged_settings_def]] False by (simp_all add: merged_settings_def)
  then show ?thesis using merge_setting(1) [of ks "layer l" "layer d"] False by simp
qed

end
