(* ===== verification/PT_Dashboard.thy ===== *)
theory PT_Dashboard
  imports PT_Settings PT_Analytics PT_Prompt PT_Recommend
begin

text \<open>
  The web dashboard (\<open>api/\<close>): the session cookie and its checks (\<open>auth.py\<close>), the view models with their JSON
  (\<open>viewmodels.py\<close>), and the handlers of the pages, the REST API and the websocket (\<open>routes/\<close>). A request is the
  route with its parsed parameters; what FastAPI does before a handler (routing, form validation, the signature of
  the cookie) is not modelled, so a client is whoever presents its own signed cookie. argon2, the texts of Decimals
  and datetimes, \<open>token_urlsafe\<close> and the clock are parameters; a page is the context of its template.
\<close>

section \<open>Sessions, passwords, tokens\<close>

text \<open>The cookie: \<open>session["authenticated"]\<close>, which is only ever set to true, and \<open>session["csrf_token"]\<close>.\<close>

record web_session =
  wsn_authenticated :: bool
  wsn_csrf :: "string option"

definition log_in :: "string \<Rightarrow> web_session \<Rightarrow> web_session" where
  "log_in fresh s = s\<lparr>wsn_authenticated := True, wsn_csrf := Some fresh\<rparr>"

definition log_out :: "web_session \<Rightarrow> web_session" where
  "log_out s = \<lparr>wsn_authenticated = False, wsn_csrf = None\<rparr>"

definition is_authenticated :: "web_session \<Rightarrow> bool" where
  "is_authenticated s = wsn_authenticated s"

definition csrf_token :: "string \<Rightarrow> web_session \<Rightarrow> string \<times> web_session" where
  "csrf_token fresh s = (case wsn_csrf s of
     Some t \<Rightarrow> if t = [] then (fresh, s\<lparr>wsn_csrf := Some fresh\<rparr>) else (t, s)
   | None \<Rightarrow> (fresh, s\<lparr>wsn_csrf := Some fresh\<rparr>))"

text \<open>\<open>compare_digest\<close> takes two ASCII texts and raises \<open>TypeError\<close> for any other.\<close>

definition is_ascii :: "string \<Rightarrow> bool" where
  "is_ascii s = list_all (\<lambda>c. of_char c < (128 :: nat)) s"

definition compare_digest :: "string \<Rightarrow> string \<Rightarrow> py_error + bool" where
  "compare_digest a b = (if is_ascii a \<and> is_ascii b then Inr (a = b) else Inl PyTypeError)"

definition verify_csrf :: "web_session \<Rightarrow> string \<Rightarrow> py_error + bool" where
  "verify_csrf s submitted = (case wsn_csrf s of
     None \<Rightarrow> Inr False
   | Some expected \<Rightarrow> if expected = [] then Inr False else compare_digest expected submitted)"

definition require_login :: "web_session \<Rightarrow> py_error + unit" where
  "require_login s = (if is_authenticated s then Inr () else Inl (HTTPException 401))"

definition require_csrf :: "web_session \<Rightarrow> string \<Rightarrow> py_error + unit" where
  "require_csrf s submitted = bindE (verify_csrf s submitted) (\<lambda>ok. if ok then Inr () else Inl (HTTPException 403))"

text \<open>What argon2 says: verified, a mismatch, another verification error, or a hash it cannot read (a \<open>ValueError\<close>).\<close>

datatype argon2_result = Argon2Verified | Argon2Mismatch | Argon2Failure | Argon2InvalidHash

definition verify_password :: "(string \<Rightarrow> string \<Rightarrow> argon2_result) \<Rightarrow> string \<Rightarrow> string \<Rightarrow> py_error + bool" where
  "verify_password argon2 password_hash password = (case argon2 password_hash password of
     Argon2Verified \<Rightarrow> Inr True | Argon2Mismatch \<Rightarrow> Inr False | Argon2Failure \<Rightarrow> Inr False | Argon2InvalidHash \<Rightarrow> Inl PyValueError)"

section \<open>View models\<close>

record position_line_view =
  pl_symbol :: string
  pl_qty :: int
  pl_avg_price :: rat

record account_view =
  av_funds :: funds
  av_positions :: "position_line_view list"
  av_kill_switch :: kill_switch_row

record recommendation_view =
  rv_rank :: int
  rv_symbol :: string
  rv_action :: recommendation_action
  rv_rationale :: json
  rv_created_at :: instant

text \<open>The symbol of an instrument, or \<open>instrument#id\<close> when its row is missing.\<close>

definition symbol_or_id :: "store \<Rightarrow> nat \<Rightarrow> string" where
  "symbol_or_id d i = (case get_instrument i d of Some inst \<Rightarrow> ins_symbol inst | None \<Rightarrow> ''instrument#'' @ int_text (int i))"

definition dashboard_broker :: "app_config \<Rightarrow> interval \<Rightarrow> candle_store \<Rightarrow> instant \<Rightarrow> paper_env" where
  "dashboard_broker cfg iv cs now = \<lparr>pe_rates = app_costs cfg, pe_cfg = app_paper cfg,
     pe_quotes = replay_get_ltp (\<lambda>sym exch. map cd_close (store_read (exch, sym, iv) None None cs)), pe_clock = (\<lambda>_. now)\<rparr>"

definition account_snapshot :: "app_config \<Rightarrow> candle_store \<Rightarrow> instant \<Rightarrow> (store, account_view) act" where
  "account_snapshot cfg cs now = seqA (account_get_or_create (capital (app_risk cfg)))
     (bindA (paper_get_funds (dashboard_broker cfg (tc_interval (app_trading cfg)) cs now)) (\<lambda>f.
      bindA (getA (\<lambda>d. map (\<lambda>p. \<lparr>pl_symbol = symbol_or_id d (bp_instrument p), pl_qty = bp_qty p, pl_avg_price = bp_avg_price p\<rparr>)
        (paper_positions d))) (\<lambda>rows.
      bindA ks_state (\<lambda>state.
      ret \<lparr>av_funds = f, av_positions = rows, av_kill_switch = state\<rparr>))))"

definition latest_recommendations :: "store \<Rightarrow> recommendation_view list" where
  "latest_recommendations d = map (\<lambda>r. \<lparr>rv_rank = rec_rank r, rv_symbol = symbol_or_id d (rec_instrument r), rv_action = rec_action r,
     rv_rationale = rec_rationale r, rv_created_at = rec_created_at r\<rparr>) (list_latest_cycle d)"

definition default_report_interval :: "app_config \<Rightarrow> interval" where
  "default_report_interval cfg = tc_interval (app_trading cfg)"

section \<open>JSON\<close>

text \<open>The text of a trip reason and the JSON of a float (of which infinity is one) are parameters too.\<close>

record web_render =
  wr_text :: renderer
  wr_reason :: "trip_reason \<Rightarrow> string"
  wr_float :: "xfloat \<Rightarrow> json"

definition jint :: "int \<Rightarrow> json" where "jint i = JNum (of_int i)"

definition opt_json :: "('a \<Rightarrow> json) \<Rightarrow> 'a option \<Rightarrow> json" where
  "opt_json f x = (case x of None \<Rightarrow> JNull | Some y \<Rightarrow> f y)"

definition money_json :: "web_render \<Rightarrow> rat \<Rightarrow> json" where
  "money_json wr x = JStr (rd_decimal (wr_text wr) x)"

definition time_json :: "web_render \<Rightarrow> instant \<Rightarrow> json" where
  "time_json wr t = JStr (rd_instant (wr_text wr) t)"

definition account_snapshot_json :: "web_render \<Rightarrow> account_view \<Rightarrow> json" where
  "account_snapshot_json wr v = (let k = av_kill_switch v in JObj
     [(''funds'', JObj [(''cash'', money_json wr (f_cash (av_funds v))), (''equity'', money_json wr (f_equity (av_funds v)))]),
      (''positions'', JList (map (\<lambda>p. JObj [(''symbol'', JStr (pl_symbol p)), (''qty'', jint (pl_qty p)),
         (''avg_price'', money_json wr (pl_avg_price p))]) (av_positions v))),
      (''kill_switch'', JObj [(''tripped'', JBool (ks_tripped k)), (''reason'', opt_json (\<lambda>r. JStr (wr_reason wr r)) (ks_reason k)),
         (''tripped_at'', opt_json (time_json wr) (ks_tripped_at k)), (''consecutive_errors'', jint (ks_consecutive_errors k))])])"

definition recommendation_row_json :: "web_render \<Rightarrow> recommendation_view \<Rightarrow> json" where
  "recommendation_row_json wr r = JObj [(''rank'', jint (rv_rank r)), (''symbol'', JStr (rv_symbol r)),
     (''action'', JStr (action_text (rv_action r))), (''rationale'', rv_rationale r), (''created_at'', time_json wr (rv_created_at r))]"

fun side_text :: "order_side \<Rightarrow> string" where
  "side_text BUY = ''BUY''"
| "side_text SELL = ''SELL''"

definition journal_entry_json :: "web_render \<Rightarrow> journal_entry \<Rightarrow> json" where
  "journal_entry_json wr e = JObj [(''symbol'', JStr (je_symbol e)), (''side'', JStr (side_text (je_side e))), (''qty'', jint (je_qty e)),
     (''entry_price'', money_json wr (je_entry_price e)), (''entry_at'', time_json wr (je_entry_at e)),
     (''exit_price'', money_json wr (je_exit_price e)), (''exit_at'', time_json wr (je_exit_at e)),
     (''realized_pnl'', money_json wr (je_realized_pnl e)), (''total_costs'', money_json wr (je_total_costs e))]"

definition breakdown_json :: "web_render \<Rightarrow> breakdown \<Rightarrow> json" where
  "breakdown_json wr b = JObj [(''label'', JStr (bk_label b)), (''realized_pnl'', money_json wr (bk_realized b)),
     (''closed_trades'', jint (int (bk_closed_trades b))), (''win_rate'', wr_float wr (Finite (bk_win_rate b)))]"

definition report_json :: "web_render \<Rightarrow> performance_report \<Rightarrow> json" where
  "report_json wr r = (let s = pr_summary r in JObj [(''since'', time_json wr (pr_since r)),
     (''summary'', JObj [(''realized_pnl'', money_json wr (ps_realized s)), (''unrealized_pnl'', money_json wr (ps_unrealized s)),
        (''total_pnl'', money_json wr (ps_total s)), (''win_rate'', wr_float wr (Finite (ps_win_rate s))),
        (''expectancy'', wr_float wr (Finite (ps_expectancy s))), (''profit_factor'', wr_float wr (ps_profit_factor s)),
        (''closed_trades'', jint (int (ps_closed_trades s))), (''cagr'', wr_float wr (Finite (ps_cagr s))),
        (''sharpe'', wr_float wr (Finite (ps_sharpe s))), (''max_drawdown'', wr_float wr (Finite (ps_max_drawdown s)))]),
     (''by_instrument'', JList (map (breakdown_json wr) (pr_by_instrument r))),
     (''by_strategy'', JList (map (breakdown_json wr) (pr_by_strategy r))),
     (''journal'', JList (map (journal_entry_json wr) (pr_journal r)))])"

section \<open>Requests and handlers\<close>

datatype period = Daily | Weekly

text \<open>One constructor per route; the forms carry their fields. \<open>WsLive n\<close> is a websocket that is polled \<open>n\<close> times.\<close>

datatype web_request =
    GetLogin | PostLogin string | PostLogout
  | GetOverview | GetRecommendations | GetJournal | GetReports period
  | ApiAccount | ApiRecommendations | ApiJournal | ApiReport period
  | ApiTrip string string
  | ApiReset string string string
  | WsLive nat

datatype page =
    LoginPage bool
  | OverviewPage account_view string
  | RecommendationsPage "recommendation_view list"
  | JournalPage "journal_entry list"
  | ReportsPage performance_report period

datatype web_response = Redirect string | Page int page | JsonOk json | WsClosed int | WsPushed "json list" | WebFailure int

record web_env =
  we_cfg :: app_config
  we_secrets :: secrets
  we_candles :: candle_store
  we_argon2 :: "string \<Rightarrow> string \<Rightarrow> argon2_result"
  we_render :: web_render
  we_fpow :: "rat \<Rightarrow> rat \<Rightarrow> rat"

text \<open>What one request finds: the clock and a fresh token.\<close>

record web_input =
  wi_now :: instant
  wi_fresh :: string

record web_state =
  wb_store :: store
  wb_session :: web_session

definition redirect_to_login :: web_response where
  "redirect_to_login = Redirect ''/login''"

text \<open>\<open>create_app\<close> refuses to start without its two secrets.\<close>

definition create_app :: "secrets \<Rightarrow> py_error + unit" where
  "create_app sec = (if sec_dashboard_password_hash sec = None \<or> sec_dashboard_session_secret sec = None then Inl ConfigError else Inr ())"

text \<open>\<open>get_db\<close>: one unit of work per request.\<close>

definition get_db :: "(store, 'a) act \<Rightarrow> (web_state, 'a) act" where
  "get_db m = on_part wb_store (\<lambda>d w. w\<lparr>wb_store := d\<rparr>) (session_scope m)"

definition check_session :: "(web_session \<Rightarrow> py_error + 'a) \<Rightarrow> (web_state, 'a) act" where
  "check_session f = (\<lambda>w. (f (wb_session w), w))"

definition set_session :: "(web_session \<Rightarrow> web_session) \<Rightarrow> (web_state, unit) act" where
  "set_session f = modA (\<lambda>w. w\<lparr>wb_session := f (wb_session w)\<rparr>)"

definition password_accepted :: "web_env \<Rightarrow> string \<Rightarrow> py_error + bool" where
  "password_accepted env password = (case sec_dashboard_password_hash (we_secrets env) of
     None \<Rightarrow> Inr False | Some h \<Rightarrow> verify_password (we_argon2 env) h password)"

definition login_form :: "(web_state, web_response) act" where
  "login_form = bindA (getA (\<lambda>w. is_authenticated (wb_session w))) (\<lambda>yes. ret (if yes then Redirect ''/'' else Page 200 (LoginPage False)))"

definition login_submit :: "web_env \<Rightarrow> web_input \<Rightarrow> string \<Rightarrow> (web_state, web_response) act" where
  "login_submit env inp password = bindA (liftE (password_accepted env password)) (\<lambda>ok.
     if \<not> ok then ret (Page 401 (LoginPage True)) else seqA (set_session (log_in (wi_fresh inp))) (ret (Redirect ''/'')))"

definition logout :: "(web_state, web_response) act" where
  "logout = seqA (set_session log_out) (ret redirect_to_login)"

definition page_guard :: "(web_state, web_response) act \<Rightarrow> (web_state, web_response) act" where
  "page_guard m = bindA (getA (\<lambda>w. is_authenticated (wb_session w))) (\<lambda>yes. if yes then m else ret redirect_to_login)"

definition overview :: "web_env \<Rightarrow> web_input \<Rightarrow> (web_state, web_response) act" where
  "overview env inp = page_guard (bindA (get_db (account_snapshot (we_cfg env) (we_candles env) (wi_now inp))) (\<lambda>snap.
     bindA (getA (\<lambda>w. fst (csrf_token (wi_fresh inp) (wb_session w)))) (\<lambda>tok.
     seqA (set_session (\<lambda>s. snd (csrf_token (wi_fresh inp) s))) (ret (Page 200 (OverviewPage snap tok))))))"

definition recommendations_page :: "(web_state, web_response) act" where
  "recommendations_page = page_guard (bindA (get_db (getA latest_recommendations)) (\<lambda>rows. ret (Page 200 (RecommendationsPage rows))))"

definition read_journal :: "(store, journal_entry list) act" where
  "read_journal = (\<lambda>d. (build_journal d PAPER None, d))"

definition journal_page :: "(web_state, web_response) act" where
  "journal_page = page_guard (bindA (get_db read_journal) (\<lambda>entries. ret (Page 200 (JournalPage entries))))"

definition period_start :: "period \<Rightarrow> instant \<Rightarrow> instant" where
  "period_start p now = (case p of Daily \<Rightarrow> ist_midnight_utc now | Weekly \<Rightarrow> ist_week_start_utc now)"

definition read_report :: "web_env \<Rightarrow> instant \<Rightarrow> (store, performance_report) act" where
  "read_report env since = (\<lambda>d. (generate_report (we_fpow env) d (we_candles env) PAPER (capital (app_risk (we_cfg env)))
     (default_report_interval (we_cfg env)) since, d))"

definition reports_page :: "web_env \<Rightarrow> web_input \<Rightarrow> period \<Rightarrow> (web_state, web_response) act" where
  "reports_page env inp p = page_guard (bindA (get_db (read_report env (period_start p (wi_now inp)))) (\<lambda>r. ret (Page 200 (ReportsPage r p))))"

definition get_account :: "web_env \<Rightarrow> web_input \<Rightarrow> (web_state, web_response) act" where
  "get_account env inp = bindA (get_db (account_snapshot (we_cfg env) (we_candles env) (wi_now inp))) (\<lambda>v.
     ret (JsonOk (account_snapshot_json (we_render env) v)))"

definition get_recommendations :: "web_env \<Rightarrow> (web_state, web_response) act" where
  "get_recommendations env = bindA (get_db (getA latest_recommendations)) (\<lambda>rows.
     ret (JsonOk (JObj [(''recommendations'', JList (map (recommendation_row_json (we_render env)) rows))])))"

definition get_journal :: "web_env \<Rightarrow> (web_state, web_response) act" where
  "get_journal env = bindA (get_db read_journal) (\<lambda>entries.
     ret (JsonOk (JObj [(''journal'', JList (map (journal_entry_json (we_render env)) entries))])))"

definition get_report :: "web_env \<Rightarrow> web_input \<Rightarrow> period \<Rightarrow> (web_state, web_response) act" where
  "get_report env inp p = bindA (get_db (read_report env (period_start p (wi_now inp)))) (\<lambda>r. ret (JsonOk (report_json (we_render env) r)))"

definition switch_json :: "web_env \<Rightarrow> kill_switch_row \<Rightarrow> web_response" where
  "switch_json env row = JsonOk (JObj [(''tripped'', JBool (ks_tripped row)),
     (''reason'', opt_json (\<lambda>r. JStr (wr_reason (we_render env) r)) (ks_reason row))])"

definition post_kill_switch_trip :: "web_env \<Rightarrow> web_input \<Rightarrow> string \<Rightarrow> string \<Rightarrow> (web_state, web_response) act" where
  "post_kill_switch_trip env inp reason csrf = seqA (check_session (\<lambda>s. require_csrf s csrf))
     (bindA (get_db (ks_trip (wi_now inp) (ManualTrip reason))) (\<lambda>row. ret (switch_json env row)))"

text \<open>\<open>KillSwitchNotTripped\<close> becomes a conflict, inside the unit of work, which is rolled back.\<close>

definition reset_or_conflict :: "string \<Rightarrow> (store, kill_switch_row) act" where
  "reset_or_conflict reason = catchA (ks_reset reason) (\<lambda>e. raise (if e = KillSwitchNotTripped then HTTPException 409 else e))"

definition post_kill_switch_reset :: "web_env \<Rightarrow> string \<Rightarrow> string \<Rightarrow> string \<Rightarrow> (web_state, web_response) act" where
  "post_kill_switch_reset env reason password csrf = seqA (check_session (\<lambda>s. require_csrf s csrf))
     (bindA (liftE (password_accepted env password)) (\<lambda>ok.
      if \<not> ok then raise (HTTPException 403) else
      bindA (get_db (reset_or_conflict reason)) (\<lambda>row. ret (switch_json env row))))"

text \<open>The router of the API asks for the login first.\<close>

definition api_guard :: "(web_state, web_response) act \<Rightarrow> (web_state, web_response) act" where
  "api_guard m = seqA (check_session require_login) m"

text \<open>The websocket checks the cookie once, when it opens, and then pushes a snapshot per poll.\<close>

definition ws_live :: "web_env \<Rightarrow> web_input \<Rightarrow> nat \<Rightarrow> (web_state, web_response) act" where
  "ws_live env inp polls = bindA (getA (\<lambda>w. is_authenticated (wb_session w))) (\<lambda>yes.
     if \<not> yes then ret (WsClosed 4401) else
     bindA (forA [0..<polls] (\<lambda>_. get_db (account_snapshot (we_cfg env) (we_candles env) (wi_now inp)))) (\<lambda>vs.
     ret (WsPushed (map (account_snapshot_json (we_render env)) vs))))"

fun web_handler :: "web_env \<Rightarrow> web_input \<Rightarrow> web_request \<Rightarrow> (web_state, web_response) act" where
  "web_handler env inp GetLogin = login_form"
| "web_handler env inp (PostLogin password) = login_submit env inp password"
| "web_handler env inp PostLogout = logout"
| "web_handler env inp GetOverview = overview env inp"
| "web_handler env inp GetRecommendations = recommendations_page"
| "web_handler env inp GetJournal = journal_page"
| "web_handler env inp (GetReports p) = reports_page env inp p"
| "web_handler env inp ApiAccount = api_guard (get_account env inp)"
| "web_handler env inp ApiRecommendations = api_guard (get_recommendations env)"
| "web_handler env inp ApiJournal = api_guard (get_journal env)"
| "web_handler env inp (ApiReport p) = api_guard (get_report env inp p)"
| "web_handler env inp (ApiTrip reason csrf) = api_guard (post_kill_switch_trip env inp reason csrf)"
| "web_handler env inp (ApiReset reason password csrf) = api_guard (post_kill_switch_reset env reason password csrf)"
| "web_handler env inp (WsLive polls) = ws_live env inp polls"

definition web_serve :: "web_env \<Rightarrow> web_input \<Rightarrow> web_request \<Rightarrow> web_state \<Rightarrow> web_response \<times> web_state" where
  "web_serve env inp r w = (case web_handler env inp r w of
     (Inr resp, w') \<Rightarrow> (resp, w')
   | (Inl (HTTPException status), w') \<Rightarrow> (WebFailure status, w')
   | (Inl _, w') \<Rightarrow> (WebFailure 500, w'))"

text \<open>Many clients, each with its own cookie, and one store.\<close>

type_synonym 'c web_site = "store \<times> ('c \<Rightarrow> web_session)"

fun site_serve :: "web_env \<Rightarrow> 'c \<times> web_input \<times> web_request \<Rightarrow> 'c web_site \<Rightarrow> web_response \<times> 'c web_site" where
  "site_serve env (c, inp, r) (d, cookies) = (case web_serve env inp r \<lparr>wb_store = d, wb_session = cookies c\<rparr> of
     (resp, w) \<Rightarrow> (resp, (wb_store w, cookies(c := wb_session w))))"

definition site_after :: "web_env \<Rightarrow> ('c \<times> web_input \<times> web_request) list \<Rightarrow> store \<Rightarrow> 'c web_site" where
  "site_after env xs d = fold (\<lambda>x st. snd (site_serve env x st)) xs (d, \<lambda>_. \<lparr>wsn_authenticated = False, wsn_csrf = None\<rparr>)"

section \<open>What a request can change\<close>

text \<open>Everything but the kill switch and the log of risk events; an account that is missing counts as the fresh one.\<close>

definition dash_books :: "rat \<Rightarrow> store \<Rightarrow> store" where
  "dash_books cap d = d\<lparr>kill_switch := None, risk_events := [],
     paper_account := Some (case paper_account d of None \<Rightarrow> cap | Some c \<Rightarrow> c)\<rparr>"

definition dash_view :: "rat \<Rightarrow> store \<Rightarrow> store \<times> kill_switch_row \<times> risk_event_row list" where
  "dash_view cap d = (dash_books cap d, ks_of d, risk_events d)"

lemma frames_funds: "frames f (paper_get_funds env)"
  by (auto simp: keeps_def paper_get_funds_def the_cash_def run_simps split: option.split)

lemma frames_account_snapshot: "frames (dash_view (capital (app_risk cfg))) (account_snapshot cfg cs now)"
proof
  fix v
  have "keeps (\<lambda>d. dash_view (capital (app_risk cfg)) d = v) (account_get_or_create (capital (app_risk cfg)))"
    "keeps (\<lambda>d. dash_view (capital (app_risk cfg)) d = v) ks_state"
    by (auto simp: keeps_def dash_view_def dash_books_def account_get_or_create_def ks_state_def ks_get_or_create_def ks_of_def split: option.split)
  then show "keeps (\<lambda>d. dash_view (capital (app_risk cfg)) d = v) (account_snapshot cfg cs now)"
    unfolding account_snapshot_def by (intro keeps_intros frames_funds [rule_format])
qed

lemma frames_switch: "frames (dash_books cap) (ks_trip now r)" "frames (dash_books cap) (ks_reset why)"
  by (auto simp: keeps_def ks_trip_def ks_reset_def ks_run dash_books_def split: option.splits)

lemma frames_session_scope: "frames f m \<Longrightarrow> frames f (session_scope m)"
  by (simp add: keeps_session_scope)

lemma frames_get_db: "frames f m \<Longrightarrow> keeps (\<lambda>w. f (wb_store w) = v) (get_db m)"
  unfolding get_db_def by (rule keeps_on_part) (simp_all add: keeps_session_scope)

lemma keeps_web [keeps_intros]:
  "keeps (\<lambda>w. P (wb_store w)) (set_session g)" "keeps Q (check_session h)"
  by (simp_all add: keeps_def set_session_def check_session_def run_simps)

lemma frames_reads: "frames f read_journal" "frames f (read_report env t)" "frames f (getA g)"
  by (simp_all add: keeps_def read_journal_def read_report_def getA_def)

lemmas web_handler_defs = login_form_def login_submit_def logout_def page_guard_def overview_def recommendations_page_def
  journal_page_def reports_page_def get_account_def get_recommendations_def get_journal_def get_report_def
  post_kill_switch_trip_def post_kill_switch_reset_def api_guard_def ws_live_def

definition switch_request :: "web_request \<Rightarrow> bool" where
  "switch_request r \<longleftrightarrow> (case r of ApiTrip _ _ \<Rightarrow> True | ApiReset _ _ _ \<Rightarrow> True | _ \<Rightarrow> False)"

lemma reads_keep_view:
  assumes "\<not> switch_request r"
  shows "keeps (\<lambda>w. dash_view (capital (app_risk (we_cfg env))) (wb_store w) = v) (web_handler env inp r)"
  using assms
  by (cases r; simp add: switch_request_def web_handler_defs; intro keeps_intros)
    (auto intro!: keeps_intros frames_get_db frames_account_snapshot [rule_format] frames_reads [rule_format])

lemma frames_reset_or_conflict: "frames (dash_books cap) (reset_or_conflict why)"
  unfolding reset_or_conflict_def by (intro allI keeps_intros frames_switch [rule_format])

lemma requests_keep_books:
  "keeps (\<lambda>w. dash_books (capital (app_risk (we_cfg env))) (wb_store w) = v) (web_handler env inp r)"
proof (cases "switch_request r")
  case True
  then show ?thesis
    by (cases r; simp add: switch_request_def web_handler_defs; intro keeps_intros)
      (auto intro!: keeps_intros frames_get_db frames_switch [rule_format] frames_reset_or_conflict [rule_format])
next
  case False
  show ?thesis
  proof (rule keepsI)
    fix w :: web_state
    assume "dash_books (capital (app_risk (we_cfg env))) (wb_store w) = v"
    then show "dash_books (capital (app_risk (we_cfg env))) (wb_store (snd (web_handler env inp r w))) = v"
      using keepsD [OF reads_keep_view [OF False, where v = "dash_view _ (wb_store w)"] refl] by (simp add: dash_view_def)
  qed
qed

section \<open>Who may do what\<close>

text \<open>What anyone may see: redirects, the login form, failures and the refusal of a websocket.\<close>

definition public_response :: "web_response \<Rightarrow> bool" where
  "public_response resp \<longleftrightarrow> (case resp of Redirect _ \<Rightarrow> True | Page _ (LoginPage _) \<Rightarrow> True | WebFailure _ \<Rightarrow> True | WsClosed _ \<Rightarrow> True | _ \<Rightarrow> False)"

text \<open>The cookie is logged in and carries the submitted token; a reset repeats the password.\<close>

definition may_switch :: "web_env \<Rightarrow> web_session \<Rightarrow> web_request \<Rightarrow> bool" where
  "may_switch env s r \<longleftrightarrow> is_authenticated s \<and> (case r of
     ApiTrip reason csrf \<Rightarrow> wsn_csrf s = Some csrf \<and> csrf \<noteq> []
   | ApiReset reason password csrf \<Rightarrow> wsn_csrf s = Some csrf \<and> csrf \<noteq> [] \<and> password_accepted env password = Inr True
   | _ \<Rightarrow> False)"

text \<open>How a request changes whether its client is logged in.\<close>

definition login_state :: "web_env \<Rightarrow> web_request \<Rightarrow> bool \<Rightarrow> bool" where
  "login_state env r b = (case r of PostLogin password \<Rightarrow> b \<or> password_accepted env password = Inr True | PostLogout \<Rightarrow> False | _ \<Rightarrow> b)"

definition logged_in :: "web_env \<Rightarrow> 'c \<Rightarrow> ('c \<times> web_input \<times> web_request) list \<Rightarrow> bool" where
  "logged_in env c xs = fold (\<lambda>(c', inp, r) b. if c' = c then login_state env r b else b) xs False"

lemma require_csrf_Inr: "require_csrf s csrf = Inr u \<longleftrightarrow> wsn_csrf s = Some csrf \<and> csrf \<noteq> [] \<and> is_ascii csrf"
  by (auto simp: require_csrf_def verify_csrf_def compare_digest_def bindE_Inr_conv split: option.splits if_splits)

lemma serve_public:
  assumes "\<not> is_authenticated (wb_session w)"
  shows "public_response (fst (web_serve env inp r w))"
  using assms
  by (cases r) (auto simp: web_serve_def web_handler_defs public_response_def run_simps check_session_def require_login_def
      redirect_to_login_def split: prod.split sum.split py_error.split bool.split)

lemma is_authenticated_csrf [simp]: "is_authenticated (snd (csrf_token fresh s)) = is_authenticated s"
  by (auto simp: csrf_token_def is_authenticated_def split: option.split)

lemma keeps_session_get_db [keeps_intros]: "keeps (\<lambda>w. P (wb_session w)) (get_db m)"
  by (auto simp: keeps_def get_db_def on_part_def split: prod.split)

lemma keeps_login: "(\<And>s. is_authenticated (g s) = is_authenticated s) \<Longrightarrow> keeps (\<lambda>w. is_authenticated (wb_session w) = b) (set_session g)"
  by (simp add: keeps_def set_session_def run_simps)

lemma handler_login:
  "is_authenticated (wb_session (snd (web_handler env inp r w))) = login_state env r (is_authenticated (wb_session w))"
proof (cases "(\<exists>password. r = PostLogin password) \<or> r = PostLogout")
  case True
  then consider password where "r = PostLogin password" | "r = PostLogout" by blast
  then show ?thesis
  proof cases
    case 1
    then show ?thesis by (cases "password_accepted env password")
      (simp_all add: login_submit_def login_state_def run_simps set_session_def log_in_def is_authenticated_def)
  qed (simp add: logout_def login_state_def run_simps set_session_def log_out_def is_authenticated_def)
next
  case False
  have "keeps (\<lambda>w. is_authenticated (wb_session w) = b) (web_handler env inp r)" for b
    using False by (cases r; simp add: web_handler_defs; intro keeps_intros keeps_login) simp_all
  from keepsD [OF this refl] show ?thesis using False by (cases r) (simp_all add: login_state_def)
qed

lemma serve_state: "snd (web_serve env inp r w) = snd (web_handler env inp r w)"
  by (auto simp: web_serve_def split: prod.split sum.split py_error.split)

lemma trip_result:
  "risk_events (snd (ks_trip now r d)) = (if halted d then risk_events d
     else risk_events d @ [\<lparr>re_id = next_id (map re_id (risk_events d)), re_kind = KillSwitchTrip, re_detail = SwitchTripped r\<rparr>])"
  by (auto simp: ks_trip_def ks_run halted_def ks_of_def split: option.split)

lemma reset_result:
  "risk_events (snd (ks_reset r d)) = (if halted d
     then risk_events d @ [\<lparr>re_id = next_id (map re_id (risk_events d)), re_kind = KillSwitchReset, re_detail = SwitchReset r\<rparr>]
     else risk_events d)"
  by (auto simp: ks_reset_def ks_run halted_def ks_of_def split: option.split)

lemma session_scope_snd: "snd (session_scope m d) = (case fst (m d) of Inl _ \<Rightarrow> d | Inr _ \<Rightarrow> snd (m d))"
  by (auto simp: session_scope_def split: prod.split sum.split)

lemma get_db_store: "wb_store (snd (get_db m w)) = snd (session_scope m (wb_store w))"
  by (auto simp: get_db_def on_part_def split: prod.split)

lemma bind_ret_store: "wb_store (snd (bindA m (\<lambda>x. ret (f x)) w)) = wb_store (snd (m w))"
  by (auto simp: run_simps split: prod.split sum.split)

definition switched :: "store \<Rightarrow> store \<Rightarrow> bool" where
  "switched d e \<longleftrightarrow> halted e \<noteq> halted d \<and> (\<exists>ev. risk_events e = risk_events d @ [ev])"

lemma trip_view:
  "dash_view cap (snd (session_scope (ks_trip now r) d)) = dash_view cap d \<or> switched d (snd (session_scope (ks_trip now r) d))"
proof -
  have "\<exists>row. fst (ks_trip now r d) = Inr row"
    by (cases "kill_switch d") (auto simp: ks_trip_def ks_run)
  then obtain row where "fst (ks_trip now r d) = Inr row" by blast
  then have e: "snd (session_scope (ks_trip now r) d) = snd (ks_trip now r d)" by (simp add: session_scope_snd)
  show ?thesis unfolding e using framesD [OF frames_switch(1), of cap now r d]
    by (auto simp: dash_view_def switched_def ks_trip_run trip_result halted_def)
qed

lemma reset_view:
  "dash_view cap (snd (session_scope (reset_or_conflict r) d)) = dash_view cap d \<or> switched d (snd (session_scope (reset_or_conflict r) d))"
proof (cases "halted d")
  case True
  then have "fst (ks_reset r d) = Inr ((ks_of d)\<lparr>ks_tripped := False, ks_reason := None, ks_tripped_at := None, ks_consecutive_errors := 0\<rparr>)"
    by (simp add: ks_reset_run)
  then have "snd (session_scope (reset_or_conflict r) d) = snd (ks_reset r d)"
    by (auto simp: session_scope_snd reset_or_conflict_def catchA_def split: prod.split)
  then show ?thesis using True by (simp add: switched_def reset_result halted_def ks_reset_run)
next
  case False
  then have "fst (ks_reset r d) = Inl KillSwitchNotTripped" by (simp add: ks_reset_run)
  then have "snd (session_scope (reset_or_conflict r) d) = d"
    by (auto simp: session_scope_snd reset_or_conflict_def catchA_def run_simps split: prod.split)
  then show ?thesis by simp
qed

lemma trip_store:
  "wb_store (snd (web_handler env inp (ApiTrip reason csrf) w)) = (
     if is_authenticated (wb_session w) \<and> require_csrf (wb_session w) csrf = Inr ()
     then snd (session_scope (ks_trip (wi_now inp) (ManualTrip reason)) (wb_store w)) else wb_store w)"
  by (cases "is_authenticated (wb_session w)"; cases "require_csrf (wb_session w) csrf")
    (simp_all add: web_handler_defs seqA_def run_bindA check_session_def require_login_def bind_ret_store [unfolded run_bindA] get_db_store)

lemma reset_store:
  "wb_store (snd (web_handler env inp (ApiReset reason password csrf) w)) = (
     if is_authenticated (wb_session w) \<and> require_csrf (wb_session w) csrf = Inr () \<and> password_accepted env password = Inr True
     then snd (session_scope (reset_or_conflict reason) (wb_store w)) else wb_store w)"
  by (cases "is_authenticated (wb_session w)"; cases "require_csrf (wb_session w) csrf"; cases "password_accepted env password")
    (simp_all add: web_handler_defs seqA_def run_bindA check_session_def require_login_def bind_ret_store [unfolded run_bindA]
      get_db_store run_raise run_liftE)

lemma serve_switch:
  defines "cap env \<equiv> capital (app_risk (we_cfg env))"
  shows "dash_view (cap env) (wb_store (snd (web_serve env inp r w))) = dash_view (cap env) (wb_store w) \<or>
    may_switch env (wb_session w) r \<and> switched (wb_store w) (wb_store (snd (web_serve env inp r w)))"
proof (cases "switch_request r")
  case False
  from keepsD [OF reads_keep_view [OF False] refl] show ?thesis by (simp add: serve_state cap_def)
next
  case True
  then consider reason csrf where "r = ApiTrip reason csrf" | reason password csrf where "r = ApiReset reason password csrf"
    by (cases r) (auto simp: switch_request_def)
  then show ?thesis
  proof cases
    case 1
    then show ?thesis using trip_view [of "cap env" "wi_now inp" "ManualTrip reason" "wb_store w"]
      by (auto simp: serve_state trip_store require_csrf_Inr may_switch_def simp del: web_handler.simps)
  next
    case 2
    then show ?thesis using reset_view [of "cap env" reason "wb_store w"]
      by (auto simp: serve_state reset_store require_csrf_Inr may_switch_def simp del: web_handler.simps)
  qed
qed

section \<open>Sequences of requests\<close>

lemma site_after_snoc: "site_after env (xs @ [x]) d = snd (site_serve env x (site_after env xs d))"
  by (simp add: site_after_def)

lemma logged_in_snoc:
  "logged_in env c (xs @ [(c', inp, r)]) = (if c' = c then login_state env r (logged_in env c xs) else logged_in env c xs)"
  by (simp add: logged_in_def)

lemma site_session: "is_authenticated (snd (site_after env xs d) c) = logged_in env c xs"
proof (induction xs rule: rev_induct)
  case Nil
  then show ?case by (simp add: site_after_def logged_in_def is_authenticated_def)
next
  case (snoc x xs)
  obtain c' inp r where x: "x = (c', inp, r)" by (cases x)
  obtain e cookies where st: "site_after env xs d = (e, cookies)" by fastforce
  show ?case using snoc handler_login [of env inp r "\<lparr>wb_store = e, wb_session = cookies c'\<rparr>"]
    serve_state [of env inp r "\<lparr>wb_store = e, wb_session = cookies c'\<rparr>"]
    by (auto simp: site_after_snoc st x logged_in_snoc split: prod.split)
qed

lemma site_books:
  "dash_books (capital (app_risk (we_cfg env))) (fst (site_after env xs d)) = dash_books (capital (app_risk (we_cfg env))) d"
proof (induction xs rule: rev_induct)
  case Nil
  then show ?case by (simp add: site_after_def)
next
  case (snoc x xs)
  obtain c' inp r where x: "x = (c', inp, r)" by (cases x)
  obtain e cookies where st: "site_after env xs d = (e, cookies)" by fastforce
  let ?w = "\<lparr>wb_store = e, wb_session = cookies c'\<rparr>"
  show ?case using snoc keepsD [OF requests_keep_books refl, of env inp r ?w] serve_state [of env inp r ?w]
    by (auto simp: site_after_snoc st x split: prod.split)
qed

end
