(* ===== verification/PT_Login.thy ===== *)
theory PT_Login
  imports PT_Settings PT_Upstox
begin

text \<open>
  The Upstox login (\<open>execution/upstox/auth.py\<close>), the encryption of the token (\<open>execution/upstox/crypto.py\<close>) and
  the commands that use them: \<open>pt auth upstox-login\<close>, \<open>pt auth upstox-status\<close> and the check of the token in
  \<open>pt run\<close>. Texts are their UTF-8 bytes. \<open>urlencode\<close>, \<open>parse_qs\<close> and the parts of \<open>urlparse\<close> the code reads
  are written out; the localhost listener, the token endpoint, Fernet and the random state are parameters. What is
  proved: the query of a URL parses back to its parameters, and a redirect logs in exactly when it carries the
  state of this login and a code.
\<close>

section \<open>Query strings\<close>

text \<open>\<open>quote_plus\<close>: letters, digits and \<open>_.-~\<close> stay, a blank becomes \<open>+\<close>, any other byte its two hexadecimal digits.\<close>

definition unreserved :: "char \<Rightarrow> bool" where
  "unreserved c = (let n = of_char c :: nat in 48 \<le> n \<and> n \<le> 57 \<or> 65 \<le> n \<and> n \<le> 90 \<or> 97 \<le> n \<and> n \<le> 122 \<or> c \<in> set ''_.-~'')"

definition hex_digit :: "nat \<Rightarrow> char" where
  "hex_digit k = ''0123456789ABCDEF'' ! k"

definition quote_char :: "char \<Rightarrow> string" where
  "quote_char c = (if unreserved c then [c] else if c = CHR '' '' then ''+''
     else let n = of_char c :: nat in [CHR ''%'', hex_digit (n div 16), hex_digit (n mod 16)])"

definition quote_plus :: "string \<Rightarrow> string" where
  "quote_plus s = concat (map quote_char s)"

fun join_with :: "string \<Rightarrow> string list \<Rightarrow> string" where
  "join_with sep [] = []"
| "join_with sep [x] = x"
| "join_with sep (x # y # xs) = x @ sep @ join_with sep (y # xs)"

definition urlencode :: "(string \<times> string) list \<Rightarrow> string" where
  "urlencode params = join_with ''&'' (map (\<lambda>(k, v). quote_plus k @ ''='' @ quote_plus v) params)"

definition hex_value :: "char \<Rightarrow> nat option" where
  "hex_value c = (let n = of_char c :: nat in
     if 48 \<le> n \<and> n \<le> 57 then Some (n - 48) else if 65 \<le> n \<and> n \<le> 70 then Some (n - 55)
     else if 97 \<le> n \<and> n \<le> 102 then Some (n - 87) else None)"

fun unquote :: "string \<Rightarrow> string" where
  "unquote (c # a # b # cs) = (if c = CHR ''%'' then (case (hex_value a, hex_value b) of
       (Some x, Some y) \<Rightarrow> char_of (16 * x + y) # unquote cs
     | _ \<Rightarrow> c # unquote (a # b # cs))
     else c # unquote (a # b # cs))"
| "unquote s = s"

definition unquote_plus :: "string \<Rightarrow> string" where
  "unquote_plus s = unquote (map (\<lambda>c. if c = CHR ''+'' then CHR '' '' else c) s)"

function split_on :: "char \<Rightarrow> string \<Rightarrow> string list" where
  "split_on sep s = (case dropWhile (\<lambda>c. c \<noteq> sep) s of
     [] \<Rightarrow> [takeWhile (\<lambda>c. c \<noteq> sep) s]
   | _ # rest \<Rightarrow> takeWhile (\<lambda>c. c \<noteq> sep) s # split_on sep rest)"
  by pat_completeness auto
termination
proof (relation "measure (\<lambda>(sep, s). length s)")
  fix sep s c rest
  assume d: "dropWhile (\<lambda>x. x \<noteq> sep) s = c # rest"
  have "length (dropWhile (\<lambda>x. x \<noteq> sep) s) \<le> length s" by (rule length_dropWhile_le)
  then show "((sep, rest), (sep, s)) \<in> measure (\<lambda>(sep, s). length s)" by (simp add: d)
qed simp

declare split_on.simps [simp del]

text \<open>\<open>parse_qs\<close> as the list of its pairs: a field without \<open>=\<close> or with an empty value is dropped.\<close>

definition parse_field :: "string \<Rightarrow> (string \<times> string) list" where
  "parse_field f = (case dropWhile (\<lambda>c. c \<noteq> CHR ''='') f of
     [] \<Rightarrow> []
   | _ # v \<Rightarrow> if v = [] then [] else [(unquote_plus (takeWhile (\<lambda>c. c \<noteq> CHR ''='') f), unquote_plus v)])"

definition parse_qs :: "string \<Rightarrow> (string \<times> string) list" where
  "parse_qs q = concat (map parse_field (split_on CHR ''&'' q))"

text \<open>\<open>urlparse(url).query\<close>: what lies between the first \<open>?\<close> and the fragment.\<close>

definition query_of :: "string \<Rightarrow> string" where
  "query_of url = tl (dropWhile (\<lambda>c. c \<noteq> CHR ''?'') (takeWhile (\<lambda>c. c \<noteq> CHR ''#'') url))"

section \<open>A query parses back\<close>

lemma hex_value_digit: "k < 16 \<Longrightarrow> hex_value (hex_digit k) = Some k \<and> hex_digit k \<noteq> CHR ''+'' \<and> hex_digit k \<notin> set ''&=#?%''"
proof -
  have "\<forall>k \<in> set [0..<16]. hex_value (hex_digit k) = Some k \<and> hex_digit k \<noteq> CHR ''+'' \<and> hex_digit k \<notin> set ''&=#?%''"
    by code_simp
  then show "k < 16 \<Longrightarrow> ?thesis" by simp
qed

lemma unreserved_not: "unreserved c \<Longrightarrow> c \<notin> set ''&=#?%+ ''"
  by (auto simp: unreserved_def Let_def)

lemma char_halves: "char_of (16 * (of_char c div 16) + of_char c mod 16 :: nat) = c" "of_char c div 16 < (16 :: nat)"
proof -
  have "(of_char c :: nat) < 256" by simp
  then show "of_char c div 16 < (16 :: nat)" by (simp add: less_mult_imp_div_less)
qed simp

lemma unquote_plus_char: "unquote_plus (quote_char c @ s) = c # unquote_plus s"
proof -
  have plain: "c \<noteq> CHR ''%'' \<Longrightarrow> unquote (c # t) = c # unquote t" for c t
    by (cases t rule: unquote.cases) (auto split: list.split)
  consider "unreserved c" | "\<not> unreserved c" "c = CHR '' ''" | "\<not> unreserved c" "c \<noteq> CHR '' ''" by blast
  then show ?thesis
  proof cases
    case 1
    then show ?thesis using unreserved_not [of c] plain by (auto simp: quote_char_def unquote_plus_def)
  next
    case 2
    then show ?thesis by (simp add: quote_char_def unquote_plus_def plain)
  next
    case 3
    let ?n = "of_char c :: nat"
    have d: "?n div 16 < 16" "?n mod 16 < 16" by (simp_all add: char_halves)
    show ?thesis using 3 hex_value_digit [OF d(1)] hex_value_digit [OF d(2)] char_halves(1) [of c]
      by (simp add: quote_char_def unquote_plus_def Let_def)
  qed
qed

lemma unquote_quote: "unquote_plus (quote_plus s) = s"
  by (induction s) (auto simp: quote_plus_def unquote_plus_char, simp add: unquote_plus_def)

lemma quote_char_clean: "set (quote_char c) \<inter> set ''&=#?'' = {}"
  using hex_value_digit [of "of_char c div 16"] hex_value_digit [of "of_char c mod 16"] unreserved_not [of c] char_halves(2) [of c]
  by (auto simp: quote_char_def Let_def)

lemma quote_plus_clean: "x \<in> set (quote_plus s) \<Longrightarrow> x \<notin> set ''&=#?''"
  using quote_char_clean by (fastforce simp: quote_plus_def)

lemma split_on_last: "sep \<notin> set s \<Longrightarrow> split_on sep s = [s]"
proof -
  assume n: "sep \<notin> set s"
  have tw: "takeWhile (\<lambda>c. c \<noteq> sep) s = s" and dw: "dropWhile (\<lambda>c. c \<noteq> sep) s = []" using n by (auto simp: takeWhile_eq_all_conv)
  show ?thesis unfolding split_on.simps [of sep s] tw dw by simp
qed

lemma split_on_piece: "sep \<notin> set s \<Longrightarrow> split_on sep (s @ sep # t) = s # split_on sep t"
proof -
  assume n: "sep \<notin> set s"
  have tw: "takeWhile (\<lambda>c. c \<noteq> sep) (s @ sep # t) = s" and dw: "dropWhile (\<lambda>c. c \<noteq> sep) (s @ sep # t) = sep # t"
    using n by (auto simp: takeWhile_append dropWhile_append takeWhile_eq_all_conv)
  show ?thesis unfolding split_on.simps [of sep "s @ sep # t"] tw dw by simp
qed

lemma split_join: "xs \<noteq> [] \<Longrightarrow> \<forall>x \<in> set xs. sep \<notin> set x \<Longrightarrow> split_on sep (join_with [sep] xs) = xs"
  by (induction "[sep]" xs rule: join_with.induct) (auto simp: split_on_last split_on_piece)

lemma quote_plus_Nil: "quote_plus s = [] \<longleftrightarrow> s = []"
  by (cases s) (simp_all add: quote_plus_def quote_char_def Let_def)

lemma parse_field_encoded: "parse_field (quote_plus k @ ''='' @ quote_plus v) = (if v = [] then [] else [(k, v)])"
proof -
  have n: "CHR ''='' \<notin> set (quote_plus k)" using quote_plus_clean [of "CHR ''=''" k] by auto
  have "takeWhile (\<lambda>c. c \<noteq> CHR ''='') (quote_plus k @ ''='' @ quote_plus v) = quote_plus k"
    "dropWhile (\<lambda>c. c \<noteq> CHR ''='') (quote_plus k @ ''='' @ quote_plus v) = CHR ''='' # quote_plus v"
    using n by (auto simp: takeWhile_append dropWhile_append takeWhile_eq_all_conv)
  then show ?thesis by (simp add: parse_field_def unquote_quote quote_plus_Nil)
qed

lemma parse_urlencode: "parse_qs (urlencode params) = filter (\<lambda>(k, v). v \<noteq> []) params"
proof (cases "params = []")
  case True
  then show ?thesis by (simp add: parse_qs_def urlencode_def split_on_last parse_field_def)
next
  case False
  let ?fs = "map (\<lambda>(k, v). quote_plus k @ ''='' @ quote_plus v) params"
  have clean: "\<forall>f \<in> set ?fs. CHR ''&'' \<notin> set f" using quote_plus_clean by fastforce
  have "parse_qs (urlencode params) = concat (map parse_field ?fs)"
    using split_join [OF _ clean] False by (simp add: parse_qs_def urlencode_def)
  also have "\<dots> = filter (\<lambda>(k, v). v \<noteq> []) params"
    by (induction params) (auto simp: parse_field_encoded [simplified])
  finally show ?thesis .
qed

lemma join_set: "set (join_with sep xs) \<subseteq> set sep \<union> (\<Union> (set ` set xs))"
  by (induction sep xs rule: join_with.induct) auto

lemma urlencode_clean: "CHR ''#'' \<notin> set (urlencode params)"
proof
  assume "CHR ''#'' \<in> set (urlencode params)"
  then obtain k v where "(k, v) \<in> set params" "CHR ''#'' \<in> set (quote_plus k @ ''='' @ quote_plus v)"
    using join_set [of "''&''"] by (fastforce simp: urlencode_def)
  then show False using quote_plus_clean [of "CHR ''#''" k] quote_plus_clean [of "CHR ''#''" v] by auto
qed

lemma query_of_append:
  assumes "set base \<inter> set ''?#'' = {}" and "CHR ''#'' \<notin> set q"
  shows "query_of (base @ ''?'' @ q) = q"
proof -
  have tw: "takeWhile (\<lambda>c. c \<noteq> CHR ''#'') (base @ ''?'' @ q) = base @ ''?'' @ q"
    using assms by (subst takeWhile_eq_all_conv) auto
  have dw: "dropWhile (\<lambda>c. c \<noteq> CHR ''?'') (base @ ''?'' @ q) = CHR ''?'' # q"
    using assms by (auto simp: dropWhile_append)
  show ?thesis unfolding query_of_def tw dw by simp
qed

section \<open>The login flow\<close>

definition AUTHORIZE_URL :: string where
  "AUTHORIZE_URL = ''https://api.upstox.com/v2/login/authorization/dialog''"

definition build_authorization_url :: "string \<Rightarrow> string \<Rightarrow> string \<Rightarrow> string" where
  "build_authorization_url api_key redirect_uri state = AUTHORIZE_URL @ ''?'' @ urlencode
     [(''response_type'', ''code''), (''client_id'', api_key), (''redirect_uri'', redirect_uri), (''state'', state)]"

record callback_result =
  cb_code :: "string option"
  cb_state :: "string option"
  cb_error :: "string option"

definition callback_of :: "string \<Rightarrow> callback_result" where
  "callback_of path = (let query = parse_qs (query_of path) in
     \<lparr>cb_code = map_of query ''code'', cb_state = map_of query ''state'', cb_error = map_of query ''error''\<rparr>)"

text \<open>\<open>urlparse(url).hostname\<close>.\<close>

definition scheme_char :: "char \<Rightarrow> bool" where
  "scheme_char c = (let n = of_char c :: nat in 48 \<le> n \<and> n \<le> 57 \<or> 65 \<le> n \<and> n \<le> 90 \<or> 97 \<le> n \<and> n \<le> 122 \<or> c \<in> set ''+-.'')"

definition after_scheme :: "string \<Rightarrow> string" where
  "after_scheme url = (let scheme = takeWhile (\<lambda>c. c \<noteq> CHR '':'') url; first = of_char (hd url) :: nat in
     if scheme \<noteq> [] \<and> scheme \<noteq> url \<and> (65 \<le> first \<and> first \<le> 90 \<or> 97 \<le> first \<and> first \<le> 122) \<and> list_all scheme_char scheme
     then drop (Suc (length scheme)) url else url)"

definition netloc_of :: "string \<Rightarrow> string" where
  "netloc_of url = (let rest = after_scheme url in
     if take 2 rest = ''//'' then takeWhile (\<lambda>c. c \<notin> set ''/?#'') (drop 2 rest) else [])"

definition hostname_of :: "string \<Rightarrow> string option" where
  "hostname_of url = (let info = rev (takeWhile (\<lambda>c. c \<noteq> CHR ''@'') (rev (netloc_of url)));
       bracketed = dropWhile (\<lambda>c. c \<noteq> CHR ''['') info;
       host = (if bracketed = [] then takeWhile (\<lambda>c. c \<noteq> CHR '':'') info else takeWhile (\<lambda>c. c \<noteq> CHR '']'') (tl bracketed)) in
     if host = [] then None else Some (lower host))"

text \<open>What the listener meets: its port is taken, no request in time, a GET of a path, or another method.\<close>

datatype listener_outcome = PortTaken | ListenTimeout | GotGet string | GotOther

definition wait_for_callback :: "string \<Rightarrow> listener_outcome \<Rightarrow> py_error + callback_result" where
  "wait_for_callback redirect_uri outcome = (
     if hostname_of redirect_uri \<notin> {Some ''localhost'', Some ''127.0.0.1''} then Inl UpstoxAuthError else
     case outcome of
       PortTaken \<Rightarrow> Inl PyOSError
     | GotGet path \<Rightarrow> Inr (callback_of path)
     | _ \<Rightarrow> Inl UpstoxAuthError)"

text \<open>\<open>str\<close> of a JSON value that is not a text, the token endpoint, and the browser with the listener, which sees the URL.\<close>

record login_env =
  lg_str :: "json \<Rightarrow> string"
  lg_token_endpoint :: "(string \<times> string) list \<Rightarrow> http_outcome"
  lg_browser :: "string \<Rightarrow> listener_outcome"

definition json_str :: "login_env \<Rightarrow> json \<Rightarrow> string" where
  "json_str env j = (case j of JStr t \<Rightarrow> t | _ \<Rightarrow> lg_str env j)"

definition exchange_code_for_token :: "login_env \<Rightarrow> string \<Rightarrow> string \<Rightarrow> string \<Rightarrow> string \<Rightarrow> py_error + string" where
  "exchange_code_for_token env api_key api_secret redirect_uri code = (
     case lg_token_endpoint env [(''code'', code), (''client_id'', api_key), (''client_secret'', api_secret),
         (''redirect_uri'', redirect_uri), (''grant_type'', ''authorization_code'')] of
       HttpOk payload \<Rightarrow> (case dict_item payload ''access_token'' of Inr v \<Rightarrow> Inr (json_str env v) | Inl _ \<Rightarrow> Inl UpstoxAuthError)
     | _ \<Rightarrow> Inl UpstoxAuthError)"

definition upstox_login :: "login_env \<Rightarrow> string \<Rightarrow> string \<Rightarrow> string \<Rightarrow> string \<Rightarrow> py_error + string" where
  "upstox_login env state api_key api_secret redirect_uri = (let url = build_authorization_url api_key redirect_uri state in
     bindE (wait_for_callback redirect_uri (lg_browser env url)) (\<lambda>callback.
     if cb_error callback \<notin> {None, Some []} then Inl UpstoxAuthError
     else if cb_state callback \<noteq> Some state then Inl UpstoxAuthError
     else case cb_code callback of
       None \<Rightarrow> Inl UpstoxAuthError
     | Some code \<Rightarrow> if code = [] then Inl UpstoxAuthError else exchange_code_for_token env api_key api_secret redirect_uri code))"

section \<open>The token at rest\<close>

record fernet =
  fn_valid_key :: "string \<Rightarrow> bool"
  fn_encrypt :: "string \<Rightarrow> string \<Rightarrow> string"
  fn_decrypt :: "string \<Rightarrow> string \<Rightarrow> string option"

text \<open>What Fernet documents: a message encrypted under a key decrypts under that key.\<close>

definition fernet_roundtrips :: "fernet \<Rightarrow> bool" where
  "fernet_roundtrips fn \<longleftrightarrow> (\<forall>key msg. fn_valid_key fn key \<longrightarrow> fn_decrypt fn key (fn_encrypt fn key msg) = Some msg)"

definition fernet_key :: "fernet \<Rightarrow> secrets \<Rightarrow> py_error + string" where
  "fernet_key fn sec = (case sec_token_encryption_key sec of
     None \<Rightarrow> Inl ConfigError
   | Some key \<Rightarrow> if fn_valid_key fn key then Inr key else Inl PyValueError)"

definition encrypt_token :: "fernet \<Rightarrow> secrets \<Rightarrow> string \<Rightarrow> py_error + string" where
  "encrypt_token fn sec access_token = bindE (fernet_key fn sec) (\<lambda>key. Inr (fn_encrypt fn key access_token))"

definition decrypt_token :: "fernet \<Rightarrow> secrets \<Rightarrow> string \<Rightarrow> py_error + string" where
  "decrypt_token fn sec encrypted = bindE (fernet_key fn sec) (\<lambda>key.
     case fn_decrypt fn key encrypted of None \<Rightarrow> Inl TokenDecryptionFailed | Some t \<Rightarrow> Inr t)"

section \<open>The commands\<close>

text \<open>\<open>_open_store_and_session\<close>: the tables must exist.\<close>

definition open_store :: "bool \<Rightarrow> (store, unit) act" where
  "open_store migrated = guardA (\<lambda>_. migrated) (TyperExit 1)"

text \<open>\<open>_load_config_or_exit\<close>: the first thing every command does.\<close>

definition config_or_exit :: "py_error + app_config \<Rightarrow> py_error + app_config" where
  "config_or_exit loaded = (case loaded of Inl ConfigError \<Rightarrow> Inl (TyperExit 1) | r \<Rightarrow> r)"

definition auth_upstox_login :: "py_error + app_config \<Rightarrow> login_env \<Rightarrow> fernet \<Rightarrow> secrets \<Rightarrow> bool \<Rightarrow> string \<Rightarrow> instant \<Rightarrow>
    (store, upstox_token_row) act" where
  "auth_upstox_login loaded env fn sec migrated state now = seqA (liftE (config_or_exit loaded)) (case (sec_upstox_api_key sec, sec_upstox_api_secret sec) of
     (Some api_key, Some api_secret) \<Rightarrow>
       if sec_token_encryption_key sec = None then raise (TyperExit 1) else
       bindA (catchA (liftE (upstox_login env state api_key api_secret (sec_upstox_redirect_uri sec)))
         (\<lambda>e. raise (if e = UpstoxAuthError then TyperExit 1 else e))) (\<lambda>access_token.
       bindA (liftE (encrypt_token fn sec access_token)) (\<lambda>encrypted.
       seqA (open_store migrated)
         (session_scope (token_save encrypted now (upstox_token_expiry_utc now)))))
   | _ \<Rightarrow> raise (TyperExit 1))"

definition auth_upstox_status :: "py_error + app_config \<Rightarrow> bool \<Rightarrow> instant \<Rightarrow> (store, upstox_token_row) act" where
  "auth_upstox_status loaded migrated now = seqA (seqA (liftE (config_or_exit loaded)) (open_store migrated)) (bindA (getA token_current) (\<lambda>token. case token of
     None \<Rightarrow> raise (TyperExit 1)
   | Some row \<Rightarrow> if tok_expires_at row \<le> now then raise (TyperExit 1) else ret row))"

text \<open>The token check at the start of \<open>pt run --mode live\<close>.\<close>

definition run_live_token :: "fernet \<Rightarrow> secrets \<Rightarrow> bool \<Rightarrow> instant \<Rightarrow> (store, string) act" where
  "run_live_token fn sec migrated now = (if sec_token_encryption_key sec = None then raise (TyperExit 1) else
     seqA (open_store migrated) (bindA (getA token_current) (\<lambda>stored. case stored of
       None \<Rightarrow> raise (TyperExit 1)
     | Some row \<Rightarrow> if tok_expires_at row \<le> now then raise (TyperExit 1)
         else liftE (decrypt_token fn sec (tok_encrypted row)))))"

section \<open>What the login guarantees\<close>

lemma url_carries_state:
  "state \<noteq> [] \<Longrightarrow> map_of (parse_qs (query_of (build_authorization_url api_key redirect_uri state))) ''state'' = Some state"
proof -
  assume s: "state \<noteq> []"
  have "set AUTHORIZE_URL \<inter> set ''?#'' = {}" by code_simp
  from query_of_append [OF this urlencode_clean] show ?thesis
    by (simp add: build_authorization_url_def parse_urlencode s)
qed

lemma callback_of_redirect:
  assumes "set path \<inter> set ''?#'' = {}"
  shows "callback_of (path @ ''?'' @ urlencode [(''code'', code), (''state'', state)]) =
    \<lparr>cb_code = (if code = [] then None else Some code), cb_state = (if state = [] then None else Some state), cb_error = None\<rparr>"
  unfolding callback_of_def query_of_append [OF assms urlencode_clean] parse_urlencode by simp

lemma login_Inr:
  "upstox_login env state api_key api_secret redirect_uri = Inr token \<longleftrightarrow>
     hostname_of redirect_uri \<in> {Some ''localhost'', Some ''127.0.0.1''} \<and>
     (\<exists>path code. lg_browser env (build_authorization_url api_key redirect_uri state) = GotGet path \<and>
        cb_error (callback_of path) \<in> {None, Some []} \<and> cb_state (callback_of path) = Some state \<and>
        cb_code (callback_of path) = Some code \<and> code \<noteq> [] \<and>
        exchange_code_for_token env api_key api_secret redirect_uri code = Inr token)"
proof (cases "hostname_of redirect_uri \<in> {Some ''localhost'', Some ''127.0.0.1''}")
  case False
  then have "wait_for_callback redirect_uri outcome = Inl UpstoxAuthError" for outcome by (simp only: wait_for_callback_def not_False_eq_True if_True)
  with False show ?thesis by (simp only: upstox_login_def Let_def bindE_simps) simp
next
  case True
  define outcome where "outcome = lg_browser env (build_authorization_url api_key redirect_uri state)"
  from True have w: "wait_for_callback redirect_uri outcome = (case outcome of PortTaken \<Rightarrow> Inl PyOSError
      | GotGet path \<Rightarrow> Inr (callback_of path) | _ \<Rightarrow> Inl UpstoxAuthError)" by (simp only: wait_for_callback_def not_True_eq_False if_False)
  show ?thesis
  proof (cases outcome)
    case (GotGet path)
    then show ?thesis unfolding upstox_login_def Let_def outcome_def [symmetric] w using True
      by (cases "cb_code (callback_of path)") simp_all
  qed (use True w in \<open>simp_all add: upstox_login_def Let_def outcome_def [symmetric]\<close>)
qed

lemma encrypt_decrypt:
  "fernet_roundtrips fn \<Longrightarrow> encrypt_token fn sec token = Inr encrypted \<Longrightarrow> decrypt_token fn sec encrypted = Inr token"
  by (auto simp: encrypt_token_def decrypt_token_def fernet_key_def fernet_roundtrips_def bindE_Inr_conv split: option.splits if_splits)

lemma auth_login_Inr:
  assumes "auth_upstox_login loaded env fn sec migrated state now d = (Inr row, e)"
  shows "\<exists>api_key api_secret token. sec_upstox_api_key sec = Some api_key \<and> sec_upstox_api_secret sec = Some api_secret \<and>
     upstox_login env state api_key api_secret (sec_upstox_redirect_uri sec) = Inr token \<and>
     encrypt_token fn sec token = Inr (tok_encrypted row) \<and> sec_token_encryption_key sec \<noteq> None \<and> migrated \<and>
     upstox_token e = Some row \<and> tok_expires_at row = upstox_token_expiry_utc now \<and> e = d\<lparr>upstox_token := Some row\<rparr>"
proof -
  from assms obtain api_key api_secret where keys: "sec_upstox_api_key sec = Some api_key" "sec_upstox_api_secret sec = Some api_secret"
    "sec_token_encryption_key sec \<noteq> None"
    by (auto simp: auth_upstox_login_def seqA_def run_raise run_liftE elim!: bindA_InrE split: option.splits if_splits)
  with assms obtain token encrypted d1 d2 d3 where run:
    "catchA (liftE (upstox_login env state api_key api_secret (sec_upstox_redirect_uri sec)))
       (\<lambda>e. raise (if e = UpstoxAuthError then TyperExit 1 else e)) d = (Inr token, d1)"
    "liftE (encrypt_token fn sec token) d1 = (Inr encrypted, d2)" "open_store migrated d2 = (Inr (), d3)"
    "session_scope (token_save encrypted now (upstox_token_expiry_utc now)) d3 = (Inr row, e)"
    by (auto simp: auth_upstox_login_def seqA_def run_liftE elim!: bindA_InrE)
  from run(1) have "upstox_login env state api_key api_secret (sec_upstox_redirect_uri sec) = Inr token" "d1 = d"
    by (auto simp: catchA_def run_liftE run_raise split: sum.splits)
  moreover from run(2) have "encrypt_token fn sec token = Inr encrypted" "d2 = d1" by (simp_all add: run_liftE)
  moreover from run(3) have "migrated" "d3 = d2" by (simp_all add: open_store_def run_guardA split: if_splits)
  moreover from run(4) have "tok_encrypted row = encrypted" "upstox_token e = Some row"
    "tok_expires_at row = upstox_token_expiry_utc now" "e = d3\<lparr>upstox_token := Some row\<rparr>"
    by (auto simp: session_scope_Inr token_save_def Let_def token_current_def split: option.splits)
  ultimately show ?thesis using keys by simp
qed

end
