(* ===== verification/PT_News.thy ===== *)
theory PT_News
  imports PT_Repos PT_Config PT_Json PT_Login
begin

text \<open>
  News ingestion (\<open>intelligence/news/\<close>): sanitising (\<open>sanitize.py\<close>), tagging of instruments (\<open>tagging.py\<close>), one RSS
  source (\<open>rss.py\<close>) and the pipeline (\<open>pipeline.py\<close>). Texts are sequences of the characters up to \<open>U+00FF\<close>; the
  regular expressions of the tagger are written out with \<open>\b\<close> and the case folding of \<open>re.IGNORECASE\<close>. The text
  \<open>HTMLParser\<close> recovers from markup, the ellipsis (not one of these characters), the parsed feed and the clock are
  parameters. What is proved: ingesting keeps the table of news well-formed, a second run stores nothing, one dead
  source changes nothing for the others, and every tag is earned by a whole-word match.
\<close>

section \<open>Sanitising\<close>

definition is_space :: "char \<Rightarrow> bool" where
  "is_space c = (let n = of_char c :: nat in 9 \<le> n \<and> n \<le> 13 \<or> 28 \<le> n \<and> n \<le> 32 \<or> n = 133 \<or> n = 160)"

text \<open>\<open>" ".join(text.split())\<close>.\<close>

function py_split :: "string \<Rightarrow> string list" where
  "py_split s = (case dropWhile is_space s of
     [] \<Rightarrow> []
   | c # cs \<Rightarrow> takeWhile (\<lambda>x. \<not> is_space x) (c # cs) # py_split (dropWhile (\<lambda>x. \<not> is_space x) (c # cs)))"
  by pat_completeness auto
termination
proof (relation "measure length")
  fix s c cs
  assume d: "dropWhile is_space s = c # cs"
  then have "\<not> is_space c" by (metis dropWhile_eq_Cons_conv)
  then have "length (dropWhile (\<lambda>x. \<not> is_space x) (c # cs)) < Suc (length cs)"
    by (simp add: le_imp_less_Suc length_dropWhile_le)
  also have "\<dots> \<le> length s" using length_dropWhile_le [of is_space s] d by simp
  finally show "(dropWhile (\<lambda>x. \<not> is_space x) (c # cs), s) \<in> measure length" by simp
qed simp

declare py_split.simps [simp del]

definition collapse_space :: "string \<Rightarrow> string" where
  "collapse_space s = join_with '' '' (py_split s)"

definition strip_html :: "(string \<Rightarrow> string) \<Rightarrow> string \<Rightarrow> string" where
  "strip_html html_text raw = collapse_space (html_text raw)"

definition rstrip :: "string \<Rightarrow> string" where
  "rstrip s = rev (dropWhile is_space (rev s))"

definition clamp_text :: "char \<Rightarrow> string \<Rightarrow> int \<Rightarrow> string" where
  "clamp_text ellipsis text max_length = (if int (length text) \<le> max_length then text
     else rstrip (take (nat max_length) text) @ [ellipsis])"

lemma clamp_length: "0 \<le> n \<Longrightarrow> int (length (clamp_text ellipsis text n)) \<le> n + 1"
  using length_dropWhile_le [of is_space "rev (take (nat n) text)"] by (auto simp: clamp_text_def rstrip_def)

section \<open>Words\<close>

text \<open>\<open>\w\<close>: letters, digits, the underscore, and the other alphanumerics up to \<open>U+00FF\<close>.\<close>

definition is_word :: "char \<Rightarrow> bool" where
  "is_word c = (let n = of_char c :: nat in 48 \<le> n \<and> n \<le> 57 \<or> 65 \<le> n \<and> n \<le> 90 \<or> n = 95 \<or> 97 \<le> n \<and> n \<le> 122 \<or>
     n \<in> {170, 178, 179, 181, 185, 186, 188, 189, 190} \<or> 192 \<le> n \<and> n \<noteq> 215 \<and> n \<noteq> 247)"

definition fold_case :: "char \<Rightarrow> char" where
  "fold_case c = (let n = of_char c :: nat in
     if 65 \<le> n \<and> n \<le> 90 \<or> 192 \<le> n \<and> n \<le> 222 \<and> n \<noteq> 215 then char_of (n + 32) else c)"

definition starts_word :: "string \<Rightarrow> bool" where
  "starts_word s = (case s of [] \<Rightarrow> False | c # _ \<Rightarrow> is_word c)"

text \<open>\<open>\b\<close> between the text before (its last character) and the text after.\<close>

definition ends_word :: "string \<Rightarrow> bool" where
  "ends_word s = (s \<noteq> [] \<and> is_word (last s))"

definition boundary :: "string \<Rightarrow> string \<Rightarrow> bool" where
  "boundary behind after \<longleftrightarrow> ends_word behind \<noteq> starts_word after"

text \<open>\<open>re.search\<close> of \<open>\b\<close>, a literal, \<open>\b\<close>; \<open>nrm\<close> folds the case or is the identity.\<close>

definition matches_at :: "(char \<Rightarrow> char) \<Rightarrow> string \<Rightarrow> string \<Rightarrow> nat \<Rightarrow> bool" where
  "matches_at nrm pat text i \<longleftrightarrow> i + length pat \<le> length text \<and>
     map nrm (take (length pat) (drop i text)) = map nrm pat \<and>
     boundary (take i text) (drop i text) \<and> boundary (take (i + length pat) text) (drop (i + length pat) text)"

definition whole_word_search :: "(char \<Rightarrow> char) \<Rightarrow> string \<Rightarrow> string \<Rightarrow> bool" where
  "whole_word_search nrm pat text = list_ex (matches_at nrm pat text) [0..<Suc (length text)]"

section \<open>Tagging\<close>

definition SUFFIXES :: "string list" where
  "SUFFIXES = [''ltd'', ''limited'', ''inc'', ''incorporated'', ''plc'']"

text \<open>\<open>\b(ltd|limited|inc|incorporated|plc)\.?\b\<close> at the start of a text: the length of the match, alternatives in order.\<close>

definition suffix_alternative :: "string \<Rightarrow> string \<Rightarrow> nat option" where
  "suffix_alternative s w = (if map fold_case (take (length w) s) = w then
     (let rest = drop (length w) s in
      if rest \<noteq> [] \<and> hd rest = CHR ''.'' \<and> starts_word (tl rest) then Some (length w + 1)
      else if \<not> starts_word rest then Some (length w) else None)
     else None)"

fun first_some :: "('a \<Rightarrow> 'b option) \<Rightarrow> 'a list \<Rightarrow> 'b option" where
  "first_some f [] = None"
| "first_some f (x # xs) = (case f x of None \<Rightarrow> first_some f xs | Some y \<Rightarrow> Some y)"

definition suffix_match :: "string \<Rightarrow> string \<Rightarrow> nat option" where
  "suffix_match behind s = (if boundary behind s then first_some (suffix_alternative s) SUFFIXES else None)"

text \<open>\<open>_SUFFIX_RE.sub("", name)\<close>; the first argument is what is already behind, whose end decides \<open>\b\<close>.\<close>

function remove_suffixes :: "string \<Rightarrow> string \<Rightarrow> string" where
  "remove_suffixes behind s = (case s of [] \<Rightarrow> [] | c # cs \<Rightarrow>
     (case suffix_match behind s of
        Some (Suc n) \<Rightarrow> remove_suffixes (behind @ take (Suc n) s) (drop (Suc n) s)
      | _ \<Rightarrow> c # remove_suffixes (behind @ [c]) cs))"
  by pat_completeness auto
termination by (relation "measure (\<lambda>(b, s). length s)") auto

declare remove_suffixes.simps [simp del]

definition normalize_name :: "string \<Rightarrow> string" where
  "normalize_name name = collapse_space (remove_suffixes [] name)"

record matcher =
  mt_instrument :: nat
  mt_symbol :: string
  mt_name :: "string option"

definition build_matcher :: "instrument_row \<Rightarrow> matcher" where
  "build_matcher inst = \<lparr>mt_instrument = ins_id inst, mt_symbol = ins_symbol inst,
     mt_name = (case ins_name inst of None \<Rightarrow> None | Some name \<Rightarrow>
       if name = [] \<or> normalize_name name = [] then None else Some (normalize_name name))\<rparr>"

definition build_matchers :: "instrument_row list \<Rightarrow> matcher list" where
  "build_matchers insts = map build_matcher insts"

definition matcher_hits :: "string \<Rightarrow> matcher \<Rightarrow> bool" where
  "matcher_hits text m \<longleftrightarrow> whole_word_search id (mt_symbol m) text \<or>
     (case mt_name m of None \<Rightarrow> False | Some name \<Rightarrow> whole_word_search fold_case name text)"

definition tag_instruments :: "string \<Rightarrow> matcher list \<Rightarrow> nat list" where
  "tag_instruments text ms = map mt_instrument (filter (matcher_hits text) ms)"

text \<open>
  A suffix followed by a full stop at the end of a name leaves the full stop behind, and then the pattern ends
  with \<open>\.\b\<close>: the name is found only where a letter follows the stop.
\<close>

lemma ltd_stop_left_behind: "normalize_name ''Reliance Industries Ltd.'' = ''Reliance Industries .''"
  by code_simp

lemma ltd_names_lose_their_tag:
  "\<not> whole_word_search fold_case (normalize_name ''Reliance Industries Ltd.'') ''Reliance Industries Ltd. posts a profit''"
  "whole_word_search fold_case (normalize_name ''Reliance Industries Ltd'') ''Reliance Industries Ltd. posts a profit''"
  by code_simp+

section \<open>Sources\<close>

record raw_news =
  rn_source :: string
  rn_url :: string
  rn_title :: string
  rn_body :: string
  rn_published_at :: "instant option"

text \<open>An entry of a parsed feed; \<open>published_parsed\<close> is already UTC.\<close>

record rss_entry =
  re_link :: "string option"
  re_title :: "string option"
  re_summary :: "string option"
  re_published :: "instant option"

definition rss_item :: "string \<Rightarrow> instant \<Rightarrow> rss_entry \<Rightarrow> raw_news option" where
  "rss_item name since e = (case re_link e of None \<Rightarrow> None | Some link \<Rightarrow>
     if link = [] then None
     else if (case re_published e of None \<Rightarrow> False | Some t \<Rightarrow> t < since) then None
     else Some \<lparr>rn_source = name, rn_url = link, rn_title = (case re_title e of None \<Rightarrow> [] | Some t \<Rightarrow> t),
       rn_body = (case re_summary e of None \<Rightarrow> [] | Some t \<Rightarrow> t), rn_published_at = re_published e\<rparr>)"

text \<open>\<open>None\<close>: the download failed.\<close>

definition rss_fetch :: "string \<Rightarrow> rss_entry list option \<Rightarrow> instant \<Rightarrow> py_error + raw_news list" where
  "rss_fetch name feed since = (case feed of None \<Rightarrow> Inl NewsFetchError | Some entries \<Rightarrow> Inr (List.map_filter (rss_item name since) entries))"

section \<open>The pipeline\<close>

record ingest_result =
  ir_source :: string
  ir_fetched :: nat
  ir_stored :: nat
  ir_failed :: bool

record news_env =
  ne_html_text :: "string \<Rightarrow> string"
  ne_ellipsis :: char
  ne_cfg :: news_config
  ne_now :: instant

definition clean_item :: "news_env \<Rightarrow> raw_news \<Rightarrow> news_item_row" where
  "clean_item env raw = \<lparr>n_id = 0, n_source = rn_source raw, n_url = rn_url raw,
     n_title = clamp_text (ne_ellipsis env) (strip_html (ne_html_text env) (rn_title raw)) (nc_max_title_length (ne_cfg env)),
     n_body = clamp_text (ne_ellipsis env) (strip_html (ne_html_text env) (rn_body raw)) (nc_max_body_length (ne_cfg env)),
     n_published_at = rn_published_at raw, n_ingested_at = ne_now env\<rparr>"

definition ingest_item :: "news_env \<Rightarrow> matcher list \<Rightarrow> raw_news \<Rightarrow> (store, nat) act" where
  "ingest_item env ms raw = (let row = clean_item env raw in bindA (add_if_new row) (\<lambda>item. case item of
     None \<Rightarrow> ret 0
   | Some n \<Rightarrow> seqA (forA (tag_instruments (n_title row @ '' '' @ n_body row) ms)
       (\<lambda>i. add_news_tag \<lparr>nt_id = 0, nt_news_item = n_id n, nt_instrument = i\<rparr>)) (ret 1)))"

type_synonym news_provider = "string \<times> (instant \<Rightarrow> py_error + raw_news list)"

definition ingest_provider :: "news_env \<Rightarrow> matcher list \<Rightarrow> instant \<Rightarrow> news_provider \<Rightarrow> (store, ingest_result) act" where
  "ingest_provider env ms since p = (case snd p since of
     Inl NewsFetchError \<Rightarrow> ret \<lparr>ir_source = fst p, ir_fetched = 0, ir_stored = 0, ir_failed = True\<rparr>
   | Inl e \<Rightarrow> raise e
   | Inr raws \<Rightarrow> bindA (forA raws (ingest_item env ms)) (\<lambda>stored.
       ret \<lparr>ir_source = fst p, ir_fetched = length raws, ir_stored = sum_list stored, ir_failed = False\<rparr>))"

definition ingest :: "news_env \<Rightarrow> news_provider list \<Rightarrow> instant \<Rightarrow> (store, ingest_result list) act" where
  "ingest env providers since = bindA (getA (\<lambda>d. build_matchers (list_active d))) (\<lambda>ms. forA providers (ingest_provider env ms since))"

section \<open>What ingesting keeps\<close>

definition article_text :: "news_item_row \<Rightarrow> string" where
  "article_text n = n_title n @ '' '' @ n_body n"

definition tag_key :: "news_tag_row \<Rightarrow> nat \<times> nat" where
  "tag_key t = (nt_news_item t, nt_instrument t)"

text \<open>The unique and the foreign keys of both tables.\<close>

definition news_ok :: "store \<Rightarrow> bool" where
  "news_ok d \<longleftrightarrow> news_wf d \<and> distinct (map tag_key (news_tags d)) \<and> nt_news_item ` set (news_tags d) \<subseteq> n_id ` set (news_items d)"

text \<open>A tag whose article mentions one of the instruments.\<close>

definition earned :: "matcher list \<Rightarrow> news_item_row list \<Rightarrow> news_tag_row \<Rightarrow> bool" where
  "earned ms ns t \<longleftrightarrow> (\<exists>n \<in> set ns. n_id n = nt_news_item t \<and> nt_instrument t \<in> set (tag_instruments (article_text n) ms))"

definition has_url :: "store \<Rightarrow> string \<Rightarrow> bool" where
  "has_url d u \<longleftrightarrow> u \<in> n_url ` set (news_items d)"

definition with_news :: "news_item_row list \<Rightarrow> news_tag_row list \<Rightarrow> store \<Rightarrow> store" where
  "with_news ns ts d = d\<lparr>news_items := news_items d @ ns, news_tags := news_tags d @ ts\<rparr>"

lemma with_news_simps [simp]:
  "news_items (with_news ns ts d) = news_items d @ ns" "news_tags (with_news ns ts d) = news_tags d @ ts"
  "instruments (with_news ns ts d) = instruments d" "with_news [] [] d = d"
  "with_news ns' ts' (with_news ns ts d) = with_news (ns @ ns') (ts @ ts') d"
  by (simp_all add: with_news_def)

lemma add_tags:
  "\<exists>rs ts. forA is (\<lambda>i. add_news_tag \<lparr>nt_id = 0, nt_news_item = n, nt_instrument = i\<rparr>) d = (Inr rs, with_news [] ts d) \<and>
     map tag_key ts = map (Pair n) is"
proof (induction "is" arbitrary: d)
  case Nil
  have "forA [] (\<lambda>i. add_news_tag \<lparr>nt_id = 0, nt_news_item = n, nt_instrument = i\<rparr>) d = (Inr [], with_news [] [] d)"
    by (simp add: run_ret)
  then show ?case by fastforce
next
  case (Cons i js)
  let ?t = "\<lparr>nt_id = next_id (map nt_id (news_tags d)), nt_news_item = n, nt_instrument = i\<rparr>"
  have one: "add_news_tag \<lparr>nt_id = 0, nt_news_item = n, nt_instrument = i\<rparr> d = (Inr ?t, with_news [] [?t] d)"
    by (simp add: add_news_tag_def repo_add_def Let_def with_news_def)
  from Cons [of "with_news [] [?t] d"] obtain rs ts where rest:
    "forA js (\<lambda>i. add_news_tag \<lparr>nt_id = 0, nt_news_item = n, nt_instrument = i\<rparr>) (with_news [] [?t] d) = (Inr rs, with_news [] ([?t] @ ts) d)"
    "map tag_key ts = map (Pair n) js" by auto
  have "forA (i # js) (\<lambda>i. add_news_tag \<lparr>nt_id = 0, nt_news_item = n, nt_instrument = i\<rparr>) d = (Inr (?t # rs), with_news [] (?t # ts) d)"
    using one rest(1) by (simp add: run_bindA run_ret)
  moreover have "map tag_key (?t # ts) = map (Pair n) (i # js)" using rest(2) by (simp add: tag_key_def)
  ultimately show ?case by blast
qed

lemma ingest_old: "has_url d (rn_url raw) \<Longrightarrow> ingest_item env ms raw d = (Inr 0, d)"
  by (cases "find (\<lambda>n. n_url n = rn_url raw) (news_items d)")
    (auto simp: ingest_item_def Let_def run_simps add_if_new_def clean_item_def has_url_def find_eq_None)

lemma ingest_new:
  assumes "\<not> has_url d (rn_url raw)"
  shows "\<exists>n ts. ingest_item env ms raw d = (Inr 1, with_news [n] ts d) \<and> n_url n = rn_url raw \<and> n_id n \<notin> n_id ` set (news_items d) \<and>
     map tag_key ts = map (Pair (n_id n)) (tag_instruments (article_text n) ms)"
proof -
  let ?row = "clean_item env raw"
  let ?n = "?row\<lparr>n_id := next_id (map n_id (news_items d))\<rparr>"
  have "find (\<lambda>n. n_url n = n_url ?row) (news_items d) = None"
    using assms by (auto simp: find_eq_None has_url_def clean_item_def image_iff)
  then have add: "add_if_new ?row d = (Inr (Some ?n), with_news [?n] [] d)"
    by (simp add: add_if_new_def run_simps add_news_item_def repo_add_def Let_def with_news_def)
  from add_tags [of "tag_instruments (article_text ?n) ms" "n_id ?n" "with_news [?n] [] d"] obtain rs ts where tags:
    "forA (tag_instruments (article_text ?n) ms) (\<lambda>i. add_news_tag \<lparr>nt_id = 0, nt_news_item = n_id ?n, nt_instrument = i\<rparr>) (with_news [?n] [] d) =
       (Inr rs, with_news [?n] ts d)" "map tag_key ts = map (Pair (n_id ?n)) (tag_instruments (article_text ?n) ms)" by auto
  have "ingest_item env ms raw d = (Inr 1, with_news [?n] ts d)"
    using add tags(1) by (simp add: ingest_item_def Let_def run_simps article_text_def)
  moreover have "n_url ?n = rn_url raw" by (simp add: clean_item_def)
  moreover have "n_id ?n \<notin> n_id ` set (news_items d)" using next_id_fresh [of "map n_id (news_items d)"] by simp
  ultimately show ?thesis using tags(2) by blast
qed

text \<open>How the store grows.\<close>

definition news_grow :: "matcher list \<Rightarrow> store \<Rightarrow> store \<Rightarrow> bool" where
  "news_grow ms d e \<longleftrightarrow> (\<exists>ns ts. e = with_news ns ts d \<and> list_all (earned ms ns) ts \<and> (news_ok d \<longrightarrow> news_ok e))"

lemma news_grow_refl: "news_grow ms d d"
  unfolding news_grow_def by (intro exI [of _ "[]"]) simp

lemma earned_mono: "earned ms ns t \<Longrightarrow> set ns \<subseteq> set ns' \<Longrightarrow> earned ms ns' t"
  by (auto simp: earned_def)

lemma news_grow_trans:
  assumes "news_grow ms d e" "news_grow ms e f"
  shows "news_grow ms d f"
proof -
  from assms obtain ns ts ns' ts' where g: "e = with_news ns ts d" "list_all (earned ms ns) ts" "news_ok d \<longrightarrow> news_ok e"
    "f = with_news ns' ts' e" "list_all (earned ms ns') ts'" "news_ok e \<longrightarrow> news_ok f"
    by (auto simp: news_grow_def)
  then have "f = with_news (ns @ ns') (ts @ ts') d" by simp
  moreover have "list_all (earned ms (ns @ ns')) (ts @ ts')"
    using g(2,5) earned_mono [of ms ns _ "ns @ ns'"] earned_mono [of ms ns' _ "ns @ ns'"] by (auto simp: list_all_iff)
  ultimately show ?thesis using g(3,6) unfolding news_grow_def by blast
qed

lemma has_url_grow: "news_grow ms d e \<Longrightarrow> has_url d u \<Longrightarrow> has_url e u"
  by (auto simp: news_grow_def has_url_def)

lemma distinct_tags: "distinct (map mt_instrument ms) \<Longrightarrow> distinct (tag_instruments text ms)"
  by (simp add: tag_instruments_def distinct_map_filter)

lemma ingest_item_grows:
  assumes "distinct (map mt_instrument ms)"
  shows "\<exists>k e. ingest_item env ms raw d = (Inr k, e) \<and> news_grow ms d e \<and> has_url e (rn_url raw)"
proof (cases "has_url d (rn_url raw)")
  case True
  then show ?thesis using ingest_old news_grow_refl by blast
next
  case False
  from ingest_new [OF this] obtain n ts where n: "ingest_item env ms raw d = (Inr 1, with_news [n] ts d)" "n_url n = rn_url raw"
    "n_id n \<notin> n_id ` set (news_items d)" "map tag_key ts = map (Pair (n_id n)) (tag_instruments (article_text n) ms)" by blast
  have keys: "tag_key ` set ts = Pair (n_id n) ` set (tag_instruments (article_text n) ms)"
    using n(4) by (metis list.set_map)
  have key: "nt_news_item t = n_id n \<and> nt_instrument t \<in> set (tag_instruments (article_text n) ms)" if "t \<in> set ts" for t
  proof -
    from that have "tag_key t \<in> Pair (n_id n) ` set (tag_instruments (article_text n) ms)" unfolding keys [symmetric] by (rule imageI)
    then show ?thesis by (auto simp: tag_key_def)
  qed
  then have e: "list_all (earned ms [n]) ts" by (simp add: list_all_iff earned_def)
  have dk: "distinct (map tag_key ts)" unfolding n(4) using distinct_tags [OF assms] by (simp add: distinct_map inj_on_def)
  have new: "nt_news_item t = n_id n" if "t \<in> set ts" for t
    using key [OF that] ..
  have "news_ok (with_news [n] ts d)" if ok: "news_ok d"
  proof -
    have "n_url n \<notin> n_url ` set (news_items d)" using False n(2) by (simp add: has_url_def)
    then have "news_wf (with_news [n] ts d)" using ok n(3) by (simp add: news_ok_def news_wf_def)
    moreover have "tag_key ` set ts \<inter> tag_key ` set (news_tags d) = {}"
    proof (rule ccontr)
      assume "\<not> ?thesis"
      then obtain t u where "t \<in> set ts" "u \<in> set (news_tags d)" "tag_key t = tag_key u" by blast
      then have "nt_news_item u = n_id n" "nt_news_item u \<in> n_id ` set (news_items d)"
        using new ok by (auto simp: tag_key_def news_ok_def)
      then show False using n(3) by simp
    qed
    then have "distinct (map tag_key (news_tags (with_news [n] ts d)))" using ok dk by (auto simp: news_ok_def)
    moreover have "nt_news_item ` set (news_tags (with_news [n] ts d)) \<subseteq> n_id ` set (news_items (with_news [n] ts d))"
      using ok new by (auto simp: news_ok_def)
    ultimately show ?thesis unfolding news_ok_def by blast
  qed
  then have "news_grow ms d (with_news [n] ts d)" using e unfolding news_grow_def by blast
  moreover have "has_url (with_news [n] ts d) (rn_url raw)" using n(2) by (simp add: has_url_def)
  ultimately show ?thesis using n(1) by blast
qed

lemma ingest_items_grow:
  assumes "distinct (map mt_instrument ms)"
  shows "\<exists>ks e. forA raws (ingest_item env ms) d = (Inr ks, e) \<and> news_grow ms d e \<and> list_all (\<lambda>r. has_url e (rn_url r)) raws"
proof (induction raws arbitrary: d)
  case Nil
  then show ?case using news_grow_refl by (auto simp: run_ret)
next
  case (Cons raw raws)
  from ingest_item_grows [OF assms] obtain k e where one: "ingest_item env ms raw d = (Inr k, e)" "news_grow ms d e" "has_url e (rn_url raw)" by blast
  from Cons.IH [of e] obtain ks f where rest: "forA raws (ingest_item env ms) e = (Inr ks, f)" "news_grow ms e f"
    "list_all (\<lambda>r. has_url f (rn_url r)) raws" by blast
  have "forA (raw # raws) (ingest_item env ms) d = (Inr (k # ks), f)" using one(1) rest(1) by (simp add: run_bindA run_ret)
  then show ?case using news_grow_trans [OF one(2) rest(2)] has_url_grow [OF rest(2) one(3)] rest(3) by auto
qed

lemma ingest_items_again: "list_all (\<lambda>r. has_url d (rn_url r)) raws \<Longrightarrow>
    forA raws (ingest_item env ms) d = (Inr (replicate (length raws) 0), d)"
  by (induction raws) (simp_all add: run_bindA run_ret ingest_old)

text \<open>The providers of \<open>pt news sync\<close>: one RSS source each.\<close>

type_synonym rss_source = "string \<times> rss_entry list option"

definition rss_providers :: "rss_source list \<Rightarrow> news_provider list" where
  "rss_providers sources = map (\<lambda>(name, feed). (name, rss_fetch name feed)) sources"

definition all_present :: "instant \<Rightarrow> rss_source list \<Rightarrow> store \<Rightarrow> bool" where
  "all_present since sources d \<longleftrightarrow> list_all (\<lambda>(name, feed). case feed of None \<Rightarrow> True
     | Some entries \<Rightarrow> list_all (\<lambda>r. has_url d (rn_url r)) (List.map_filter (rss_item name since) entries)) sources"

lemma all_present_grow: "news_grow ms d e \<Longrightarrow> all_present since sources d \<Longrightarrow> all_present since sources e"
  using has_url_grow [of ms d e] by (auto simp: all_present_def list_all_iff split: option.splits)

lemma ingest_providers_grow:
  assumes "distinct (map mt_instrument ms)"
  shows "\<exists>rs e. forA (rss_providers sources) (ingest_provider env ms since) d = (Inr rs, e) \<and> news_grow ms d e \<and>
     all_present since sources e \<and> map ir_failed rs = map (\<lambda>s. snd s = None) sources"
proof (induction sources arbitrary: d)
  case Nil
  then show ?case using news_grow_refl by (auto simp: run_ret rss_providers_def all_present_def)
next
  case (Cons s sources)
  obtain name feed where s: "s = (name, feed)" by (cases s)
  let ?raws = "case feed of None \<Rightarrow> [] | Some entries \<Rightarrow> List.map_filter (rss_item name since) entries"
  from ingest_items_grow [OF assms, of ?raws env d] obtain ks e where one: "forA ?raws (ingest_item env ms) d = (Inr ks, e)"
    "news_grow ms d e" "list_all (\<lambda>r. has_url e (rn_url r)) ?raws" by blast
  have here: "\<exists>r. ingest_provider env ms since (name, rss_fetch name feed) d = (Inr r, e) \<and> ir_failed r = (feed = None)"
  proof (cases feed)
    case None
    then show ?thesis using one(1) by (simp add: ingest_provider_def rss_fetch_def run_ret)
  next
    case (Some entries)
    then show ?thesis using one(1) by (simp add: ingest_provider_def rss_fetch_def run_bindA run_ret)
  qed
  then obtain r where r: "ingest_provider env ms since (name, rss_fetch name feed) d = (Inr r, e)" "ir_failed r = (feed = None)" by blast
  from Cons.IH [of e] obtain rs f where rest: "forA (rss_providers sources) (ingest_provider env ms since) e = (Inr rs, f)"
    "news_grow ms e f" "all_present since sources f" "map ir_failed rs = map (\<lambda>s. snd s = None) sources" by blast
  have "forA (rss_providers (s # sources)) (ingest_provider env ms since) d = (Inr (r # rs), f)"
    using r(1) rest(1) by (simp add: s rss_providers_def run_bindA run_ret)
  moreover have "all_present since (s # sources) f" using rest(3) one(3) has_url_grow [OF rest(2)]
    by (auto simp: s all_present_def list_all_iff split: option.splits)
  ultimately show ?case using news_grow_trans [OF one(2) rest(2)] rest(4) r(2) by (auto simp: s)
qed

lemma ingest_providers_again:
  "all_present since sources d \<Longrightarrow> \<exists>rs. forA (rss_providers sources) (ingest_provider env ms since) d = (Inr rs, d) \<and>
     list_all (\<lambda>r. ir_stored r = 0) rs"
proof (induction sources)
  case Nil
  then show ?case by (simp add: rss_providers_def run_ret)
next
  case (Cons s sources)
  obtain name feed where s: "s = (name, feed)" by (cases s)
  from Cons obtain rs where rs: "forA (rss_providers sources) (ingest_provider env ms since) d = (Inr rs, d)" "list_all (\<lambda>r. ir_stored r = 0) rs"
    by (auto simp: all_present_def)
  have "\<exists>r. ingest_provider env ms since (name, rss_fetch name feed) d = (Inr r, d) \<and> ir_stored r = 0"
    using Cons.prems by (auto simp: s all_present_def ingest_provider_def rss_fetch_def run_simps ingest_items_again split: option.splits)
  then show ?case using rs by (auto simp: s rss_providers_def run_bindA run_ret)
qed

lemma matchers_distinct: "distinct (map ins_id (instruments d)) \<Longrightarrow> distinct (map mt_instrument (build_matchers (list_active d)))"
  by (simp add: build_matchers_def build_matcher_def list_active_def distinct_map_filter comp_def)

lemma ingest_grows:
  assumes "distinct (map ins_id (instruments d))"
  shows "\<exists>rs e. ingest env (rss_providers sources) since d = (Inr rs, e) \<and> news_grow (build_matchers (list_active d)) d e \<and>
     all_present since sources e \<and> map ir_failed rs = map (\<lambda>s. snd s = None) sources"
  using ingest_providers_grow [OF matchers_distinct [OF assms]] by (simp add: ingest_def run_simps)

lemma ingest_again:
  "all_present since sources d \<Longrightarrow> \<exists>rs. ingest env (rss_providers sources) since d = (Inr rs, d) \<and> list_all (\<lambda>r. ir_stored r = 0) rs"
  using ingest_providers_again by (simp add: ingest_def run_simps)

text \<open>A dead source changes nothing for the others.\<close>

lemma snd_forA_Cons: "snd (forA (x # xs) f s) = (case f x s of (Inl _, t) \<Rightarrow> t | (Inr _, t) \<Rightarrow> snd (forA xs f t))"
  by (auto simp: run_bindA run_ret split: prod.split sum.split)

lemma dead_source_isolated:
  "snd (forA (rss_providers (xs @ [(name, None)] @ ys)) (ingest_provider env ms since) d) =
   snd (forA (rss_providers (xs @ ys)) (ingest_provider env ms since) d)"
proof (induction xs arbitrary: d)
  case Nil
  have "ingest_provider env ms since (name, rss_fetch name None) d =
      (Inr \<lparr>ir_source = name, ir_fetched = 0, ir_stored = 0, ir_failed = True\<rparr>, d)"
    by (simp add: ingest_provider_def rss_fetch_def run_ret)
  then show ?case by (simp add: rss_providers_def snd_forA_Cons del: forA.simps)
next
  case (Cons x xs)
  have split: "rss_providers (y # zs) = (case y of (name, feed) \<Rightarrow> (name, rss_fetch name feed)) # rss_providers zs" for y zs
    by (simp add: rss_providers_def)
  show ?case using Cons.IH by (simp only: append_Cons split snd_forA_Cons)
qed

end
