(* ===== verification/PT_Cli.thy ===== *)
theory PT_Cli
  imports PT_Dashboard PT_News PT_Login PT_Backtest_Run
begin

text \<open>
  The operator commands of \<open>pt\<close> (\<open>cli.py\<close>): the kill switch, the paper account, reports, news and the paper
  trading soak. A command is an action on the state store; what it prints is what it returns, an exit with a
  non-zero code is the error \<open>TyperExit\<close>. typer's parsing of arguments is not modelled. What is proved: at most one
  soak is active at a time, its clock is never reset while it runs, and a review says GO only when its target days
  have passed; and that a manual paper order does not look at the kill switch.
\<close>

section \<open>What every command starts with\<close>

record cli_env =
  ce_config :: "py_error + app_config"
  ce_secrets :: secrets
  ce_migrated :: bool
  ce_candles :: candle_store
  ce_backtests :: backtest_db
  ce_fpow :: "rat \<Rightarrow> rat \<Rightarrow> rat"
  ce_clock :: "nat \<Rightarrow> instant"

text \<open>The time a command reads.\<close>

definition ce_now :: "cli_env \<Rightarrow> instant" where
  "ce_now env = ce_clock env 0"

definition load_config_or_exit :: "cli_env \<Rightarrow> py_error + app_config" where
  "load_config_or_exit env = config_or_exit (ce_config env)"

text \<open>Load the configuration, open the store, and run the body as one unit of work.\<close>

definition store_command :: "cli_env \<Rightarrow> (app_config \<Rightarrow> (store, 'a) act) \<Rightarrow> (store, 'a) act" where
  "store_command env body = bindA (liftE (load_config_or_exit env)) (\<lambda>cfg.
     seqA (open_store (ce_migrated env)) (session_scope (body cfg)))"

section \<open>The kill switch\<close>

definition kill_switch_status :: "cli_env \<Rightarrow> (store, kill_switch_row) act" where
  "kill_switch_status env = store_command env (\<lambda>_. ks_state)"

definition kill_switch_trip :: "cli_env \<Rightarrow> string \<Rightarrow> (store, kill_switch_row) act" where
  "kill_switch_trip env reason = store_command env (\<lambda>_. ks_trip (ce_now env) (ManualTrip reason))"

definition kill_switch_reset :: "cli_env \<Rightarrow> string \<Rightarrow> (store, kill_switch_row) act" where
  "kill_switch_reset env reason = catchA (store_command env (\<lambda>_. ks_reset reason))
     (\<lambda>e. raise (if e = KillSwitchNotTripped then TyperExit 1 else e))"

section \<open>The paper account\<close>

definition build_paper_broker :: "cli_env \<Rightarrow> app_config \<Rightarrow> interval \<Rightarrow> paper_env" where
  "build_paper_broker env cfg iv = (dashboard_broker cfg iv (ce_candles env) (ce_now env))\<lparr>pe_clock := ce_clock env\<rparr>"

text \<open>Use a fresh \<open>PaperBroker\<close> on the session.\<close>

definition with_paper_broker :: "app_config \<Rightarrow> (paper_session, 'a) act \<Rightarrow> (store, 'a) act" where
  "with_paper_broker cfg m = (\<lambda>d. case m (paper_init (capital (app_risk cfg)) d) of (r, s) \<Rightarrow> (r, pb_store s))"

definition paper_status :: "cli_env \<Rightarrow> interval \<Rightarrow> (store, funds \<times> (string \<times> int \<times> rat) list) act" where
  "paper_status env iv = store_command env (\<lambda>cfg. bindA (with_paper_broker cfg (in_store (paper_get_funds (build_paper_broker env cfg iv)))) (\<lambda>f.
     bindA (getA (\<lambda>d. map (\<lambda>p. (symbol_or_id d (bp_instrument p), bp_qty p, bp_avg_price p)) (paper_positions d))) (\<lambda>rows. ret (f, rows))))"

definition upper_char :: "char \<Rightarrow> char" where
  "upper_char c = (let n = of_char c :: nat in if 97 \<le> n \<and> n \<le> 122 then char_of (n - 32) else c)"

definition parse_side :: "string \<Rightarrow> order_side option" where
  "parse_side s = map_of [(''BUY'', BUY), (''SELL'', SELL)] (map upper_char s)"

definition parse_order_type :: "string \<Rightarrow> order_type option" where
  "parse_order_type s = map_of [(''MARKET'', MARKET), (''LIMIT'', LIMIT), (''SL'', SL)] (map upper_char s)"

definition parse_price :: "string option \<Rightarrow> py_error + rat option" where
  "parse_price price = (case price of None \<Rightarrow> Inr None | Some p \<Rightarrow>
     (case decimal_of_text p of None \<Rightarrow> Inl DecimalInvalidOperation | Some x \<Rightarrow> Inr (Some x)))"

definition paper_order_body :: "cli_env \<Rightarrow> app_config \<Rightarrow> string \<Rightarrow> string \<Rightarrow> string \<Rightarrow> string \<Rightarrow> order_side \<Rightarrow> int \<Rightarrow> order_type \<Rightarrow> string option \<Rightarrow>
    interval \<Rightarrow> (store, order_status) act" where
  "paper_order_body env cfg cid bid symbol exchange side qty ty price iv = bindA (getA (get_by_symbol symbol exchange)) (\<lambda>found. case found of
     None \<Rightarrow> raise (TyperExit 1)
   | Some inst \<Rightarrow> with_paper_broker cfg (bindA (liftE (parse_price price)) (\<lambda>limit.
       bindA (paper_place_order (build_paper_broker env cfg iv) bid
         \<lparr>rq_cid = cid, rq_instrument = ins_id inst, rq_side = side, rq_type = ty, rq_qty = qty, rq_limit = limit\<rparr>) (\<lambda>ack.
       paper_order_status (ack_cid ack)))))"

definition paper_order :: "cli_env \<Rightarrow> string \<Rightarrow> string \<Rightarrow> string \<Rightarrow> string \<Rightarrow> string \<Rightarrow> int \<Rightarrow> string \<Rightarrow> string option \<Rightarrow> interval \<Rightarrow>
    (store, order_status) act" where
  "paper_order env cid bid symbol exchange side qty ty price iv =
     bindA (liftE (load_config_or_exit env)) (\<lambda>cfg. seqA (open_store (ce_migrated env)) (
     case parse_side side of None \<Rightarrow> raise (TyperExit 1) | Some side' \<Rightarrow>
     (case parse_order_type ty of None \<Rightarrow> raise (TyperExit 1) | Some ty' \<Rightarrow>
      if ty' = LIMIT \<and> price = None then raise (TyperExit 1)
      else session_scope (paper_order_body env cfg cid bid symbol exchange side' qty ty' price iv))))"

section \<open>Reports\<close>

definition run_report :: "cli_env \<Rightarrow> instant \<Rightarrow> (store, performance_report) act" where
  "run_report env since = store_command env (\<lambda>cfg d. (generate_report (ce_fpow env) d (ce_candles env) PAPER (capital (app_risk cfg))
     (tc_interval (app_trading cfg)) since, d))"

definition report_daily :: "cli_env \<Rightarrow> (store, performance_report) act" where
  "report_daily env = run_report env (ist_midnight_utc (ce_now env))"

definition report_weekly :: "cli_env \<Rightarrow> (store, performance_report) act" where
  "report_weekly env = run_report env (ist_week_start_utc (ce_now env))"

section \<open>News\<close>

text \<open>\<open>feeds\<close>: what the download of each source of the configuration gives.\<close>

definition news_sync :: "cli_env \<Rightarrow> (string \<Rightarrow> string) \<Rightarrow> char \<Rightarrow> (string \<Rightarrow> rss_entry list option) \<Rightarrow> int option \<Rightarrow> (store, ingest_result list) act" where
  "news_sync env html_text ellipsis feeds since_days = bindA (liftE (load_config_or_exit env)) (\<lambda>cfg.
     if nc_sources (app_news cfg) = [] then raise (TyperExit 1) else
     seqA (open_store (ce_migrated env)) (
     let days = (case since_days of Some n \<Rightarrow> n | None \<Rightarrow> nc_lookback_days (app_news cfg));
         providers = rss_providers (map (\<lambda>(name, url). (name, feeds url)) (nc_sources (app_news cfg))) in
     bindA (session_scope (ingest \<lparr>ne_html_text = html_text, ne_ellipsis = ellipsis, ne_cfg = app_news cfg, ne_now = ce_now env\<rparr>
       providers (ce_now env - days * us_per_day))) (\<lambda>results.
     if list_ex ir_failed results then raise (TyperExit 1) else ret results)))"

definition news_list :: "cli_env \<Rightarrow> string \<Rightarrow> string \<Rightarrow> int \<Rightarrow> (store, news_item_row list) act" where
  "news_list env symbol exchange days = store_command env (\<lambda>_. bindA (getA (get_by_symbol symbol exchange)) (\<lambda>found. case found of
     None \<Rightarrow> raise (TyperExit 1)
   | Some inst \<Rightarrow> getA (list_for_instrument (ins_id inst) (ce_now env - days * us_per_day))))"

section \<open>The soak\<close>

definition soak_start :: "cli_env \<Rightarrow> int option \<Rightarrow> nat option \<Rightarrow> string option \<Rightarrow> (store, soak_period_row) act" where
  "soak_start env target_days baseline notes = store_command env (\<lambda>cfg. bindA (getA soak_current) (\<lambda>active.
     if active \<noteq> None then raise (TyperExit 1)
     else if (case baseline of None \<Rightarrow> False | Some i \<Rightarrow> find (\<lambda>r. brr_id r = i) (bd_runs (ce_backtests env)) = None) then raise (TyperExit 1)
     else add_soak_period \<lparr>so_id = 0, so_started_at = ce_now env,
       so_target_days = (case target_days of Some n \<Rightarrow> if n = 0 then sc_target_days (app_soak cfg) else n | None \<Rightarrow> sc_target_days (app_soak cfg)),
       so_baseline = baseline, so_ended_at = None, so_end_reason = None, so_notes = notes\<rparr>))"

definition current_soak_or_exit :: "(store, soak_period_row) act" where
  "current_soak_or_exit = bindA (getA soak_current) (\<lambda>s. case s of None \<Rightarrow> raise (TyperExit 1) | Some soak \<Rightarrow> ret soak)"

definition soak_status_cmd :: "cli_env \<Rightarrow> (store, soak_status \<times> kill_switch_row \<times> (bool \<times> instant) option) act" where
  "soak_status_cmd env = store_command env (\<lambda>_. bindA current_soak_or_exit (\<lambda>soak. bindA ks_state (\<lambda>ks. bindA (getA token_current) (\<lambda>tok.
     ret (compute_status soak (ce_now env), ks, map_option (\<lambda>t. (tok_expires_at t \<le> ce_now env, tok_expires_at t)) tok)))))"

definition generate_soak_report :: "cli_env \<Rightarrow> app_config \<Rightarrow> soak_period_row \<Rightarrow> (store, performance_report) act" where
  "generate_soak_report env cfg soak = (\<lambda>d. (generate_report (ce_fpow env) d (ce_candles env) PAPER (capital (app_risk cfg))
     (tc_interval (app_trading cfg)) (so_started_at soak), d))"

definition soak_report :: "cli_env \<Rightarrow> (store, performance_report \<times> metric_delta list) act" where
  "soak_report env = store_command env (\<lambda>cfg. bindA current_soak_or_exit (\<lambda>soak. case so_baseline soak of
     None \<Rightarrow> raise (TyperExit 1)
   | Some i \<Rightarrow> (case find (\<lambda>r. brr_id r = i) (bd_runs (ce_backtests env)) of
       None \<Rightarrow> raise (TyperExit 1)
     | Some run \<Rightarrow> bindA (generate_soak_report env cfg soak) (\<lambda>report.
         ret (report, compare_to_backtest (pr_summary report) (brr_portfolio run))))))"

definition soak_review :: "cli_env \<Rightarrow> (store, bool \<times> (string \<times> bool) list) act" where
  "soak_review env = store_command env (\<lambda>cfg. bindA current_soak_or_exit (\<lambda>soak.
     bindA (generate_soak_report env cfg soak) (\<lambda>report.
     ret (evaluate_go_no_go (compute_status soak (ce_now env)) (pr_summary report) (app_soak cfg)))))"

text \<open>The attributes of the row are set in place; the commit writes them.\<close>

definition upd_soak :: "nat \<Rightarrow> (soak_period_row \<Rightarrow> soak_period_row) \<Rightarrow> store \<Rightarrow> store" where
  "upd_soak i f d = d\<lparr>soak_periods := tbl_upd so_id i f (soak_periods d)\<rparr>"

definition soak_end :: "cli_env \<Rightarrow> string \<Rightarrow> (store, nat) act" where
  "soak_end env reason = store_command env (\<lambda>_. bindA current_soak_or_exit (\<lambda>soak.
     seqA (modA (upd_soak (so_id soak) (\<lambda>s. s\<lparr>so_ended_at := Some (ce_now env), so_end_reason := Some reason\<rparr>))) (ret (so_id soak))))"

section \<open>The clock of a soak\<close>

definition active_soaks :: "store \<Rightarrow> soak_period_row list" where
  "active_soaks d = filter (\<lambda>s. so_ended_at s = None) (soak_periods d)"

definition soaks_ok :: "store \<Rightarrow> bool" where
  "soaks_ok d \<longleftrightarrow> distinct (map so_id (soak_periods d)) \<and> length (active_soaks d) \<le> 1"

lemma soak_current_active: "soaks_ok d \<Longrightarrow> soak_current d = (case active_soaks d of [] \<Rightarrow> None | s # _ \<Rightarrow> Some s)"
proof -
  assume ok: "soaks_ok d"
  show ?thesis
  proof (cases "active_soaks d")
    case (Cons s ss)
    with ok have "active_soaks d = [s]" by (simp add: soaks_ok_def)
    then show ?thesis by (simp add: soak_current_def active_soaks_def [symmetric])
  qed (simp add: soak_current_def active_soaks_def)
qed

lemma soak_current_None: "soak_current d = None \<longleftrightarrow> active_soaks d = []"
proof -
  have "sort_key f xs = [] \<longleftrightarrow> xs = []" for f :: "soak_period_row \<Rightarrow> int" and xs by (metis length_0_conv length_sort)
  then show ?thesis by (auto simp: soak_current_def active_soaks_def [symmetric] split: list.split)
qed

lemma keeps_store_command: "(\<And>cfg. keeps P (body cfg)) \<Longrightarrow> keeps P (store_command env body)"
  unfolding store_command_def open_store_def by (intro keeps_intros)

lemma soak_start_ok: "keeps soaks_ok (soak_start env target baseline notes)"
  unfolding soak_start_def
proof (intro keeps_store_command keepsI)
  fix cfg d assume ok: "soaks_ok d"
  have "next_id (map so_id (soak_periods d)) \<notin> so_id ` set (soak_periods d)" using next_id_fresh [of "map so_id (soak_periods d)"] by simp
  then show "soaks_ok (snd (bindA (getA soak_current) (\<lambda>active.
     if active \<noteq> None then raise (TyperExit 1)
     else if (case baseline of None \<Rightarrow> False | Some i \<Rightarrow> find (\<lambda>r. brr_id r = i) (bd_runs (ce_backtests env)) = None) then raise (TyperExit 1)
     else add_soak_period \<lparr>so_id = 0, so_started_at = ce_now env,
       so_target_days = (case target of Some n \<Rightarrow> if n = 0 then sc_target_days (app_soak cfg) else n | None \<Rightarrow> sc_target_days (app_soak cfg)),
       so_baseline = baseline, so_ended_at = None, so_end_reason = None, so_notes = notes\<rparr>) d))"
    using ok by (simp add: run_bindA run_getA run_raise soak_current_None add_soak_period_def repo_add_def Let_def)
      (simp add: soaks_ok_def active_soaks_def)
qed

lemma filter_tbl_upd: "(\<And>s. \<not> P (f s)) \<Longrightarrow> filter P (tbl_upd key i f xs) = filter (\<lambda>s. key s \<noteq> i) (filter P xs)"
  by (induction xs) (auto simp: tbl_upd_def)

lemma active_upd_soak: "(\<And>s. so_ended_at (f s) \<noteq> None) \<Longrightarrow> active_soaks (upd_soak i f d) = filter (\<lambda>s. so_id s \<noteq> i) (active_soaks d)"
  unfolding active_soaks_def upd_soak_def by (simp add: filter_tbl_upd)

lemma ids_upd_soak: "(\<And>s. so_id (f s) = so_id s) \<Longrightarrow> map so_id (soak_periods (upd_soak i f d)) = map so_id (soak_periods d)"
  by (simp add: upd_soak_def tbl_upd_def)

text \<open>
  The abstract clock: when the active soak was started and for how many days. It is started only when it does not
  run, stopped by \<open>soak end\<close>, and untouched by everything else.
\<close>

datatype soak_command =
    SoakStart "int option" "nat option" "string option"
  | SoakStatus | SoakReport | SoakReview
  | SoakEnd string

type_synonym soak_clock = "(instant \<times> int) option"

definition soak_clock :: "store \<Rightarrow> soak_clock" where
  "soak_clock d = (case active_soaks d of [] \<Rightarrow> None | s # _ \<Rightarrow> Some (so_started_at s, so_target_days s))"

definition effective_target :: "app_config \<Rightarrow> int option \<Rightarrow> int" where
  "effective_target cfg target = (case target of Some n \<Rightarrow> if n = 0 then sc_target_days (app_soak cfg) else n | None \<Rightarrow> sc_target_days (app_soak cfg))"

definition baseline_missing :: "cli_env \<Rightarrow> nat option \<Rightarrow> bool" where
  "baseline_missing env baseline \<longleftrightarrow> (case baseline of None \<Rightarrow> False | Some i \<Rightarrow> find (\<lambda>r. brr_id r = i) (bd_runs (ce_backtests env)) = None)"

fun clock_step :: "cli_env \<times> soak_command \<Rightarrow> soak_clock \<Rightarrow> soak_clock" where
  "clock_step (env, SoakStart target baseline notes) clk = (case load_config_or_exit env of Inl _ \<Rightarrow> clk | Inr cfg \<Rightarrow>
     if ce_migrated env \<and> clk = None \<and> \<not> baseline_missing env baseline then Some (ce_now env, effective_target cfg target) else clk)"
| "clock_step (env, SoakEnd reason) clk = (case load_config_or_exit env of Inl _ \<Rightarrow> clk | Inr cfg \<Rightarrow> if ce_migrated env then None else clk)"
| "clock_step (env, cmd) clk = clk"

fun soak_run :: "cli_env \<times> soak_command \<Rightarrow> store \<Rightarrow> store" where
  "soak_run (env, SoakStart target baseline notes) d = snd (soak_start env target baseline notes d)"
| "soak_run (env, SoakStatus) d = snd (soak_status_cmd env d)"
| "soak_run (env, SoakReport) d = snd (soak_report env d)"
| "soak_run (env, SoakReview) d = snd (soak_review env d)"
| "soak_run (env, SoakEnd reason) d = snd (soak_end env reason d)"

lemma run_store_command:
  "snd (store_command env body d) = (case load_config_or_exit env of Inl _ \<Rightarrow> d | Inr cfg \<Rightarrow>
     if ce_migrated env then snd (session_scope (body cfg) d) else d)"
  by (auto simp: store_command_def open_store_def run_simps split: sum.split)

lemma soak_start_body:
  "store_command env (\<lambda>cfg. bindA (getA soak_current) (\<lambda>active.
     if active \<noteq> None then raise (TyperExit 1) else if baseline_missing env baseline then raise (TyperExit 1)
     else add_soak_period \<lparr>so_id = 0, so_started_at = ce_now env, so_target_days = effective_target cfg target,
       so_baseline = baseline, so_ended_at = None, so_end_reason = None, so_notes = notes\<rparr>)) = soak_start env target baseline notes"
  unfolding soak_start_def baseline_missing_def effective_target_def ..

lemma frames_soaks_reads:
  "frames soak_periods current_soak_or_exit" "frames soak_periods ks_state" "frames soak_periods (getA f)"
  "frames soak_periods (generate_soak_report env cfg soak)"
  by (auto simp: keeps_def current_soak_or_exit_def generate_soak_report_def run_simps ks_state_def ks_get_or_create_def split: option.split)

lemma frames_soak_reads:
  "frames soak_periods (soak_status_cmd env)" "frames soak_periods (soak_report env)" "frames soak_periods (soak_review env)"
  unfolding soak_status_cmd_def soak_report_def soak_review_def
  by (intro allI keeps_store_command keeps_intros frames_soaks_reads [rule_format])+

lemma soak_view: "soak_periods e = soak_periods d \<Longrightarrow> soaks_ok e = soaks_ok d \<and> soak_clock e = soak_clock d"
  by (simp add: soaks_ok_def soak_clock_def active_soaks_def)

lemma soak_run_reads: "\<nexists>t b n. cmd = SoakStart t b n \<Longrightarrow> \<nexists>r. cmd = SoakEnd r \<Longrightarrow> soak_periods (soak_run (env, cmd) d) = soak_periods d"
  using framesD [OF frames_soak_reads(1)] framesD [OF frames_soak_reads(2)] framesD [OF frames_soak_reads(3)] by (cases cmd) auto

lemma soak_end_effect:
  assumes "soaks_ok d"
  shows "soaks_ok (snd (soak_end env reason d)) \<and> soak_clock (snd (soak_end env reason d)) = clock_step (env, SoakEnd reason) (soak_clock d)"
proof (cases "load_config_or_exit env")
  case (Inr cfg)
  show ?thesis
  proof (cases "ce_migrated env \<and> active_soaks d \<noteq> []")
    case True
    then obtain s where s: "active_soaks d = [s]" using assms by (cases "active_soaks d") (auto simp: soaks_ok_def)
    then have cur: "soak_current d = Some s" using soak_current_active [OF assms] by simp
    let ?e = "upd_soak (so_id s) (\<lambda>x. x\<lparr>so_ended_at := Some (ce_now env), so_end_reason := Some reason\<rparr>) d"
    have e: "snd (soak_end env reason d) = ?e"
      using True Inr cur by (simp add: soak_end_def run_store_command session_scope_def current_soak_or_exit_def run_simps)
    have "active_soaks ?e = []" using s by (simp add: active_upd_soak)
    moreover have "map so_id (soak_periods ?e) = map so_id (soak_periods d)" by (rule ids_upd_soak) simp
    ultimately show ?thesis using assms True Inr by (simp add: e soaks_ok_def soak_clock_def)
  next
    case False
    then have "snd (soak_end env reason d) = d"
      using Inr soak_current_active [OF assms] by (auto simp: soak_end_def run_store_command session_scope_def current_soak_or_exit_def run_simps)
    then show ?thesis using assms False Inr by (auto simp: soak_clock_def)
  qed
qed (simp add: soak_end_def run_store_command assms)

lemma soak_start_effect:
  assumes "soaks_ok d"
  shows "soak_clock (snd (soak_start env target baseline notes d)) = clock_step (env, SoakStart target baseline notes) (soak_clock d)"
proof (cases "load_config_or_exit env")
  case (Inr cfg)
  show ?thesis
  proof (cases "active_soaks d")
    case Nil
    then have "soak_current d = None" by (simp add: soak_current_None)
    then show ?thesis using Inr Nil
      by (simp add: soak_start_body [symmetric] run_store_command session_scope_def run_simps add_soak_period_def repo_add_def Let_def soak_clock_def active_soaks_def)
  next
    case (Cons s ss)
    then show ?thesis using Inr soak_current_None [of d]
      by (auto simp: soak_start_body [symmetric] run_store_command session_scope_def run_simps soak_clock_def)
  qed
qed (simp add: soak_start_body [symmetric] run_store_command)

lemma soak_run_refines:
  assumes "soaks_ok d"
  shows "soaks_ok (soak_run x d) \<and> soak_clock (soak_run x d) = clock_step x (soak_clock d)"
proof -
  obtain env cmd where x: "x = (env, cmd)" by (cases x)
  show ?thesis
  proof (cases "(\<exists>t b n. cmd = SoakStart t b n) \<or> (\<exists>r. cmd = SoakEnd r)")
    case True
    then show ?thesis using assms soak_end_effect soak_start_effect keepsD [OF soak_start_ok assms] by (auto simp: x simp del: clock_step.simps)
  next
    case False
    then have "clock_step x (soak_clock d) = soak_clock d" by (cases cmd) (auto simp: x)
    then show ?thesis using False soak_view [OF soak_run_reads [of cmd env d]] assms by (auto simp: x)
  qed
qed

lemma soak_trace_refines:
  "soaks_ok d \<Longrightarrow> soaks_ok (fold soak_run xs d) \<and> soak_clock (fold soak_run xs d) = fold clock_step xs (soak_clock d)"
  by (induction xs arbitrary: d) (auto simp: soak_run_refines)

lemma review_go:
  assumes "soaks_ok d" "soak_review env d = (Inr (True, cs), e)"
  shows "\<exists>t n. soak_clock d = Some (t, n) \<and> (n \<le> 0 \<or> t + n * us_per_day \<le> ce_now env)"
proof -
  from assms(2) obtain cfg where cfg: "load_config_or_exit env = Inr cfg" "ce_migrated env"
    by (auto simp: soak_review_def store_command_def open_store_def run_simps split: sum.splits if_splits)
  from assms(2) cfg have "bindA current_soak_or_exit (\<lambda>soak. bindA (generate_soak_report env cfg soak) (\<lambda>report.
     ret (evaluate_go_no_go (compute_status soak (ce_now env)) (pr_summary report) (app_soak cfg)))) d = (Inr (True, cs), e)"
    by (simp add: soak_review_def store_command_def open_store_def run_seqA run_bindA run_liftE run_guardA session_scope_Inr)
  then have "\<exists>s r. soak_current d = Some s \<and> evaluate_go_no_go (compute_status s (ce_now env)) r (app_soak cfg) = (True, cs)"
    by (auto simp: current_soak_or_exit_def run_getA run_raise run_ret elim!: bindA_InrE split: option.splits)
  then obtain s r where s: "soak_current d = Some s" "fst (evaluate_go_no_go (compute_status s (ce_now env)) r (app_soak cfg))"
    by (metis fst_conv)
  from s(1) soak_current_active [OF assms(1)] have act: "active_soaks d = s # tl (active_soaks d)" by (cases "active_soaks d") auto
  then have "s \<in> set (active_soaks d)" by (metis list.set_intros(1))
  then have open_soak: "so_ended_at s = None" by (simp add: active_soaks_def)
  have "so_target_days s \<le> max 0 ((ce_now env - so_started_at s) div us_per_day)"
    using s(2) open_soak by (simp add: evaluate_go_no_go_def go_criteria_def compute_status_def Let_def)
  then have "so_target_days s \<le> 0 \<or> so_target_days s * us_per_day \<le> ce_now env - so_started_at s"
    using zdiv_mono1 by (auto simp: max_def us_per_day_def split: if_splits)
  moreover have "soak_clock d = Some (so_started_at s, so_target_days s)" unfolding soak_clock_def by (subst act) simp
  ultimately show ?thesis by auto
qed

end
