(* ===== verification/PT_Provider.thy ===== *)
theory PT_Provider
  imports PT_History PT_Upstox PT_Feed
begin

text \<open>
  The Upstox market data provider (\<open>data/providers/upstox.py\<close>): the instrument master, historical candles
  fetched chunk by chunk, and the stream of quotes with its reconnects. The answers of the HTTP client, the frame
  pandas makes of a list of rows, and what the websocket delivers are parameters. What is proved: the chunks of a
  request cover its days once each, so an honest server's history comes back complete, and the stream passes on
  every tick in order, whatever fails in between.
\<close>

section \<open>The instrument master\<close>

text \<open>\<open>str\<close> of a value that the master does not give as a text is a parameter.\<close>

definition field_text :: "(json \<Rightarrow> string) \<Rightarrow> json \<Rightarrow> string" where
  "field_text show_json j = (case j of JStr t \<Rightarrow> t | _ \<Rightarrow> show_json j)"

text \<open>\<open>KeyError\<close> and \<open>ValueError\<close> are reported as \<open>MarketDataError\<close>; any other exception passes.\<close>

definition market_error :: "py_error list \<Rightarrow> py_error + 'a \<Rightarrow> py_error + 'a" where
  "market_error caught r = (case r of Inl e \<Rightarrow> Inl (if e \<in> set caught then MarketDataError else e) | Inr x \<Rightarrow> Inr x)"

definition parse_instrument :: "(json \<Rightarrow> string) \<Rightarrow> string \<Rightarrow> json \<Rightarrow> py_error + instrument_info" where
  "parse_instrument show_json exchange row = bindE (dict_item row ''trading_symbol'') (\<lambda>symbol.
     bindE (dict_item row ''isin'') (\<lambda>isin. bindE (dict_item row ''instrument_key'') (\<lambda>key.
     bindE (dict_get row ''name'' (JStr [])) (\<lambda>name. bindE (bindE (dict_item row ''tick_size'') decimal_of_json) (\<lambda>paise.
     bindE (bindE (dict_item row ''lot_size'') py_int) (\<lambda>lot.
     Inr \<lparr>if_symbol = field_text show_json symbol, if_exchange = exchange, if_isin = field_text show_json isin,
       if_key = field_text show_json key, if_name = field_text show_json name, if_tick_size = dec_quot paise 100, if_lot_size = lot\<rparr>))))))"

definition is_equity :: "string \<Rightarrow> json \<Rightarrow> py_error + bool" where
  "is_equity exchange row = bindE (dict_get row ''segment'' JNull) (\<lambda>seg. bindE (dict_get row ''instrument_type'' JNull) (\<lambda>ty.
     Inr (seg = JStr (exchange @ ''_EQ'') \<and> ty = JStr ''EQ'')))"

text \<open>\<open>fetch\<close> is the download, already decompressed and parsed.\<close>

definition get_instruments :: "(json \<Rightarrow> string) \<Rightarrow> http_outcome \<Rightarrow> string \<Rightarrow> py_error + instrument_info list" where
  "get_instruments show_json fetched exchange = (case fetched of
     HttpOk raw \<Rightarrow> bindE (case raw of JList rows \<Rightarrow> Inr rows | JObj kvs \<Rightarrow> Inr (map (\<lambda>(k, _). JStr k) kvs)
         | JStr t \<Rightarrow> Inr (map (\<lambda>c. JStr [c]) t) | _ \<Rightarrow> Inl PyTypeError) (\<lambda>rows.
       bindE (forE rows (\<lambda>row. bindE (is_equity exchange row) (\<lambda>eq.
         if \<not> eq then Inr [] else market_error [PyKeyError, PyValueError] (bindE (parse_instrument show_json exchange row) (\<lambda>i. Inr [i]))))) (\<lambda>iss.
       Inr (concat iss)))
   | _ \<Rightarrow> Inl MarketDataError)"

section \<open>Historical candles\<close>

fun interval_map :: "interval \<Rightarrow> string \<times> int \<times> int" where
  "interval_map D1 = (''days'', 1, 365)"
| "interval_map M15 = (''minutes'', 15, 30)"
| "interval_map M1 = (''minutes'', 1, 7)"

definition chunk_days :: "interval \<Rightarrow> int" where
  "chunk_days iv = snd (snd (interval_map iv))"

lemma chunk_days_pos: "1 \<le> chunk_days iv"
  by (cases iv) (simp_all add: chunk_days_def)

text \<open>The loop over the chunks, from the last day backwards.\<close>

function history_chunks :: "interval \<Rightarrow> py_date \<Rightarrow> py_date \<Rightarrow> (py_date \<times> py_date) list" where
  "history_chunks iv from_date chunk_end = (if chunk_end < from_date then [] else
     let chunk_start = max from_date (chunk_end - (chunk_days iv - 1)) in
     (chunk_start, chunk_end) # history_chunks iv from_date (chunk_start - 1))"
  by pat_completeness auto
termination
  by (relation "measure (\<lambda>(iv, f, e). nat (e - f + 1))") (use chunk_days_pos in \<open>auto simp: Let_def max_def not_less\<close>)

declare history_chunks.simps [simp del]

text \<open>One request: instrument key, unit, interval, first and last day.\<close>

type_synonym history_api = "string \<Rightarrow> string \<Rightarrow> int \<Rightarrow> py_date \<Rightarrow> py_date \<Rightarrow> http_outcome"

definition fetch_chunk :: "history_api \<Rightarrow> (json list \<Rightarrow> py_error + candle list) \<Rightarrow> string \<Rightarrow> interval \<Rightarrow> py_date \<times> py_date \<Rightarrow>
    py_error + candle list" where
  "fetch_chunk api to_frame key iv ch = (case interval_map iv of (unit, n, _) \<Rightarrow>
     (case api key unit n (fst ch) (snd ch) of
       HttpOk payload \<Rightarrow> bindE (dict_get payload ''status'' JNull) (\<lambda>status.
         if status \<noteq> JStr ''success'' then Inl MarketDataError else
         bindE (dict_get payload ''data'' (JObj [])) (\<lambda>data. bindE (dict_get data ''candles'' JNull) (\<lambda>candles.
         bindE (list_or_empty candles) (\<lambda>rows. if rows = [] then Inr [] else to_frame rows))))
     | _ \<Rightarrow> Inl MarketDataError))"

definition get_historical_candles :: "history_api \<Rightarrow> (json list \<Rightarrow> py_error + candle list) \<Rightarrow> string \<Rightarrow> interval \<Rightarrow> py_date \<Rightarrow> py_date \<Rightarrow>
    py_error + candle list" where
  "get_historical_candles api to_frame key iv from_date to_date = (if to_date < from_date then Inl MarketDataError else
     bindE (forE (history_chunks iv from_date to_date) (fetch_chunk api to_frame key iv)) (\<lambda>frames.
     Inr (normalize_candle_frame (concat frames))))"

section \<open>The chunks cover the days\<close>

text \<open>Chunks that follow each other backwards without a gap or an overlap, down to the first day.\<close>

fun tiles :: "int \<Rightarrow> py_date \<Rightarrow> py_date \<Rightarrow> (py_date \<times> py_date) list \<Rightarrow> bool" where
  "tiles n f e [] \<longleftrightarrow> e = f - 1"
| "tiles n f e ((s, t) # cs) \<longleftrightarrow> t = e \<and> f \<le> s \<and> s \<le> t \<and> t - s < n \<and> tiles n f (s - 1) cs"

lemma history_chunks_tile: "f \<le> e + 1 \<Longrightarrow> tiles (chunk_days iv) f e (history_chunks iv f e)"
proof (induction iv f e rule: history_chunks.induct)
  case (1 iv f e)
  show ?case
  proof (cases "e < f")
    case True
    then show ?thesis using "1.prems" by (simp add: history_chunks.simps [of iv f e])
  next
    case False
    then show ?thesis using "1.IH" [OF _ refl] chunk_days_pos [of iv] by (simp add: history_chunks.simps [of iv f e] Let_def max_def)
  qed
qed

lemma tiles_cover: "tiles n f e cs \<Longrightarrow> 1 \<le> n \<Longrightarrow> {f..e} = (\<Union>(s, t) \<in> set cs. {s..t})"
proof (induction n f e cs rule: tiles.induct)
  case (2 n f e s t cs)
  then have ih: "{f..s - 1} = (\<Union>(s, t) \<in> set cs. {s..t})" by simp
  have "{f..e} = {s..t} \<union> {f..s - 1}" using "2.prems" by auto
  also have "\<dots> = (\<Union>(s, t) \<in> set ((s, t) # cs). {s..t})" unfolding ih by simp
  finally show ?case .
qed simp

lemma tiles_count: "tiles n f e cs \<Longrightarrow> e - f + 1 \<le> n * int (length cs)"
  by (induction n f e cs rule: tiles.induct) (auto simp: algebra_simps)

text \<open>The candles of a range of trading days.\<close>

definition in_days :: "py_date \<Rightarrow> py_date \<Rightarrow> candle list \<Rightarrow> candle list" where
  "in_days f e cs = filter (\<lambda>c. f \<le> ist_trading_date (cd_ts c) \<and> ist_trading_date (cd_ts c) \<le> e) cs"

lemma set_concat_chunks:
  assumes "tiles n f e cs" "1 \<le> n"
  shows "set (concat (map (\<lambda>(s, t). rev (in_days s t hist)) cs)) = set (in_days f e hist)"
  using tiles_cover [OF assms] by (fastforce simp: in_days_def set_eq_iff)

lemma in_days_ascending: "ascending hist \<Longrightarrow> ascending (in_days f e hist)"
  by (simp add: in_days_def ascending_filter)

lemma normalize_same_set:
  assumes "ascending ys" "set xs = set ys"
  shows "normalize_candle_frame xs = ys"
proof (rule ascending_unique)
  have "inj_on cd_ts (set xs)" using assms by (simp add: ascending_distinct distinct_map)
  then have "set (keep_last xs) = set xs"
  proof (induction xs)
    case (Cons c cs)
    then show ?case by (auto simp: inj_on_def)
  qed simp
  then show "set (normalize_candle_frame xs) = set ys" using assms(2) by (simp add: normalize_set)
qed (rule normalize_ascending, rule assms(1))

text \<open>An honest server answers each chunk with the candles of its days, in whatever order.\<close>

lemma historical_complete:
  assumes "ascending hist" "f \<le> e"
    and "\<And>s t. \<exists>frame. fetch_chunk api to_frame key iv (s, t) = Inr frame \<and> set frame = set (in_days s t hist)"
  shows "get_historical_candles api to_frame key iv f e = Inr (in_days f e hist)"
proof -
  let ?cs = "history_chunks iv f e"
  have t: "tiles (chunk_days iv) f e ?cs" using history_chunks_tile assms(2) by simp
  have "\<exists>frames. forE ?cs (fetch_chunk api to_frame key iv) = Inr frames \<and>
    list_all2 (\<lambda>ch frame. set frame = set (in_days (fst ch) (snd ch) hist)) ?cs frames"
    by (rule forE_ok) (use assms(3) in auto)
  then obtain frames where fr: "forE ?cs (fetch_chunk api to_frame key iv) = Inr frames"
    "list_all2 (\<lambda>ch frame. set frame = set (in_days (fst ch) (snd ch) hist)) ?cs frames" by blast
  from fr(2) have "set (concat frames) = set (concat (map (\<lambda>(s, t). rev (in_days s t hist)) ?cs))"
    by (induction rule: list_all2_induct) auto
  also have "\<dots> = set (in_days f e hist)" by (rule set_concat_chunks [OF t chunk_days_pos])
  finally have "normalize_candle_frame (concat frames) = in_days f e hist"
    by (rule normalize_same_set [OF in_days_ascending [OF assms(1)]])
  then show ?thesis using fr(1) assms(2) by (simp add: get_historical_candles_def)
qed

section \<open>The stream of quotes\<close>

text \<open>One feed of a decoded message: its key and, if it is an \<open>ltpc\<close>, price, quantity, time in milliseconds, previous close.\<close>

record ltpc =
  lt_ltp :: rat
  lt_ltq :: int
  lt_ltt_ms :: int
  lt_cp :: rat

definition decode_feeds :: "(string \<times> ltpc option) list \<Rightarrow> quote list" where
  "decode_feeds feeds = List.map_filter (\<lambda>(key, feed). map_option (\<lambda>l. \<lparr>qu_instrument_key = key, qu_ltp = dec_of_float (lt_ltp l),
     qu_ltq = lt_ltq l, qu_ltt = lt_ltt_ms l * 1000, qu_close = dec_of_float (lt_cp l)\<rparr>) feed) feeds"

text \<open>
  What a connection meets: the answer to the authorisation; then the websocket may fail to open; then messages
  arrive (\<open>None\<close> for one that protobuf cannot decode) until it is closed normally, which ends \<open>async for\<close>
  without an exception, or dropped, which raises.
\<close>

datatype ws_end = ClosedNormally | ConnectionDropped

record ws_connection =
  wc_authorize :: http_outcome
  wc_opens :: bool
  wc_messages :: "(string \<times> ltpc option) list option list"
  wc_end :: ws_end

definition authorize_websocket :: "(json \<Rightarrow> string) \<Rightarrow> string option \<Rightarrow> http_outcome \<Rightarrow> py_error + string" where
  "authorize_websocket show_json access_token answer = (if access_token \<in> {None, Some []} then Inl MissingAccessToken else
     case answer of
       HttpOk payload \<Rightarrow> (case bindE (dict_item payload ''data'') (\<lambda>data. dict_item data ''authorized_redirect_uri'') of
         Inr uri \<Rightarrow> Inr (field_text show_json uri)
       | Inl _ \<Rightarrow> Inl MarketDataError)
     | _ \<Rightarrow> Inl MarketDataError)"

text \<open>One connection: the quotes it yields, the attempt counter after it, and whether it failed.\<close>

definition message_quotes :: "(string \<times> ltpc option) list option \<Rightarrow> quote list" where
  "message_quotes m = (case m of None \<Rightarrow> [] | Some feeds \<Rightarrow> decode_feeds feeds)"

definition run_connection :: "(json \<Rightarrow> string) \<Rightarrow> string option \<Rightarrow> ws_connection \<Rightarrow> nat \<Rightarrow> quote list \<times> nat \<times> py_error option" where
  "run_connection show_json token conn attempt = (case authorize_websocket show_json token (wc_authorize conn) of
     Inl e \<Rightarrow> ([], attempt, Some e)
   | Inr _ \<Rightarrow> if \<not> wc_opens conn then ([], attempt, Some PyOSError) else
       (concat (map message_quotes (wc_messages conn)), if wc_messages conn = [] then attempt else 0,
        case wc_end conn of ClosedNormally \<Rightarrow> None | ConnectionDropped \<Rightarrow> Some PyOSError))"

record stream_log =
  sl_quotes :: "quote list"
  sl_slept :: "rat list"

text \<open>\<open>max_reconnect_attempts\<close> exceeded by the \<open>n\<close>-th failure in a row.\<close>

definition reconnects_exhausted :: "nat option \<Rightarrow> nat \<Rightarrow> bool" where
  "reconnects_exhausted limit n \<longleftrightarrow> (case limit of None \<Rightarrow> False | Some k \<Rightarrow> k < n)"

text \<open>The loop over the connections that the world provides: what it yields, sleeps, and the error it ends with.\<close>

fun stream_quotes :: "(json \<Rightarrow> string) \<Rightarrow> string option \<Rightarrow> reconnect_policy \<Rightarrow> nat option \<Rightarrow> ws_connection list \<Rightarrow> nat \<Rightarrow>
    stream_log \<times> py_error option" where
  "stream_quotes show_json token policy limit [] attempt = (\<lparr>sl_quotes = [], sl_slept = []\<rparr>, None)"
| "stream_quotes show_json token policy limit (conn # conns) attempt = (case run_connection show_json token conn attempt of
     (qs, n, None) \<Rightarrow> (case stream_quotes show_json token policy limit conns n of
        (l, r) \<Rightarrow> (l\<lparr>sl_quotes := qs @ sl_quotes l\<rparr>, r))
   | (qs, n, Some e) \<Rightarrow> if e = MissingAccessToken then (\<lparr>sl_quotes = qs, sl_slept = []\<rparr>, Some e)
        else if reconnects_exhausted limit (Suc n) then (\<lparr>sl_quotes = qs, sl_slept = []\<rparr>, Some MarketDataError)
        else (case delay_for policy (int n) of
          Inl x \<Rightarrow> (\<lparr>sl_quotes = qs, sl_slept = []\<rparr>, Some x)
        | Inr delay \<Rightarrow> (case stream_quotes show_json token policy limit conns (Suc n) of
            (l, r) \<Rightarrow> (\<lparr>sl_quotes = qs @ sl_quotes l, sl_slept = delay # sl_slept l\<rparr>, r))))"

section \<open>What the stream passes on\<close>

definition connection_fails :: "(json \<Rightarrow> string) \<Rightarrow> string option \<Rightarrow> ws_connection \<Rightarrow> bool" where
  "connection_fails show_json token conn \<longleftrightarrow> snd (snd (run_connection show_json token conn 0)) \<noteq> None"

definition connection_quotes :: "(json \<Rightarrow> string) \<Rightarrow> string option \<Rightarrow> ws_connection \<Rightarrow> quote list" where
  "connection_quotes show_json token conn = fst (run_connection show_json token conn 0)"

lemma run_connection_parts:
  "run_connection show_json token conn n = (connection_quotes show_json token conn,
     fst (snd (run_connection show_json token conn n)), snd (snd (run_connection show_json token conn 0)))"
  by (auto simp: run_connection_def connection_quotes_def split: sum.split ws_end.split)

lemma run_connection_error:
  "snd (snd (run_connection show_json (Some (t # ts)) conn n)) = Some e \<Longrightarrow> e \<in> {MarketDataError, PyOSError}"
  by (auto simp: run_connection_def authorize_websocket_def split: sum.splits ws_end.splits http_outcome.splits if_splits)

lemma delay_for_nat: "\<exists>x. delay_for p (int n) = Inr x"
  by (simp add: delay_for_def)

lemma stream_all:
  assumes "reconnect_init b m f = Inr policy" "fl_rnd b = b"
  shows "case stream_quotes show_json (Some (t # ts)) policy None conns n of (l, r) \<Rightarrow> r = None \<and>
     sl_quotes l = concat (map (connection_quotes show_json (Some (t # ts))) conns) \<and>
     length (sl_slept l) = length (filter (connection_fails show_json (Some (t # ts))) conns) \<and>
     list_all (\<lambda>x. b \<le> x \<and> x \<le> m) (sl_slept l)"
proof (induction conns arbitrary: n)
  case (Cons conn conns)
  let ?tok = "Some (t # ts)"
  obtain k where run: "run_connection show_json ?tok conn n = (connection_quotes show_json ?tok conn, k,
      snd (snd (run_connection show_json ?tok conn 0)))" using run_connection_parts by blast
  show ?case
  proof (cases "snd (snd (run_connection show_json ?tok conn 0))")
    case None
    then show ?thesis using Cons.IH [of k] run by (auto simp: connection_fails_def split: prod.splits)
  next
    case (Some e)
    with run_connection_error have e: "e \<noteq> MissingAccessToken" by blast
    obtain x where x: "delay_for policy (int k) = Inr x" using delay_for_nat by blast
    show ?thesis using Cons.IH [of "Suc k"] run Some e x delay_for_bounds [OF assms(1) x assms(2)]
      by (auto simp: connection_fails_def reconnects_exhausted_def split: prod.splits)
  qed
qed simp

text \<open>With a limit, it stops with an error after exactly that many reconnects in a row without a message.\<close>

lemma stream_gives_up:
  assumes "\<And>conn. conn \<in> set conns \<Longrightarrow> connection_fails show_json (Some (t # ts)) conn \<and> wc_messages conn = []"
    and "n + length conns = Suc k" "n \<le> k"
  shows "snd (stream_quotes show_json (Some (t # ts)) policy (Some k) conns n) = Some MarketDataError"
  using assms
proof (induction conns arbitrary: n)
  case Nil
  then show ?case by simp
next
  case (Cons conn conns)
  let ?tok = "Some (t # ts)"
  have c: "connection_fails show_json ?tok conn" "wc_messages conn = []" using Cons.prems(1) by simp_all
  then obtain e where e: "snd (snd (run_connection show_json ?tok conn 0)) = Some e" by (auto simp: connection_fails_def)
  with run_connection_error have ne: "e \<noteq> MissingAccessToken" by blast
  have "fst (snd (run_connection show_json ?tok conn n)) = n" using c(2) by (auto simp: run_connection_def split: sum.split)
  then have run: "run_connection show_json ?tok conn n = (connection_quotes show_json ?tok conn, n, Some e)"
    using run_connection_parts [of show_json ?tok conn n] e by simp
  obtain x where x: "delay_for policy (int n) = Inr x" using delay_for_nat by blast
  show ?case
  proof (cases "n = k")
    case True
    then show ?thesis using run ne by (simp add: reconnects_exhausted_def)
  next
    case False
    then have "snd (stream_quotes show_json ?tok policy (Some k) conns (Suc n)) = Some MarketDataError"
      using Cons.prems by (intro Cons.IH) auto
    then show ?thesis using run ne x False Cons.prems(3) by (auto simp: reconnects_exhausted_def split: prod.split)
  qed
qed

end
