(* ===== verification/PT_Cli_Run.thy ===== *)
theory PT_Cli_Run
  imports PT_Cli PT_Provider PT_Gate PT_Strategies
begin

text \<open>
  The commands of \<open>pt\<close> (\<open>cli.py\<close>) that fetch data, backtest, analyse, recommend and trade. Loading of strategy
  classes from outside the registry, the validation of their parameters and the clients of Upstox and of the model
  are parameters, as are the parsing of dates and of JSON options; the event loop of \<open>pt run\<close> and
  \<open>pt data stream\<close> is the live system of PT_Live. What is proved: \<open>pt run\<close> hands on only a token that is valid and
  a mode that is configured, and a live run without the second key is a dry run.
\<close>

section \<open>Errors and dates\<close>

definition personal_trade_errors :: "py_error list" where
  "personal_trade_errors = [InvalidOrderTransition, UnknownOrder, UnknownInstrument, KillSwitchNotTripped, UpstoxBrokerError,
     BacktestError, UnknownIndicatorKind, UnknownStrategy, AIAnalysisDisabled, AIBudgetExhausted, ConfigError, UnknownSymbol,
     NoDataForSymbol, InvalidSweepGrid, MarketDataError, LLMProviderError, LLMOutputInvalid, NewsFetchError, UpstoxAuthError,
     TokenDecryptionFailed, MissingAccessToken]"

text \<open>\<open>except e: raise typer.Exit(code=1)\<close>.\<close>

definition exit_on :: "py_error list \<Rightarrow> ('s, 'a) act \<Rightarrow> ('s, 'a) act" where
  "exit_on errors m = catchA m (\<lambda>e. raise (if e \<in> set errors then TyperExit 1 else e))"

fun DEFAULT_LOOKBACK_DAYS :: "interval \<Rightarrow> int" where
  "DEFAULT_LOOKBACK_DAYS D1 = 1095"
| "DEFAULT_LOOKBACK_DAYS M15 = 60"
| "DEFAULT_LOOKBACK_DAYS M1 = 7"

text \<open>\<open>_parse_date\<close>; a \<open>BadParameter\<close> is a usage error, code 2.\<close>

definition parse_date :: "(string \<Rightarrow> py_date option) \<Rightarrow> string option \<Rightarrow> py_date \<Rightarrow> py_error + py_date" where
  "parse_date fromisoformat text fallback = (case text of None \<Rightarrow> Inr fallback | Some t \<Rightarrow>
     (case fromisoformat t of None \<Rightarrow> Inl (TyperExit 2) | Some d \<Rightarrow> Inr d))"

definition date_range :: "(string \<Rightarrow> py_date option) \<Rightarrow> py_date \<Rightarrow> interval \<Rightarrow> string option \<Rightarrow> string option \<Rightarrow> py_error + py_date \<times> py_date" where
  "date_range fromisoformat today iv from_text to_text = bindE (parse_date fromisoformat to_text today) (\<lambda>to_date.
     bindE (parse_date fromisoformat from_text (to_date - DEFAULT_LOOKBACK_DAYS iv)) (\<lambda>from_date. Inr (from_date, to_date)))"

definition targets_or_exit :: "app_config \<Rightarrow> string list \<Rightarrow> py_error + string list" where
  "targets_or_exit cfg symbols = (let targets = (if symbols \<noteq> [] then symbols else tc_universe (app_trading cfg)) in
     if targets = [] then Inl (TyperExit 1) else Inr targets)"

section \<open>Data\<close>

definition data_sync_instruments :: "cli_env \<Rightarrow> (json \<Rightarrow> string) \<Rightarrow> http_outcome \<Rightarrow> (store, int) act" where
  "data_sync_instruments env show_json fetched = store_command env (\<lambda>_.
     bindA (liftE (get_instruments show_json fetched ''NSE'')) sync_instruments)"

text \<open>One symbol of \<open>pt data sync\<close>: \<open>None\<close> when it failed. The candle store is files: nothing is rolled back.\<close>

definition data_sync_symbol :: "(string \<Rightarrow> interval \<Rightarrow> py_date \<Rightarrow> py_date \<Rightarrow> py_error + candle list) \<Rightarrow> instant \<Rightarrow> store \<Rightarrow> interval \<Rightarrow>
    py_date \<times> py_date \<Rightarrow> nse_calendar option \<Rightarrow> string \<Rightarrow> (candle_store, sync_result option) act" where
  "data_sync_symbol fetch now d iv dates cal symbol =
     catchA (bindA (sync_candles fetch now d symbol iv (fst dates) (snd dates) cal ''NSE'') (\<lambda>r. ret (Some r)))
       (\<lambda>e. if e \<in> set personal_trade_errors then ret None else raise e)"

definition data_sync :: "cli_env \<Rightarrow> history_api \<Rightarrow> (json list \<Rightarrow> py_error + candle list) \<Rightarrow> (string \<Rightarrow> py_date option) \<Rightarrow> py_date \<Rightarrow>
    nse_calendar option \<Rightarrow> store \<Rightarrow> string list \<Rightarrow> interval \<Rightarrow> string option \<Rightarrow> string option \<Rightarrow> (candle_store, sync_result list) act" where
  "data_sync env api to_frame fromisoformat today cal d symbols iv from_text to_text =
     bindA (liftE (load_config_or_exit env)) (\<lambda>cfg. bindA (liftE (targets_or_exit cfg symbols)) (\<lambda>targets.
     bindA (liftE (date_range fromisoformat today iv from_text to_text)) (\<lambda>dates.
     seqA (guardA (\<lambda>_. ce_migrated env) (TyperExit 1))
     (bindA (forA targets (data_sync_symbol (get_historical_candles api to_frame) (ce_now env) d iv dates cal)) (\<lambda>results.
     if None \<in> set results then raise (TyperExit 1) else ret (map the results))))))"

definition data_check :: "cli_env \<Rightarrow> nse_calendar option \<Rightarrow> string \<Rightarrow> interval \<Rightarrow> (store, quality_report) act" where
  "data_check env cal symbol iv = bindA (liftE (load_config_or_exit env)) (\<lambda>_. seqA (open_store (ce_migrated env)) (
     let frame = store_read (''NSE'', symbol, iv) None None (ce_candles env); report = check_candles frame iv cal in
     if frame = [] \<or> has_errors report then raise (TyperExit 1) else ret report))"

definition data_info :: "cli_env \<Rightarrow> py_error + dataset_info list" where
  "data_info env = bindE (load_config_or_exit env) (\<lambda>_. Inr (store_datasets (ce_candles env)))"

section \<open>Backtests\<close>

text \<open>\<open>classes\<close>: what a resolved class can do.\<close>

definition backtest_env :: "app_config \<Rightarrow> run_env \<Rightarrow> rat option \<Rightarrow> rat option \<Rightarrow> run_env" where
  "backtest_env cfg base cap risk_pct = base\<lparr>re_capital := (case cap of Some c \<Rightarrow> c | None \<Rightarrow> capital (app_risk cfg)),
     re_risk_pct := (case risk_pct of Some p \<Rightarrow> p | None \<Rightarrow> risk_per_trade_pct (app_risk cfg)),
     re_rates := app_costs cfg, re_cfg := app_backtest cfg, re_exchange := ''NSE''\<rparr>"

text \<open>An option that is absent or empty keeps the configured amount.\<close>

definition amount_option :: "string option \<Rightarrow> py_error + rat option" where
  "amount_option text = (if text \<in> {None, Some []} then Inr None else parse_price text)"

definition backtest_run :: "cli_env \<Rightarrow> run_env \<Rightarrow> 'c importer \<Rightarrow> ('c resolved_class \<Rightarrow> ('p, 'st) sweep_class) \<Rightarrow>
    (string \<Rightarrow> py_date option) \<Rightarrow> py_date \<Rightarrow> string \<Rightarrow> string list \<Rightarrow> interval \<Rightarrow> string option \<Rightarrow> string option \<Rightarrow> string option \<Rightarrow>
    string option \<Rightarrow> py_error + (string \<times> json) list \<Rightarrow> (backtest_db, multi_symbol_result) act" where
  "backtest_run env base imp classes fromisoformat today path symbols iv from_text to_text cap risk_pct params_json =
     bindA (liftE (load_config_or_exit env)) (\<lambda>cfg. bindA (liftE (targets_or_exit cfg symbols)) (\<lambda>targets.
     bindA (exit_on [UnknownStrategy] (liftE (resolve_strategy_class imp path))) (\<lambda>cls.
     bindA (liftE (bindE params_json (sc_validate (classes cls)))) (\<lambda>params.
     bindA (liftE (date_range fromisoformat today iv from_text to_text)) (\<lambda>dates.
     seqA (guardA (\<lambda>_. ce_migrated env) (TyperExit 1))
     (exit_on personal_trade_errors (session_scope (bindA (liftE (amount_option cap)) (\<lambda>c. bindA (liftE (amount_option risk_pct)) (\<lambda>r.
       run_backtest_for_symbols (backtest_env cfg base c r) (sc_name (classes cls)) (sc_dump (classes cls) params)
         (sc_construct (classes cls) params) targets iv (fst dates) (snd dates)))))))))))"

definition sweep_order :: "sweep_result \<Rightarrow> int \<times> rat" where
  "sweep_order r = (case sw_out_of_sample r of None \<Rightarrow> (1, 0) | Some m \<Rightarrow> (0, - bm_sharpe m))"

definition backtest_sweep :: "cli_env \<Rightarrow> run_env \<Rightarrow> 'c importer \<Rightarrow> ('c resolved_class \<Rightarrow> ('p, 'st) sweep_class) \<Rightarrow>
    (string \<Rightarrow> py_date option) \<Rightarrow> py_date \<Rightarrow> string \<Rightarrow> string list \<Rightarrow> interval \<Rightarrow> string option \<Rightarrow> string option \<Rightarrow> string option \<Rightarrow>
    string option \<Rightarrow> rat \<Rightarrow> py_error + (string \<times> json list) list \<Rightarrow> (backtest_db, sweep_result list) act" where
  "backtest_sweep env base imp classes fromisoformat today path symbols iv from_text to_text cap risk_pct oos_fraction grid_json =
     bindA (liftE (load_config_or_exit env)) (\<lambda>cfg. bindA (liftE (targets_or_exit cfg symbols)) (\<lambda>targets.
     bindA (exit_on [UnknownStrategy] (liftE (resolve_strategy_class imp path))) (\<lambda>cls.
     bindA (liftE grid_json) (\<lambda>grid. bindA (liftE (date_range fromisoformat today iv from_text to_text)) (\<lambda>dates.
     seqA (guardA (\<lambda>_. ce_migrated env) (TyperExit 1))
     (bindA (exit_on [InvalidSweepGrid] (session_scope (bindA (liftE (amount_option cap)) (\<lambda>c. bindA (liftE (amount_option risk_pct)) (\<lambda>r.
       run_parameter_sweep (backtest_env cfg base c r) (classes cls) grid targets iv (fst dates) (snd dates) oos_fraction)))))
       (\<lambda>results. ret (sort_key sweep_order results))))))))"

section \<open>Analysis and recommendations\<close>

definition ai_secrets_of :: "secrets \<Rightarrow> ai_secrets" where
  "ai_secrets_of sec = \<lparr>se_anthropic_api_key = sec_anthropic_api_key sec, se_bedrock_token = sec_aws_bearer_token sec, se_aws_region = sec_aws_region sec\<rparr>"

text \<open>The unit of work around the model calls: the store is rolled back, the calls are made.\<close>

definition ai_scope :: "(ai_state, 'a) act \<Rightarrow> (ai_state, 'a) act" where
  "ai_scope m = (\<lambda>s. case m s of (Inl e, t) \<Rightarrow> (Inl e, t\<lparr>as_store := as_store s\<rparr>) | (Inr x, t) \<Rightarrow> (Inr x, t))"

text \<open>\<open>base\<close> holds the system prompt and the renderers; the provider talks to the SDK client.\<close>

definition analyze_body :: "cli_env \<Rightarrow> ai_env \<Rightarrow> llm_client \<Rightarrow> app_config \<Rightarrow> string \<Rightarrow> interval \<Rightarrow> string \<Rightarrow>
    (ai_state, ai_analysis_row \<times> ai_answer) act" where
  "analyze_body env base client cfg symbol iv exchange = bindA (getA (\<lambda>s. get_by_symbol symbol exchange (as_store s))) (\<lambda>found. case found of
     None \<Rightarrow> raise (TyperExit 1)
   | Some inst \<Rightarrow> (let frame = store_read (exchange, symbol, iv) None None (ce_candles env) in
       if frame = [] then raise (TyperExit 1) else
       bindA (exit_on [ConfigError] (liftE (build_anthropic_provider (ai_secrets_of (ce_secrets env)) (app_ai cfg)))) (\<lambda>provider.
       bindA (getA (\<lambda>s. position_snapshot_of (get_for (ins_id inst) PAPER (as_store s)) (cd_close (last frame)))) (\<lambda>pos.
       bindA (getA (\<lambda>s. take (nat (ai_max_news_items (app_ai cfg)))
         (list_for_instrument (ins_id inst) (ce_now env - ai_news_lookback_days (app_ai cfg) * us_per_day) (as_store s)))) (\<lambda>news.
       bindA (liftE (build_market_snapshot (ae_lib base) symbol frame pos (map news_snapshot_of news))) (\<lambda>snap.
       exit_on ai_unavailable (analyze_instrument (base\<lparr>ae_provider := anthropic_analyze client provider\<rparr>) (app_ai cfg) inst snap (ce_now env))))))))"

definition analyze :: "cli_env \<Rightarrow> ai_env \<Rightarrow> llm_client \<Rightarrow> string \<Rightarrow> interval \<Rightarrow> string \<Rightarrow> (ai_state, ai_analysis_row \<times> ai_answer) act" where
  "analyze env base client symbol iv exchange = bindA (liftE (load_config_or_exit env)) (\<lambda>cfg.
     if \<not> ai_enabled (app_ai cfg) then raise (TyperExit 1) else
     seqA (guardA (\<lambda>_. ce_migrated env) (TyperExit 1)) (ai_scope (analyze_body env base client cfg symbol iv exchange)))"

text \<open>Without a provider (disabled, or no key) the recommendations are deterministic.\<close>

definition recommend_provider :: "cli_env \<Rightarrow> app_config \<Rightarrow> py_error + anthropic_provider option" where
  "recommend_provider env cfg = (if \<not> ai_enabled (app_ai cfg) then Inr None else
     (case build_anthropic_provider (ai_secrets_of (ce_secrets env)) (app_ai cfg) of
        Inr p \<Rightarrow> Inr (Some p) | Inl ConfigError \<Rightarrow> Inr None | Inl e \<Rightarrow> Inl e))"

definition recommend_universe :: "cli_env \<Rightarrow> app_config \<Rightarrow> interval \<Rightarrow> (string \<times> candle list) list" where
  "recommend_universe env cfg iv = filter (\<lambda>(s, frame). frame \<noteq> [])
     (map (\<lambda>s. (s, store_read (''NSE'', s, iv) None None (ce_candles env))) (first_seen (tc_universe (app_trading cfg))))"

definition recommend_run :: "cli_env \<Rightarrow> ai_env \<Rightarrow> llm_client \<Rightarrow> 'c importer \<Rightarrow> ('c resolved_class \<Rightarrow> json \<Rightarrow> py_error + 'st strategy) \<Rightarrow>
    interval option \<Rightarrow> (ai_state, screened list) act" where
  "recommend_run env base client imp mk_strat iv = bindA (liftE (load_config_or_exit env)) (\<lambda>cfg.
     if tc_universe (app_trading cfg) = [] then raise (TyperExit 1) else
     bindA (exit_on [UnknownStrategy] (liftE (resolve_strategy_class imp (tc_strategy (app_trading cfg))))) (\<lambda>cls.
     bindA (liftE (mk_strat cls (tc_strategy_params (app_trading cfg)))) (\<lambda>strat.
     bindA (liftE (recommend_provider env cfg)) (\<lambda>provider.
     seqA (guardA (\<lambda>_. ce_migrated env) (TyperExit 1))
     (let rec_interval = (case iv of Some i \<Rightarrow> i | None \<Rightarrow> rc_interval (app_recommendation cfg));
          universe = recommend_universe env cfg rec_interval;
          base' = (case provider of None \<Rightarrow> base | Some p \<Rightarrow> base\<lparr>ae_provider := anthropic_analyze client p\<rparr>) in
      if universe = [] then raise (TyperExit 1) else
      ai_scope (\<lambda>s. case run_recommendation_cycle base' (provider \<noteq> None) (app_ai cfg) (app_recommendation cfg) strat universe ''NSE''
          (ce_now env) \<lparr>rs_ai = s, rs_strategy = st_init strat\<rparr> of (r, t) \<Rightarrow> (r, rs_ai t)))))))"

section \<open>Streaming and trading\<close>

text \<open>\<open>pt data stream\<close> up to the start of the feed: the subscriptions.\<close>

definition data_stream_preflight :: "cli_env \<Rightarrow> nse_calendar option \<Rightarrow> string list \<Rightarrow> interval \<Rightarrow> string \<Rightarrow>
    (store, string \<times> (string \<times> interval) list) act" where
  "data_stream_preflight env cal symbols iv exchange = (if iv \<noteq> M1 \<and> iv \<noteq> M15 then raise (TyperExit 1) else
     bindA (liftE (load_config_or_exit env)) (\<lambda>cfg. case sec_upstox_access_token (ce_secrets env) of
       None \<Rightarrow> raise (TyperExit 1)
     | Some token \<Rightarrow> bindA (liftE (targets_or_exit cfg symbols)) (\<lambda>targets.
         if cal = None then raise (TyperExit 1) else
         seqA (open_store (ce_migrated env)) (session_scope (
           bindA (forA targets (\<lambda>s. bindA (getA (get_by_symbol s exchange)) (\<lambda>found. case found of
             None \<Rightarrow> raise (TyperExit 1) | Some inst \<Rightarrow> ret (ins_key inst, iv)))) (\<lambda>subs. ret (token, first_seen subs)))))))"

text \<open>\<open>pt run\<close>: the mode, the token, the runners, and with them the orchestrator.\<close>

definition run_token :: "cli_env \<Rightarrow> fernet \<Rightarrow> trading_mode \<Rightarrow> (store, string) act" where
  "run_token env fn mode = (if mode = LIVE then run_live_token fn (ce_secrets env) (ce_migrated env) (ce_now env)
     else (case sec_upstox_access_token (ce_secrets env) of None \<Rightarrow> raise (TyperExit 1) | Some t \<Rightarrow> ret t))"

definition mode_of_text :: "app_config \<Rightarrow> string \<Rightarrow> py_error + trading_mode" where
  "mode_of_text cfg text = (if text = (case tc_mode (app_trading cfg) of ConfigPaper \<Rightarrow> ''paper'' | ConfigLive \<Rightarrow> ''live'')
     then Inr (if text = ''live'' then LIVE else PAPER) else Inl (TyperExit 1))"

definition run_runner :: "'st strategy \<Rightarrow> string \<Rightarrow> (store, string \<times> 'st runner) act" where
  "run_runner strat symbol = bindA (getA (get_by_symbol symbol ''NSE'')) (\<lambda>found. case found of
     None \<Rightarrow> raise (TyperExit 1)
   | Some inst \<Rightarrow> bindA (liftE (runner_init inst strat)) (\<lambda>r. ret (ins_key inst, r)))"

definition run_orch_cfg :: "numlib \<Rightarrow> app_config \<Rightarrow> trading_mode \<Rightarrow> orch_cfg" where
  "run_orch_cfg lib cfg mode = \<lparr>oc_mode = mode, oc_risk = app_risk cfg, oc_sizer = sizer_size (risk_per_trade_pct (app_risk cfg)),
     oc_rates = app_costs cfg, oc_paper = app_paper cfg, oc_initial_cash = capital (app_risk cfg),
     oc_strategy_name = tc_strategy (app_trading cfg), oc_strategy_params = tc_strategy_params (app_trading cfg),
     oc_live_orders = tc_live_orders_enabled (app_trading cfg), oc_upstox = Some (app_upstox cfg), oc_lib = lib\<rparr>"

record 'st run_prepared =
  rp_token :: string
  rp_runners :: "(string \<times> 'st runner) list"
  rp_cfg :: orch_cfg

definition run_prepare :: "cli_env \<Rightarrow> numlib \<Rightarrow> 'c importer \<Rightarrow> ('c resolved_class \<Rightarrow> json \<Rightarrow> py_error + 'st strategy) \<Rightarrow>
    nse_calendar option \<Rightarrow> app_config \<Rightarrow> trading_mode \<Rightarrow> string \<Rightarrow> (store, 'st run_prepared) act" where
  "run_prepare env lib imp mk_strat cal cfg mode token = (
     if tc_universe (app_trading cfg) = [] then raise (TyperExit 1)
     else if cal = None then raise (TyperExit 1) else
     bindA (exit_on [UnknownStrategy] (liftE (resolve_strategy_class imp (tc_strategy (app_trading cfg))))) (\<lambda>cls.
     bindA (liftE (mk_strat cls (tc_strategy_params (app_trading cfg)))) (\<lambda>strat.
     seqA (open_store (ce_migrated env))
     (bindA (session_scope (forA (tc_universe (app_trading cfg)) (run_runner strat))) (\<lambda>runners.
      bindA (liftE (sizer_init (risk_per_trade_pct (app_risk cfg)))) (\<lambda>_.
      ret \<lparr>rp_token = token, rp_runners = runners, rp_cfg = run_orch_cfg lib cfg mode\<rparr>))))))"

definition run_preflight :: "cli_env \<Rightarrow> numlib \<Rightarrow> fernet \<Rightarrow> 'c importer \<Rightarrow> ('c resolved_class \<Rightarrow> json \<Rightarrow> py_error + 'st strategy) \<Rightarrow>
    nse_calendar option \<Rightarrow> string \<Rightarrow> (store, 'st run_prepared) act" where
  "run_preflight env lib fn imp mk_strat cal mode_text = bindA (liftE (load_config_or_exit env)) (\<lambda>cfg.
     bindA (liftE (mode_of_text cfg mode_text)) (\<lambda>mode. bindA (run_token env fn mode) (run_prepare env lib imp mk_strat cal cfg mode)))"

text \<open>A later symbol with the key of an earlier one replaces its runner, as in the dictionary.\<close>

definition run_orchestrator :: "'st run_prepared \<Rightarrow> store \<Rightarrow> 'st orch" where
  "run_orchestrator p d = \<lparr>or_store = d, or_quotes = (\<lambda>_. None), or_runners = map_of (rev (rp_runners p)), or_run_id = None\<rparr>"

text \<open>\<open>orchestrator.start_strategy_run(); orchestrator.reconcile()\<close>.\<close>

definition run_startup :: "'st run_prepared \<Rightarrow> (nat list \<Rightarrow> nat list) \<Rightarrow> outside \<Rightarrow> ('st orch, finding list) act" where
  "run_startup p iter inp = bindA (start_strategy_run (rp_cfg p)) (\<lambda>_. reconcile (rp_cfg p) iter inp)"

definition dashboard_run :: "cli_env \<Rightarrow> (store, dashboard_config) act" where
  "dashboard_run env = bindA (liftE (load_config_or_exit env)) (\<lambda>cfg. seqA (open_store (ce_migrated env))
     (seqA (exit_on [ConfigError] (liftE (create_app (ce_secrets env)))) (ret (app_dashboard cfg))))"

section \<open>What \<open>pt run\<close> hands on\<close>

lemma reads_only:
  assumes "\<And>x s. snd (f x s) = s"
  shows "snd (forA xs f s) = s"
proof (induction xs arbitrary: s)
  case (Cons x xs)
  obtain r where "f x s = (r, s)" using assms [of x s] by (metis prod.collapse)
  then show ?case using Cons by (cases r) (simp_all add: snd_forA_Cons del: forA.simps)
qed (simp add: run_ret)

lemma run_runner_reads: "snd (run_runner strat symbol d) = d"
  by (auto simp: run_runner_def run_simps split: option.split sum.split)

lemma run_live_token_Inr:
  assumes "run_live_token fn sec migrated now d = (Inr token, e)"
  shows "e = d \<and> (\<exists>row. upstox_token d = Some row \<and> now < tok_expires_at row \<and> decrypt_token fn sec (tok_encrypted row) = Inr token)"
  using assms by (auto simp: run_live_token_def open_store_def run_simps token_current_def split: if_splits option.splits)

lemma run_token_Inr:
  assumes "run_token env fn mode d = (Inr token, e)"
  shows "e = d \<and> (mode \<noteq> LIVE \<or> (\<exists>row. upstox_token d = Some row \<and> ce_now env < tok_expires_at row \<and>
    decrypt_token fn (ce_secrets env) (tok_encrypted row) = Inr token))"
  using assms run_live_token_Inr [of fn "ce_secrets env" "ce_migrated env" "ce_now env" d token e]
  by (auto simp: run_token_def run_simps split: if_splits option.splits)

lemma exit_on_Inr: "exit_on errors (liftE r) d = (Inr x, e) \<Longrightarrow> r = Inr x \<and> e = d"
  by (auto simp: exit_on_def catchA_def run_liftE run_raise split: sum.splits)

lemma run_preflight_Inr:
  assumes "run_preflight env lib fn imp mk cal mode_text d = (Inr p, e)"
  shows "e = d \<and> (\<exists>cfg mode. load_config_or_exit env = Inr cfg \<and> mode_of_text cfg mode_text = Inr mode \<and> rp_cfg p = run_orch_cfg lib cfg mode \<and>
     (mode \<noteq> LIVE \<or> (\<exists>row. upstox_token d = Some row \<and> ce_now env < tok_expires_at row \<and>
        decrypt_token fn (ce_secrets env) (tok_encrypted row) = Inr (rp_token p))))"
proof -
  from assms obtain cfg mode token d1 where 1: "load_config_or_exit env = Inr cfg" "mode_of_text cfg mode_text = Inr mode"
      "run_token env fn mode d = (Inr token, d1)" "run_prepare env lib imp mk cal cfg mode token d1 = (Inr p, e)"
    unfolding run_preflight_def by (auto simp: run_liftE elim!: bindA_InrE)
  from 1(4) obtain strat runners d2 where 2: "session_scope (forA (tc_universe (app_trading cfg)) (run_runner strat)) d1 = (Inr runners, d2)"
    "p = \<lparr>rp_token = token, rp_runners = runners, rp_cfg = run_orch_cfg lib cfg mode\<rparr>" "e = d2"
    by (auto simp: run_prepare_def run_liftE run_raise run_ret seqA_def open_store_def run_guardA
        dest!: exit_on_Inr elim!: bindA_InrE split: if_splits)
  have "snd (session_scope (forA (tc_universe (app_trading cfg)) (run_runner strat)) d1) = d1"
    using reads_only [of "run_runner strat" "tc_universe (app_trading cfg)" d1, OF run_runner_reads]
    by (auto simp: session_scope_snd split: sum.split)
  then have "d2 = d1" using 2(1) by simp
  with run_token_Inr [OF 1(3)] 1(1,2) 2(2,3) show ?thesis by auto
qed

text \<open>Candles of a run: without the second key, a live run moves nothing.\<close>

definition run_candles :: "orch_cfg \<Rightarrow> (outside \<times> candle_received) list \<Rightarrow> 'st orch \<Rightarrow> 'st orch" where
  "run_candles cfg ies s = fold (\<lambda>(inp, e) s. on_candle cfg inp e s) ies s"

lemma closed_gate:
  assumes "oc_mode cfg = LIVE" "\<not> oc_live_orders cfg"
  shows "trading_tables (or_store (run_candles cfg ies s)) = trading_tables (or_store s)"
  unfolding run_candles_def
proof (induction ies arbitrary: s)
  case (Cons x ies)
  obtain inp e where x: "x = (inp, e)" by (cases x)
  have "trading_tables (or_store (on_candle cfg inp e s)) = trading_tables (or_store s)"
    using on_candle_gate [of cfg inp e s] approved_candle_open assms by blast
  then show ?case using Cons by (simp add: x)
qed simp

lemma mode_of_live: "mode_of_text cfg ''live'' = Inr mode \<Longrightarrow> mode = LIVE \<and> tc_mode (app_trading cfg) = ConfigLive"
  by (auto simp: mode_of_text_def split: if_splits config_mode.splits)

end
