(* ===== verification/PT_Demo_Cli.thy ===== *)
theory PT_Demo_Cli
  imports PT_Cli_Run PT_Demo_Recommend
begin

text \<open>Concrete inputs for the theorems on the login, the market data provider, the news, the soak and \<open>pt run\<close>.\<close>

section \<open>A login and the run after it\<close>

text \<open>A stand-in for Fernet: the key in front of the message.\<close>

definition demo_fernet :: fernet where
  "demo_fernet = \<lparr>fn_valid_key = (\<lambda>key. key \<noteq> []), fn_encrypt = (\<lambda>key msg. key @ msg),
     fn_decrypt = (\<lambda>key m. if take (length key) m = key then Some (drop (length key) m) else None)\<rparr>"

lemma demo_fernet_roundtrips: "fernet_roundtrips demo_fernet"
  by (simp add: fernet_roundtrips_def demo_fernet_def)

definition demo_redirect :: string where
  "demo_redirect = sec_upstox_redirect_uri secrets_default"

definition demo_path :: string where
  "demo_path = ''/auth/callback'' @ ''?'' @ urlencode [(''code'', ''c1''), (''state'', ''s1'')]"

definition demo_login_env :: login_env where
  "demo_login_env = \<lparr>lg_str = (\<lambda>_. []), lg_token_endpoint = (\<lambda>_. HttpOk (JObj [(''access_token'', JStr ''tok'')])),
     lg_browser = (\<lambda>_. GotGet demo_path)\<rparr>"

lemma demo_redirect_local: "hostname_of demo_redirect = Some ''localhost''"
  unfolding demo_redirect_def secrets_default_def by code_simp

lemma demo_path_clean: "set ''/auth/callback'' \<inter> set ''?#'' = {}"
  by code_simp

lemma demo_exchange: "exchange_code_for_token demo_login_env key secret uri code = Inr ''tok''"
  by (simp add: exchange_code_for_token_def demo_login_env_def dict_item_def json_str_def)

lemma demo_login: "upstox_login demo_login_env ''s1'' key secret demo_redirect = Inr ''tok''"
proof -
  have "callback_of demo_path = \<lparr>cb_code = Some ''c1'', cb_state = Some ''s1'', cb_error = None\<rparr>"
    using callback_of_redirect [OF demo_path_clean, of "''c1''" "''s1''"] by (simp add: demo_path_def)
  moreover have "lg_browser demo_login_env url = GotGet demo_path" for url by (simp add: demo_login_env_def)
  ultimately show ?thesis using demo_redirect_local demo_exchange unfolding login_Inr by auto
qed

definition demo_secrets :: secrets where
  "demo_secrets = secrets_default\<lparr>sec_upstox_api_key := Some ''k'', sec_upstox_api_secret := Some ''s'', sec_token_encryption_key := Some ''e''\<rparr>"

definition demo_token :: upstox_token_row where
  "demo_token = projr (fst (auth_upstox_login (Inr app_config_default) demo_login_env demo_fernet demo_secrets True ''s1'' 0 demo_store))"

lemma demo_auth_login: "\<exists>row e. auth_upstox_login (Inr app_config_default) demo_login_env demo_fernet demo_secrets True ''s1'' 0 demo_store = (Inr row, e)"
  using demo_login [of "''k''" "''s''"]
  by (simp add: auth_upstox_login_def config_or_exit_def demo_secrets_def demo_redirect_def catchA_def run_simps open_store_def encrypt_token_def
      fernet_key_def demo_fernet_def session_scope_def token_save_def Let_def secrets_default_def token_current_def demo_store_def empty_store_def)

section \<open>A server of candles\<close>

definition demo_history :: "candle list" where
  "demo_history = map (\<lambda>i. flat_candle 100 (int i * us_per_day)) [0..<3]"

text \<open>A row names its candle; the server answers with those of the days asked for, newest first.\<close>

definition demo_rows :: "py_date \<Rightarrow> py_date \<Rightarrow> json list" where
  "demo_rows s t = map (\<lambda>c. JNum (of_int (cd_ts c))) (rev (in_days s t demo_history))"

definition demo_api :: history_api where
  "demo_api key unit n s t = HttpOk (JObj [(''status'', JStr ''success''), (''data'', JObj [(''candles'', JList (demo_rows s t))])])"

definition demo_frame :: "json list \<Rightarrow> py_error + candle list" where
  "demo_frame rows = Inr (filter (\<lambda>c. JNum (of_int (cd_ts c)) \<in> set rows) demo_history)"

lemma demo_history_ascending: "ascending demo_history"
  by (simp add: demo_history_def ascending_def flat_candle_def us_per_day_def upt_rec)

lemma demo_rows_back: "{c \<in> set demo_history. JNum (of_int (cd_ts c)) \<in> set (demo_rows s t)} = set (in_days s t demo_history)"
proof -
  have "inj_on cd_ts (set demo_history)" using demo_history_ascending by (simp add: ascending_distinct distinct_map)
  then show ?thesis by (auto simp: demo_rows_def in_days_def inj_on_def)
qed

lemma demo_fetch: "\<exists>frame. fetch_chunk demo_api demo_frame key iv (s, t) = Inr frame \<and> set frame = set (in_days s t demo_history)"
proof -
  have "fetch_chunk demo_api demo_frame key iv (s, t) = (if demo_rows s t = [] then Inr [] else demo_frame (demo_rows s t))"
    by (simp add: fetch_chunk_def demo_api_def dict_get_def  split: prod.split)
  moreover have "demo_rows s t = [] \<Longrightarrow> in_days s t demo_history = []" by (simp add: demo_rows_def)
  ultimately show ?thesis using demo_rows_back [of s t] by (simp add: demo_frame_def)
qed

section \<open>A stream with a bad connection\<close>

definition demo_connections :: "ws_connection list" where
  "demo_connections = (let tick = (\<lambda>p. Some [(''NSE_EQ|1'', Some \<lparr>lt_ltp = p, lt_ltq = 1, lt_ltt_ms = 0, lt_cp = 1\<rparr>)]);
       yes = HttpOk (JObj [(''data'', JObj [(''authorized_redirect_uri'', JStr ''wss://x'')])]) in
     [\<lparr>wc_authorize = yes, wc_opens = True, wc_messages = [tick 1, None], wc_end = ConnectionDropped\<rparr>,
      \<lparr>wc_authorize = HttpFailure, wc_opens = True, wc_messages = [tick 3], wc_end = ClosedNormally\<rparr>,
      \<lparr>wc_authorize = yes, wc_opens = True, wc_messages = [tick 2], wc_end = ClosedNormally\<rparr>])"

lemma demo_connection_facts:
  "length (concat (map (connection_quotes (\<lambda>_. []) (Some ''t'')) demo_connections)) = 2"
  "length (filter (connection_fails (\<lambda>_. []) (Some ''t'')) demo_connections) = 2"
  by (simp_all add: demo_connections_def connection_quotes_def connection_fails_def run_connection_def authorize_websocket_def
      dict_item_def field_text_def message_quotes_def decode_feeds_def List.map_filter_simps Let_def)

lemma demo_policy: "\<exists>policy. reconnect_init 1 60 2 = Inr policy"
  by (simp add: reconnect_init_def)

section \<open>News of one source\<close>

definition demo_news_env :: news_env where
  "demo_news_env = \<lparr>ne_html_text = id, ne_ellipsis = CHR ''_'', ne_cfg = news_config_default, ne_now = 0\<rparr>"

definition demo_feeds :: "rss_source list" where
  "demo_feeds = [(''dead'', None), (''live'', Some [\<lparr>re_link = Some ''u'', re_title = Some ''TCS wins'', re_summary = None, re_published = None\<rparr>])]"

lemma demo_news_ok: "news_ok demo_store" "distinct (map ins_id (instruments demo_store))"
  by (simp_all add: news_ok_def news_wf_def demo_store_def empty_store_def)

section \<open>A soak and a live run\<close>

definition demo_live_config :: app_config where
  "demo_live_config = app_config_default\<lparr>app_trading := trading_config_default\<lparr>tc_mode := ConfigLive, tc_universe := [''TCS''],
     tc_strategy := ''sma_crossover''\<rparr>\<rparr>"

definition demo_cli :: cli_env where
  "demo_cli = \<lparr>ce_config = Inr demo_live_config, ce_secrets = demo_secrets, ce_migrated = True, ce_candles = [],
     ce_backtests = \<lparr>bd_runs = [], bd_trades = []\<rparr>, ce_fpow = (\<lambda>x y. 1), ce_clock = (\<lambda>n. int n)\<rparr>"

lemma demo_soaks_ok: "soaks_ok demo_store"
  by (simp add: soaks_ok_def active_soaks_def demo_store_def empty_store_def)

lemma demo_clock:
  "clock_step (demo_cli, SoakStart None None None) (soak_clock demo_store) = Some (0, 28)"
  "clock_step (demo_cli, SoakReview) c = c" "clock_step (demo_cli, SoakStart target None notes) (Some k) = Some k"
  by (simp_all add: load_config_or_exit_def config_or_exit_def demo_cli_def ce_now_def soak_clock_def active_soaks_def demo_store_def empty_store_def
      baseline_missing_def effective_target_def demo_live_config_def app_config_default_def soak_config_default_def)

definition demo_token_store :: store where
  "demo_token_store = demo_store\<lparr>upstox_token := Some \<lparr>tok_encrypted = ''etok'', tok_obtained_at = 0, tok_expires_at = 10\<rparr>\<rparr>"

definition demo_importer :: "unit importer" where
  "demo_importer = (\<lambda>_. None)"

text \<open>With a stored token and one key only, the run starts.\<close>

lemma demo_preflight:
  "\<exists>p. run_preflight demo_cli exact_lib demo_fernet demo_importer (\<lambda>_ _. Inr demo_sma) (Some cal) ''live'' demo_token_store = (Inr p, demo_token_store) \<and>
     rp_token p = ''tok'' \<and> oc_mode (rp_cfg p) = LIVE \<and> \<not> oc_live_orders (rp_cfg p)"
proof -
  obtain v where "live_view_init (st_required demo_sma) = Inr v" using demo_sma_view by blast
  then obtain r where r: "runner_init demo_instrument demo_sma = Inr r" by (simp add: runner_init_def)
  have cfg: "load_config_or_exit demo_cli = Inr demo_live_config" by (simp add: load_config_or_exit_def config_or_exit_def demo_cli_def)
  have mode: "mode_of_text demo_live_config ''live'' = Inr LIVE"
    by (simp add: mode_of_text_def demo_live_config_def)
  have token: "run_token demo_cli demo_fernet LIVE demo_token_store = (Inr ''tok'', demo_token_store)"
    by (simp add: run_token_def run_live_token_def demo_cli_def demo_secrets_def open_store_def run_simps token_current_def demo_token_store_def
        decrypt_token_def fernet_key_def demo_fernet_def ce_now_def)
  have cls: "exit_on [UnknownStrategy] (liftE (resolve_strategy_class demo_importer ''sma_crossover'')) d = (Inr (Registered SMACrossoverStrategy), d)" for d
    by (simp add: exit_on_def catchA_def run_simps resolve_strategy_class_def get_strategy_class_def STRATEGIES_def)
  have runner: "run_runner demo_sma ''TCS'' demo_token_store = (Inr (''NSE_EQ|1'', r), demo_token_store)"
    using r by (simp add: run_runner_def run_simps get_by_symbol_def demo_token_store_def demo_store_def demo_instrument_def)
  have fields: "ce_migrated demo_cli" "tc_universe (app_trading demo_live_config) = [''TCS'']"
    "tc_strategy (app_trading demo_live_config) = ''sma_crossover''" "risk_per_trade_pct (app_risk demo_live_config) = 1"
    "\<not> tc_live_orders_enabled (app_trading demo_live_config)"
    by (simp_all add: demo_cli_def demo_live_config_def app_config_default_def risk_config_default_def trading_config_default_def)
  have scope: "session_scope (forA [''TCS''] (run_runner demo_sma)) demo_token_store = (Inr [(''NSE_EQ|1'', r)], demo_token_store)"
    using runner by (simp add: session_scope_def run_simps)
  have "run_prepare demo_cli exact_lib demo_importer (\<lambda>_ _. Inr demo_sma) (Some cal) demo_live_config LIVE ''tok'' demo_token_store =
      (Inr \<lparr>rp_token = ''tok'', rp_runners = [(''NSE_EQ|1'', r)], rp_cfg = run_orch_cfg exact_lib demo_live_config LIVE\<rparr>, demo_token_store)"
    by (simp add: run_prepare_def fields run_bindA cls seqA_def run_liftE open_store_def run_guardA scope sizer_init_def run_ret del: forA.simps)
  then have "run_preflight demo_cli exact_lib demo_fernet demo_importer (\<lambda>_ _. Inr demo_sma) (Some cal) ''live'' demo_token_store =
      (Inr \<lparr>rp_token = ''tok'', rp_runners = [(''NSE_EQ|1'', r)], rp_cfg = run_orch_cfg exact_lib demo_live_config LIVE\<rparr>, demo_token_store)"
    by (simp add: run_preflight_def run_bindA run_liftE cfg mode token)
  then show ?thesis by (simp add: run_orch_cfg_def fields)
qed

end
