(* ===== verification/Spec2Isabelle.thy ===== *)
theory Spec2Isabelle
  imports PT_Demo PT_Demo_Live PT_Demo_Run PT_Demo_Analytics PT_Demo_Recommend PT_Demo_Cli
begin

text \<open>
PersonalTrade: verification of its trading core.
\<close>

section \<open>Orders\<close>

text \<open>C1: the state machine of orders. In a well-formed store every order's audit trail starts with
  its birth in PENDING_RISK, continues only with allowed transitions, ends in the order's state, and
  holds an OPEN event whenever the order was filled, cancelled or expired; a transition that the table
  does not allow raises and changes nothing, and no transition leaves a terminal state.\<close>

theorem order_lifecycle:
  assumes "store_ok d" and "get_order i d = Some ord"
  shows "chain None (trail_of d i) (Some (o_state ord)) \<and> order_step\<^sup>*\<^sup>* PENDING_RISK (o_state ord) \<and>
    (o_state ord \<in> {PARTIALLY_FILLED, FILLED, CANCELLED, EXPIRED} \<longrightarrow> OPEN \<in> snd ` set (trail_of d i)) \<and>
    (t \<notin> set (allowed_transitions (o_state ord)) \<longrightarrow> transition i t pl d = (Inl InvalidOrderTransition, d)) \<and>
    (is_terminal (o_state ord) \<longrightarrow> transition i t pl d = (Inl InvalidOrderTransition, d)) \<and>
    store_ok (snd (transition i t pl d))"
proof -
  have "ord \<in> set (orders d)" "o_id ord = i" using get_order_Some [OF assms(2)] by simp_all
  then have trail: "trail_ok (trail_of d i) (o_state ord)" using assms(1) by (auto simp: store_ok_def trails_wf_def)
  have "store_ok (snd (transition i t pl d))" by (rule keepsD [OF keeps_transition assms(1)])
  moreover have "is_terminal (o_state ord) \<longrightarrow> t \<notin> set (allowed_transitions (o_state ord))"
    by (simp add: is_terminal_iff)
  ultimately show ?thesis
    using trail trail_ok_reaches [OF trail] trail_ok_opens [OF trail] assms(2)
    by (auto simp: trail_ok_def transition_run)
qed

theorem order_lifecycle_witness:
  "transition 1 SUBMITTED NoPayload demo_open_store = (Inl InvalidOrderTransition, demo_open_store) \<and>
   chain None (trail_of demo_open_store 1) (Some OPEN)"
  using order_lifecycle [OF demo_open_store_ok demo_open_get, of SUBMITTED NoPayload] by (simp add: demo_open_order_def)

section \<open>The paper broker\<close>

text \<open>C2: placing an order keeps the paper account safe, whatever the outcome: the store stays
  well-formed, the cash and the positions stay the fold of the recorded trades, every paper order's
  state agrees with its filled quantity, and the cash never becomes negative (at rates of at most 10%).\<close>

theorem place_order_safe:
  assumes "rates_small (pe_rates env)" and "paper_safe c0 (pb_store s)"
  shows "paper_safe c0 (pb_store (snd (paper_place_order env bid rq s)))"
  using assms by (rule paper_safe_place_order)

theorem place_order_safe_witness:
  "paper_safe 100000 (pb_store (snd (paper_place_order demo_env ''b'' demo_request demo_session)))"
  by (rule place_order_safe) (simp_all add: demo_env_rates demo_session_store rates_small_default demo_store_safe)

text \<open>The sweep of the resting orders keeps the paper account safe, also when it stops on an error.\<close>

lemma check_resting_orders_safe:
  assumes "rates_small (pe_rates env)" and "paper_safe c0 (pb_store s)"
  shows "paper_safe c0 (pb_store (snd (check_resting_orders env s)))"
  using assms by (rule paper_safe_check_resting)

lemma check_resting_orders_safe_witness:
  "paper_safe 100000 (pb_store (snd (check_resting_orders demo_env
     (snd (paper_place_order demo_env ''b'' demo_request demo_session)))))"
  by (rule check_resting_orders_safe)
     (simp_all add: demo_env_rates demo_session_store rates_small_default demo_store_safe paper_safe_place_order)

text \<open>C3: cancelling keeps the paper account safe; it cancels exactly the orders that rest at the
  exchange and leaves every other order as it is.\<close>

theorem cancel_order_safe:
  assumes "paper_safe c0 (pb_store s)" and "get_by_client_order_id cid (pb_store s) = Some ord"
  shows "paper_safe c0 (pb_store (snd (paper_cancel_order env cid s))) \<and>
    get_order (o_id ord) (pb_store (snd (paper_cancel_order env cid s))) =
      Some (if o_state ord \<in> {OPEN, PARTIALLY_FILLED} then ord\<lparr>o_state := CANCELLED\<rparr> else ord)"
proof
  show "paper_safe c0 (pb_store (snd (paper_cancel_order env cid s)))" using assms(1) by (rule paper_safe_cancel_order)
  have "orders_wf (pb_store s)" using assms(1) paper_ok_wf(1) [of c0] by (auto simp: paper_safe_def)
  then have get: "get_order (o_id ord) (pb_store s) = Some ord"
    using get_by_cid_Some [OF assms(2)] by (simp add: get_order_member)
  show "get_order (o_id ord) (pb_store (snd (paper_cancel_order env cid s))) =
      Some (if o_state ord \<in> {OPEN, PARTIALLY_FILLED} then ord\<lparr>o_state := CANCELLED\<rparr> else ord)"
    using get assms(2)
    by (auto simp: paper_cancel_order_def run_simps transition_run get_order_upd paper_now_def push_update_def)
qed

theorem cancel_order_safe_witness:
  "get_order 1 (pb_store (snd (paper_cancel_order demo_env ''a'' demo_open_session))) = Some (demo_open_order\<lparr>o_state := CANCELLED\<rparr>)"
  using cancel_order_safe [of 100000 demo_open_session "''a''" demo_open_order demo_env] demo_open_safe demo_open_by_cid
  by (simp add: demo_open_session_def demo_open_order_def)

text \<open>C4: a buy is clamped to the greatest quantity the cash can pay for, costs included: at sane
  rates a quantity is affordable exactly when it is not above the clamped one; the loop ends.\<close>

theorem clamp_is_greatest_affordable:
  assumes "cost_config_ok r" and "0 < p" and "0 \<le> q"
  shows "\<exists>k. paper_clamp q p seg r cash = Inr k \<and> 0 \<le> k \<and> k \<le> q \<and>
    (\<forall>j. 0 < j \<longrightarrow> j \<le> q \<longrightarrow> (j \<le> k \<longleftrightarrow> c_net_amount (leg_costs BUY p j seg r) \<le> cash))"
  using paper_clamping.clamp_greatest [OF assms(2,3), of seg r cash]
    paper_clamping.clamp_affordable_iff [OF assms, of seg cash] by blast

theorem clamp_is_greatest_affordable_witness:
  "\<exists>k. paper_clamp 10 100 DELIVERY cost_config_default 500 = Inr k \<and> 0 \<le> k \<and> k \<le> 10"
  using clamp_is_greatest_affordable [of cost_config_default 100 10 DELIVERY 500] config_defaults_ok by auto

section \<open>The risk gate\<close>

text \<open>C5: what an approval means. An order is approved only when the kill switch is not tripped, live
  orders are enabled if the mode is live, and the daily loss is within its limit; an exit closes exactly
  the open position; an entry needs a flat position and a free slot, and its value is within the
  fraction of the equity that the sizer sets aside. The order is a market order of positive quantity for
  the instrument, and nothing but the log of risk events was written.\<close>

theorem approval_is_sound:
  assumes "evaluate (sizer_size pct) cfg cid sig inst mode equity pnl live d = (Inr (Approved ao), e)"
  shows "\<not> halted d \<and> (mode = LIVE \<longrightarrow> live) \<and> \<not> exceeds_max_daily_loss pnl equity (max_daily_loss_pct cfg) \<and>
    ao_instrument ao = ins_id inst \<and> ao_type ao = MARKET \<and> 0 < ao_qty ao \<and>
    (if s_direction sig = EXIT
     then \<exists>p. get_for (ins_id inst) mode d = Some p \<and> ao_qty ao = \<bar>p_qty p\<bar> \<and> ao_side ao = (if 0 < p_qty p then SELL else BUY)
     else (\<forall>p. get_for (ins_id inst) mode d = Some p \<longrightarrow> p_qty p = 0) \<and>
       int (count_open mode d) < max_open_positions cfg \<and>
       ao_side ao = (if s_direction sig = LONG then BUY else SELL) \<and>
       to_tick_decimal (s_ref_price sig) (ins_tick_size inst) * of_int (ao_qty ao) \<le> sizer_allocation pct equity) \<and>
    trading_state e = trading_state d"
proof -
  note facts = evaluate_Approved [OF assms]
  have frame: "trading_state e = trading_state d"
    using evaluate_frame [of "sizer_size pct" cfg cid sig inst mode equity pnl live d] assms by simp
  show ?thesis
  proof (cases "s_direction sig = EXIT")
    case True
    then show ?thesis unfolding if_P [OF True]
      using facts(8) by (intro conjI facts(1-3,5-7) frame) blast
  next
    case False
    note entry = facts(9) [OF False] fixed_fractional.approved_within_budget(1) [OF assms False]
    show ?thesis unfolding if_not_P [OF False]
      using entry by (intro conjI facts(1-3,5-7) frame) blast+
  qed
qed

theorem approval_is_sound_witness:
  "\<exists>ao. fst (evaluate (sizer_size 1) risk_config_default ''c'' demo_exit demo_instrument PAPER 500000 0 False demo_long_store) = Inr (Approved ao) \<and>
     ao_qty ao = 10 \<and> ao_side ao = SELL"
proof -
  obtain ao e where run: "evaluate (sizer_size 1) risk_config_default ''c'' demo_exit demo_instrument PAPER 500000 0 False demo_long_store = (Inr (Approved ao), e)"
    using demo_exit_approved by (metis prod.collapse)
  from approval_is_sound [OF this] show ?thesis using run demo_long_position
    by (auto simp: demo_exit_def)
qed

text \<open>C6: the circuit breaker. A run of consecutive failures trips the kill switch exactly when it
  reaches the configured number (or the switch was tripped before), a success ends the run but never
  clears the switch, while a tripped switch rejects every signal, and only a reset clears it.\<close>

theorem kill_switch_breaker:
  assumes "0 < k"
  shows "(halted (record_errors k now m d) \<longleftrightarrow> halted d \<or> m \<le> ks_consecutive_errors (ks_of d) + int k) \<and>
    halted (snd (ks_record_success d)) = halted d \<and> ks_consecutive_errors (ks_of (snd (ks_record_success d))) = 0 \<and>
    (halted d \<longrightarrow> fst (evaluate sizer cfg cid sig inst mode equity pnl live d) = Inr (Rejected KILL_SWITCH_TRIPPED)) \<and>
    \<not> halted (snd (ks_reset r (snd (ks_trip now reason d))))"
proof -
  have "halted (snd (ks_trip now reason d))" by (auto simp: halted_def ks_trip_run)
  then have "\<not> halted (snd (ks_reset r (snd (ks_trip now reason d))))" by (simp add: halted_def ks_reset_run)
  then show ?thesis using assms by (simp add: record_errors_run ks_record_success_run fst_evaluate evaluate_result_def)
qed

theorem kill_switch_breaker_witness:
  "halted (record_errors 5 0 5 empty_store) \<and> \<not> halted (record_errors 4 0 5 empty_store)"
  using kill_switch_breaker [of 5 0 5 empty_store] kill_switch_breaker [of 4 0 5 empty_store]
  by (simp add: halted_def ks_of_def empty_store_def ks_new_def)

section \<open>The live broker\<close>



text \<open>Polling the open live orders keeps the store well-formed whenever it returns: every filled
  quantity is still the sum of the recorded trades and every transition was an allowed one.\<close>

lemma poll_keeps_store_ok:
  assumes "store_ok (us_store s)" and "poll_and_apply_fills env s = (Inr us, t)"
  shows "store_ok (us_store t)"
  using valid_InrD [OF valid_poll assms] .

lemma poll_keeps_store_ok_witness:
  "store_ok (us_store (snd (poll_and_apply_fills demo_upstox (upstox_init demo_store))))"
proof -
  have "list_open_orders LIVE (us_store (upstox_init demo_store)) = []"
    by (simp add: upstox_init_def demo_store_def empty_store_def list_open_orders_def)
  then obtain us t where run: "poll_and_apply_fills demo_upstox (upstox_init demo_store) = (Inr us, t)"
    by (simp add: poll_and_apply_fills_def run_simps)
  have "store_ok (us_store (upstox_init demo_store))"
    using demo_store_safe by (simp add: upstox_init_def paper_safe_def paper_ok_def)
  from poll_keeps_store_ok [OF this run] show ?thesis by (simp add: run)
qed





section \<open>Indicators\<close>



text \<open>C11: a relative strength index that has a value lies between 0 and 100, whatever the prices.\<close>

theorem rsi_between_0_and_100:
  assumes "numlib_ok lib" and "rsi lib period close = Inr s" and "Some x \<in> set s"
  shows "0 \<le> x \<and> x \<le> 100"
proof -
  have p: "1 \<le> period" and s: "s = rsi_values lib (nat period) close" using assms(2) by (auto simp: rsi_def bindE_Inr_conv)
  obtain k where "nat period = Suc k" using p by (cases "nat period") auto
  then show ?thesis using rsi_values_range [OF assms(1), of x k close] assms(3) s by simp
qed

theorem rsi_between_0_and_100_witness:
  "Some 75 \<in> set (rsi_values exact_lib 2 [10, 16, 14]) \<and> (0::rat) \<le> 75 \<and> (75::rat) \<le> 100"
proof -
  have s: "rsi exact_lib 2 [10, 16, 14] = Inr (rsi_values exact_lib 2 [10, 16, 14])"
    by (simp add: rsi_def require_period_def)
  have x: "Some 75 \<in> set (rsi_values exact_lib 2 [10, 16, 14])" by code_simp
  show ?thesis using x rsi_between_0_and_100 [OF exact_lib_ok s x] by simp
qed

section \<open>Backtests\<close>

text \<open>C12: a backtest never looks ahead. Cutting the candles after the first m leaves the equity curve up
  to that bar and every trade filled by then exactly as they are, for every strategy whose indicators
  have a streaming state and distinct names; the shorter run completes.\<close>

theorem backtest_no_lookahead:
  assumes "numlib_ok (be_lib env)" and "live_view_init (st_required strat) = Inr v"
    and "distinct (live_names (st_required strat))"
    and "run_backtest env strat candles cash = Inr res" and "1 \<le> m" and "m \<le> length candles"
  shows "\<exists>res'. run_backtest env strat (take m candles) cash = Inr res' \<and>
    br_curve res' = take m (br_curve res) \<and> br_trades res' = filter (\<lambda>t. et_index t < m) (br_trades res)"
  using assms by (rule run_backtest_prefix)

theorem backtest_no_lookahead_witness:
  "\<exists>res res'. run_backtest demo_bt demo_sma demo_prices 1000 = Inr res \<and>
     run_backtest demo_bt demo_sma (take 4 demo_prices) 1000 = Inr res' \<and> br_curve res' = take 4 (br_curve res)"
proof -
  obtain v where v: "live_view_init (st_required demo_sma) = Inr v" using demo_sma_view by blast
  obtain res where res: "run_backtest demo_bt demo_sma demo_prices 1000 = Inr res" using demo_backtest by blast
  have "numlib_ok (be_lib demo_bt)" by (simp add: demo_bt_def exact_lib_ok)
  from backtest_no_lookahead [OF this v demo_sma_names res, of 4] res show ?thesis by (auto simp: demo_prices_def)
qed





text \<open>C15: covering a short position that the cash cannot buy back in full. The buy is clamped to the
  quantity the cash pays for, but the position is booked as closed: the remaining short vanishes.\<close>

theorem short_cover_drops_shares:
  assumes "pf_qty pf = - q" and "0 < q"
    and "bt_clamp q (apply_slippage raw BUY (be_slippage env)) (be_segment env) (be_rates env) (pf_cash pf) = Inr k"
    and "0 < k" and "k < q" and "0 < apply_slippage raw BUY (be_slippage env)"
  shows "\<exists>tr pf'. execute_signal env EXIT j i ts raw pf = Inr (Some tr, pf') \<and> et_side tr = BUY \<and> et_qty tr = k \<and> pf_qty pf' = 0"
  using assms by (rule short_cover_flattens)

theorem short_cover_drops_shares_witness:
  "\<exists>tr pf'. execute_signal (demo_bt\<lparr>be_rates := demo_free, be_slippage := 0\<rparr>) EXIT 0 1 0 100 demo_short = Inr (Some tr, pf') \<and>
     et_side tr = BUY \<and> et_qty tr = 1 \<and> pf_qty pf' = 0"
  using short_cover_drops_shares [of demo_short 2 100 "demo_bt\<lparr>be_rates := demo_free, be_slippage := 0\<rparr>" 1 0 1 0]
  by (simp add: demo_short_def demo_bt_def demo_free_net demo_short_clamp)

section \<open>Strategies\<close>



text \<open>The stop of the EMA strategy. While it holds a position without a signal, every bar closed above
  the stop that the first of these bars anchored at the average price of the position minus the multiple
  of the range, and that stop is still in force.\<close>

lemma stop_is_anchored_at_entry:
  assumes "run_decisions p None ((pos, r, a, c) # bs) = (replicate (Suc (length bs)) None, s')"
    and "\<forall>(pos, r, a, c) \<in> set ((pos, r, a, c) # bs). \<not> is_flat pos"
  shows "s' = Some (stop_level p (pv_avg_price pos) a) \<and>
    (\<forall>(pos', r', a', c') \<in> set ((pos, r, a, c) # bs). stop_level p (pv_avg_price pos) a < c')"
  using assms by (rule run_decisions_held)

lemma stop_is_anchored_at_entry_witness:
  "stop_level ema_params_default 100 2 < 98"
proof -
  let ?r = "\<lparr>cr_fast = 1, cr_slow = 0, cr_prev_fast = 1, cr_prev_slow = 0\<rparr>" and ?pos = "\<lparr>pv_qty = 5, pv_avg_price = 100\<rparr>"
  have l: "stop_level ema_params_default 100 2 = 95" by code_simp
  have "run_decisions ema_params_default None [(?pos, ?r, 2, 100), (?pos, ?r, 9, 98)] = ([None, None], Some 95)"
    by (simp add: ema_decide_def is_flat_def crossed_down_def l)
  with stop_is_anchored_at_entry [of ema_params_default ?pos ?r 2 100 "[(?pos, ?r, 9, 98)]" "Some 95"]
  show ?thesis by (simp add: is_flat_def)
qed

text \<open>Resolving a strategy. Every listed name resolves to its class, a reference module:ClassName to
  what the module holds, and everything else is UnknownStrategy; the listing is sorted and complete.\<close>

lemma strategy_references_resolve:
  "sorted list_strategies \<and> set list_strategies = range strategy_class_name \<and>
   resolve_strategy_class imp (strategy_class_name cls) = Inr (Registered cls) \<and>
   (name \<in> range strategy_class_name \<or> get_strategy_class name = Inl UnknownStrategy) \<and>
   (CHR '':'' \<in> set m \<or> c = [] \<or> resolve_strategy_class imp (m @ CHR '':'' # c) =
     (case imp m of None \<Rightarrow> Inl UnknownStrategy
      | Some attrs \<Rightarrow> (case attrs c of None \<Rightarrow> Inl UnknownStrategy | Some x \<Rightarrow> Inr (Imported x))))"
  using list_strategies_sorted resolve_registered resolve_dotted [of m c imp] get_strategy_unknown [of name] by blast

section \<open>Sessions\<close>

text \<open>C17: a session keeps the database well-formed. Whatever candles arrive, whatever the brokers answer and
  in whatever order housekeeping, start-up and reconciliation run, every reachable store satisfies the
  constraints on orders, audit trails, fills and positions.\<close>

theorem session_keeps_store_ok:
  assumes "(orch_step cfg)\<^sup>*\<^sup>* s t" and "store_ok (or_store s)"
  shows "store_ok (or_store t)"
  using assms by (rule session_store_ok)

theorem session_keeps_store_ok_witness:
  "store_ok (or_store (run_housekeeping demo_cfg demo_outside (on_candle demo_cfg demo_outside (demo_event 0 10) demo_orch)))"
proof (rule session_keeps_store_ok)
  show "(orch_step demo_cfg)\<^sup>*\<^sup>* demo_orch (run_housekeeping demo_cfg demo_outside (on_candle demo_cfg demo_outside (demo_event 0 10) demo_orch))"
    by (meson orch_step.candle orch_step.housekeeping r_into_rtranclp rtranclp.rtrancl_into_rtrancl)
  show "store_ok (or_store demo_orch)" using demo_store_safe by (simp add: demo_orch_def paper_safe_def paper_ok_def)
qed

text \<open>C18: a paper session stays safe. In every reachable state the cash is the initial cash folded over the
  recorded trades and is not negative, every position is the sum of its trades, and every paper order's
  state agrees with its filled quantity, also after handlers that raised.\<close>

theorem paper_session_stays_safe:
  assumes "(orch_step cfg)\<^sup>*\<^sup>* s t" and "oc_mode cfg = PAPER" and "rates_small (oc_rates cfg)"
    and "paper_safe c0 (or_store s)"
  shows "paper_safe c0 (or_store t)"
  using assms by (rule session_paper_safe)

theorem paper_session_stays_safe_witness:
  "paper_safe 100000 (or_store (run_housekeeping demo_cfg demo_outside (on_candle demo_cfg demo_outside (demo_event 0 10) demo_orch)))"
proof (rule paper_session_stays_safe)
  show "(orch_step demo_cfg)\<^sup>*\<^sup>* demo_orch (run_housekeeping demo_cfg demo_outside (on_candle demo_cfg demo_outside (demo_event 0 10) demo_orch))"
    by (meson orch_step.candle orch_step.housekeeping r_into_rtranclp rtranclp.rtrancl_into_rtrancl)
  show "oc_mode demo_cfg = PAPER" "rates_small (oc_rates demo_cfg)" "paper_safe 100000 (or_store demo_orch)"
    using demo_store_safe rates_small_default by (simp_all add: demo_orch_def demo_cfg_def)
qed

text \<open>C19: the risk engine is the only path to the books. A candle leaves orders, audit events, trades and
  positions exactly as they are, unless the instrument has a runner, a strategy run was started, the
  strategy returned a signal for this candle and the risk engine approved it; then the kill switch was not
  tripped and, in live mode, live orders were enabled.\<close>

theorem risk_is_the_only_path:
  "trading_tables (or_store (on_candle cfg inp e s)) = trading_tables (or_store s) \<or>
   (\<exists>r sig. or_runners s (ce_instrument_key e) = Some r \<and> or_run_id s \<noteq> None \<and>
     fst (runner_on_candle (oc_lib cfg) e (position_of (get_for (ins_id (ru_instrument r)) (oc_mode cfg) (or_store s))) r) = Inr (Some sig) \<and>
     approved_candle cfg inp (ru_instrument r) sig (or_store s) \<and>
     \<not> halted (or_store s) \<and> (oc_mode cfg \<in> {BACKTEST, PAPER} \<or> oc_live_orders cfg))"
  using on_candle_gate [of cfg inp e s] approved_candle_open [of cfg inp _ _ "or_store s"] trading_mode.exhaust [of "oc_mode cfg"]
  by blast

text \<open>C20: failing candles halt trading. Every candle that fails is rolled back and counted; as many in a row as
  the configuration allows trip the kill switch, whatever it was before, and orders, trades and positions
  are those from before the first of them.\<close>

theorem failing_candles_halt:
  assumes "all_fail cfg ies s" and "ies \<noteq> []"
    and "max_consecutive_errors (rc_kill_switch (oc_risk cfg)) \<le> ks_consecutive_errors (ks_of (or_store s)) + int (length ies)"
  shows "halted (or_store (feed_candles cfg ies s)) \<and>
    trading_tables (or_store (feed_candles cfg ies s)) = trading_tables (or_store s) \<and>
    ks_consecutive_errors (ks_of (or_store (feed_candles cfg ies s))) = ks_consecutive_errors (ks_of (or_store s)) + int (length ies)"
  using failing_candles [OF assms(1)] assms(2,3) by simp

theorem failing_candles_halt_witness:
  "halted (or_store (feed_candles demo_cfg [(demo_outside, demo_event 0 10), (demo_outside, demo_event 60 11)] demo_orch))"
  using failing_candles_halt [OF demo_all_fail]
  by (simp add: demo_cfg_def demo_orch_def demo_store_def empty_store_def ks_of_def ks_new_def)

section \<open>The live feed\<close>

text \<open>The live feed refines its specification. For every subscription, the candles published in a
  session (all ticks, then the flush) are exactly the abstract bars of the ticks of that instrument: one
  per longest stretch of ticks in the same bucket, with the first and last price, the extremes and the
  total volume of the stretch, in the order of the stretches; ticks of other instruments and the other
  intervals of the same instrument do not interfere, and nothing raises.\<close>

lemma feed_publishes_bars:
  assumes "new_feed subs threshold = Inr f" and "distinct (map fst subs)" and "\<forall>(key, ivs) \<in> set subs. distinct ivs"
    and "(key, ivs) \<in> set subs" and "iv \<in> set ivs"
  shows "\<exists>g w. feed_session recorder qts (f, []) = (Inr (), g, w) \<and>
    events_for key iv (candles_of w) = map candle_event (spec_bars key iv (filter (\<lambda>qt. qu_instrument_key qt = key) qts))"
  using assms by (rule feed_session_bars)

lemma feed_publishes_bars_witness:
  "\<exists>g w. feed_session recorder demo_ticks (demo_feed, []) = (Inr (), g, w) \<and>
    map ce_volume (events_for ''NSE_EQ|1'' M1 (candles_of w)) = [10, 5]"
proof -
  have "\<exists>g w. feed_session recorder demo_ticks (demo_feed, []) = (Inr (), g, w) \<and> events_for ''NSE_EQ|1'' M1 (candles_of w) =
      map candle_event (spec_bars ''NSE_EQ|1'' M1 (filter (\<lambda>qt. qu_instrument_key qt = ''NSE_EQ|1'') demo_ticks))"
    by (rule feed_publishes_bars [OF demo_new_feed, of _ "[M1, M15]"]) (simp_all add: demo_subs_def)
  moreover have "filter (\<lambda>qt. qu_instrument_key qt = ''NSE_EQ|1'') demo_ticks = demo_ticks"
    using demo_ticks_key by (simp add: filter_id_conv)
  moreover have "map ce_volume (map candle_event bs) = map ac_volume bs" for bs by (simp add: candle_event_def)
  ultimately show ?thesis using demo_bars by metis
qed

text \<open>C21: the bars of an aggregator are sound. When the ticks arrive in the order of their times, the bars
  have strictly increasing time stamps, each lies between its low and its high, and no volume is lost.\<close>

theorem bars_are_sound:
  assumes "new_aggregator key iv = Inr a" and "\<forall>qt \<in> set qts. qu_instrument_key qt = key" and "sorted (map qu_ltt qts)"
  shows "\<exists>bars. all_bars qts a = Inr bars \<and> (\<forall>c \<in> set bars. bar_ok c) \<and>
    sorted_wrt (<) (map ac_ts bars) \<and> sum_list (map ac_volume bars) = sum_list (map qu_ltq qts)"
  using aggregator_spec [OF assms(1,2)] spec_bars_ok spec_bars_volume spec_bars_ascending [of iv qts key] assms(1,3)
  by (auto simp: new_aggregator_holds)

theorem bars_are_sound_witness:
  "\<exists>bars. all_bars demo_ticks (demo_aggregator M1) = Inr bars \<and> Ball (set bars) bar_ok \<and>
    sorted_wrt (<) (map ac_ts bars) \<and> sum_list (map ac_volume bars) = 15"
  using bars_are_sound [OF demo_new_aggregator demo_ticks_key] by (simp add: demo_ticks_def demo_tick_def)

text \<open>C22: silence is announced once. After a tick, however often the feed is polled before the next one,
  each poll answers whether the threshold has passed since that tick, and exactly one event is published, at
  the first poll that finds the feed stale (none if no poll does).\<close>

theorem stale_alarm_once:
  assumes "feed_wf f"
  shows "\<exists>g h w'. on_tick recorder qt (f, w) = (Inr (), g, w') \<and>
    forA nows (check_staleness recorder) (g, w') = (Inr (map (\<lambda>now. fd_threshold f \<le> now - qu_ltt qt) nows), h,
      w' @ map (\<lambda>now. StaleEvent \<lparr>fs_instrument_key = None, fs_last_tick_at = Some (qu_ltt qt), fs_detected_at = now\<rparr>)
        (opt_list (find (\<lambda>now. fd_threshold f \<le> now - qu_ltt qt) nows)))"
proof -
  let ?g = "feed_after qt f" and ?stale = "\<lambda>now. fd_threshold f \<le> now - qu_ltt qt"
  have g: "fd_last_tick_at ?g = Some (qu_ltt qt)" "fd_threshold ?g = fd_threshold f" "\<not> fd_stale_notified ?g"
    by (simp_all add: feed_after_def record_tick_def Let_def split: option.split)
  then have stale: "is_stale ?g = ?stale" by (simp add: is_stale_def fun_eq_iff)
  have rec: "fold (\<lambda>g w. w @ [StaleEvent g]) gs w = w @ map StaleEvent gs" for gs w by (induction gs arbitrary: w) simp_all
  show ?thesis using recording.on_tick_quiet [OF assms, of qt w] recording.polls_quiet [OF g(3), of nows]
    by (simp add: stale g(1) rec comp_def)
qed

theorem stale_alarm_once_witness:
  "\<exists>g h w'. on_tick recorder (demo_tick 61 10) (demo_feed, []) = (Inr (), g, w') \<and>
    fst (forA [unix_epoch + 80000000, unix_epoch + 91000000, unix_epoch + 99000000] (check_staleness recorder) (g, w')) = Inr [False, True, True] \<and>
    snd (snd (forA [unix_epoch + 80000000, unix_epoch + 91000000, unix_epoch + 99000000] (check_staleness recorder) (g, w'))) =
      w' @ [StaleEvent \<lparr>fs_instrument_key = None, fs_last_tick_at = Some (unix_epoch + 61000000), fs_detected_at = unix_epoch + 91000000\<rparr>]"
  using stale_alarm_once [OF demo_feed_wf, of "demo_tick 61 10" "[]" "[unix_epoch + 80000000, unix_epoch + 91000000, unix_epoch + 99000000]"]
  by (fastforce simp: demo_tick_def demo_feed_def)


section \<open>Historical data\<close>

text \<open>C24: writing to the candle store and reading back. A write merges the frame into its dataset (a new
  candle replaces the stored one with the same time), returns the number of rows then stored, keeps the
  yearly partitions well-formed and touches no other dataset; reading any range gives exactly the merged
  candles of that range in strictly ascending order, and repeating the write changes nothing.\<close>

theorem candle_store_roundtrip:
  assumes "store_wf st" and "store_write now key f source v st = (n, st')"
  shows "store_wf st' \<and> store_read key from_ts to_ts st' = filter (in_range from_ts to_ts) (normalize_candle_frame (store_read key None None st @ f)) \<and>
    ascending (store_read key from_ts to_ts st') \<and> n = int (length (store_read key None None st')) \<and>
    store_read key None None (snd (store_write now' key f source' v' st')) = store_read key None None st' \<and>
    (if k = key then True else store_read k from_ts to_ts st' = store_read k from_ts to_ts st)"
proof -
  have st': "st' = snd (store_write now key f source v st)" "n = fst (store_write now key f source v st)" using assms(2) by simp_all
  have wf: "store_wf st'" unfolding st' by (rule store_write_wf [OF assms(1)])
  note r = store_write_read [OF assms(1), of _ _ _ now key f source v, folded st'(1)]
  have read: "store_read key None None st' = normalize_candle_frame (store_read key None None st @ f)"
    using r [of key None None] by (simp add: in_range_def)
  have "store_read key None None (snd (store_write now' key f source' v' st')) = normalize_candle_frame (store_read key None None st' @ f)"
    using store_write_read [OF wf, of key None None now' key f source' v'] by (simp add: in_range_def)
  also have "\<dots> = store_read key None None st'"
    unfolding read by (rule normalize_again [OF store_read_ascending [OF assms(1)]])
  finally show ?thesis using wf r [of key from_ts to_ts] r [of k from_ts to_ts] store_read_ascending [OF wf, of key from_ts to_ts] store_write_count [OF assms(1), of now key f source v]
    unfolding st'(2) st'(1) [symmetric] by auto
qed

theorem candle_store_roundtrip_witness:
  "map cd_close (store_read (''NSE'', ''ABC'', D1) (Some ((738001) * us_per_day)) None (snd (store_write 0 (''NSE'', ''ABC'', D1) sample_frame ''upstox'' None []))) = [52] \<and>
   fst (store_write 0 (''NSE'', ''ABC'', D1) sample_frame ''upstox'' None []) = 2"
proof -
  let ?k = "(''NSE'', ''ABC'', D1)"
  obtain n st' where w: "store_write 0 ?k sample_frame ''upstox'' None [] = (n, st')" by fastforce
  have e: "store_read ?k None None [] = []" by (simp add: store_read_def dataset_of_def empty_dataset_def Let_def)
  note rt = candle_store_roundtrip [OF empty_store_wf w, of _ _ 0 "''upstox''" None ?k]
  have all: "normalize_candle_frame (store_read ?k None None [] @ sample_frame) = sample_frame"
    using normalize_id [OF sample_ascending] e by simp
  have "n = 2" using rt [of None None] unfolding all by (simp add: in_range_def sample_frame_def)
  moreover have "store_read ?k (Some (738001 * us_per_day)) None st' = [sample_candle 1 52]"
    using rt [of "Some (738001 * us_per_day)" None] unfolding all by (simp add: in_range_def sample_frame_def sample_candle_def us_per_day_def)
  ultimately show ?thesis unfolding w by (simp add: sample_candle_def)
qed

text \<open>A quality report is exact. A frame that is not empty is reported with errors if and only if it is
  not strictly ascending in time or some candle violates its bounds or has a negative volume; the days reported
  missing are exactly the trading days between the first and the last day of the frame without a candle; and the
  status follows from the report.\<close>

lemma quality_report_is_exact:
  assumes "frame \<noteq> []"
  shows "has_errors (check_candles frame iv cal) = (\<not> (ascending frame \<and> list_all candle_valid frame)) \<and>
    (d \<in> set (missing_days k frame)) = (is_trading_day k d \<and> d \<notin> set (map (\<lambda>c. ist_trading_date (cd_ts c)) frame) \<and>
       (\<exists>c \<in> set frame. ist_trading_date (cd_ts c) \<le> d) \<and> (\<exists>c \<in> set frame. d \<le> ist_trading_date (cd_ts c))) \<and>
    report_status (check_candles frame iv cal) =
      (if \<not> (ascending frame \<and> list_all candle_valid frame) then ''errors'' else if check_candles frame iv cal = [] then ''ok'' else ''warnings'')"
  using assms check_candles_errors [of frame iv cal] missing_days_iff [OF assms, of d k]
  by (auto simp: report_status_def list_all_iff)

lemma quality_report_is_exact_witness:
  "has_errors (check_candles (rev sample_frame) D1 None) \<and> \<not> has_errors (check_candles sample_frame D1 None)"
  using quality_report_is_exact [of "rev sample_frame" D1 None] quality_report_is_exact [of sample_frame D1 None]
  by (simp add: sample_frame_def sample_candle_def ascending_def candle_valid_def us_per_day_def)

text \<open>Back-adjustment is pointwise. It fails exactly when there is something to adjust and some factor is
  not positive; otherwise every candle is scaled, independently of the others, by the factors of the actions whose
  ex-date lies after its day, in the order of the ex-dates; time stamps never change, and actions that are not
  later than the candle leave it alone.\<close>

lemma adjustment_is_pointwise:
  "apply_adjustments frame actions = (if frame \<noteq> [] \<and> list_ex (\<lambda>a. fl_rnd (ca_factor a) \<le> 0) actions then Inl PyValueError
     else Inr (map (adjusted actions) frame)) \<and>
   cd_ts (adjusted actions c) = cd_ts c \<and>
   adjusted (filter (\<lambda>a. ca_ex_date a \<le> ist_trading_date (cd_ts c)) actions) c = c"
  using apply_adjustments_spec [of frame actions] adjusted_ts [of actions c]
    adjusted_after [of "filter (\<lambda>a. ca_ex_date a \<le> ist_trading_date (cd_ts c)) actions" c]
  by (simp add: list_ex_iff)

text \<open>Synchronising the instrument master never loses a row. Whatever the provider sends (within one
  exchange, without repetitions), ids, keys and symbols stay unique and no id disappears; when it succeeds, every
  instrument sent is stored active with its new data, also when its key or its symbol had changed; the only
  failure is a violated constraint.\<close>

lemma instruments_sync_in_place:
  assumes "instruments_ok d" and "one_exchange x d" and "\<forall>i \<in> set infos. if_exchange i = x"
    and "distinct (map if_key infos)" and "distinct (map if_symbol infos)"
  shows "instruments_ok (snd (sync_instruments infos d)) \<and>
    ins_id ` set (instruments d) \<subseteq> ins_id ` set (instruments (snd (sync_instruments infos d))) \<and>
    (case fst (sync_instruments infos d) of Inl e \<Rightarrow> e = IntegrityError
     | Inr n \<Rightarrow> n = int (length infos) \<and> (\<forall>i \<in> set infos. in_sync i (snd (sync_instruments infos d))))"
  using sync_instruments_spec [OF assms, of "fst (sync_instruments infos d)" "snd (sync_instruments infos d)"]
    sync_instruments_error [of infos d _ "snd (sync_instruments infos d)"]
  by (cases "fst (sync_instruments infos d)") (auto simp: prod_eq_iff)

lemma instruments_sync_in_place_witness:
  "\<exists>d'. sync_instruments sample_infos sample_store = (Inr 2, d') \<and> instruments_ok d' \<and> 1 \<in> ins_id ` set (instruments d') \<and>
     in_sync (sample_info ''K9'' ''ABC'') d' \<and> in_sync (sample_info ''K2'' ''XYZ'') d'"
proof -
  have infos: "\<forall>i \<in> set sample_infos. if_exchange i = ''NSE''" "distinct (map if_key sample_infos)" "distinct (map if_symbol sample_infos)"
    by (simp_all add: sample_infos_def sample_info_def)
  show ?thesis using instruments_sync_in_place [OF sample_store_ok infos] sample_sync
    by (intro exI [of _ "snd (sync_instruments sample_infos sample_store)"])
      (auto simp: sample_infos_def prod_eq_iff sample_store_def sample_row_def)
qed


text \<open>C25: columns are read back as they were stored. The text of a Decimal parses to the same value and sign,
  an int likewise; floats and foreign types are refused; an aware time stamp comes back as the same instant in UTC,
  and a naive one is refused.\<close>

theorem money_columns_roundtrip:
  "\<exists>s e. money_bind (MoneyDecimal d) = Inr (Some s) \<and> money_result (Some s) = Inr (Some e) \<and> dec_value e = dec_value d \<and>
     dn_negative e = dn_negative d \<and>
   (\<exists>s e. money_bind (MoneyInt i) = Inr (Some s) \<and> money_result (Some s) = Inr (Some e) \<and> dec_value e = of_int i) \<and>
   money_bind (MoneyFloat r) = Inl PyTypeError \<and> money_bind MoneyOther = Inl PyTypeError \<and>
   bindE (time_bind (TimeAware wall offset)) (\<lambda>v. Inr (time_result v)) = Inr (TimeAware (wall - offset) 0) \<and>
   time_bind (TimeNaive wall) = Inl PyValueError"
  using format_parse [of d] format_parse [of "decimal_of_int i"] decimal_of_int_value [of i]
  by (auto simp: money_bind_def money_result_def time_bind_def time_result_def)

section \<open>Metrics and sweeps\<close>

text \<open>C26: the drawdown is the worst decline. The maximum drawdown of an equity curve, computed in one pass, is
  the greatest decline of any point from the highest value before it (in the arithmetic of floats); on curves
  that are never negative it lies between 0 and 1, as the win rate always does.\<close>

theorem metrics_are_bounded:
  assumes "list_all (\<lambda>p. 0 \<le> eq_equity p) curve"
  shows "max_drawdown (equity_series_from_curve curve) = worst_decline (map (\<lambda>p. fl_rnd (eq_equity p)) curve) \<and>
    0 \<le> max_drawdown (equity_series_from_curve curve) \<and> max_drawdown (equity_series_from_curve curve) \<le> 1 \<and>
    0 \<le> win_rate ets \<and> win_rate ets \<le> 1"
proof -
  have "\<forall>v \<in> set (map (\<lambda>p. fl_rnd (eq_equity p)) curve). 0 \<le> v \<and> fl_rnd v = v"
    using assms by (auto simp: list_all_iff fl.rnd_nonneg fl.rnd_idem)
  then show ?thesis using worst_decline_bounds win_rate_bounds [of ets]
    by (simp add: max_drawdown_worst equity_series_from_curve_def comp_def)
qed

theorem metrics_are_bounded_witness:
  "max_drawdown (equity_series_from_curve [sample_point 100, sample_point 75, sample_point 110]) = 1/4"
proof -
  have r: "fl_rnd 100 = 100" "fl_rnd 75 = 75" "fl_rnd 110 = 110" "fl_rnd 25 = 25" "fl_rnd 0 = 0"
    using fl.rnd_int [of 100] fl.rnd_int [of 75] fl.rnd_int [of 110] fl.rnd_int [of 25] fl.rnd_0 by simp_all
  have "max_drawdown (equity_series_from_curve [sample_point 100, sample_point 75, sample_point 110]) = worst_decline [100, 75, 110]"
    using metrics_are_bounded [of "[sample_point 100, sample_point 75, sample_point 110]" "[]"] by (simp add: sample_point_def r)
  also have "\<dots> = 1/4"
    by (simp add: worst_decline_def lessThan_Suc decline_def fl_sub_def fl_div_def r fl_rnd_quarter Let_def numeral_2_eq_2)
  finally show ?thesis .
qed



section \<open>Analytics\<close>

text \<open>C28: the journal is an account of the trades. Replaying the trades of an instrument in time order, none of
  which takes the position through zero, never raises; every closed episode is a round trip (entries on one side,
  exits on the other, equal quantities) and gives one entry with its quantity, side and realised profit; closed
  and open episodes together hold every trade exactly once; and when the position is flat, nothing is open.\<close>

theorem journal_episodes_partition:
  assumes "positive_legs ls" and "never_crosses 0 (sort_key (\<lambda>l. t_executed_at (fst l)) ls)"
  defines "s \<equiv> episodes (sort_key (\<lambda>l. t_executed_at (fst l)) ls)"
  shows "\<exists>es. episodes_for_instrument d inst ls = Inr es \<and> list_all2 entry_of (es_closed s) es \<and>
     list_all round_trip (es_closed s) \<and>
     mset ls = sum_list (map (\<lambda>ep. mset (fst ep) + mset (snd ep)) (es_closed s)) + mset (es_entries s) + mset (es_exits s) \<and>
     (sum_list (map leg_signed ls) \<noteq> 0 \<or> es_entries s = [] \<and> es_exits s = [])"
  using episodes_summary [OF assms(1,2), of d inst] unfolding s_def .

theorem journal_episodes_partition_witness:
  "positive_legs demo_legs \<and> never_crosses 0 demo_legs \<and>
   (\<exists>es. episodes_for_instrument demo_store demo_instrument demo_legs = Inr es)"
proof -
  have pos: "positive_legs demo_legs" by (simp add: positive_legs_def demo_legs_def demo_leg_def)
  have srt: "sort_key (\<lambda>l. t_executed_at (fst l)) demo_legs = demo_legs"
    by (simp add: demo_legs_def demo_leg_def)
  have nc: "never_crosses 0 demo_legs" by (simp add: demo_legs_def demo_leg_def leg_signed_def)
  show ?thesis using journal_episodes_partition [of demo_legs demo_store demo_instrument] pos nc unfolding srt by blast
qed

section \<open>Analysis and recommendations\<close>

text \<open>C29: news cannot forge a fence. Whatever the titles and bodies of the articles contain, the prompt has exactly
  one opening and one closing fence per article, as long as the trusted parts (symbol, sources, rendered numbers)
  hold no run of five hyphens.\<close>

theorem news_cannot_forge_fences:
  assumes "plain_renderer rd" and "plain_snapshot ms"
  shows "occurrences FENCE_BEGIN (build_user_content rd ms) = length (ms_news ms) \<and>
    occurrences FENCE_END (build_user_content rd ms) = length (ms_news ms)"
  using prompt_fences [OF assms] by simp


theorem news_cannot_forge_fences_witness:
  "occurrences FENCE_END (build_user_content hostile_renderer hostile_snapshot) = 1"
proof -
  have "plain_renderer hostile_renderer" by (simp add: plain_renderer_def hostile_renderer_def)
  moreover have "plain_snapshot hostile_snapshot" by (simp add: plain_snapshot_def hostile_snapshot_def)
  ultimately show ?thesis using news_cannot_forge_fences [of hostile_renderer hostile_snapshot] by (simp add: hostile_snapshot_def)
qed

text \<open>C31: a recommendation cycle is advisory. Whether it returns or raises, it changes no table but the analyses and
  the recommendations, and the analyses of the day stay within the daily cap (or what they already were); when it
  returns, ranks are 1, 2, and so on in the order of tier, conviction and symbol, and every row comes from a signal of the
  strategy on its instrument's last bar; and the model's answer only ever weakens BUY or SELL to HOLD.\<close>

theorem recommendation_cycle_is_advisory:
  "case run_recommendation_cycle env has_provider ai_cfg rec_cfg strat universe exchange now s of (res, t) \<Rightarrow>
    advisory (as_store (rs_ai s)) (as_store (rs_ai t)) \<and>
    within_cap now (max (ai_daily_call_cap ai_cfg) (int (count_since (day_start now) (as_store (rs_ai s))))) (as_store (rs_ai t)) \<and>
    (case res of Inl e \<Rightarrow> True
     | Inr rs \<Rightarrow> map (rec_rank \<circ> sc_record) rs = map int [1..<Suc (length rs)] \<and> sorted (map screened_key rs) \<and>
         list_all (\<lambda>x. has_basis (ae_lib env) strat universe rec_cfg (sc_instrument x) (rec_action (sc_record x))
           (rec_rationale (sc_record x)) (sc_answer x)) rs) \<and>
    (fst (merge_recommendation dir qty answer cfg) = deterministic_action dir qty \<or>
     (\<exists>a. answer = Some a \<and> fst (merge_recommendation dir qty answer cfg) = RecHold \<and> veto_conviction_threshold cfg \<le> ao_conviction a \<and>
        (deterministic_action dir qty = RecBuy \<and> ao_news_impact a = NewsNegative \<or>
         deterministic_action dir qty = RecSell \<and> ao_news_impact a = NewsPositive)))"
  using cycle_keeps [of s env has_provider ai_cfg rec_cfg strat universe exchange now] merge_weakens
    cycle_result [of env has_provider ai_cfg rec_cfg strat universe exchange now s]
  by (auto split: prod.split sum.split simp del: upt_Suc)

text \<open>C32: the screener agrees with the backtest. For a strategy without memory, the signal on the last candle of a
  replayed history, given the position the backtest ended with, is exactly the signal the backtest reports as unfilled.\<close>

theorem screener_matches_backtest:
  assumes "run_backtest env strat candles cash = Inr r" and "memoryless strat"
  shows "\<exists>sig st'. latest_signal (be_lib env) strat st candles (br_final r) = Inr (sig, st') \<and>
    br_unfilled r = (case sig of None \<Rightarrow> [] | Some g \<Rightarrow>
      [\<lparr>uf_index = length candles - 1, uf_ts = cd_ts (last candles), uf_direction = s_direction g\<rparr>])"
  using assms by (rule screener_last_bar)

theorem screener_matches_backtest_witness:
  "\<exists>r sig st'. run_backtest demo_bt demo_sma demo_prices 1000 = Inr r \<and>
     latest_signal exact_lib demo_sma () demo_prices (br_final r) = Inr (sig, st')"
proof -
  obtain r where r: "run_backtest demo_bt demo_sma demo_prices 1000 = Inr r" using demo_backtest by blast
  have "memoryless demo_sma" by (simp add: memoryless_def)
  then show ?thesis using screener_matches_backtest [OF r] r by (auto simp: demo_bt_def)
qed

section \<open>The operator: dashboard, login, provider, news and commands\<close>


text \<open>C34: the login takes only its own redirect. The URL the browser is sent to carries the random state of this login;
  when the redirect comes back to the local listener with a code, the token is fetched exactly when the state is that one,
  and any other state (a forged redirect) ends in \<open>UpstoxAuthError\<close>.\<close>

theorem login_accepts_own_state:
  assumes "hostname_of redirect_uri \<in> {Some ''localhost'', Some ''127.0.0.1''}" "state \<noteq> []" "code \<noteq> []"
    and "set path \<inter> set ''?#'' = {}"
    and "lg_browser env (build_authorization_url api_key redirect_uri state) =
      GotGet (path @ ''?'' @ urlencode [(''code'', code), (''state'', returned)])"
  shows "map_of (parse_qs (query_of (build_authorization_url api_key redirect_uri state))) ''state'' = Some state \<and>
    upstox_login env state api_key api_secret redirect_uri =
      (if returned = state then exchange_code_for_token env api_key api_secret redirect_uri code else Inl UpstoxAuthError)"
proof -
  have w: "wait_for_callback redirect_uri (lg_browser env (build_authorization_url api_key redirect_uri state)) =
      Inr (callback_of (path @ ''?'' @ urlencode [(''code'', code), (''state'', returned)]))"
    using assms(1) by (simp only: wait_for_callback_def assms(5) not_True_eq_False if_False listener_outcome.case)
  show ?thesis unfolding upstox_login_def Let_def w bindE_simps callback_of_redirect [OF assms(4)]
    using url_carries_state [OF assms(2)] assms(2,3) by simp
qed

theorem login_accepts_own_state_witness:
  "upstox_login demo_login_env ''s1'' ''k'' ''s'' demo_redirect = Inr ''tok''"
proof -
  have "lg_browser demo_login_env (build_authorization_url ''k'' demo_redirect ''s1'') =
      GotGet (''/auth/callback'' @ ''?'' @ urlencode [(''code'', ''c1''), (''state'', ''s1'')])"
    by (simp only: demo_login_env_def login_env.simps demo_path_def)
  from login_accepts_own_state [OF _ _ _ demo_path_clean this, of "''s''"] show ?thesis
    by (simp add: demo_redirect_local demo_exchange)
qed

text \<open>C35: a login is good for the day, and \<open>pt run\<close> uses it. A successful \<open>pt auth upstox-login\<close> stores the encrypted
  token with an expiry less than a day ahead; from the store it leaves, \<open>pt run --mode live\<close> gets back the very token the
  login obtained while it is valid, and exits with code 1 afterwards. Fernet is assumed to decrypt what it encrypted.\<close>

theorem login_then_run:
  assumes "fernet_roundtrips fn" and "auth_upstox_login loaded env fn sec migrated state t d = (Inr row, e)"
  shows "t < tok_expires_at row \<and> tok_expires_at row \<le> t + us_per_day \<and>
    (\<exists>key secret token. upstox_login env state key secret (sec_upstox_redirect_uri sec) = Inr token \<and>
       run_live_token fn sec migrated now e = (if now < tok_expires_at row then Inr token else Inl (TyperExit 1), e))"
proof -
  from auth_login_Inr [OF assms(2)] obtain key secret token where l: "upstox_login env state key secret (sec_upstox_redirect_uri sec) = Inr token"
    "encrypt_token fn sec token = Inr (tok_encrypted row)" "sec_token_encryption_key sec \<noteq> None" "migrated"
    "upstox_token e = Some row" "tok_expires_at row = upstox_token_expiry_utc t" by blast
  have "run_live_token fn sec migrated now e = (if now < tok_expires_at row then Inr token else Inl (TyperExit 1), e)"
    using l(3-5) encrypt_decrypt [OF assms(1) l(2)] by (simp add: run_live_token_def open_store_def run_simps token_current_def not_le)
  then show ?thesis using token_expiry_bounds [of t] l(1,6) by auto
qed

theorem login_then_run_witness:
  "\<exists>row e. auth_upstox_login (Inr app_config_default) demo_login_env demo_fernet demo_secrets True ''s1'' 0 demo_store = (Inr row, e) \<and>
     0 < tok_expires_at row \<and> fst (run_live_token demo_fernet demo_secrets True 0 e) = Inr ''tok''"
proof -
  obtain row e where l: "auth_upstox_login (Inr app_config_default) demo_login_env demo_fernet demo_secrets True ''s1'' 0 demo_store = (Inr row, e)"
    using demo_auth_login by blast
  have "upstox_login demo_login_env ''s1'' key secret (sec_upstox_redirect_uri demo_secrets) = Inr ''tok''" for key secret
    using demo_login [of key secret] by (simp add: demo_redirect_def demo_secrets_def)
  then show ?thesis using login_then_run [OF demo_fernet_roundtrips l, of 0] l by auto
qed





text \<open>C38: news are stored once and tagged honestly. A sync changes only the two tables of news, keeps their keys
  consistent, survives dead sources and reports exactly these as failed, and each tag it adds is one whose instrument matches
  the text of its article; a second sync of the same feeds stores nothing and changes nothing.\<close>

theorem news_ingest_once:
  assumes "news_ok d" "distinct (map ins_id (instruments d))"
  shows "case ingest env (rss_providers sources) since d of (r, e) \<Rightarrow>
     news_ok e \<and> e\<lparr>news_items := news_items d, news_tags := news_tags d\<rparr> = d \<and>
     (\<exists>results ts. r = Inr results \<and> map ir_failed results = map (\<lambda>s. snd s = None) sources \<and>
        news_tags e = news_tags d @ ts \<and> list_all (earned (build_matchers (list_active d)) (news_items e)) ts) \<and>
     (\<exists>again. ingest env (rss_providers sources) since e = (Inr again, e) \<and> list_all (\<lambda>r. ir_stored r = 0) again)"
proof -
  from ingest_grows [OF assms(2)] obtain rs e where i: "ingest env (rss_providers sources) since d = (Inr rs, e)"
    "news_grow (build_matchers (list_active d)) d e" "all_present since sources e" "map ir_failed rs = map (\<lambda>s. snd s = None) sources" by blast
  from i(2) assms(1) obtain ns ts where g: "e = with_news ns ts d" "list_all (earned (build_matchers (list_active d)) ns) ts" "news_ok e"
    by (auto simp: news_grow_def)
  have "list_all (earned (build_matchers (list_active d)) (news_items e)) ts"
    using g(1,2) earned_mono [of _ ns _ "news_items e"] by (auto simp: list_all_iff)
  moreover have "news_tags e = news_tags d @ ts" by (simp add: g(1))
  moreover have "e\<lparr>news_items := news_items d, news_tags := news_tags d\<rparr> = d" by (simp add: g(1) with_news_def)
  moreover obtain again where "ingest env (rss_providers sources) since e = (Inr again, e)" "list_all (\<lambda>r. ir_stored r = 0) again"
    using ingest_again [OF i(3)] by blast
  ultimately have "(\<exists>results ts. (Inr rs :: py_error + ingest_result list) = Inr results \<and> map ir_failed results = map (\<lambda>s. snd s = None) sources \<and>
        news_tags e = news_tags d @ ts \<and> list_all (earned (build_matchers (list_active d)) (news_items e)) ts)"
      "(\<exists>again. ingest env (rss_providers sources) since e = (Inr again, e) \<and> list_all (\<lambda>r. ir_stored r = 0) again)"
      "e\<lparr>news_items := news_items d, news_tags := news_tags d\<rparr> = d"
    using i(4) by blast+
  then show ?thesis unfolding i(1) prod.case using g(3) by (intro conjI)
qed

theorem news_ingest_once_witness:
  "case ingest demo_news_env (rss_providers demo_feeds) 0 demo_store of (r, e) \<Rightarrow>
     news_ok e \<and> (\<exists>results. r = Inr results \<and> map ir_failed results = [True, False])"
  using news_ingest_once [OF demo_news_ok, where env = demo_news_env and sources = demo_feeds and since = 0] by (auto simp: demo_feeds_def)

text \<open>C39: the soak clock cannot be reset by accident. Under any sequence of soak commands at most one soak is active,
  and the pair of its start and target follows the abstract clock: it starts only when none runs, stops only with
  \<open>soak end\<close>, and nothing else touches it. A review answers GO only when the target days have passed since that start
  (or when the target given is not positive).\<close>

theorem soak_clock_refines:
  assumes "soaks_ok d"
  shows "case fold soak_run xs d of e \<Rightarrow> soaks_ok e \<and> soak_clock e = fold clock_step xs (soak_clock d) \<and>
    (case fst (soak_review env e) of Inl _ \<Rightarrow> True | Inr (go, _) \<Rightarrow>
       go = False \<or> (\<exists>t n. fold clock_step xs (soak_clock d) = Some (t, n) \<and> (n \<le> 0 \<or> t + n * us_per_day \<le> ce_now env)))"
proof -
  have r: "soaks_ok (fold soak_run xs d)" "soak_clock (fold soak_run xs d) = fold clock_step xs (soak_clock d)"
    using soak_trace_refines [OF assms] by blast+
  show ?thesis
  proof (cases "soak_review env (fold soak_run xs d)")
    case (Pair v e)
    show ?thesis
    proof (cases "\<exists>cs. v = Inr (True, cs)")
      case True
      then obtain cs where "soak_review env (fold soak_run xs d) = (Inr (True, cs), e)" using Pair by blast
      from review_go [OF r(1) this] show ?thesis using r Pair True by auto
    next
      case False
      then show ?thesis using r Pair by (auto split: sum.split)
    qed
  qed
qed

theorem soak_clock_refines_witness:
  "soak_clock (fold soak_run [(demo_cli, SoakStart None None None), (demo_cli, SoakReview), (demo_cli, SoakStart (Some 1) None None)] demo_store) =
    Some (0, 28)"
  using soak_clock_refines [OF demo_soaks_ok, of "[(demo_cli, SoakStart None None None), (demo_cli, SoakReview), (demo_cli, SoakStart (Some 1) None None)]"
    demo_cli] by (simp add: demo_clock del: clock_step.simps)


end
